(* ===== verification/Prelude.thy ===== *)
theory Prelude
  imports Main "HOL-Library.Word"
begin

text \<open>
  Shared vocabulary of the development: the machine-integer types of the C code, the C and
  POSIX string routines the extension calls (decimal printing, strtol, strtok, inet_pton),
  the FNV-1a step used by both the write deduplication and the cache, and the list lemmas
  every component needs.  PHP integers (zend_long) are modelled as int in the range of a
  signed 64-bit value; a C cast to an unsigned width is word_of_int, a cast to int32_t is
  signed_take_bit 31.
\<close>

unbundle bit_operations_syntax

named_theorems c_string_simps \<open>evaluation and correctness of the C string routines\<close>

type_synonym u8 = "8 word"
type_synonym u16 = "16 word"
type_synonym u32 = "32 word"
type_synonym u64 = "64 word"
type_synonym bytes = "8 word list"

subsection \<open>Lists\<close>

lemma nth_list_update_if:
  "i < length xs \<Longrightarrow> xs[j := x] ! i = (if i = j then x else xs ! i)"
  by (simp add: nth_list_update)

lemma length_filter_list_update:
  assumes "i < length xs"
  shows "length (filter P (xs[i := x])) + (if P (xs ! i) then 1 else 0)
       = length (filter P xs) + (if P x then 1 else (0::nat))"
proof -
  have xs: "xs = take i xs @ xs ! i # drop (Suc i) xs"
    using assms by (simp add: id_take_nth_drop)
  have upd: "xs[i := x] = take i xs @ x # drop (Suc i) xs"
    using assms by (simp add: upd_conv_take_nth_drop)
  have "length (filter P xs) = length (filter P (take i xs @ xs ! i # drop (Suc i) xs))"
    using xs by simp
  then show ?thesis
    unfolding upd by simp
qed

lemma sum_list_list_update:
  fixes f :: "'a \<Rightarrow> nat"
  assumes "i < length xs"
  shows "sum_list (map f (xs[i := x])) + f (xs ! i) = sum_list (map f xs) + f x"
proof -
  have xs: "xs = take i xs @ xs ! i # drop (Suc i) xs"
    using assms by (simp add: id_take_nth_drop)
  have upd: "xs[i := x] = take i xs @ x # drop (Suc i) xs"
    using assms by (simp add: upd_conv_take_nth_drop)
  have "sum_list (map f xs) = sum_list (map f (take i xs @ xs ! i # drop (Suc i) xs))"
    using xs by simp
  then show ?thesis
    unfolding upd by simp
qed

lemma list_all2_nth_imp:
  "list_all P xs \<Longrightarrow> i < length xs \<Longrightarrow> P (xs ! i)"
  by (simp add: list_all_length)

subsection \<open>C strings\<close>

text \<open>strcmp and strlen on a PHP string's buffer stop at the first NUL byte.\<close>

definition cstr :: "string \<Rightarrow> string" where
  "cstr s = takeWhile (\<lambda>c. c \<noteq> CHR 0x00) s"

lemma cstr_id: "CHR 0x00 \<notin> set s \<Longrightarrow> cstr s = s"
  by (induction s) (auto simp: cstr_def)

definition is_digit :: "char \<Rightarrow> bool" where
  "is_digit c \<longleftrightarrow> 48 \<le> (of_char c :: nat) \<and> (of_char c :: nat) \<le> 57"

definition digit_char :: "nat \<Rightarrow> char" where
  "digit_char n = char_of (48 + n)"

definition digit_val :: "char \<Rightarrow> nat" where
  "digit_val c = of_char c - 48"

text \<open>The printf conversion %u of an unsigned value.\<close>

fun show_nat :: "nat \<Rightarrow> string" where
  "show_nat n = (if n < 10 then [digit_char n] else show_nat (n div 10) @ [digit_char (n mod 10)])"

declare show_nat.simps [simp del]

definition dec_val :: "string \<Rightarrow> nat" where
  "dec_val s = foldl (\<lambda>a c. 10 * a + digit_val c) 0 s"

lemma digit_char_props:
  assumes "n < 10"
  shows "is_digit (digit_char n)" and "digit_val (digit_char n) = n"
  using assms by (simp_all add: is_digit_def digit_char_def digit_val_def)

lemma digit_char_eq_0_iff: "n < 10 \<Longrightarrow> digit_char n = CHR ''0'' \<longleftrightarrow> n = 0"
proof -
  assume n: "n < 10"
  have "of_char (digit_char n) = (48 + n :: nat)"
    using n by (simp add: digit_char_def)
  moreover have "of_char (CHR ''0'') = (48::nat)"
    by simp
  moreover have "digit_char n = CHR ''0'' \<longleftrightarrow> of_char (digit_char n) = (of_char CHR ''0'' :: nat)"
    using of_char_eq_iff by blast
  ultimately show ?thesis by simp
qed

lemma show_nat_digits: "c \<in> set (show_nat n) \<Longrightarrow> is_digit c"
proof (induction n rule: show_nat.induct)
  case (1 n)
  show ?case
  proof (cases "n < 10")
    case True
    then show ?thesis
      using 1(2) by (simp add: show_nat.simps [of n] digit_char_props)
  next
    case False
    then show ?thesis
      using 1 by (auto simp: show_nat.simps [of n] digit_char_props)
  qed
qed

lemma show_nat_nonempty [simp]: "show_nat n \<noteq> []"
  by (subst show_nat.simps) simp

lemma dec_val_snoc: "dec_val (s @ [c]) = 10 * dec_val s + digit_val c"
  by (simp add: dec_val_def)

lemma dec_val_show_nat [c_string_simps]: "dec_val (show_nat n) = n"
proof (induction n rule: show_nat.induct)
  case (1 n)
  show ?case
  proof (cases "n < 10")
    case True
    then show ?thesis
      by (simp add: show_nat.simps [of n] dec_val_def digit_char_props)
  next
    case False
    with 1 have "dec_val (show_nat (n div 10)) = n div 10" by simp
    with False show ?thesis
      by (simp add: show_nat.simps [of n] dec_val_snoc digit_char_props)
  qed
qed

lemma show_nat_inject: "show_nat m = show_nat n \<longleftrightarrow> m = n"
  by (metis dec_val_show_nat)

lemma hd_show_nat: "hd (show_nat n) = CHR ''0'' \<longleftrightarrow> n = 0"
proof (induction n rule: show_nat.induct)
  case (1 n)
  show ?case
  proof (cases "n < 10")
    case True
    then show ?thesis
      by (simp add: show_nat.simps [of n] digit_char_eq_0_iff)
  next
    case False
    with 1 have "hd (show_nat (n div 10)) = CHR ''0'' \<longleftrightarrow> n div 10 = 0" by simp
    with False show ?thesis
      by (simp add: show_nat.simps [of n])
  qed
qed

lemma length_show_nat: "length (show_nat n) > 1 \<Longrightarrow> hd (show_nat n) \<noteq> CHR ''0''"
proof -
  assume a: "length (show_nat n) > 1"
  have "n \<noteq> 0"
  proof
    assume "n = 0"
    then have "show_nat n = [digit_char 0]" by (simp add: show_nat.simps)
    with a show False by simp
  qed
  then show ?thesis by (simp add: hd_show_nat)
qed

lemma is_digit_not: "is_digit c \<Longrightarrow> c \<noteq> CHR ''.''" "is_digit c \<Longrightarrow> c \<noteq> CHR ''/''"
  "is_digit c \<Longrightarrow> c \<noteq> CHR ''|''" "is_digit c \<Longrightarrow> c \<noteq> CHR '':''"
  "is_digit c \<Longrightarrow> c \<noteq> CHR '','' " "is_digit c \<Longrightarrow> c \<noteq> CHR '' ''" "is_digit c \<Longrightarrow> c \<noteq> CHR 0x00"
  "is_digit c \<Longrightarrow> c \<noteq> CHR ''-''" "is_digit c \<Longrightarrow> c \<noteq> CHR ''+''"
  by (auto simp: is_digit_def)

lemma show_nat_no_sep:
  "CHR ''.'' \<notin> set (show_nat n)" "CHR ''/'' \<notin> set (show_nat n)" "CHR ''|'' \<notin> set (show_nat n)"
  "CHR '':'' \<notin> set (show_nat n)" "CHR '','' \<notin> set (show_nat n)" "CHR '' '' \<notin> set (show_nat n)"
  "CHR 0x00 \<notin> set (show_nat n)"
  using show_nat_digits is_digit_not by metis+

subsection \<open>strtol, strtok and inet_pton\<close>

definition is_space :: "char \<Rightarrow> bool" where
  "is_space c \<longleftrightarrow> c \<in> {CHR '' '', CHR 0x09, CHR 0x0A, CHR 0x0B, CHR 0x0C, CHR 0x0D}"

definition long_max :: int where "long_max = 2 ^ 63 - 1"
definition long_min :: int where "long_min = - (2 ^ 63)"

text \<open>
  strtol(s, &end, 10): leading white space, an optional sign, digits; the value saturates at
  LONG_MIN and LONG_MAX, and the second component is the text at end (s itself when there
  are no digits).
\<close>

definition strtol10 :: "string \<Rightarrow> int \<times> string" where
  "strtol10 s =
    (let t = dropWhile is_space s;
         neg = (t \<noteq> [] \<and> hd t = CHR ''-'');
         u = (if t \<noteq> [] \<and> (hd t = CHR ''-'' \<or> hd t = CHR ''+'') then tl t else t);
         ds = takeWhile is_digit u;
         v = (if neg then - int (dec_val ds) else int (dec_val ds))
     in if ds = [] then (0, s)
        else (max long_min (min long_max v), dropWhile is_digit u))"

lemma is_digit_not_space: "is_digit c \<Longrightarrow> \<not> is_space c"
  by (auto simp: is_digit_def is_space_def)

lemma strtol10_show_nat [c_string_simps]:
  assumes "int n \<le> long_max"
  shows "strtol10 (show_nat n) = (int n, [])"
proof -
  obtain c cs where ccs: "show_nat n = c # cs"
    by (meson neq_Nil_conv show_nat_nonempty)
  have dig: "\<forall>x \<in> set (c # cs). is_digit x"
    using show_nat_digits [of _ n] ccs by metis
  then have c: "is_digit c" by simp
  have drop: "dropWhile is_space (show_nat n) = c # cs"
    using ccs c by (simp add: is_digit_not_space)
  have tw: "takeWhile is_digit (c # cs) = c # cs"
    using dig by (simp add: takeWhile_eq_all_conv)
  have dw: "dropWhile is_digit (c # cs) = []"
    using dig by (simp add: dropWhile_eq_Nil_conv)
  have "c \<noteq> CHR ''-''" "c \<noteq> CHR ''+''"
    using c is_digit_not by auto
  moreover have "long_min \<le> int n"
    by (simp add: long_min_def)
  moreover have "dec_val (c # cs) = n"
    using ccs dec_val_show_nat [of n] by simp
  ultimately show ?thesis
    using assms unfolding strtol10_def drop
    by (simp add: Let_def tw dw min_def max_def del: takeWhile.simps dropWhile.simps)
qed

text \<open>
  php_strtok_r(s, delims, &save) called until it returns NULL: the maximal runs of
  non-delimiter characters.
\<close>

function strtok_all :: "(char \<Rightarrow> bool) \<Rightarrow> string \<Rightarrow> string list" where
  "strtok_all delim s =
    (let t = dropWhile delim s
     in if t = [] then []
        else takeWhile (\<lambda>c. \<not> delim c) t # strtok_all delim (dropWhile (\<lambda>c. \<not> delim c) t))"
  by pat_completeness auto
termination
proof (relation "measure (\<lambda>(d, s). length s)", goal_cases)
  case 1
  show ?case by simp
next
  case (2 delim s t)
  obtain c cs where t: "t = c # cs"
    using 2(2) by (meson neq_Nil_conv)
  have "\<not> delim c"
    using 2(1) t by (metis dropWhile_eq_Cons_conv)
  moreover have "length t \<le> length s"
    using 2(1) by (simp add: length_dropWhile_le)
  moreover have "length (dropWhile (\<lambda>c. \<not> delim c) cs) \<le> length cs"
    by (rule length_dropWhile_le)
  ultimately show ?case
    using t by simp
qed

declare strtok_all.simps [simp del]

lemma strtok_all_Nil [simp]: "strtok_all d [] = []"
  by (simp add: strtok_all.simps)

lemma strtok_all_token:
  assumes "t \<noteq> []" and "\<forall>c \<in> set t. \<not> d c" and "d x"
  shows "strtok_all d (t @ x # rest) = t # strtok_all d rest"
proof -
  obtain c cs where t: "t = c # cs" using assms(1) by (cases t) auto
  have "\<not> d c" using assms(2) t by simp
  then have drop: "dropWhile d (t @ x # rest) = t @ x # rest"
    using t by simp
  have tw: "takeWhile (\<lambda>c. \<not> d c) (t @ x # rest) = t"
    using assms(2,3) by (simp add: takeWhile_append2)
  have dw: "dropWhile (\<lambda>c. \<not> d c) (t @ x # rest) = x # rest"
    using assms(2,3) by (simp add: dropWhile_append2)
  have "strtok_all d (t @ x # rest) = t # strtok_all d (x # rest)"
    by (subst strtok_all.simps) (simp add: drop tw dw assms(1))
  also have "strtok_all d (x # rest) = strtok_all d rest"
    by (simp add: strtok_all.simps [of d "x # rest"] strtok_all.simps [of d rest] assms(3))
  finally show ?thesis .
qed

lemma strtok_all_last:
  assumes "t \<noteq> []" and "\<forall>c \<in> set t. \<not> d c"
  shows "strtok_all d t = [t]"
proof -
  obtain c cs where t: "t = c # cs" using assms(1) by (cases t) auto
  have "\<not> d c" using assms(2) t by simp
  then have drop: "dropWhile d t = t" using t by simp
  have tw: "takeWhile (\<lambda>c. \<not> d c) t = t"
    using assms(2) by (simp add: takeWhile_eq_all_conv)
  have dw: "dropWhile (\<lambda>c. \<not> d c) t = []"
    using assms(2) by (simp add: dropWhile_eq_Nil_conv)
  show ?thesis
    by (subst strtok_all.simps) (simp add: drop tw dw assms(1))
qed

fun split_dots :: "string \<Rightarrow> string list" where
  "split_dots [] = [[]]"
| "split_dots (c # cs) =
     (if c = CHR ''.'' then [] # split_dots cs
      else (case split_dots cs of [] \<Rightarrow> [[c]] | p # ps \<Rightarrow> (c # p) # ps))"

lemma split_dots_plain: "CHR ''.'' \<notin> set p \<Longrightarrow> split_dots p = [p]"
  by (induction p) auto

lemma split_dots_append:
  "CHR ''.'' \<notin> set p \<Longrightarrow> split_dots (p @ CHR ''.'' # rest) = p # split_dots rest"
  by (induction p) auto

text \<open>One octet of inet_pton(AF_INET): digits, no leading zero, at most 255.\<close>

definition octet_of :: "string \<Rightarrow> nat option" where
  "octet_of s =
    (if s \<noteq> [] \<and> list_all is_digit s \<and> (length s > 1 \<longrightarrow> hd s \<noteq> CHR ''0'') \<and> dec_val s \<le> 255
     then Some (dec_val s) else None)"

definition ip_of_octets :: "nat \<Rightarrow> nat \<Rightarrow> nat \<Rightarrow> nat \<Rightarrow> u32" where
  "ip_of_octets a b c d = of_nat (16777216 * a + 65536 * b + 256 * c + d)"

text \<open>inet_pton(AF_INET, s, &addr) followed by ntohl(addr.s_addr).\<close>

definition inet_pton4 :: "string \<Rightarrow> u32 option" where
  "inet_pton4 s =
    (case split_dots s of
       [a, b, c, d] \<Rightarrow>
         (case (octet_of a, octet_of b, octet_of c, octet_of d) of
            (Some w, Some x, Some y, Some z) \<Rightarrow> Some (ip_of_octets w x y z)
          | _ \<Rightarrow> None)
     | _ \<Rightarrow> None)"

lemma octet_of_show_nat [c_string_simps]: "n \<le> 255 \<Longrightarrow> octet_of (show_nat n) = Some n"
  using length_show_nat [of n] show_nat_digits [of _ n]
  by (auto simp: octet_of_def dec_val_show_nat list_all_iff)

subsection \<open>FNV-1a\<close>

definition fnv1a_step :: "u64 \<Rightarrow> u8 \<Rightarrow> u64" where
  "fnv1a_step h b = (h XOR ucast b) * 1099511628211"

definition fnv1a_basis :: u64 where
  "fnv1a_basis = 1469598103934665603"

end
