(* ===== verification/Address.thy ===== *)
theory Address
  imports Prelude
begin

text \<open>
  Addresses: the part of BACNET_ADDRESS the extension uses, its conversions from and to a
  dotted IPv4 string and a port (php_bacnet_address_from_ipport and _to_ipport of
  src/bacnet_client.c), and the 32-bit source address of src/bacnet_security.c.  The list mac
  holds the bytes mac[0] to mac[mac_len - 1]; its length is mac_len.
\<close>

record bacnet_address =
  mac :: bytes
  net :: u16

definition PHP_BACNET_IP_ADDRESS_LENGTH :: nat where
  "PHP_BACNET_IP_ADDRESS_LENGTH = 16"

text \<open>snprintf into a buffer: at most size - 1 characters are kept.\<close>

definition snprintf_trunc :: "nat \<Rightarrow> string \<Rightarrow> string" where
  "snprintf_trunc sz s = take (sz - 1) s"

definition dotted :: "nat \<Rightarrow> nat \<Rightarrow> nat \<Rightarrow> nat \<Rightarrow> string" where
  "dotted a b c d =
    show_nat a @ CHR ''.'' # show_nat b @ CHR ''.'' # show_nat c @ CHR ''.'' # show_nat d"

text \<open>
  inet_pton leaves the address in network byte order, so its bytes, from the lowest of the
  32-bit value on a little endian machine, are the octets from left to right.
\<close>

definition php_bacnet_address_from_ipport :: "string \<Rightarrow> u16 \<Rightarrow> bacnet_address" where
  "php_bacnet_address_from_ipport ip port =
    (case inet_pton4 (cstr ip) of
       Some ia \<Rightarrow>
         \<lparr>mac = [ucast (drop_bit 24 ia), ucast (drop_bit 16 ia AND 0xFF),
                 ucast (drop_bit 8 ia AND 0xFF), ucast (ia AND 0xFF),
                 ucast (drop_bit 8 port AND 0xFF), ucast (port AND 0xFF)],
          net = 0\<rparr>
     | None \<Rightarrow> \<lparr>mac = [], net = 0\<rparr>)"

definition php_bacnet_address_to_ipport :: "bacnet_address \<Rightarrow> nat \<Rightarrow> string \<times> u16" where
  "php_bacnet_address_to_ipport addr ipbuflen =
    (if length (mac addr) \<ge> 6
     then (snprintf_trunc ipbuflen
             (dotted (unat (mac addr ! 0)) (unat (mac addr ! 1))
                     (unat (mac addr ! 2)) (unat (mac addr ! 3))),
           push_bit 8 (ucast (mac addr ! 4)) OR ucast (mac addr ! 5))
     else (snprintf_trunc ipbuflen ''0.0.0.0'', 0))"

definition php_bacnet_security_source_ip :: "bacnet_address \<Rightarrow> u32" where
  "php_bacnet_security_source_ip source =
    (if length (mac source) < 4 then 0
     else push_bit 24 (ucast (mac source ! 0)) OR push_bit 16 (ucast (mac source ! 1))
          OR push_bit 8 (ucast (mac source ! 2)) OR ucast (mac source ! 3))"

definition php_bacnet_security_ip_string :: "u32 \<Rightarrow> string" where
  "php_bacnet_security_ip_string ip =
    snprintf_trunc PHP_BACNET_IP_ADDRESS_LENGTH
      (dotted (unat (drop_bit 24 ip)) (unat (drop_bit 16 ip AND 255))
              (unat (drop_bit 8 ip AND 255)) (unat (ip AND 255)))"

subsection \<open>Octets\<close>

lemma length_show_nat_octet: "n \<le> 255 \<Longrightarrow> length (show_nat n) \<le> 3"
proof -
  assume n: "n \<le> 255"
  have "n div 10 div 10 < 10" using n by simp
  then have 1: "length (show_nat (n div 10 div 10)) = 1" by (simp add: show_nat.simps)
  have 2: "length (show_nat (n div 10)) \<le> 2"
    using 1 by (subst show_nat.simps) auto
  show ?thesis
    using 2 by (subst show_nat.simps) auto
qed

lemma length_dotted:
  "a \<le> 255 \<Longrightarrow> b \<le> 255 \<Longrightarrow> c \<le> 255 \<Longrightarrow> d \<le> 255 \<Longrightarrow> length (dotted a b c d) \<le> 15"
  using length_show_nat_octet [of a] length_show_nat_octet [of b]
    length_show_nat_octet [of c] length_show_nat_octet [of d]
  by (simp add: dotted_def)

lemma split_dots_dotted: "split_dots (dotted a b c d) = [show_nat a, show_nat b, show_nat c, show_nat d]"
  by (simp add: dotted_def split_dots_append split_dots_plain show_nat_no_sep)

lemma inet_pton4_dotted:
  assumes "a \<le> 255" "b \<le> 255" "c \<le> 255" "d \<le> 255"
  shows "inet_pton4 (dotted a b c d) = Some (ip_of_octets a b c d)"
  using assms by (simp add: inet_pton4_def split_dots_dotted octet_of_show_nat)

text \<open>A digit string without a leading zero is the decimal form of its value.\<close>

lemma show_nat_dec_val:
  assumes "s \<noteq> []" and "list_all is_digit s" and "length s > 1 \<longrightarrow> hd s \<noteq> CHR ''0''"
  shows "show_nat (dec_val s) = s"
  using assms
proof (induction s rule: rev_induct)
  case Nil
  then show ?case by simp
next
  case (snoc c s)
  have c: "digit_val c < 10" "digit_char (digit_val c) = c"
    using snoc.prems by (auto simp: is_digit_def digit_val_def digit_char_def)
  show ?case
  proof (cases "s = []")
    case True
    then show ?thesis
      using c by (simp add: dec_val_def show_nat.simps)
  next
    case False
    have "hd s \<noteq> CHR ''0''"
      using snoc.prems False by (simp add: hd_append)
    then have IH: "show_nat (dec_val s) = s"
      using snoc False by simp
    have "dec_val s \<noteq> 0"
      using IH \<open>hd s \<noteq> CHR ''0''\<close> hd_show_nat [of "dec_val s"] by simp
    then have "\<not> 10 * dec_val s + digit_val c < 10" by simp
    then show ?thesis
      using c IH by (subst show_nat.simps) (simp add: dec_val_snoc)
  qed
qed

lemma octet_of_Some: "octet_of s = Some n \<Longrightarrow> s = show_nat n \<and> n \<le> 255"
  by (auto simp: octet_of_def show_nat_dec_val split: if_splits)

fun join_dots :: "string list \<Rightarrow> string" where
  "join_dots [] = []"
| "join_dots [s] = s"
| "join_dots (s # t # ss) = s @ CHR ''.'' # join_dots (t # ss)"

lemma split_dots_nonempty [simp]: "split_dots s \<noteq> []"
  by (cases s) (auto split: list.splits)

lemma join_split_dots: "join_dots (split_dots s) = s"
proof (induction s)
  case (Cons c s)
  then show ?case
    by (cases "split_dots s"; cases "tl (split_dots s)") auto
qed simp

lemma inet_pton4_Some:
  assumes "inet_pton4 s = Some ip"
  obtains a b c d where "a \<le> 255" "b \<le> 255" "c \<le> 255" "d \<le> 255"
    "s = dotted a b c d" "ip = ip_of_octets a b c d"
proof -
  from assms obtain w x y z a b c d
    where sp: "split_dots s = [w, x, y, z]"
      and o: "octet_of w = Some a" "octet_of x = Some b" "octet_of y = Some c" "octet_of z = Some d"
      and ip: "ip = ip_of_octets a b c d"
    by (auto simp: inet_pton4_def split: list.splits option.splits)
  have "s = join_dots [w, x, y, z]"
    using join_split_dots [of s] sp by simp
  then have "s = dotted a b c d"
    using o [THEN octet_of_Some] by (simp add: dotted_def)
  then show thesis
    using that o [THEN octet_of_Some] ip by blast
qed

subsection \<open>Words\<close>

lemma unat_ip_of_octets:
  assumes "a \<le> 255" "b \<le> 255" "c \<le> 255" "d \<le> 255"
  shows "unat (ip_of_octets a b c d) = ((a * 256 + b) * 256 + c) * 256 + d"
proof -
  have "16777216 * a + 65536 * b + 256 * c + d < 2 ^ LENGTH(32)"
    using assms by simp
  then show ?thesis
    unfolding ip_of_octets_def unsigned_of_nat by (simp add: take_bit_nat_eq_self)
qed

lemma unat_drop_bit_word: "unat (drop_bit k (w::'a::len word)) = unat w div 2 ^ k"
  unfolding unat_drop_bit_eq by (rule drop_bit_eq_div)

lemma unat_and_255: "unat ((w::u32) AND 255) = unat w mod 256"
proof -
  have "w AND 255 = take_bit 8 w"
    by (simp add: take_bit_eq_mask mask_eq_exp_minus_1)
  also have "unat (take_bit 8 w) = unat w mod 2 ^ 8"
    unfolding unsigned_take_bit_eq by (rule take_bit_eq_mod)
  finally show ?thesis by simp
qed

lemma div_mod_256: "d \<le> 255 \<Longrightarrow> (x * 256 + d) div 256 = x" "d \<le> 255 \<Longrightarrow> (x * 256 + d) mod 256 = (d::nat)"
  by simp_all

lemma div_256_256:
  "(n::nat) div 65536 = n div 256 div 256" "n div 16777216 = n div 256 div 256 div 256"
  by (simp_all add: div_mult2_eq [symmetric])

lemma octets_of_ip:
  assumes "a \<le> 255" "b \<le> 255" "c \<le> 255" "d \<le> 255"
  shows "unat (drop_bit 24 (ip_of_octets a b c d)) = a"
    and "unat (drop_bit 16 (ip_of_octets a b c d) AND 255) = b"
    and "unat (drop_bit 8 (ip_of_octets a b c d) AND 255) = c"
    and "unat (ip_of_octets a b c d AND 255) = d"
  using assms
  by (simp_all add: unat_and_255 unat_drop_bit_word unat_ip_of_octets div_256_256 div_mod_256
      del: distrib_right_numeral)

lemma octet_le:
  "unat (drop_bit 24 (ip::u32)) \<le> 255" "unat (drop_bit 16 ip AND 255) \<le> 255"
  "unat (drop_bit 8 ip AND 255) \<le> 255" "unat (ip AND 255) \<le> 255"
proof -
  have "unat ip < 2 ^ LENGTH(32)" by (rule unsigned_less)
  then show "unat (drop_bit 24 ip) \<le> 255"
    by (simp add: unat_drop_bit_word)
  show "unat (drop_bit 16 ip AND 255) \<le> 255"
    "unat (drop_bit 8 ip AND 255) \<le> 255" "unat (ip AND 255) \<le> 255"
    unfolding unat_and_255 by (simp_all add: less_Suc_eq_le [symmetric])
qed

lemma ip_of_octets_of_ip:
  "ip_of_octets (unat (drop_bit 24 ip)) (unat (drop_bit 16 ip AND 255))
     (unat (drop_bit 8 ip AND 255)) (unat (ip AND 255)) = ip"
  by (rule word_unat_eq_iff [THEN iffD2], subst unat_ip_of_octets [OF octet_le])
     (simp add: unat_and_255 unat_drop_bit_word div_256_256)

text \<open>Source addresses as numbers.\<close>

lemma or_disjoint_add: "(a :: u32) AND b = 0 \<Longrightarrow> a OR b = a + b"
  by (simp add: disjunctive_add_eq_or)

lemma bit_ucast_u8: "bit (ucast (x::u8) :: u32) n \<Longrightarrow> n < 8"
  using bit_imp_le_length [of x n] by (auto simp: bit_ucast_iff)

lemma source_ip_bytes:
  fixes a b c d :: u8
  shows "push_bit 24 (ucast a) OR push_bit 16 (ucast b) OR push_bit 8 (ucast c) OR ucast d
    = ip_of_octets (unat a) (unat b) (unat c) (unat d)"
proof -
  define A where "A = (push_bit 24 (ucast a) :: u32)"
  define B where "B = (push_bit 16 (ucast b) :: u32)"
  define C where "C = (push_bit 8 (ucast c) :: u32)"
  define D where "D = (ucast d :: u32)"
  note defs = A_def B_def C_def D_def
  have *: "(A AND B = 0)" "(A OR B) AND C = 0" "((A OR B) OR C) AND D = 0"
    by (rule bit_word_eqI; auto simp: defs bit_simps dest!: bit_ucast_u8 bit_imp_le_length)+
  have "A OR B OR C OR D = ((A OR B) OR C) OR D"
    by (simp only: or.assoc)
  also have "\<dots> = A + B + C + D"
    using * [THEN or_disjoint_add] by simp
  finally have "A OR B OR C OR D = A + B + C + D" .
  then show ?thesis
    by (simp add: defs ip_of_octets_def push_bit_eq_mult unsigned_ucast_eq mult.commute)
qed

subsection \<open>Conversions\<close>

lemma snprintf_dotted:
  "16 \<le> n \<Longrightarrow> a \<le> 255 \<Longrightarrow> b \<le> 255 \<Longrightarrow> c \<le> 255 \<Longrightarrow> d \<le> 255 \<Longrightarrow>
   snprintf_trunc n (dotted a b c d) = dotted a b c d"
  using length_dotted [of a b c d] by (simp add: snprintf_trunc_def)

lemma dotted_no_nul: "CHR 0x00 \<notin> set (dotted a b c d)"
  by (simp add: dotted_def show_nat_no_sep)

lemma dotted_plain:
  "CHR '','' \<notin> set (dotted a b c d)" "CHR '' '' \<notin> set (dotted a b c d)"
  "CHR ''/'' \<notin> set (dotted a b c d)" "dotted a b c d \<noteq> []"
  by (simp_all add: dotted_def show_nat_no_sep)

lemma ip_string_dotted:
  "php_bacnet_security_ip_string ip =
     dotted (unat (drop_bit 24 ip)) (unat (drop_bit 16 ip AND 255))
            (unat (drop_bit 8 ip AND 255)) (unat (ip AND 255))"
  unfolding php_bacnet_security_ip_string_def PHP_BACNET_IP_ADDRESS_LENGTH_def
  by (rule snprintf_dotted) (simp_all add: octet_le)

lemma inet_pton4_ip_string: "inet_pton4 (php_bacnet_security_ip_string ip) = Some ip"
  unfolding ip_string_dotted
  by (subst inet_pton4_dotted [OF octet_le]) (simp only: ip_of_octets_of_ip)

lemma ip_string_inet_pton4:
  assumes "inet_pton4 s = Some ip"
  shows "php_bacnet_security_ip_string ip = s"
proof -
  from assms obtain a b c d where *: "a \<le> 255" "b \<le> 255" "c \<le> 255" "d \<le> 255"
    "s = dotted a b c d" "ip = ip_of_octets a b c d"
    by (rule inet_pton4_Some)
  show ?thesis
    unfolding ip_string_dotted *(6) octets_of_ip [OF *(1-4)] by (simp add: *(5))
qed

lemma u8_split: "push_bit 8 (ucast (ucast (drop_bit 8 (p::u16) AND 0xFF) :: u8)) OR
    ucast (ucast (p AND 0xFF) :: u8) = p"
proof -
  have m: "(p AND 0xFF) = take_bit 8 p" "(drop_bit 8 p AND 0xFF) = take_bit 8 (drop_bit 8 p)"
    by (simp_all add: take_bit_eq_mask mask_eq_exp_minus_1)
  show ?thesis
    unfolding m by (rule bit_word_eqI) (auto simp: bit_simps)
qed

lemma unat_ucast_octet: "unat (ucast (w AND 255 :: u32) :: u8) = unat (w AND 255)"
  "unat (ucast (drop_bit 24 (w::u32)) :: u8) = unat (drop_bit 24 w)"
proof -
  have "unat (drop_bit 24 w) < 2 ^ LENGTH(8)" "unat (w AND 255) < 2 ^ LENGTH(8)"
    using octet_le [of w] by simp_all
  then show "unat (ucast (w AND 255) :: u8) = unat (w AND 255)"
    "unat (ucast (drop_bit 24 w) :: u8) = unat (drop_bit 24 w)"
    unfolding unsigned_ucast_eq by (simp_all only: take_bit_nat_eq_self)
qed

lemma from_ipport_mac:
  assumes "inet_pton4 s = Some ip"
  shows "length (mac (php_bacnet_address_from_ipport s port)) = 6"
    and "map unat (take 4 (mac (php_bacnet_address_from_ipport s port)))
       = [unat (drop_bit 24 ip), unat (drop_bit 16 ip AND 255), unat (drop_bit 8 ip AND 255),
          unat (ip AND 255)]"
proof -
  have "cstr s = s"
    using assms by (metis cstr_id dotted_no_nul ip_string_dotted ip_string_inet_pton4)
  then show "length (mac (php_bacnet_address_from_ipport s port)) = 6"
    and "map unat (take 4 (mac (php_bacnet_address_from_ipport s port)))
       = [unat (drop_bit 24 ip), unat (drop_bit 16 ip AND 255), unat (drop_bit 8 ip AND 255),
          unat (ip AND 255)]"
    using assms by (simp_all add: php_bacnet_address_from_ipport_def unat_ucast_octet)
qed

lemma to_from_ipport:
  assumes "inet_pton4 s = Some ip" and "16 \<le> n"
  shows "php_bacnet_address_to_ipport (php_bacnet_address_from_ipport s port) n = (s, port)"
proof -
  have cs: "cstr s = s"
    using assms by (metis cstr_id dotted_no_nul ip_string_dotted ip_string_inet_pton4)
  have s: "dotted (unat (drop_bit 24 ip)) (unat (drop_bit 16 ip AND 255))
      (unat (drop_bit 8 ip AND 255)) (unat (ip AND 255)) = s"
    using ip_string_inet_pton4 [OF assms(1)] by (simp only: ip_string_dotted)
  have "snprintf_trunc n s = s"
    by (subst (1 2) s [symmetric], rule snprintf_dotted [OF assms(2) octet_le])
  then show ?thesis
    unfolding php_bacnet_address_to_ipport_def php_bacnet_address_from_ipport_def cs assms(1)
    by (simp add: unat_ucast_octet s u8_split)
qed

lemma source_ip_from_ipport:
  assumes "inet_pton4 s = Some ip"
  shows "php_bacnet_security_source_ip (php_bacnet_address_from_ipport s port) = ip"
proof -
  have cs: "cstr s = s"
    using assms by (metis cstr_id dotted_no_nul ip_string_dotted ip_string_inet_pton4)
  show ?thesis
    unfolding php_bacnet_security_source_ip_def php_bacnet_address_from_ipport_def cs assms(1)
    by (simp add: source_ip_bytes unat_ucast_octet ip_of_octets_of_ip)
qed

end
