(* ===== verification/Security_Acl.thy ===== *)
theory Security_Acl
  imports Address
begin

text \<open>
  The access lists of src/bacnet_security.c: parsing of IPv4 networks in CIDR notation and of
  lists of them, and the membership test of a source address.  The lemmas show that a
  network printed in the usual form parses to the network it denotes, that membership means
  agreement on the prefix bits, and that a list parses element by element.
\<close>

record security_cidr =
  network :: u32
  mask_of :: u32

definition SECURITY_MAX_CIDRS :: nat where
  "SECURITY_MAX_CIDRS = 128"

definition UINT32_MAX :: u32 where
  "UINT32_MAX = - 1"

text \<open>strchr(copy, '/') and the NUL stored over the slash.\<close>

definition split_slash :: "string \<Rightarrow> string \<times> string option" where
  "split_slash s =
    (let r = dropWhile (\<lambda>c. c \<noteq> CHR ''/'') s
     in (takeWhile (\<lambda>c. c \<noteq> CHR ''/'') s, if r = [] then None else Some (tl r)))"

definition cidr_mask :: "int \<Rightarrow> u32" where
  "cidr_mask prefix = (if prefix = 0 then 0 else push_bit (nat (32 - prefix)) UINT32_MAX)"

definition parse_prefix :: "string option \<Rightarrow> int option" where
  "parse_prefix slash =
    (case slash of
       None \<Rightarrow> Some 32
     | Some s \<Rightarrow>
         (let (prefix, rest) = strtol10 s
          in if s = [] \<or> rest \<noteq> [] \<or> prefix < 0 \<or> prefix > 32 then None else Some prefix))"

definition php_bacnet_security_parse_cidr :: "string \<Rightarrow> security_cidr option" where
  "php_bacnet_security_parse_cidr v =
    (let len = length v
     in if len = 0 \<or> len \<ge> 64 then None
        else let (copy, slash) = split_slash v
             in case parse_prefix slash of
                  None \<Rightarrow> None
                | Some prefix \<Rightarrow>
                    (case inet_pton4 copy of
                       None \<Rightarrow> None
                     | Some ip \<Rightarrow>
                         Some \<lparr>network = ip AND cidr_mask prefix, mask_of = cidr_mask prefix\<rparr>))"

definition is_list_sep :: "char \<Rightarrow> bool" where
  "is_list_sep c \<longleftrightarrow> c = CHR '','' \<or> c = CHR '' ''"

text \<open>
  The loop over the tokens.  out is the array filled so far, its length the count; Inl is the
  item named in the ValueError.
\<close>

fun parse_cidr_items :: "string list \<Rightarrow> security_cidr list \<Rightarrow> string + security_cidr list" where
  "parse_cidr_items [] out = Inr out"
| "parse_cidr_items (item # items) out =
     (if length out \<ge> SECURITY_MAX_CIDRS then Inl item
      else case php_bacnet_security_parse_cidr item of
             None \<Rightarrow> Inl item
           | Some c \<Rightarrow> parse_cidr_items items (out @ [c]))"

definition php_bacnet_security_parse_cidr_list :: "string \<Rightarrow> string + security_cidr list" where
  "php_bacnet_security_parse_cidr_list l =
    (if l = [] then Inr [] else parse_cidr_items (strtok_all is_list_sep l) [])"

fun php_bacnet_security_match :: "u32 \<Rightarrow> security_cidr list \<Rightarrow> bool" where
  "php_bacnet_security_match ip [] = False"
| "php_bacnet_security_match ip (c # cs) =
     (if ip AND mask_of c = network c then True else php_bacnet_security_match ip cs)"

subsection \<open>Masks\<close>

lemma bit_cidr_mask:
  "0 \<le> p \<Longrightarrow> p \<le> 32 \<Longrightarrow> i < 32 \<Longrightarrow> bit (cidr_mask p) i \<longleftrightarrow> nat (32 - p) \<le> i"
  by (auto simp: cidr_mask_def UINT32_MAX_def bit_simps)

lemma masked_eq_iff:
  assumes "0 \<le> p" "p \<le> 32"
  shows "ip AND cidr_mask p = base AND cidr_mask p \<longleftrightarrow>
    (\<forall>i < 32. nat (32 - p) \<le> i \<longrightarrow> bit ip i = bit base i)"
proof
  assume eq: "ip AND cidr_mask p = base AND cidr_mask p"
  show "\<forall>i < 32. nat (32 - p) \<le> i \<longrightarrow> bit ip i = bit base i"
  proof (intro allI impI)
    fix i :: nat
    assume i: "i < 32" "nat (32 - p) \<le> i"
    have "bit (ip AND cidr_mask p) i = bit (base AND cidr_mask p) i"
      by (simp only: eq)
    then show "bit ip i = bit base i"
      using i assms by (simp only: bit_and_iff bit_cidr_mask simp_thms)
  qed
next
  assume "\<forall>i < 32. nat (32 - p) \<le> i \<longrightarrow> bit ip i = bit base i"
  then show "ip AND cidr_mask p = base AND cidr_mask p"
    using assms by (intro bit_word_eqI) (auto simp: bit_and_iff bit_cidr_mask)
qed

lemma masked_drop_bit:
  assumes "0 \<le> p" "p \<le> 32"
  shows "ip AND cidr_mask p = base AND cidr_mask p \<longleftrightarrow>
    drop_bit (nat (32 - p)) ip = drop_bit (nat (32 - p)) base"
  unfolding masked_eq_iff [OF assms]
proof
  assume *: "\<forall>i < 32. nat (32 - p) \<le> i \<longrightarrow> bit ip i = bit base i"
  show "drop_bit (nat (32 - p)) ip = drop_bit (nat (32 - p)) base"
  proof (rule bit_word_eqI)
    fix n assume "n < LENGTH(32)"
    show "bit (drop_bit (nat (32 - p)) ip) n = bit (drop_bit (nat (32 - p)) base) n"
      using * [rule_format, of "nat (32 - p) + n"] bit_imp_le_length [of ip] bit_imp_le_length [of base]
      by (auto simp: bit_drop_bit_eq)
  qed
next
  assume *: "drop_bit (nat (32 - p)) ip = drop_bit (nat (32 - p)) base"
  show "\<forall>i < 32. nat (32 - p) \<le> i \<longrightarrow> bit ip i = bit base i"
  proof (intro allI impI)
    fix i assume "i < 32" "nat (32 - p) \<le> i"
    have "bit (drop_bit (nat (32 - p)) ip) (i - nat (32 - p))
        = bit (drop_bit (nat (32 - p)) base) (i - nat (32 - p))"
      using * by simp
    then show "bit ip i = bit base i"
      using \<open>nat (32 - p) \<le> i\<close> by (simp add: bit_drop_bit_eq)
  qed
qed

subsection \<open>Parsing\<close>

lemma split_slash_none: "CHR ''/'' \<notin> set s \<Longrightarrow> split_slash s = (s, None)"
  by (simp add: split_slash_def takeWhile_eq_all_conv dropWhile_eq_Nil_conv)

lemma split_slash_some:
  "CHR ''/'' \<notin> set s \<Longrightarrow> split_slash (s @ CHR ''/'' # t) = (s, Some t)"
  by (induction s) (auto simp: split_slash_def)

lemma parse_prefix_show: "parse_prefix (Some (show_nat n)) = (if n \<le> 32 then Some (int n) else None)"
  if "int n \<le> long_max"
  using that by (simp add: parse_prefix_def strtol10_show_nat)

definition cidr_string :: "u32 \<Rightarrow> nat \<Rightarrow> string" where
  "cidr_string ip p = php_bacnet_security_ip_string ip @ CHR ''/'' # show_nat p"

lemma length_ip_string: "length (php_bacnet_security_ip_string ip) \<le> 15"
  unfolding ip_string_dotted by (rule length_dotted) (rule octet_le)+

lemma ip_string_plain:
  "CHR '','' \<notin> set (php_bacnet_security_ip_string ip)"
  "CHR '' '' \<notin> set (php_bacnet_security_ip_string ip)"
  "CHR ''/'' \<notin> set (php_bacnet_security_ip_string ip)"
  "php_bacnet_security_ip_string ip \<noteq> []"
  unfolding ip_string_dotted by (rule dotted_plain)+

lemma length_show_nat_le: "n \<le> 255 \<Longrightarrow> length (show_nat n) \<le> 3"
  by (rule length_show_nat_octet)

lemma parse_cidr_string:
  assumes "p \<le> 255"
  shows "php_bacnet_security_parse_cidr (cidr_string ip p) =
    (if p \<le> 32 then Some \<lparr>network = ip AND cidr_mask (int p), mask_of = cidr_mask (int p)\<rparr> else None)"
  using length_ip_string [of ip] length_show_nat_le [OF assms] assms
  by (simp add: php_bacnet_security_parse_cidr_def cidr_string_def split_slash_some ip_string_plain
      parse_prefix_show long_max_def inet_pton4_ip_string)

lemma parse_cidr_plain:
  "php_bacnet_security_parse_cidr (php_bacnet_security_ip_string ip) =
     Some \<lparr>network = ip AND cidr_mask 32, mask_of = cidr_mask 32\<rparr>"
  using length_ip_string [of ip]
  by (simp add: php_bacnet_security_parse_cidr_def split_slash_none ip_string_plain
      parse_prefix_def inet_pton4_ip_string)

text \<open>Every accepted text is one of a valid address and a prefix length of 0 to 32.\<close>

lemma parse_cidr_Some:
  assumes "php_bacnet_security_parse_cidr v = Some c"
  obtains ip p where "0 \<le> p" "p \<le> 32" "mask_of c = cidr_mask p" "network c = ip AND cidr_mask p"
    "inet_pton4 (takeWhile (\<lambda>c. c \<noteq> CHR ''/'') v) = Some ip"
proof -
  from assms obtain p ip where *: "parse_prefix (snd (split_slash v)) = Some p"
    "inet_pton4 (fst (split_slash v)) = Some ip"
    "c = \<lparr>network = ip AND cidr_mask p, mask_of = cidr_mask p\<rparr>"
    by (auto simp: php_bacnet_security_parse_cidr_def Let_def split: prod.splits option.splits if_splits)
  have "0 \<le> p \<and> p \<le> 32"
    using *(1) by (auto simp: parse_prefix_def split: option.splits prod.splits if_splits)
  with * show thesis
    by (intro that [of p ip]) (auto simp: split_slash_def Let_def)
qed

text \<open>Networks are kept in normal form: no bit of the network is outside the mask.\<close>

definition cidr_wf :: "security_cidr \<Rightarrow> bool" where
  "cidr_wf c \<longleftrightarrow> network c AND mask_of c = network c"

lemma parse_cidr_wf: "php_bacnet_security_parse_cidr v = Some c \<Longrightarrow> cidr_wf c"
  by (erule parse_cidr_Some) (simp add: cidr_wf_def and.assoc)

lemma parse_cidr_items_Inr:
  "parse_cidr_items items out = Inr cs \<longleftrightarrow>
     length out + length items \<le> max SECURITY_MAX_CIDRS (length out) \<and>
     (\<exists>ds. map php_bacnet_security_parse_cidr items = map Some ds \<and> cs = out @ ds)"
proof (induction items arbitrary: out)
  case Nil
  then show ?case by auto
next
  case (Cons i items)
  show ?case
  proof (cases "length out \<ge> SECURITY_MAX_CIDRS")
    case True
    then show ?thesis by simp
  next
    case False
    show ?thesis
    proof (cases "php_bacnet_security_parse_cidr i")
      case None
      then show ?thesis using False by (auto simp: map_eq_Cons_conv)
    next
      case (Some c)
      then show ?thesis
        using False Cons.IH [of "out @ [c]"] by (auto simp: Cons_eq_map_conv)
    qed
  qed
qed

lemma parse_cidr_list_length:
  "php_bacnet_security_parse_cidr_list l = Inr cs \<Longrightarrow> length cs \<le> SECURITY_MAX_CIDRS"
  by (auto simp: php_bacnet_security_parse_cidr_list_def parse_cidr_items_Inr split: if_splits
      dest: arg_cong [where f = length])

lemma match_iff:
  "php_bacnet_security_match ip cs \<longleftrightarrow> (\<exists>c \<in> set cs. ip AND mask_of c = network c)"
  by (induction cs) auto

lemma match_append:
  "php_bacnet_security_match ip (cs @ ds) =
     (php_bacnet_security_match ip cs \<or> php_bacnet_security_match ip ds)"
  by (auto simp: match_iff)

subsection \<open>Lists\<close>

text \<open>The text network_array builds from a PHP array of strings.\<close>

fun join_comma :: "string list \<Rightarrow> string" where
  "join_comma [] = []"
| "join_comma [s] = s"
| "join_comma (s # t # ss) = s @ CHR '','' # join_comma (t # ss)"

lemma strtok_join_comma:
  assumes "\<forall>t \<in> set ts. t \<noteq> [] \<and> (\<forall>c \<in> set t. \<not> is_list_sep c)"
  shows "strtok_all is_list_sep (join_comma ts) = ts"
  using assms
proof (induction ts rule: join_comma.induct)
  case (2 s)
  then show ?case by (simp add: strtok_all_last)
next
  case (3 s t ss)
  then show ?case
    by (simp add: strtok_all_token is_list_sep_def)
qed simp

lemma cidr_string_token:
  "cidr_string ip p \<noteq> [] \<and> (\<forall>c \<in> set (cidr_string ip p). \<not> is_list_sep c)"
  using ip_string_plain [of ip] show_nat_no_sep [of p]
  by (auto simp: cidr_string_def is_list_sep_def)

lemma parse_cidr_list_strings:
  assumes "\<forall>(ip, p) \<in> set nets. p \<le> 32" and "length nets \<le> SECURITY_MAX_CIDRS"
  shows "php_bacnet_security_parse_cidr_list (join_comma (map (\<lambda>(ip, p). cidr_string ip p) nets))
    = Inr (map (\<lambda>(ip, p). \<lparr>network = ip AND cidr_mask (int p), mask_of = cidr_mask (int p)\<rparr>) nets)"
proof -
  let ?ts = "map (\<lambda>(ip, p). cidr_string ip p) nets"
  let ?cs = "map (\<lambda>(ip, p). \<lparr>network = ip AND cidr_mask (int p), mask_of = cidr_mask (int p)\<rparr>) nets"
  have toks: "strtok_all is_list_sep (join_comma ?ts) = ?ts"
    by (rule strtok_join_comma) (auto simp: cidr_string_token)
  have "map php_bacnet_security_parse_cidr ?ts = map Some ?cs"
    using assms(1) by (auto simp: parse_cidr_string)
  then have "parse_cidr_items ?ts [] = Inr ?cs"
    using assms(2) by (simp add: parse_cidr_items_Inr)
  then show ?thesis
    using toks by (auto simp: php_bacnet_security_parse_cidr_list_def)
qed

end
