(* ===== verification/Doubles.thy ===== *)
theory Doubles
  imports Complex_Main Prelude
begin

text \<open>
  C double and float.  A finite value is the rational number it stands for; every arithmetic
  operation rounds its exact result to a significand of 53 bits (24 for float), to nearest
  with ties to even, as IEEE 754 does.  Infinities and NaN are values of their own, so that
  the validation code of the extension (isfinite, comparisons that are false on NaN) is
  modelled as it is written.  The exponent range of double is not bounded: the quantities of
  the program (seconds, rates, tokens) stay far from 2^1024 and 2^-1022, where overflow and
  gradual underflow start.  The conversion to float has the whole range of IEEE 754 single
  precision: it overflows to infinity at 2^128, and below 2^-126 it underflows gradually, to
  the multiples of 2^-149.  The sign of zero is not kept (no division or sign test in the code
  reads it).
\<close>

subsection \<open>Binary logarithms\<close>

fun flog2 :: "nat \<Rightarrow> nat" where
  "flog2 n = (if n \<le> 1 then 0 else Suc (flog2 (n div 2)))"

declare flog2.simps [simp del]

definition clog2 :: "nat \<Rightarrow> nat" where
  "clog2 n = (if n \<le> 1 then 0 else Suc (flog2 (n - 1)))"

lemma flog2_bounds: "0 < n \<Longrightarrow> 2 ^ flog2 n \<le> n \<and> n < 2 ^ Suc (flog2 n)"
proof (induction n rule: flog2.induct)
  case (1 n)
  show ?case
  proof (cases "n \<le> 1")
    case True
    with 1(2) have "n = 1" by simp
    then show ?thesis by (simp add: flog2.simps)
  next
    case False
    then have "2 ^ flog2 (n div 2) \<le> n div 2 \<and> n div 2 < 2 ^ Suc (flog2 (n div 2))"
      using 1(1) by simp
    with False show ?thesis
      by (simp add: flog2.simps [of n]) linarith
  qed
qed

lemma clog2_bounds: "0 < n \<Longrightarrow> n \<le> 2 ^ clog2 n \<and> 2 ^ clog2 n < 2 * n"
proof (cases "n \<le> 1")
  case True
  moreover assume "0 < n"
  ultimately show ?thesis by (simp add: clog2_def)
next
  case False
  then have "0 < n - 1" by simp
  from flog2_bounds [OF this] False show ?thesis
    by (simp add: clog2_def) linarith
qed

text \<open>The exponent of a positive rational: 2^e <= x < 2^(e+1).\<close>

definition exponent2 :: "rat \<Rightarrow> int" where
  "exponent2 x =
    (if 1 \<le> x then int (flog2 (nat \<lfloor>x\<rfloor>)) else - int (clog2 (nat \<lceil>1 / x\<rceil>)))"

lemma power_int_neg_nat: "(2::rat) powi (- int n) = 1 / 2 ^ n"
  by (simp add: power_int_minus field_simps)

lemma exponent2_bounds:
  fixes x :: rat
  assumes "0 < x"
  shows "2 powi exponent2 x \<le> x" and "x < 2 powi (exponent2 x + 1)"
proof -
  have "2 powi exponent2 x \<le> x \<and> x < 2 powi (exponent2 x + 1)"
  proof (cases "1 \<le> x")
    case True
    define n where "n = nat \<lfloor>x\<rfloor>"
    have n: "0 < n" using True by (simp add: n_def)
    have nx: "of_nat n \<le> x" "x < of_nat n + 1"
      using True by (simp_all add: n_def) linarith+
    note b = flog2_bounds [OF n]
    have "(2::rat) ^ flog2 n \<le> of_nat n"
      using b by (metis of_nat_le_iff of_nat_numeral of_nat_power)
    moreover have "of_nat n + 1 \<le> (2::rat) ^ Suc (flog2 n)"
    proof -
      have "n + 1 \<le> 2 ^ Suc (flog2 n)" using b by linarith
      then have "(of_nat (n + 1) :: rat) \<le> of_nat (2 ^ Suc (flog2 n))"
        by (simp only: of_nat_le_iff)
      then show ?thesis by simp
    qed
    moreover have "exponent2 x = int (flog2 n)"
      using True by (simp add: exponent2_def n_def)
    moreover have "int (flog2 n) + 1 = int (Suc (flog2 n))" by simp
    ultimately show ?thesis
      using nx by (metis order_less_le_trans order_trans power_int_of_nat)
  next
    case False
    define n where "n = nat \<lceil>1 / x\<rceil>"
    have x1: "1 < 1 / x" using False assms by (simp add: field_simps)
    have n: "0 < n" using x1 assms by (simp add: n_def)
    have nx: "1 / x \<le> of_nat n" "of_nat n < 1 / x + 1"
      using x1 by (simp_all add: n_def) linarith+
    note b = clog2_bounds [OF n]
    have e: "exponent2 x = - int (clog2 n)"
      using False by (simp add: exponent2_def n_def)
    have up: "(of_nat n :: rat) \<le> 2 ^ clog2 n"
      using b by (metis of_nat_le_iff of_nat_numeral of_nat_power)
    then have "1 / x \<le> 2 ^ clog2 n" using nx by linarith
    then have "1 / 2 ^ clog2 n \<le> x"
      using assms by (simp add: field_simps)
    then have lo: "2 powi exponent2 x \<le> x"
      by (simp only: e power_int_neg_nat)
    obtain m where m: "clog2 n = Suc m"
    proof (cases "clog2 n")
      case 0
      with b n have "n = 1" by simp
      with x1 nx show thesis by simp
    qed auto
    have "2 ^ m < n" using b m by simp
    then have "2 ^ m + 1 \<le> n" by simp
    then have "(of_nat (2 ^ m + 1) :: rat) \<le> of_nat n" by (simp only: of_nat_le_iff)
    then have "(2::rat) ^ m < 1 / x" using nx by simp
    then have "x < 1 / 2 ^ m" using assms by (simp add: field_simps)
    moreover have "exponent2 x + 1 = - int m" using e m by simp
    ultimately have "x < 2 powi (exponent2 x + 1)"
      by (simp only: power_int_neg_nat)
    with lo show ?thesis by simp
  qed
  then show "2 powi exponent2 x \<le> x" and "x < 2 powi (exponent2 x + 1)" by simp_all
qed

subsection \<open>Rounding to nearest, ties to even\<close>

definition round_half_even :: "rat \<Rightarrow> int" where
  "round_half_even x =
    (let f = \<lfloor>x\<rfloor>; d = x - of_int f
     in if d < 1 / 2 then f else if 1 / 2 < d then f + 1 else if even f then f else f + 1)"

lemma round_half_even_of_int [simp]: "round_half_even (of_int n) = n"
  by (simp add: round_half_even_def)

lemma round_half_even_error: "\<bar>of_int (round_half_even x) - x\<bar> \<le> 1 / 2"
proof -
  have "of_int \<lfloor>x\<rfloor> \<le> x" and "x < of_int \<lfloor>x\<rfloor> + 1" by linarith+
  then show ?thesis
    by (simp add: round_half_even_def Let_def abs_if; linarith)
qed

lemma round_half_even_mono: "x \<le> y \<Longrightarrow> round_half_even x \<le> round_half_even y"
proof -
  assume xy: "x \<le> y"
  show ?thesis
  proof (cases "\<lfloor>x\<rfloor> = \<lfloor>y\<rfloor>")
    case True
    with xy show ?thesis by (simp add: round_half_even_def Let_def)
  next
    case False
    with xy have "\<lfloor>x\<rfloor> + 1 \<le> \<lfloor>y\<rfloor>" using floor_mono [OF xy] by linarith
    then show ?thesis by (simp add: round_half_even_def Let_def)
  qed
qed

definition round_prec :: "nat \<Rightarrow> rat \<Rightarrow> rat" where
  "round_prec p x =
    (if x = 0 then 0
     else let s = 2 powi (exponent2 \<bar>x\<bar> - int p + 1)
          in of_int (round_half_even (x / s)) * s)"

lemma round_prec_0 [simp]: "round_prec p 0 = 0"
  by (simp add: round_prec_def)

lemma round_prec_error: "\<bar>round_prec p x - x\<bar> \<le> \<bar>x\<bar> / 2 ^ p"
proof (cases "x = 0")
  case True
  then show ?thesis by simp
next
  case False
  define s where "s = (2::rat) powi (exponent2 \<bar>x\<bar> - int p + 1)"
  have s: "0 < s" by (simp add: s_def)
  have "s = 2 powi exponent2 \<bar>x\<bar> * 2 / 2 ^ p"
    by (simp add: s_def power_int_add power_int_diff)
  moreover have "2 powi exponent2 \<bar>x\<bar> \<le> \<bar>x\<bar>"
    using False by (intro exponent2_bounds) simp
  ultimately have sx: "s / 2 \<le> \<bar>x\<bar> / 2 ^ p"
    by (simp add: field_simps)
  have "round_prec p x - x = (of_int (round_half_even (x / s)) - x / s) * s"
    using False s unfolding round_prec_def Let_def s_def [symmetric]
    by (simp add: left_diff_distrib)
  then have "\<bar>round_prec p x - x\<bar> = \<bar>of_int (round_half_even (x / s)) - x / s\<bar> * s"
    using s by (simp add: abs_mult)
  also have "\<dots> \<le> 1 / 2 * s"
    using s by (intro mult_right_mono round_half_even_error) simp
  also have "\<dots> \<le> \<bar>x\<bar> / 2 ^ p" using sx by simp
  finally show ?thesis .
qed

lemma round_prec_nonneg: "0 \<le> x \<Longrightarrow> 0 \<le> round_prec p x"
proof -
  assume "0 \<le> x"
  have "\<bar>round_prec p x - x\<bar> \<le> x / 2 ^ p"
    using round_prec_error [of p x] \<open>0 \<le> x\<close> by simp
  moreover have "x / 2 ^ p \<le> x"
    using \<open>0 \<le> x\<close> by (simp add: divide_le_eq mult_left_le_one_le mult_le_cancel_left1)
  ultimately show ?thesis by linarith
qed

lemma round_prec_upper: "0 \<le> x \<Longrightarrow> round_prec p x \<le> x * (1 + 1 / 2 ^ p)"
  using round_prec_error [of p x] by (simp add: algebra_simps)

lemma round_prec_lower: "0 \<le> x \<Longrightarrow> x * (1 - 1 / 2 ^ p) \<le> round_prec p x"
  using round_prec_error [of p x] by (simp add: algebra_simps)

text \<open>A number with at most p significant bits is not changed.\<close>

lemma round_prec_exact:
  assumes x: "x = of_int m * 2 powi k" and m: "\<bar>m\<bar> < 2 ^ p"
  shows "round_prec p x = x"
proof (cases "x = 0")
  case True
  then show ?thesis by simp
next
  case False
  define e where "e = exponent2 \<bar>x\<bar>"
  have le: "2 powi e \<le> \<bar>x\<bar>"
    using False unfolding e_def by (intro exponent2_bounds) simp
  have "\<bar>x\<bar> = of_int \<bar>m\<bar> * 2 powi k"
    by (simp add: x abs_mult)
  also have "\<dots> < 2 ^ p * 2 powi k"
  proof (rule mult_strict_right_mono)
    have "(of_int \<bar>m\<bar> :: rat) < of_int (2 ^ p)" using m by (simp only: of_int_less_iff)
    then show "(of_int \<bar>m\<bar> :: rat) < 2 ^ p" by simp
  qed simp
  also have "\<dots> = 2 powi (int p + k)"
    by (simp add: power_int_add)
  finally have "2 powi e < (2::rat) powi (int p + k)" using le by simp
  then have "e < int p + k"
    by (meson not_less one_le_numeral power_int_increasing)
  define s where "s = (2::rat) powi (e - int p + 1)"
  define j where "j = nat (k - (e - int p + 1))"
  have "k = e - int p + 1 + int j"
    using \<open>e < int p + k\<close> by (simp add: j_def)
  then have "2 powi k = s * 2 ^ j"
    by (simp add: s_def power_int_add)
  then have xs: "x / s = of_int (m * 2 ^ j)"
    by (simp add: x s_def)
  have "round_prec p x = of_int (round_half_even (x / s)) * s"
    using False by (simp add: round_prec_def s_def e_def Let_def)
  also have "\<dots> = of_int (m * 2 ^ j) * s"
    unfolding xs round_half_even_of_int ..
  also have "\<dots> = x"
    using xs by (simp add: s_def field_simps)
  finally show ?thesis .
qed

lemma round_prec_of_int:
  "\<bar>m\<bar> < 2 ^ p \<Longrightarrow> round_prec p (of_int m) = of_int m"
  using round_prec_exact [of "of_int m" m 0 p] by simp

lemma round_prec_numeral:
  "(numeral n :: int) < 2 ^ p \<Longrightarrow> round_prec p (numeral n) = numeral n"
  using round_prec_of_int [of "numeral n" p] by simp

subsection \<open>The type of doubles\<close>

datatype dbl = Fin rat | PosInf | NegInf | NaN

definition dround :: "rat \<Rightarrow> rat" where
  "dround x = round_prec 53 x"

lemma dround_0 [simp]: "dround 0 = 0"
  by (simp add: dround_def)

lemma dround_numeral [simp]:
  "(numeral n :: int) < 9007199254740992 \<Longrightarrow> dround (numeral n) = numeral n"
  by (simp add: dround_def round_prec_numeral)

lemma dround_1 [simp]: "dround 1 = 1"
  using round_prec_of_int [of 1 53] by (simp add: dround_def)

lemma dround_of_nat: "n < 2 ^ 53 \<Longrightarrow> dround (of_nat n) = of_nat n"
  using round_prec_of_int [of "int n" 53] by (simp add: dround_def)

lemma dround_nonneg: "0 \<le> x \<Longrightarrow> 0 \<le> dround x"
  by (simp add: dround_def round_prec_nonneg)

definition ulp :: rat where "ulp = 1 / 2 ^ 53"

lemma dround_upper: "0 \<le> x \<Longrightarrow> dround x \<le> x * (1 + ulp)"
  unfolding dround_def ulp_def by (rule round_prec_upper)

fun isfinite :: "dbl \<Rightarrow> bool" where
  "isfinite (Fin _) = True"
| "isfinite _ = False"

lemma isfinite_iff: "isfinite d \<longleftrightarrow> (\<exists>q. d = Fin q)"
  by (cases d) auto

fun dbl_val :: "dbl \<Rightarrow> rat" where
  "dbl_val (Fin q) = q"
| "dbl_val _ = 0"

lemma Fin_dbl_val: "isfinite d \<Longrightarrow> Fin (dbl_val d) = d"
  by (cases d) auto

fun dbl_neg :: "dbl \<Rightarrow> dbl" where
  "dbl_neg (Fin q) = Fin (- q)"
| "dbl_neg PosInf = NegInf"
| "dbl_neg NegInf = PosInf"
| "dbl_neg NaN = NaN"

instantiation dbl :: "{zero, one, plus, minus, times, ord}"
begin

definition zero_dbl :: dbl where "0 = Fin 0"

definition one_dbl :: dbl where "1 = Fin 1"

fun plus_dbl :: "dbl \<Rightarrow> dbl \<Rightarrow> dbl" where
  "Fin a + Fin b = Fin (dround (a + b))"
| "NaN + _ = NaN"
| "_ + NaN = NaN"
| "PosInf + NegInf = NaN"
| "NegInf + PosInf = NaN"
| "PosInf + _ = PosInf"
| "NegInf + _ = NegInf"
| "_ + PosInf = PosInf"
| "_ + NegInf = NegInf"

definition minus_dbl :: "dbl \<Rightarrow> dbl \<Rightarrow> dbl" where
  "a - b = a + dbl_neg b"

fun times_dbl :: "dbl \<Rightarrow> dbl \<Rightarrow> dbl" where
  "Fin a * Fin b = Fin (dround (a * b))"
| "NaN * _ = NaN"
| "_ * NaN = NaN"
| "Fin a * PosInf = (if a = 0 then NaN else if 0 < a then PosInf else NegInf)"
| "Fin a * NegInf = (if a = 0 then NaN else if 0 < a then NegInf else PosInf)"
| "PosInf * Fin a = (if a = 0 then NaN else if 0 < a then PosInf else NegInf)"
| "NegInf * Fin a = (if a = 0 then NaN else if 0 < a then NegInf else PosInf)"
| "PosInf * PosInf = PosInf"
| "PosInf * NegInf = NegInf"
| "NegInf * PosInf = NegInf"
| "NegInf * NegInf = PosInf"

fun less_dbl :: "dbl \<Rightarrow> dbl \<Rightarrow> bool" where
  "Fin a < Fin b = (a < b)"
| "NaN < (_::dbl) = False"
| "(_::dbl) < NaN = False"
| "NegInf < y = (y \<noteq> NegInf)"
| "x < PosInf = (x \<noteq> PosInf)"
| "(_::dbl) < NegInf = False"
| "PosInf < (_::dbl) = False"

definition less_eq_dbl :: "dbl \<Rightarrow> dbl \<Rightarrow> bool" where
  "a \<le> b \<longleftrightarrow> a < b \<or> (a = b \<and> a \<noteq> NaN)"

instance ..

end

lemma dbl_le_Fin [simp]: "Fin a \<le> Fin b \<longleftrightarrow> a \<le> b"
  by (auto simp: less_eq_dbl_def)

lemma dbl_minus_Fin [simp]: "Fin a - Fin b = Fin (dround (a - b))"
  by (simp add: minus_dbl_def)

lemma dbl_zero_Fin: "0 = Fin 0" and dbl_one_Fin: "1 = Fin 1"
  by (simp_all add: zero_dbl_def one_dbl_def)

lemmas dbl_simps = dbl_zero_Fin dbl_one_Fin

lemma isfinite_arith [simp]:
  "isfinite a \<Longrightarrow> isfinite b \<Longrightarrow> isfinite (a + b)"
  "isfinite a \<Longrightarrow> isfinite b \<Longrightarrow> isfinite (a - b)"
  "isfinite a \<Longrightarrow> isfinite b \<Longrightarrow> isfinite (a * b)"
  "isfinite 0" "isfinite 1"
  by (cases a; cases b; simp add: dbl_simps)+

lemma dbl_less_asym: "(a::dbl) < b \<Longrightarrow> \<not> b < a"
  by (cases a; cases b; simp)

lemma dbl_not_less_finite:
  "isfinite a \<Longrightarrow> isfinite b \<Longrightarrow> \<not> a < b \<longleftrightarrow> b \<le> (a::dbl)"
  by (cases a; cases b; auto simp: less_eq_dbl_def)

text \<open>fmin of the C library: a NaN argument is ignored.\<close>

definition fmin :: "dbl \<Rightarrow> dbl \<Rightarrow> dbl" where
  "fmin a b = (if a = NaN then b else if b = NaN then a else if a < b then a else b)"

lemma fmin_Fin [simp]: "fmin (Fin a) (Fin b) = Fin (min a b)"
  by (auto simp: fmin_def)

text \<open>(double) of an integer, and (float) of a double (widened back to double).\<close>

definition dbl_of_int :: "int \<Rightarrow> dbl" where
  "dbl_of_int n = Fin (dround (of_int n))"

text \<open>
  The weight of the last place of a float: 24 bits of significand, but never below 2^-149.
\<close>

definition float_place :: "rat \<Rightarrow> rat" where
  "float_place x = 2 powi max (exponent2 \<bar>x\<bar> - 23) (-149)"

definition round_float :: "rat \<Rightarrow> rat" where
  "round_float x =
    (if x = 0 then 0 else of_int (round_half_even (x / float_place x)) * float_place x)"

fun float_of_dbl :: "dbl \<Rightarrow> dbl" where
  "float_of_dbl (Fin q) =
     (let r = round_float q
      in if 2 ^ 128 \<le> r then PosInf else if r \<le> - (2 ^ 128) then NegInf else Fin r)"
| "float_of_dbl d = d"

lemma float_place_pos: "0 < float_place x"
  by (simp add: float_place_def)

lemma round_float_error: "\<bar>round_float x - x\<bar> \<le> float_place x / 2"
proof (cases "x = 0")
  case True
  then show ?thesis using float_place_pos [of x] by (simp add: round_float_def)
next
  case False
  note s = float_place_pos [of x]
  have "round_float x - x = (of_int (round_half_even (x / float_place x)) - x / float_place x) * float_place x"
    using False s by (simp add: round_float_def left_diff_distrib)
  then have "\<bar>round_float x - x\<bar> =
      \<bar>of_int (round_half_even (x / float_place x)) - x / float_place x\<bar> * float_place x"
    using s by (simp add: abs_mult)
  also have "\<dots> \<le> 1 / 2 * float_place x"
    using s by (intro mult_right_mono round_half_even_error) simp
  finally show ?thesis by simp
qed

text \<open>Where nothing underflows, this is the rounding to 24 bits.\<close>

lemma round_float_normal:
  assumes "2 powi (-126) \<le> \<bar>x\<bar>"
  shows "round_float x = round_prec 24 x"
proof -
  have "x \<noteq> 0" using assms by auto
  then have "\<bar>x\<bar> < 2 powi (exponent2 \<bar>x\<bar> + 1)" by (intro exponent2_bounds) simp
  with assms have "(2::rat) powi (-126) < 2 powi (exponent2 \<bar>x\<bar> + 1)" by (rule order_le_less_trans)
  then have "-126 < exponent2 \<bar>x\<bar> + 1" by (meson not_less one_le_numeral power_int_increasing)
  then have "max (exponent2 \<bar>x\<bar> - 23) (-149) = exponent2 \<bar>x\<bar> - int 24 + 1" by simp
  then show ?thesis
    by (simp only: round_float_def round_prec_def float_place_def Let_def \<open>x \<noteq> 0\<close> if_False)
qed

text \<open>
  The numbers single precision has, by their definition: a significand of at most 24 bits times
  a power of two from 2^-149 to 2^104.  They are the finite doubles that (float) keeps.
\<close>

definition single_precision :: "rat \<Rightarrow> bool" where
  "single_precision q \<longleftrightarrow>
     (\<exists>m k. q = of_int m * 2 powi k \<and> \<bar>m\<bar> < 2 ^ 24 \<and> -149 \<le> k \<and> k \<le> 104)"

lemma abs_significand_less:
  assumes "q = of_int m * 2 powi k" "\<bar>m\<bar> < 2 ^ p"
  shows "\<bar>q\<bar> < (2::rat) powi (int p + k)"
proof -
  have "(of_int \<bar>m\<bar> :: rat) < of_int (2 ^ p)" using assms(2) by (simp only: of_int_less_iff)
  then have "of_int \<bar>m\<bar> * 2 powi k < (2::rat) ^ p * 2 powi k" by (intro mult_strict_right_mono) simp_all
  moreover have "(2::rat) powi (int p + k) = 2 ^ p * 2 powi k" by (simp add: power_int_add)
  ultimately show ?thesis by (simp add: assms(1) abs_mult)
qed

lemma powi2_less: "(2::rat) powi a < 2 powi b \<Longrightarrow> a < b"
  by (meson not_less one_le_numeral power_int_increasing)

lemma single_precision_kept:
  assumes "single_precision q"
  shows "float_of_dbl (Fin q) = Fin q"
proof (cases "q = 0")
  case True
  then show ?thesis by (simp add: round_float_def)
next
  case False
  obtain m k where q: "q = of_int m * 2 powi k" "\<bar>m\<bar> < 2 ^ 24" "-149 \<le> k" "k \<le> 104"
    using assms by (auto simp: single_precision_def)
  have less: "\<bar>q\<bar> < 2 powi (int 24 + k)" by (rule abs_significand_less [OF q(1,2)])
  have "2 powi exponent2 \<bar>q\<bar> \<le> \<bar>q\<bar>" using False by (intro exponent2_bounds) simp
  from order_le_less_trans [OF this less] have "exponent2 \<bar>q\<bar> < int 24 + k" by (rule powi2_less)
  define e where "e = max (exponent2 \<bar>q\<bar> - 23) (-149)"
  define j where "j = nat (k - e)"
  have "k = e + int j" using \<open>exponent2 \<bar>q\<bar> < int 24 + k\<close> q(3) by (simp add: j_def e_def)
  then have "2 powi k = 2 powi e * (2::rat) ^ j" by (simp add: power_int_add)
  moreover have "float_place q = 2 powi e" by (simp add: float_place_def e_def)
  ultimately have "q = of_int (m * 2 ^ j) * float_place q" using q(1) by simp
  then have d: "q / float_place q = of_int (m * 2 ^ j)"
    using float_place_pos [of q] by (simp add: field_simps)
  have "round_float q = of_int (m * 2 ^ j) * float_place q"
    unfolding round_float_def d round_half_even_of_int using False by simp
  then have "round_float q = q"
    using d float_place_pos [of q] by (simp add: field_simps)
  moreover have "\<bar>q\<bar> < 2 ^ 128"
  proof -
    have "(2::rat) powi (int 24 + k) \<le> 2 powi (int 128)" using q(4) by (intro power_int_increasing) simp_all
    with less show ?thesis unfolding power_int_of_nat by linarith
  qed
  ultimately show ?thesis by (simp add: abs_less_iff not_le)
qed

lemma kept_single_precision:
  assumes "float_of_dbl (Fin q) = Fin q"
  shows "single_precision q"
proof (cases "q = 0")
  case True
  then have "q = of_int 0 * 2 powi 0" by simp
  then show ?thesis unfolding single_precision_def by (intro exI [of _ 0]) simp
next
  case False
  have r: "round_float q = q" and less: "\<bar>q\<bar> < 2 ^ 128"
    using assms by (auto simp: Let_def abs_less_iff split: if_splits)
  define m where "m = round_half_even (q / float_place q)"
  define e where "e = max (exponent2 \<bar>q\<bar> - 23) (-149)"
  have q: "q = of_int m * 2 powi e"
    using r False by (simp add: round_float_def m_def float_place_def e_def)
  have b: "2 powi exponent2 \<bar>q\<bar> \<le> \<bar>q\<bar>" "\<bar>q\<bar> < 2 powi (exponent2 \<bar>q\<bar> + 1)"
    using False by (intro exponent2_bounds; simp)+
  have "(2::rat) powi (exponent2 \<bar>q\<bar> + 1) \<le> 2 powi (int 24 + e)"
    by (intro power_int_increasing) (simp_all add: e_def)
  with b(2) have "\<bar>q\<bar> < 2 powi (int 24 + e)" by linarith
  then have "of_int \<bar>m\<bar> * 2 powi e < (2 ^ 24 :: rat) * 2 powi e"
    by (simp add: q abs_mult power_int_add)
  then have "(of_int \<bar>m\<bar> :: rat) < of_int (2 ^ 24)" by simp
  then have "\<bar>m\<bar> < 2 ^ 24" by (simp only: of_int_less_iff)
  moreover have "e \<le> 104"
  proof -
    have "(2::rat) powi exponent2 \<bar>q\<bar> < 2 powi (int 128)"
      using b(1) less unfolding power_int_of_nat by linarith
    then have "exponent2 \<bar>q\<bar> < int 128" by (rule powi2_less)
    then show ?thesis by (simp add: e_def)
  qed
  moreover have "-149 \<le> e" by (simp add: e_def)
  ultimately show ?thesis unfolding single_precision_def using q by blast
qed

lemma float_of_dbl_fixed: "float_of_dbl d = d \<longleftrightarrow> (\<forall>q. d = Fin q \<longrightarrow> single_precision q)"
  using single_precision_kept kept_single_precision by (cases d) auto

text \<open>A positive number below half of the smallest float becomes 0.\<close>

lemma float_underflow:
  assumes "0 < q" "q < 2 powi (-150)"
  shows "float_of_dbl (Fin q) = Fin 0"
proof -
  have "2 powi exponent2 \<bar>q\<bar> \<le> \<bar>q\<bar>" using assms by (intro exponent2_bounds) simp
  with assms have "(2::rat) powi exponent2 \<bar>q\<bar> < 2 powi (-150)" by simp
  then have "exponent2 \<bar>q\<bar> < -150" by (rule powi2_less)
  then have p: "float_place q = 2 powi (-149)" by (simp add: float_place_def)
  have half: "(2::rat) powi (-150) = 2 powi (-149) / 2"
    using power_int_diff [of "2::rat" "-149" 1] by simp
  have "q / float_place q < 1 / 2" using assms half unfolding p by (simp add: field_simps)
  moreover have "0 \<le> q / float_place q" using assms float_place_pos [of q] by simp
  ultimately have "\<lfloor>q / float_place q\<rfloor> = 0" by linarith
  then have "round_half_even (q / float_place q) = 0"
    using \<open>q / float_place q < 1 / 2\<close> by (simp add: round_half_even_def)
  then have "round_float q = 0" using assms by (simp add: round_float_def)
  then show ?thesis by simp
qed

text \<open>(double) of a uint32_t: always exact.\<close>

definition dbl_of_u32 :: "u32 \<Rightarrow> dbl" where
  "dbl_of_u32 w = Fin (of_nat (unat w))"

lemma dbl_of_u32_exact: "dbl_of_u32 w = dbl_of_int (int (unat w))"
proof -
  have "unat w < 2 ^ 53"
    using unsigned_less [of w, where ?'a = nat] by simp
  then show ?thesis
    using dround_of_nat [of "unat w"] by (simp add: dbl_of_u32_def dbl_of_int_def)
qed

end
