(* ===== verification/Token_Bucket.thy ===== *)
theory Token_Bucket
  imports Doubles
begin

text \<open>
  The token buckets of src/bacnet_security.c.  php_bacnet_security_take refills a bucket for
  the time that passed and takes one token; the server keeps one bucket for all packets and
  three per source.  The locale rate_limited states what every limiter built from a bucket
  promises of one step, with g bounding the rounding of the double arithmetic, and bounds the
  number of grants of a whole run; it is interpreted here on a single bucket and in
  Security_Accept on the packet filter.
\<close>

definition php_bacnet_security_take ::
    "dbl \<Rightarrow> dbl \<Rightarrow> dbl \<Rightarrow> dbl \<Rightarrow> dbl \<Rightarrow> bool \<times> dbl \<times> dbl" where
  "php_bacnet_security_take tokens updated rate burst now =
    (let t = fmin burst (tokens + (now - updated) * rate)
     in if t < 1 then (False, t, now) else (True, t - 1, now))"

text \<open>The growth factor of one step: each of its four roundings adds at most one ulp.\<close>

definition step_growth :: rat where
  "step_growth = (1 + ulp) ^ 4"

lemma ulp_pos: "0 < ulp"
  by (simp add: ulp_def)

lemma step_growth_ge_1: "1 \<le> step_growth"
  using ulp_pos by (simp add: step_growth_def one_le_power)

subsection \<open>One bucket\<close>

definition bucket_wf :: "rat \<Rightarrow> dbl \<Rightarrow> bool" where
  "bucket_wf burst tokens \<longleftrightarrow> (\<exists>q. tokens = Fin q \<and> 0 \<le> q \<and> q \<le> burst)"

lemma bucket_wfI: "0 \<le> q \<Longrightarrow> q \<le> b \<Longrightarrow> bucket_wf b (Fin q)"
  by (simp add: bucket_wf_def)

lemma dround_minus_1: "1 \<le> t \<Longrightarrow> 0 \<le> dround (t - 1) \<and> dround (t - 1) + 1 \<le> t * (1 + ulp)"
proof -
  assume t: "1 \<le> t"
  have "dround (t - 1) \<le> (t - 1) * (1 + ulp)"
    using t by (intro dround_upper) simp
  then show ?thesis
    using t ulp_pos dround_nonneg [of "t - 1"] by (simp add: algebra_simps)
qed

text \<open>The refill: bounded by the exact refill up to three roundings.\<close>

lemma refill_bounds:
  assumes "0 \<le> q" "u \<le> n" "0 \<le> r"
  shows "0 \<le> dround (q + dround (dround (n - u) * r))"
    and "dround (q + dround (dround (n - u) * r)) \<le> (1 + ulp) ^ 3 * (q + r * (n - u))"
proof -
  have d: "0 \<le> dround (n - u)" "dround (n - u) \<le> (n - u) * (1 + ulp)"
    using assms by (simp_all add: dround_nonneg dround_upper)
  have m: "0 \<le> dround (dround (n - u) * r)"
    using d assms by (intro dround_nonneg) simp
  show "0 \<le> dround (q + dround (dround (n - u) * r))"
    using m assms by (intro dround_nonneg) simp
  have "dround (dround (n - u) * r) \<le> dround (n - u) * r * (1 + ulp)"
    using d assms by (intro dround_upper) simp
  also have "\<dots> \<le> (n - u) * (1 + ulp) * r * (1 + ulp)"
    using d assms ulp_pos by (intro mult_right_mono) simp_all
  finally have m2: "dround (dround (n - u) * r) \<le> (1 + ulp) ^ 2 * (r * (n - u))"
    by (simp add: power2_eq_square algebra_simps)
  have "q \<le> (1 + ulp) ^ 2 * q"
    using assms ulp_pos mult_right_mono [of 1 "(1 + ulp) ^ 2" q] by (simp add: one_le_power)
  then have s: "q + dround (dround (n - u) * r) \<le> (1 + ulp) ^ 2 * (q + r * (n - u))"
    using m2 by (simp add: distrib_left)
  have "dround (q + dround (dround (n - u) * r)) \<le> (q + dround (dround (n - u) * r)) * (1 + ulp)"
    using m assms by (intro dround_upper) simp
  also have "\<dots> \<le> (1 + ulp) ^ 2 * (q + r * (n - u)) * (1 + ulp)"
    using s ulp_pos by (intro mult_right_mono) simp_all
  finally show "dround (q + dround (dround (n - u) * r)) \<le> (1 + ulp) ^ 3 * (q + r * (n - u))"
    by (simp add: power3_eq_cube power2_eq_square mult_ac)
qed

lemma take_bounds:
  assumes "0 \<le> q" "u \<le> n" "0 \<le> r" "1 \<le> b" "b \<le> 2 ^ 32"
  obtains ok t where "php_bacnet_security_take (Fin q) (Fin u) (Fin r) (Fin b) (Fin n) = (ok, Fin t, Fin n)"
    and "0 \<le> t" "t \<le> b"
    and "t + (if ok then 1 else 0) \<le> step_growth * (q + r * (n - u))"
    and "ok \<longleftrightarrow> 1 \<le> min b (dround (q + dround (dround (n - u) * r)))"
proof -
  define t where "t = min b (dround (q + dround (dround (n - u) * r)))"
  note rb = refill_bounds [OF assms(1-3)]
  have t: "0 \<le> t" "t \<le> b" "t \<le> (1 + ulp) ^ 3 * (q + r * (n - u))"
    using rb assms by (auto simp: t_def min_def)
  have g: "step_growth = (1 + ulp) ^ 3 * (1 + ulp)"
    by (simp add: step_growth_def eval_nat_numeral)
  have eq: "php_bacnet_security_take (Fin q) (Fin u) (Fin r) (Fin b) (Fin n) =
      (if t < 1 then (False, Fin t, Fin n) else (True, Fin (dround (t - 1)), Fin n))"
    by (simp add: php_bacnet_security_take_def t_def Let_def dbl_simps)
  have tg: "t * (1 + ulp) \<le> step_growth * (q + r * (n - u))"
    using mult_right_mono [OF t(3), of "1 + ulp"] ulp_pos unfolding g by (simp add: mult_ac)
  have tu: "t \<le> t * (1 + ulp)"
    using t ulp_pos by (simp add: algebra_simps)
  show thesis
  proof (cases "t < 1")
    case True
    then show ?thesis
      using eq t tg tu by (intro that [of False t]) (auto simp: t_def [symmetric])
  next
    case False
    then have m: "0 \<le> dround (t - 1)" "dround (t - 1) + 1 \<le> t * (1 + ulp)"
      using dround_minus_1 [of t] by simp_all
    have "t * ulp \<le> 2 ^ 32 * ulp"
      using t assms ulp_pos by (intro mult_right_mono) simp_all
    then have "t * ulp \<le> 1" by (simp add: ulp_def)
    then have "dround (t - 1) \<le> b"
      using m t by (simp add: algebra_simps)
    then show ?thesis
      using False eq m tg by (intro that [of True "dround (t - 1)"]) (auto simp: t_def [symmetric])
  qed
qed

subsection \<open>The contract of a rate limiter\<close>

locale rate_limited =
  fixes inv :: "'s \<Rightarrow> bool"
    and admits :: "'e \<Rightarrow> bool"
    and step :: "'s \<Rightarrow> 'e \<Rightarrow> bool \<times> 's"
    and level :: "'s \<Rightarrow> rat"
    and stamp :: "'s \<Rightarrow> rat"
    and clock :: "'e \<Rightarrow> rat"
    and rate :: "'s \<Rightarrow> rat"
  assumes step_inv: "inv s \<Longrightarrow> admits e \<Longrightarrow> stamp s \<le> clock e \<Longrightarrow> inv (snd (step s e))"
    and step_stamp: "inv s \<Longrightarrow> admits e \<Longrightarrow> stamp s \<le> clock e \<Longrightarrow>
      stamp s \<le> stamp (snd (step s e)) \<and> stamp (snd (step s e)) \<le> clock e"
    and step_rate: "inv s \<Longrightarrow> admits e \<Longrightarrow> rate (snd (step s e)) = rate s"
    and step_level: "inv s \<Longrightarrow> admits e \<Longrightarrow> stamp s \<le> clock e \<Longrightarrow>
      level (snd (step s e)) + (if fst (step s e) then 1 else 0)
      \<le> step_growth * (level s + rate s * (stamp (snd (step s e)) - stamp s))"
    and level_nonneg: "inv s \<Longrightarrow> 0 \<le> level s"
    and rate_nonneg: "inv s \<Longrightarrow> 0 \<le> rate s"
begin

fun run :: "'s \<Rightarrow> 'e list \<Rightarrow> nat \<times> 's" where
  "run s [] = (0, s)"
| "run s (e # es) =
     (let (ok, s') = step s e; (n, s'') = run s' es in (if ok then Suc n else n, s''))"

text \<open>Times do not decrease and start no earlier than the last refill.\<close>

fun in_order :: "rat \<Rightarrow> 'e list \<Rightarrow> bool" where
  "in_order t [] = True"
| "in_order t (e # es) = (t \<le> clock e \<and> in_order (clock e) es)"

lemma in_order_mono: "in_order t es \<Longrightarrow> t' \<le> t \<Longrightarrow> in_order t' es"
  by (cases es) auto

lemma run_bound:
  assumes "inv s" and "\<forall>e \<in> set es. admits e" and "in_order (stamp s) es"
  shows "inv (snd (run s es)) \<and> stamp s \<le> stamp (snd (run s es)) \<and>
    level (snd (run s es)) + of_nat (fst (run s es))
    \<le> step_growth ^ length es * (level s + rate s * (stamp (snd (run s es)) - stamp s))"
  using assms
proof (induction es arbitrary: s)
  case Nil
  then show ?case by simp
next
  case (Cons e es)
  obtain ok s' where st: "step s e = (ok, s')" by (cases "step s e")
  obtain n s'' where rn: "run s' es = (n, s'')" by (cases "run s' es")
  have e: "admits e" "stamp s \<le> clock e" using Cons.prems by simp_all
  have s': "inv s'" "stamp s \<le> stamp s'" "stamp s' \<le> clock e" "rate s' = rate s"
    and lv: "level s' + (if ok then 1 else 0) \<le> step_growth * (level s + rate s * (stamp s' - stamp s))"
    using step_inv [OF Cons.prems(1) e] step_stamp [OF Cons.prems(1) e]
      step_rate [OF Cons.prems(1) e(1)] step_level [OF Cons.prems(1) e] st by simp_all
  have "in_order (stamp s') es"
    using Cons.prems(3) s'(3) by (auto intro: in_order_mono)
  then have IH: "inv s''" "stamp s' \<le> stamp s''"
    "level s'' + of_nat n \<le> step_growth ^ length es * (level s' + rate s * (stamp s'' - stamp s'))"
    using Cons.IH [of s'] Cons.prems(2) s' rn by simp_all
  define G where "G = step_growth ^ length es"
  have G: "1 \<le> G"
    unfolding G_def by (rule one_le_power [OF step_growth_ge_1])
  have r0: "0 \<le> rate s * (stamp s'' - stamp s')"
    using IH(2) rate_nonneg [OF Cons.prems(1)] by simp
  have "level s'' + of_nat n + (if ok then 1 else 0)
      \<le> G * (level s' + rate s * (stamp s'' - stamp s')) + G * (if ok then 1 else 0)"
    using IH(3) G by (simp add: G_def)
  also have "\<dots> = G * (level s' + (if ok then 1 else 0) + rate s * (stamp s'' - stamp s'))"
    by (simp add: algebra_simps)
  also have "\<dots> \<le> G * (step_growth * (level s + rate s * (stamp s' - stamp s))
      + step_growth * (rate s * (stamp s'' - stamp s')))"
  proof (rule mult_left_mono)
    show "level s' + (if ok then 1 else 0) + rate s * (stamp s'' - stamp s')
        \<le> step_growth * (level s + rate s * (stamp s' - stamp s))
          + step_growth * (rate s * (stamp s'' - stamp s'))"
      using lv r0 mult_right_mono [OF step_growth_ge_1 r0] by simp
  qed (use G in simp)
  also have "\<dots> = step_growth * G * (level s + rate s * (stamp s'' - stamp s))"
    by (simp add: algebra_simps)
  finally have "level s'' + of_nat n + (if ok then 1 else 0)
      \<le> step_growth * G * (level s + rate s * (stamp s'' - stamp s))" .
  then show ?case
    using IH s' by (cases ok) (simp_all add: st rn G_def add_ac)
qed

lemma run_grants:
  assumes "inv s" and "\<forall>e \<in> set es. admits e" and "in_order (stamp s) es"
  shows "of_nat (fst (run s es))
    \<le> step_growth ^ length es * (level s + rate s * (stamp (snd (run s es)) - stamp s))"
  using run_bound [OF assms] level_nonneg [of "snd (run s es)"] by linarith

lemma run_stamp:
  assumes "inv s" and "\<forall>e \<in> set es. admits e" and "in_order (stamp s) es" and "es \<noteq> []"
  shows "stamp (snd (run s es)) \<le> clock (last es)"
  using assms
proof (induction es arbitrary: s)
  case (Cons e es)
  obtain ok s' where st: "step s e = (ok, s')" by (cases "step s e")
  have e: "admits e" "stamp s \<le> clock e" using Cons.prems by simp_all
  have s': "inv s'" "stamp s' \<le> clock e"
    using step_inv [OF Cons.prems(1) e] step_stamp [OF Cons.prems(1) e] st by simp_all
  show ?case
  proof (cases "es = []")
    case True
    then show ?thesis using s' by (simp add: st)
  next
    case False
    have "in_order (stamp s') es"
      using Cons.prems(3) s'(2) by (auto intro: in_order_mono)
    then have "stamp (snd (run s' es)) \<le> clock (last es)"
      using Cons.IH [of s'] Cons.prems(2) s' False by simp
    then show ?thesis using False by (simp add: st case_prod_beta)
  qed
qed simp

end

subsection \<open>A single bucket\<close>

record bucket =
  bk_tokens :: dbl
  bk_updated :: dbl
  bk_rate :: dbl
  bk_burst :: dbl

definition bucket_take :: "bucket \<Rightarrow> dbl \<Rightarrow> bool \<times> bucket" where
  "bucket_take b now =
    (let (ok, t, u) = php_bacnet_security_take (bk_tokens b) (bk_updated b) (bk_rate b) (bk_burst b) now
     in (ok, b\<lparr>bk_tokens := t, bk_updated := u\<rparr>))"

definition bucket_ok :: "bucket \<Rightarrow> bool" where
  "bucket_ok b \<longleftrightarrow>
     isfinite (bk_tokens b) \<and> isfinite (bk_updated b) \<and> isfinite (bk_rate b) \<and> isfinite (bk_burst b) \<and>
     0 \<le> dbl_val (bk_rate b) \<and> 1 \<le> dbl_val (bk_burst b) \<and> dbl_val (bk_burst b) \<le> 2 ^ 32 \<and>
     0 \<le> dbl_val (bk_tokens b) \<and> dbl_val (bk_tokens b) \<le> dbl_val (bk_burst b)"

lemma bucket_take_step:
  assumes "bucket_ok b" and "isfinite now" and "dbl_val (bk_updated b) \<le> dbl_val now"
  shows "bucket_ok (snd (bucket_take b now))"
    and "bk_updated (snd (bucket_take b now)) = now"
    and "bk_rate (snd (bucket_take b now)) = bk_rate b"
    and "bk_burst (snd (bucket_take b now)) = bk_burst b"
    and "dbl_val (bk_tokens (snd (bucket_take b now))) + (if fst (bucket_take b now) then 1 else 0)
      \<le> step_growth * (dbl_val (bk_tokens b) + dbl_val (bk_rate b) * (dbl_val now - dbl_val (bk_updated b)))"
proof -
  obtain q u r bb n where eqs: "bk_tokens b = Fin q" "bk_updated b = Fin u" "bk_rate b = Fin r"
    "bk_burst b = Fin bb" "now = Fin n"
    using assms by (auto simp: bucket_ok_def isfinite_iff)
  have *: "0 \<le> q" "u \<le> n" "0 \<le> r" "1 \<le> bb" "bb \<le> 2 ^ 32"
    using assms by (simp_all add: bucket_ok_def eqs)
  obtain ok t where t: "php_bacnet_security_take (Fin q) (Fin u) (Fin r) (Fin bb) (Fin n) = (ok, Fin t, Fin n)"
    "0 \<le> t" "t \<le> bb" "t + (if ok then 1 else 0) \<le> step_growth * (q + r * (n - u))"
    by (rule take_bounds [OF *])
  then show "bucket_ok (snd (bucket_take b now))"
    and "bk_updated (snd (bucket_take b now)) = now"
    and "bk_rate (snd (bucket_take b now)) = bk_rate b"
    and "bk_burst (snd (bucket_take b now)) = bk_burst b"
    and "dbl_val (bk_tokens (snd (bucket_take b now))) + (if fst (bucket_take b now) then 1 else 0)
      \<le> step_growth * (dbl_val (bk_tokens b) + dbl_val (bk_rate b) * (dbl_val now - dbl_val (bk_updated b)))"
    using * by (simp_all add: bucket_take_def eqs bucket_ok_def)
qed

interpretation bk: rate_limited bucket_ok isfinite bucket_take
  "\<lambda>b. dbl_val (bk_tokens b)" "\<lambda>b. dbl_val (bk_updated b)" dbl_val "\<lambda>b. dbl_val (bk_rate b)"
proof unfold_locales
  fix s :: bucket and e :: dbl
  show "0 \<le> dbl_val (bk_tokens s)" "0 \<le> dbl_val (bk_rate s)" if "bucket_ok s"
    using that by (simp_all add: bucket_ok_def)
  show "dbl_val (bk_rate (snd (bucket_take s e))) = dbl_val (bk_rate s)"
    by (simp add: bucket_take_def split: prod.splits)
qed (simp_all add: bucket_take_step)

end
