(* ===== verification/Php_Values.thy ===== *)
theory Php_Values
  imports Doubles
begin

text \<open>
  PHP values (zval) as the extension sees them, BACnet application data
  (BACNET_APPLICATION_DATA_VALUE), and the conversions of src/bacnet_helpers.c between the
  two; the value classes Bacnet\\Value, BitString, Date, Time and ObjectIdentifier of
  src/bacnet_classes.c.  The bacnet-stack routines that read or write encoded application
  data are parameters (dec, enc, char_init).  The tagged union is modelled by one
  constructor per tag.  Where the code reads another member than the one it stored
  (writePresentValue), the read is written out on the bits, see union_unsigned.
\<close>

subsection \<open>Data\<close>

record bitstring =
  bits_used :: u8
  bit_bytes :: bytes

record bac_date =
  d_year :: u16
  d_month :: u8
  d_day :: u8
  d_wday :: u8

record bac_time =
  t_hour :: u8
  t_min :: u8
  t_sec :: u8
  t_hundredths :: u8

datatype appdata =
    AppNull
  | AppBoolean bool
  | AppUnsigned u64
  | AppSigned u32
  | AppReal dbl
  | AppDouble dbl
  | AppOctets string
  | AppChars string
  | AppBits bitstring
  | AppEnumerated u32
  | AppDate bac_date
  | AppTime bac_time
  | AppObjectId u32 u32
  | AppOther nat

text \<open>
  The objects keep their C struct; Date, Time and ObjectIdentifier also have declared PHP
  properties, which the constructors set (the C code never reads them back).
\<close>

record php_date =
  date_c :: bac_date
  date_props :: "int list"

record php_time =
  time_c :: bac_time
  time_props :: "int list"

record php_oid =
  oid_type :: u32
  oid_instance :: u32
  oid_case :: "string option"

datatype zkey = KInt int | KStr string

datatype zval =
    ZNull
  | ZBool bool
  | ZLong int
  | ZDouble dbl
  | ZString string
  | ZArray "(zkey \<times> zval) list"
  | ZValue appdata
  | ZBitString bitstring
  | ZDate php_date
  | ZTime php_time
  | ZOid php_oid
  | ZEnum string int
  | ZOther string

text \<open>zend_is_true.\<close>

fun zend_is_true :: "zval \<Rightarrow> bool" where
  "zend_is_true ZNull = False"
| "zend_is_true (ZBool b) = b"
| "zend_is_true (ZLong n) = (n \<noteq> 0)"
| "zend_is_true (ZDouble d) = (d \<noteq> Fin 0)"
| "zend_is_true (ZString s) = (s \<noteq> [] \<and> s \<noteq> ''0'')"
| "zend_is_true (ZArray xs) = (xs \<noteq> [])"
| "zend_is_true _ = True"

text \<open>zval_get_double on the two numeric types.\<close>

fun zval_get_double :: "zval \<Rightarrow> dbl" where
  "zval_get_double (ZLong n) = dbl_of_int n"
| "zval_get_double (ZDouble d) = d"
| "zval_get_double _ = Fin 0"

subsection \<open>Object types\<close>

text \<open>The cases of enum Bacnet\\ObjectType with their backing integers.\<close>

definition object_type_enum :: "(string \<times> u32) list" where
  "object_type_enum =
    [(''ANALOG_INPUT'', 0), (''ANALOG_OUTPUT'', 1), (''ANALOG_VALUE'', 2),
     (''BINARY_INPUT'', 3), (''BINARY_OUTPUT'', 4), (''BINARY_VALUE'', 5), (''DEVICE'', 8),
     (''EVENT_ENROLLMENT'', 9), (''MULTI_STATE_INPUT'', 13), (''MULTI_STATE_OUTPUT'', 14),
     (''NOTIFICATION_CLASS'', 15), (''SCHEDULE'', 17), (''MULTI_STATE_VALUE'', 19),
     (''TREND_LOG'', 20)]"

text \<open>BACNET_OBJECT_TYPE of bacnet-stack: the numbers of the BACnet standard.\<close>

definition OBJECT_ANALOG_INPUT :: u32 where "OBJECT_ANALOG_INPUT = 0"
definition OBJECT_ANALOG_OUTPUT :: u32 where "OBJECT_ANALOG_OUTPUT = 1"
definition OBJECT_ANALOG_VALUE :: u32 where "OBJECT_ANALOG_VALUE = 2"
definition OBJECT_BINARY_INPUT :: u32 where "OBJECT_BINARY_INPUT = 3"
definition OBJECT_BINARY_OUTPUT :: u32 where "OBJECT_BINARY_OUTPUT = 4"
definition OBJECT_BINARY_VALUE :: u32 where "OBJECT_BINARY_VALUE = 5"
definition OBJECT_DEVICE :: u32 where "OBJECT_DEVICE = 8"
definition OBJECT_EVENT_ENROLLMENT :: u32 where "OBJECT_EVENT_ENROLLMENT = 9"
definition OBJECT_MULTI_STATE_INPUT :: u32 where "OBJECT_MULTI_STATE_INPUT = 13"
definition OBJECT_MULTI_STATE_OUTPUT :: u32 where "OBJECT_MULTI_STATE_OUTPUT = 14"
definition OBJECT_NOTIFICATION_CLASS :: u32 where "OBJECT_NOTIFICATION_CLASS = 15"
definition OBJECT_SCHEDULE :: u32 where "OBJECT_SCHEDULE = 17"
definition OBJECT_MULTI_STATE_VALUE :: u32 where "OBJECT_MULTI_STATE_VALUE = 19"
definition OBJECT_TRENDLOG :: u32 where "OBJECT_TRENDLOG = 20"

lemmas object_type_defs =
  OBJECT_ANALOG_INPUT_def OBJECT_ANALOG_OUTPUT_def OBJECT_ANALOG_VALUE_def
  OBJECT_BINARY_INPUT_def OBJECT_BINARY_OUTPUT_def OBJECT_BINARY_VALUE_def OBJECT_DEVICE_def
  OBJECT_EVENT_ENROLLMENT_def OBJECT_MULTI_STATE_INPUT_def OBJECT_MULTI_STATE_OUTPUT_def
  OBJECT_NOTIFICATION_CLASS_def OBJECT_SCHEDULE_def OBJECT_MULTI_STATE_VALUE_def
  OBJECT_TRENDLOG_def

definition s_ot_map :: "(u32 \<times> string) list" where
  "s_ot_map =
    [(OBJECT_ANALOG_INPUT, ''ANALOG_INPUT''), (OBJECT_ANALOG_OUTPUT, ''ANALOG_OUTPUT''),
     (OBJECT_ANALOG_VALUE, ''ANALOG_VALUE''), (OBJECT_BINARY_INPUT, ''BINARY_INPUT''),
     (OBJECT_BINARY_OUTPUT, ''BINARY_OUTPUT''), (OBJECT_BINARY_VALUE, ''BINARY_VALUE''),
     (OBJECT_DEVICE, ''DEVICE''), (OBJECT_EVENT_ENROLLMENT, ''EVENT_ENROLLMENT''),
     (OBJECT_MULTI_STATE_INPUT, ''MULTI_STATE_INPUT''),
     (OBJECT_MULTI_STATE_OUTPUT, ''MULTI_STATE_OUTPUT''),
     (OBJECT_NOTIFICATION_CLASS, ''NOTIFICATION_CLASS''), (OBJECT_SCHEDULE, ''SCHEDULE''),
     (OBJECT_MULTI_STATE_VALUE, ''MULTI_STATE_VALUE''), (OBJECT_TRENDLOG, ''TREND_LOG'')]"

text \<open>The first table row of the type; its case is looked up by name in the PHP enum.\<close>

definition php_bacnet_find_ot_case :: "u32 \<Rightarrow> string option" where
  "php_bacnet_find_ot_case type =
    (case map_of s_ot_map type of
       Some name \<Rightarrow> (if map_of object_type_enum name \<noteq> None then Some name else None)
     | None \<Rightarrow> None)"

definition php_bacnet_oid_from_c :: "u32 \<Rightarrow> u32 \<Rightarrow> php_oid" where
  "php_bacnet_oid_from_c type inst =
    \<lparr>oid_type = type, oid_instance = inst, oid_case = php_bacnet_find_ot_case type\<rparr>"

text \<open>The two tables agree: the enum case found for a type is backed by that type.\<close>

lemma s_ot_map_sound: "list_all (\<lambda>(t, n). map_of object_type_enum n = Some t) s_ot_map"
  by (simp add: s_ot_map_def object_type_enum_def object_type_defs)

lemma s_ot_map_complete: "list_all (\<lambda>(n, t). map_of s_ot_map t = Some n) object_type_enum"
  by (simp add: s_ot_map_def object_type_enum_def object_type_defs)

lemma find_ot_case_backing:
  "php_bacnet_find_ot_case t = Some name \<Longrightarrow> map_of object_type_enum name = Some t"
  using s_ot_map_sound map_of_SomeD [of s_ot_map t name]
  by (fastforce simp: php_bacnet_find_ot_case_def list_all_iff split: option.splits if_splits)

lemma find_ot_case_complete:
  "map_of object_type_enum name = Some t \<Longrightarrow> php_bacnet_find_ot_case t = Some name"
  using s_ot_map_complete map_of_SomeD [of object_type_enum name t]
  by (auto simp: php_bacnet_find_ot_case_def list_all_iff split: option.splits)

subsection \<open>Bacnet\\BitString\<close>

definition PHP_BACNET_BITSTRING_MAX_BYTES :: nat where
  "PHP_BACNET_BITSTRING_MAX_BYTES = 15"

text \<open>The loop of the constructor over the array elements; idx is the loop counter.\<close>

fun bitstring_fill :: "nat \<Rightarrow> nat \<Rightarrow> zval list \<Rightarrow> bytes \<Rightarrow> bytes" where
  "bitstring_fill n idx [] v = v"
| "bitstring_fill n idx (e # es) v =
     (if n \<le> idx then v
      else bitstring_fill n (Suc idx) es
        (if zend_is_true e
         then v[idx div 8 := v ! (idx div 8) OR push_bit (7 - idx mod 8) 1]
         else v))"

definition bitstring_construct :: "zval list \<Rightarrow> bitstring" where
  "bitstring_construct elems =
    (let n = (if length elems > PHP_BACNET_BITSTRING_MAX_BYTES * 8
              then PHP_BACNET_BITSTRING_MAX_BYTES * 8 else length elems)
     in \<lparr>bits_used = of_nat n,
         bit_bytes = bitstring_fill n 0 elems (replicate PHP_BACNET_BITSTRING_MAX_BYTES 0)\<rparr>)"

definition bitstring_getBit :: "bitstring \<Rightarrow> int \<Rightarrow> bool" where
  "bitstring_getBit obj index =
    (if index < 0 \<or> index \<ge> int (unat (bits_used obj)) then False
     else drop_bit (7 - nat index mod 8) (bit_bytes obj ! (nat index div 8)) AND 1 \<noteq> 0)"

definition bitstring_toArray :: "bitstring \<Rightarrow> bool list" where
  "bitstring_toArray obj =
    map (\<lambda>i. drop_bit (7 - i mod 8) (bit_bytes obj ! (i div 8)) AND 1 \<noteq> 0)
        [0..<unat (bits_used obj)]"

definition bitstring_getLength :: "bitstring \<Rightarrow> int" where
  "bitstring_getLength obj = int (unat (bits_used obj))"

text \<open>The object made from a BACNET_BIT_STRING: only the used bytes are copied.\<close>

definition php_bacnet_bitstring_new :: "bitstring \<Rightarrow> bitstring" where
  "php_bacnet_bitstring_new bs =
    (let k = (unat (bits_used bs) + 7) div 8
     in \<lparr>bits_used = bits_used bs,
         bit_bytes = take k (bit_bytes bs) @ replicate (PHP_BACNET_BITSTRING_MAX_BYTES - k) 0\<rparr>)"

lemma bit_test_word: "(drop_bit k (b::u8) AND 1 \<noteq> 0) = bit b k"
  by (simp add: and_one_eq odd_iff_mod_2_eq_one [symmetric] bit_iff_odd_drop_bit)

lemma length_bitstring_fill [simp]: "length (bitstring_fill n idx es v) = length v"
  by (induction n idx es v rule: bitstring_fill.induct) auto

lemma bit_index_eq:
  assumes "i div 8 = j div 8"
  shows "7 - i mod 8 = 7 - j mod 8 \<longleftrightarrow> i = (j::nat)"
proof -
  have "i mod 8 \<le> 7" and "j mod 8 \<le> 7"
    using mod_less_divisor [of 8 i] mod_less_divisor [of 8 j] by linarith+
  moreover have "i = 8 * (i div 8) + i mod 8" and "j = 8 * (j div 8) + j mod 8" by simp_all
  ultimately show ?thesis using assms by linarith
qed

lemma bit_bitstring_fill:
  assumes "i < 8 * length v"
  shows "bit (bitstring_fill n idx es v ! (i div 8)) (7 - i mod 8)
       = (bit (v ! (i div 8)) (7 - i mod 8)
          \<or> (idx \<le> i \<and> i < n \<and> i - idx < length es \<and> zend_is_true (es ! (i - idx))))"
  using assms
proof (induction n idx es v rule: bitstring_fill.induct)
  case (1 n idx v)
  then show ?case by simp
next
  case (2 n idx e es v)
  show ?case
  proof (cases "n \<le> idx")
    case True
    then show ?thesis by auto
  next
    case False
    define w where "w = (if zend_is_true e
       then v[idx div 8 := v ! (idx div 8) OR push_bit (7 - idx mod 8) 1] else v)"
    have IH: "bit (bitstring_fill n (Suc idx) es w ! (i div 8)) (7 - i mod 8)
       = (bit (w ! (i div 8)) (7 - i mod 8)
          \<or> (Suc idx \<le> i \<and> i < n \<and> i - Suc idx < length es \<and> zend_is_true (es ! (i - Suc idx))))"
      using 2 False by (simp add: w_def)
    have w: "bit (w ! (i div 8)) (7 - i mod 8)
       = (bit (v ! (i div 8)) (7 - i mod 8) \<or> (zend_is_true e \<and> i = idx))"
    proof (cases "i div 8 = idx div 8")
      case True
      then show ?thesis
        using bit_index_eq [OF True] 2(2)
        by (auto simp: w_def bit_or_iff bit_exp_iff possible_bit_word nth_list_update)
    next
      case False
      then show ?thesis by (auto simp: w_def)
    qed
    show ?thesis
      using False IH w
      by (auto simp: w_def [symmetric] nth_Cons' Suc_diff_Suc not_le split: if_splits)
  qed
qed

text \<open>Well-formed bit strings: 15 bytes, at most 120 bits, zeros after the used bits.\<close>

definition bitstring_wf :: "bitstring \<Rightarrow> bool" where
  "bitstring_wf bs \<longleftrightarrow>
     length (bit_bytes bs) = PHP_BACNET_BITSTRING_MAX_BYTES \<and>
     unat (bits_used bs) \<le> 8 * PHP_BACNET_BITSTRING_MAX_BYTES \<and>
     (\<forall>j < PHP_BACNET_BITSTRING_MAX_BYTES. (unat (bits_used bs) + 7) div 8 \<le> j \<longrightarrow> bit_bytes bs ! j = 0)"

lemma bits_used_construct:
  "unat (bits_used (bitstring_construct es)) = min 120 (length es)"
  by (simp add: bitstring_construct_def PHP_BACNET_BITSTRING_MAX_BYTES_def Let_def
      unat_of_nat min_def take_bit_nat_eq_self)

lemma length_bit_bytes_construct [simp]:
  "length (bit_bytes (bitstring_construct es)) = PHP_BACNET_BITSTRING_MAX_BYTES"
  by (simp add: bitstring_construct_def Let_def)

lemma bit_construct:
  assumes "i < 120"
  shows "bit (bit_bytes (bitstring_construct es) ! (i div 8)) (7 - i mod 8)
       = (i < length es \<and> zend_is_true (es ! i))"
proof -
  have "i div 8 < 15" using assms by simp
  then show ?thesis
    using assms
    by (auto simp: bitstring_construct_def Let_def PHP_BACNET_BITSTRING_MAX_BYTES_def
        bit_bitstring_fill)
qed

lemma bitstring_getBit_construct:
  "bitstring_getBit (bitstring_construct es) k =
     (0 \<le> k \<and> k < 120 \<and> nat k < length es \<and> zend_is_true (es ! nat k))"
proof (cases "0 \<le> k \<and> k < int (min 120 (length es))")
  case True
  then have "nat k < 120" by linarith
  from bit_construct [OF this, of es] True show ?thesis
    by (auto simp: bitstring_getBit_def bits_used_construct bit_test_word)
next
  case False
  then show ?thesis
    by (auto simp: bitstring_getBit_def bits_used_construct)
qed

lemma bitstring_toArray_construct:
  "bitstring_toArray (bitstring_construct es) = take 120 (map zend_is_true es)"
  by (rule nth_equalityI)
     (auto simp: bitstring_toArray_def bits_used_construct bit_test_word bit_construct)

lemma byte_zero_if_bits: "(\<And>k. k < 8 \<Longrightarrow> \<not> bit (b::u8) (7 - k)) \<Longrightarrow> b = 0"
proof (rule bit_word_eqI)
  fix n
  assume *: "\<And>k. k < 8 \<Longrightarrow> \<not> bit b (7 - k)" and "n < LENGTH(8)"
  then have "n < 8" by simp
  then show "bit b n = bit 0 n" using * [of "7 - n"] by simp
qed

lemma bitstring_wf_construct: "bitstring_wf (bitstring_construct es)"
proof -
  have "bit_bytes (bitstring_construct es) ! j = 0"
    if j: "j < 15" "(min 120 (length es) + 7) div 8 \<le> j" for j
  proof (rule byte_zero_if_bits)
    fix k :: nat
    assume k: "k < 8"
    have "8 * j + k < 120" "(8 * j + k) div 8 = j" "(8 * j + k) mod 8 = k"
      using j k by simp_all
    moreover have "length es \<le> 8 * j + k"
      using j by (simp add: min_def split: if_splits)
    ultimately show "\<not> bit (bit_bytes (bitstring_construct es) ! j) (7 - k)"
      using bit_construct [of "8 * j + k" es] by simp
  qed
  then show ?thesis
    by (simp add: bitstring_wf_def bits_used_construct PHP_BACNET_BITSTRING_MAX_BYTES_def)
qed

lemma bitstring_new_wf: "bitstring_wf bs \<Longrightarrow> php_bacnet_bitstring_new bs = bs"
proof -
  assume wf: "bitstring_wf bs"
  define k where "k = (unat (bits_used bs) + 7) div 8"
  have "unat (bits_used bs) \<le> 120"
    using wf by (simp add: bitstring_wf_def PHP_BACNET_BITSTRING_MAX_BYTES_def)
  then have k: "k \<le> 15" unfolding k_def by linarith
  have "drop k (bit_bytes bs) = replicate (15 - k) 0"
    using wf k
    by (intro nth_equalityI)
       (auto simp: bitstring_wf_def PHP_BACNET_BITSTRING_MAX_BYTES_def k_def)
  then have "take k (bit_bytes bs) @ replicate (15 - k) 0 = bit_bytes bs"
    by (metis append_take_drop_id)
  then show ?thesis
    by (simp add: php_bacnet_bitstring_new_def k_def [symmetric] PHP_BACNET_BITSTRING_MAX_BYTES_def)
qed

end
