(* ===== verification/Ini.thy ===== *)
theory Ini
  imports Php_Values
begin

text \<open>
  The module globals (zend_bacnet_globals of src/php_bacnet.h), their initial values and the
  defaults of the INI table of src/bacnet.c.  MINIT sets the C defaults first and then
  registers the INI entries, whose default texts are stored over them.  The two tables agree
  on every number and flag (defaults_agree), so the order of the two steps only matters for the
  string entries.
\<close>

record bacnet_globals =
  g_default_port :: int
  g_default_timeout_ms :: int
  g_default_interface :: "string option"
  g_server_security_enabled :: bool
  g_server_per_source_rate :: dbl
  g_server_per_source_burst :: int
  g_server_global_rate :: dbl
  g_server_global_burst :: int
  g_server_who_is_rate :: dbl
  g_server_who_is_burst :: int
  g_server_write_rate :: dbl
  g_server_write_burst :: int
  g_server_flood_violations :: int
  g_server_flood_window :: dbl
  g_server_block_duration :: dbl
  g_server_duplicate_window :: dbl
  g_server_allowed_networks :: "string option"
  g_server_denied_networks :: "string option"
  g_server_max_sources :: int
  g_server_source_ttl :: dbl
  g_server_log_interval :: dbl
  g_cache_enabled :: bool
  g_cache_l2_backend :: "string option"
  g_cache_namespace :: "string option"
  g_cache_lmdb_path :: "string option"
  g_cache_shm_name :: "string option"
  g_cache_l1_max_bytes :: int
  g_cache_l2_max_bytes :: int
  g_cache_lmdb_map_size :: int
  g_cache_coherence_interval_ms :: int
  g_cache_log_interval :: dbl
  g_cache_state_enabled :: bool
  g_cache_state_ttl :: dbl
  g_cache_state_max_entries :: int
  g_cache_object_enabled :: bool
  g_cache_object_ttl :: dbl
  g_cache_object_max_entries :: int
  g_cache_object_list_enabled :: bool
  g_cache_object_list_ttl :: dbl
  g_cache_object_list_max_entries :: int
  g_cache_device_enabled :: bool
  g_cache_device_ttl :: dbl
  g_cache_device_max_entries :: int
  g_cache_ip_enabled :: bool
  g_cache_ip_ttl :: dbl
  g_cache_ip_max_entries :: int
  g_cache_negative_enabled :: bool
  g_cache_negative_whois_ttl :: dbl
  g_cache_negative_read_ttl :: dbl
  g_cache_negative_max_entries :: int
  g_next_invoke_id :: u8
  g_client_initialized :: bool

definition PHP_BACNET_DEFAULT_PORT :: int where "PHP_BACNET_DEFAULT_PORT = 47808"

definition php_bacnet_init_globals :: bacnet_globals where
  "php_bacnet_init_globals =
    \<lparr>g_default_port = PHP_BACNET_DEFAULT_PORT,
     g_default_timeout_ms = 3000,
     g_default_interface = None,
     g_server_security_enabled = True,
     g_server_per_source_rate = Fin 50,
     g_server_per_source_burst = 100,
     g_server_global_rate = Fin 500,
     g_server_global_burst = 1000,
     g_server_who_is_rate = Fin 2,
     g_server_who_is_burst = 5,
     g_server_write_rate = Fin 5,
     g_server_write_burst = 10,
     g_server_flood_violations = 20,
     g_server_flood_window = Fin 10,
     g_server_block_duration = Fin 60,
     g_server_duplicate_window = Fin 5,
     g_server_allowed_networks = None,
     g_server_denied_networks = None,
     g_server_max_sources = 1024,
     g_server_source_ttl = Fin 300,
     g_server_log_interval = Fin 60,
     g_cache_enabled = True,
     g_cache_l2_backend = None,
     g_cache_namespace = None,
     g_cache_lmdb_path = None,
     g_cache_shm_name = None,
     g_cache_l1_max_bytes = 16777216,
     g_cache_l2_max_bytes = 16777216,
     g_cache_lmdb_map_size = 67108864,
     g_cache_coherence_interval_ms = 1000,
     g_cache_log_interval = Fin 60,
     g_cache_state_enabled = False,
     g_cache_state_ttl = Fin 1,
     g_cache_state_max_entries = 4096,
     g_cache_object_enabled = True,
     g_cache_object_ttl = Fin 300,
     g_cache_object_max_entries = 4096,
     g_cache_object_list_enabled = True,
     g_cache_object_list_ttl = Fin 300,
     g_cache_object_list_max_entries = 256,
     g_cache_device_enabled = True,
     g_cache_device_ttl = Fin 60,
     g_cache_device_max_entries = 256,
     g_cache_ip_enabled = True,
     g_cache_ip_ttl = Fin 300,
     g_cache_ip_max_entries = 256,
     g_cache_negative_enabled = False,
     g_cache_negative_whois_ttl = Fin 2,
     g_cache_negative_read_ttl = Fin 1,
     g_cache_negative_max_entries = 1024,
     g_next_invoke_id = 1,
     g_client_initialized = False\<rparr>"

text \<open>REGISTER_INI_ENTRIES: every entry of the table stores its default text, parsed.\<close>

definition bacnet_ini_defaults :: "bacnet_globals \<Rightarrow> bacnet_globals" where
  "bacnet_ini_defaults g = g
    \<lparr>g_default_port := 47808,
     g_default_timeout_ms := 3000,
     g_default_interface := Some ''0.0.0.0'',
     g_server_security_enabled := True,
     g_server_per_source_rate := Fin 50,
     g_server_per_source_burst := 100,
     g_server_global_rate := Fin 500,
     g_server_global_burst := 1000,
     g_server_who_is_rate := Fin 2,
     g_server_who_is_burst := 5,
     g_server_write_rate := Fin 5,
     g_server_write_burst := 10,
     g_server_flood_violations := 20,
     g_server_flood_window := Fin 10,
     g_server_block_duration := Fin 60,
     g_server_duplicate_window := Fin 5,
     g_server_allowed_networks := Some '''',
     g_server_denied_networks := Some '''',
     g_server_max_sources := 1024,
     g_server_source_ttl := Fin 300,
     g_server_log_interval := Fin 60,
     g_cache_enabled := True,
     g_cache_l2_backend := Some ''lmdb'',
     g_cache_namespace := Some '''',
     g_cache_lmdb_path := Some ''/var/cache/php-bacnet'',
     g_cache_shm_name := Some '''',
     g_cache_l1_max_bytes := 16777216,
     g_cache_l2_max_bytes := 16777216,
     g_cache_lmdb_map_size := 67108864,
     g_cache_coherence_interval_ms := 1000,
     g_cache_log_interval := Fin 60,
     g_cache_state_enabled := False,
     g_cache_state_ttl := Fin 1,
     g_cache_state_max_entries := 4096,
     g_cache_object_enabled := True,
     g_cache_object_ttl := Fin 300,
     g_cache_object_max_entries := 4096,
     g_cache_object_list_enabled := True,
     g_cache_object_list_ttl := Fin 300,
     g_cache_object_list_max_entries := 256,
     g_cache_device_enabled := True,
     g_cache_device_ttl := Fin 60,
     g_cache_device_max_entries := 256,
     g_cache_ip_enabled := True,
     g_cache_ip_ttl := Fin 300,
     g_cache_ip_max_entries := 256,
     g_cache_negative_enabled := False,
     g_cache_negative_whois_ttl := Fin 2,
     g_cache_negative_read_ttl := Fin 1,
     g_cache_negative_max_entries := 1024\<rparr>"

definition PHP_MINIT_bacnet :: bacnet_globals where
  "PHP_MINIT_bacnet = bacnet_ini_defaults php_bacnet_init_globals"

definition PHP_RINIT_bacnet :: "bacnet_globals \<Rightarrow> bacnet_globals" where
  "PHP_RINIT_bacnet g = g\<lparr>g_next_invoke_id := 1, g_client_initialized := False\<rparr>"

text \<open>The two tables of defaults agree but for the strings, which are only set by the second.\<close>

lemma defaults_agree:
  "PHP_MINIT_bacnet = php_bacnet_init_globals
    \<lparr>g_default_interface := Some ''0.0.0.0'', g_server_allowed_networks := Some [], g_server_denied_networks := Some [],
     g_cache_l2_backend := Some ''lmdb'', g_cache_namespace := Some [],
     g_cache_lmdb_path := Some ''/var/cache/php-bacnet'', g_cache_shm_name := Some []\<rparr>"
  by (simp add: PHP_MINIT_bacnet_def bacnet_ini_defaults_def php_bacnet_init_globals_def PHP_BACNET_DEFAULT_PORT_def)

lemma request_starts_clean: "PHP_RINIT_bacnet PHP_MINIT_bacnet = PHP_MINIT_bacnet"
  by (simp add: PHP_RINIT_bacnet_def PHP_MINIT_bacnet_def bacnet_ini_defaults_def php_bacnet_init_globals_def)

text \<open>An accessor of a string global: the code writes BACNET_G(x) ?: "".\<close>

definition ini_string :: "string option \<Rightarrow> string" where
  "ini_string s = (case s of Some t \<Rightarrow> cstr t | None \<Rightarrow> [])"

end
