(* ===== verification/Security.thy ===== *)
theory Security
  imports Security_Acl Token_Bucket Ini
begin

text \<open>
  The state of the server protection layer of src/bacnet_security.c and its configuration:
  options taken from the INI globals, validated, overridden from a PHP array, and read back.
  Errors are the ValueErrors the C code raises.  sec_warned collects the E_WARNING messages
  issued (the packet count each reports), the most recent first; it has no counterpart in the
  C struct.
\<close>

record security_options =
  o_enabled :: bool
  o_per_source_rate :: dbl
  o_global_rate :: dbl
  o_who_is_rate :: dbl
  o_write_rate :: dbl
  o_per_source_burst :: u32
  o_global_burst :: u32
  o_who_is_burst :: u32
  o_write_burst :: u32
  o_flood_violations :: u32
  o_max_sources :: u32
  o_flood_window :: dbl
  o_block_duration :: dbl
  o_duplicate_window :: dbl
  o_source_ttl :: dbl
  o_log_interval :: dbl
  o_allowed_networks :: string
  o_denied_networks :: string
  o_allowed :: "security_cidr list"
  o_denied :: "security_cidr list"

record security_source =
  x_ip :: u32
  x_tokens :: dbl
  x_who_tokens :: dbl
  x_write_tokens :: dbl
  x_updated :: dbl
  x_who_updated :: dbl
  x_write_updated :: dbl
  x_last_seen :: dbl
  x_violation_started :: dbl
  x_blocked_until :: dbl
  x_violations :: u32
  x_accepted :: u64
  x_rate_drops :: u64
  x_acl_drops :: u64
  x_blocked_drops :: u64
  x_malformed :: u64
  x_used :: bool

record security_duplicate =
  dup_ip :: u32
  dup_hash :: u64
  dup_expires :: dbl
  dup_used :: bool

record security_stats =
  st_accepted_packets :: u64
  st_rate_drops :: u64
  st_acl_drops :: u64
  st_blocked_drops :: u64
  st_malformed_pdus :: u64
  st_queue_overflows :: u64
  st_deduplicated_writes :: u64

record security =
  sec_options :: security_options
  sec_stats :: security_stats
  sec_sources :: "security_source list"
  sec_source_count :: u32
  sec_global_tokens :: dbl
  sec_global_updated :: dbl
  sec_last_log :: dbl
  sec_pending_warnings :: u64
  sec_duplicates :: "security_duplicate list"
  sec_duplicate_cursor :: u16
  sec_warned :: "u64 list"

text \<open>The values memset and ecalloc leave.\<close>

definition empty_source :: security_source where
  "empty_source = \<lparr>x_ip = 0, x_tokens = 0, x_who_tokens = 0, x_write_tokens = 0, x_updated = 0,
    x_who_updated = 0, x_write_updated = 0, x_last_seen = 0, x_violation_started = 0,
    x_blocked_until = 0, x_violations = 0, x_accepted = 0, x_rate_drops = 0, x_acl_drops = 0,
    x_blocked_drops = 0, x_malformed = 0, x_used = False\<rparr>"

definition empty_duplicate :: security_duplicate where
  "empty_duplicate = \<lparr>dup_ip = 0, dup_hash = 0, dup_expires = 0, dup_used = False\<rparr>"

definition empty_stats :: security_stats where
  "empty_stats = \<lparr>st_accepted_packets = 0, st_rate_drops = 0, st_acl_drops = 0,
    st_blocked_drops = 0, st_malformed_pdus = 0, st_queue_overflows = 0,
    st_deduplicated_writes = 0\<rparr>"

definition SECURITY_DUPLICATES :: nat where
  "SECURITY_DUPLICATES = 4096"

text \<open>php_bacnet_security_now: the monotonic clock, from its seconds and nanoseconds.\<close>

definition php_bacnet_security_now :: "int \<Rightarrow> int \<Rightarrow> dbl" where
  "php_bacnet_security_now tv_sec tv_nsec =
    dbl_of_int tv_sec + Fin (dround (of_int tv_nsec / 1000000000))"

subsection \<open>Options\<close>

datatype value_error =
    ErrNotPositive
  | ErrCidr string string
  | ErrKeyNotString
  | ErrEnabledNotBool
  | ErrNetworksNotArray string
  | ErrNetworksNotStrings string
  | ErrNotNumeric string
  | ErrUnknownOption string

definition burst_from_ini :: "int \<Rightarrow> u32" where
  "burst_from_ini v = (if v > 0 \<and> v \<le> 4294967295 then word_of_int v else 0)"

definition php_bacnet_security_options_from_ini :: "bacnet_globals \<Rightarrow> security_options" where
  "php_bacnet_security_options_from_ini g =
    \<lparr>o_enabled = g_server_security_enabled g,
     o_per_source_rate = g_server_per_source_rate g,
     o_global_rate = g_server_global_rate g,
     o_who_is_rate = g_server_who_is_rate g,
     o_write_rate = g_server_write_rate g,
     o_per_source_burst = burst_from_ini (g_server_per_source_burst g),
     o_global_burst = burst_from_ini (g_server_global_burst g),
     o_who_is_burst = burst_from_ini (g_server_who_is_burst g),
     o_write_burst = burst_from_ini (g_server_write_burst g),
     o_flood_violations = burst_from_ini (g_server_flood_violations g),
     o_max_sources = (if g_server_max_sources g > 0 \<and> g_server_max_sources g \<le> 65535
                      then word_of_int (g_server_max_sources g) else 0),
     o_flood_window = g_server_flood_window g,
     o_block_duration = g_server_block_duration g,
     o_duplicate_window = g_server_duplicate_window g,
     o_source_ttl = g_server_source_ttl g,
     o_log_interval = g_server_log_interval g,
     o_allowed_networks = ini_string (g_server_allowed_networks g),
     o_denied_networks = ini_string (g_server_denied_networks g),
     o_allowed = [],
     o_denied = []\<rparr>"

definition php_bacnet_security_valid_number :: "dbl \<Rightarrow> bool" where
  "php_bacnet_security_valid_number v \<longleftrightarrow> isfinite v \<and> 0 < v"

definition options_positive :: "security_options \<Rightarrow> bool" where
  "options_positive n \<longleftrightarrow>
    \<not> (\<not> php_bacnet_security_valid_number (o_per_source_rate n) \<or> o_per_source_burst n = 0 \<or>
       \<not> php_bacnet_security_valid_number (o_global_rate n) \<or> o_global_burst n = 0 \<or>
       \<not> php_bacnet_security_valid_number (o_who_is_rate n) \<or> o_who_is_burst n = 0 \<or>
       \<not> php_bacnet_security_valid_number (o_write_rate n) \<or> o_write_burst n = 0 \<or>
       o_flood_violations n = 0 \<or> \<not> php_bacnet_security_valid_number (o_flood_window n) \<or>
       \<not> php_bacnet_security_valid_number (o_block_duration n) \<or>
       \<not> php_bacnet_security_valid_number (o_duplicate_window n) \<or> o_max_sources n = 0 \<or>
       o_max_sources n > 65535 \<or> \<not> php_bacnet_security_valid_number (o_source_ttl n) \<or>
       \<not> php_bacnet_security_valid_number (o_log_interval n))"

definition php_bacnet_security_validate_options ::
    "security_options \<Rightarrow> value_error + security_options" where
  "php_bacnet_security_validate_options n =
    (if \<not> options_positive n then Inl ErrNotPositive
     else case php_bacnet_security_parse_cidr_list (o_allowed_networks n) of
            Inl item \<Rightarrow> Inl (ErrCidr item ''allowed_networks'')
          | Inr allowed \<Rightarrow>
              (case php_bacnet_security_parse_cidr_list (o_denied_networks n) of
                 Inl item \<Rightarrow> Inl (ErrCidr item ''denied_networks'')
               | Inr denied \<Rightarrow> Inr (n\<lparr>o_allowed := allowed, o_denied := denied\<rparr>)))"

definition php_bacnet_security_create :: "bacnet_globals \<Rightarrow> dbl \<Rightarrow> value_error + security" where
  "php_bacnet_security_create g now =
    (case php_bacnet_security_validate_options (php_bacnet_security_options_from_ini g) of
       Inl err \<Rightarrow> Inl err
     | Inr n \<Rightarrow>
         Inr \<lparr>sec_options = n,
              sec_stats = empty_stats,
              sec_sources = replicate (unat (o_max_sources n)) empty_source,
              sec_source_count = 0,
              sec_global_tokens = dbl_of_u32 (o_global_burst n),
              sec_global_updated = now,
              sec_last_log = now,
              sec_pending_warnings = 0,
              sec_duplicates = replicate SECURITY_DUPLICATES empty_duplicate,
              sec_duplicate_cursor = 0,
              sec_warned = []\<rparr>)"

subsection \<open>Overrides from a PHP array\<close>

fun php_bacnet_security_numeric :: "zval \<Rightarrow> dbl option" where
  "php_bacnet_security_numeric (ZLong n) = Some (dbl_of_int n)"
| "php_bacnet_security_numeric (ZDouble d) = Some d"
| "php_bacnet_security_numeric _ = None"

text \<open>The loop over the array; l is the smart_str.\<close>

fun network_array_loop :: "string \<Rightarrow> zval list \<Rightarrow> string \<Rightarrow> value_error + string" where
  "network_array_loop key [] l = Inr l"
| "network_array_loop key (item # items) l =
     (case item of
        ZString s \<Rightarrow> network_array_loop key items ((if l \<noteq> [] then l @ '','' else l) @ s)
      | _ \<Rightarrow> Inl (ErrNetworksNotStrings key))"

definition php_bacnet_security_network_array :: "zval \<Rightarrow> string \<Rightarrow> value_error + string" where
  "php_bacnet_security_network_array zv key =
    (case zv of
       ZArray items \<Rightarrow>
         (case network_array_loop key (map snd items) [] of
            Inl err \<Rightarrow> Inl err
          | Inr l \<Rightarrow> Inr (cstr l))
     | _ \<Rightarrow> Inl (ErrNetworksNotArray key))"

definition set_uint :: "dbl \<Rightarrow> u32" where
  "set_uint number =
    (case number of
       Fin q \<Rightarrow> (if 0 < q \<and> q \<le> 4294967295 \<and> of_int \<lfloor>q\<rfloor> = q then word_of_int \<lfloor>q\<rfloor> else 0)
     | _ \<Rightarrow> 0)"

definition set_number :: "string \<Rightarrow> dbl \<Rightarrow> security_options \<Rightarrow> value_error + security_options" where
  "set_number k number n =
    (if k = ''per_source_rate'' then Inr (n\<lparr>o_per_source_rate := number\<rparr>)
     else if k = ''per_source_burst'' then Inr (n\<lparr>o_per_source_burst := set_uint number\<rparr>)
     else if k = ''global_rate'' then Inr (n\<lparr>o_global_rate := number\<rparr>)
     else if k = ''global_burst'' then Inr (n\<lparr>o_global_burst := set_uint number\<rparr>)
     else if k = ''who_is_rate'' then Inr (n\<lparr>o_who_is_rate := number\<rparr>)
     else if k = ''who_is_burst'' then Inr (n\<lparr>o_who_is_burst := set_uint number\<rparr>)
     else if k = ''write_rate'' then Inr (n\<lparr>o_write_rate := number\<rparr>)
     else if k = ''write_burst'' then Inr (n\<lparr>o_write_burst := set_uint number\<rparr>)
     else if k = ''flood_violations'' then Inr (n\<lparr>o_flood_violations := set_uint number\<rparr>)
     else if k = ''flood_window_seconds'' then Inr (n\<lparr>o_flood_window := number\<rparr>)
     else if k = ''block_duration_seconds'' then Inr (n\<lparr>o_block_duration := number\<rparr>)
     else if k = ''duplicate_window_seconds'' then Inr (n\<lparr>o_duplicate_window := number\<rparr>)
     else if k = ''max_sources'' then Inr (n\<lparr>o_max_sources := set_uint number\<rparr>)
     else if k = ''source_ttl_seconds'' then Inr (n\<lparr>o_source_ttl := number\<rparr>)
     else if k = ''log_interval_seconds'' then Inr (n\<lparr>o_log_interval := number\<rparr>)
     else Inl (ErrUnknownOption k))"

definition set_option :: "zkey \<Rightarrow> zval \<Rightarrow> security_options \<Rightarrow> value_error + security_options" where
  "set_option key v n =
    (case key of
       KInt _ \<Rightarrow> Inl ErrKeyNotString
     | KStr s \<Rightarrow>
         (let k = cstr s
          in if k = ''enabled'' then
               (case v of
                  ZBool b \<Rightarrow> Inr (n\<lparr>o_enabled := zend_is_true v\<rparr>)
                | _ \<Rightarrow> Inl ErrEnabledNotBool)
             else if k = ''allowed_networks'' \<or> k = ''denied_networks'' then
               (case php_bacnet_security_network_array v k of
                  Inl err \<Rightarrow> Inl err
                | Inr networks \<Rightarrow>
                    Inr (if k = ''allowed_networks'' then n\<lparr>o_allowed_networks := networks\<rparr>
                         else n\<lparr>o_denied_networks := networks\<rparr>))
             else
               (case php_bacnet_security_numeric v of
                  None \<Rightarrow> Inl (ErrNotNumeric k)
                | Some number \<Rightarrow> set_number k number n)))"

fun set_options_loop :: "(zkey \<times> zval) list \<Rightarrow> security_options \<Rightarrow> value_error + security_options" where
  "set_options_loop [] n = Inr n"
| "set_options_loop ((key, v) # rest) n =
     (case set_option key v n of
        Inl err \<Rightarrow> Inl err
      | Inr n' \<Rightarrow> set_options_loop rest n')"

text \<open>
  On an error the state is not touched.  On success the tables start empty and the global
  bucket full; the statistics and the position in the duplicate table are kept.
\<close>

definition php_bacnet_security_configure ::
    "(zkey \<times> zval) list \<Rightarrow> dbl \<Rightarrow> security \<Rightarrow> (value_error + unit) \<times> security" where
  "php_bacnet_security_configure overrides now s =
    (case set_options_loop overrides (sec_options s) of
       Inl err \<Rightarrow> (Inl err, s)
     | Inr n \<Rightarrow>
         (case php_bacnet_security_validate_options n of
            Inl err \<Rightarrow> (Inl err, s)
          | Inr n \<Rightarrow>
              (Inr (),
               s\<lparr>sec_options := n,
                 sec_sources := replicate (unat (o_max_sources n)) empty_source,
                 sec_source_count := 0,
                 sec_duplicates := replicate SECURITY_DUPLICATES empty_duplicate,
                 sec_global_tokens := dbl_of_u32 (o_global_burst n),
                 sec_global_updated := now,
                 sec_last_log := now,
                 sec_pending_warnings := 0\<rparr>)))"

subsection \<open>Reading the options back\<close>

definition php_bacnet_security_options_to_array :: "security \<Rightarrow> zval" where
  "php_bacnet_security_options_to_array s =
    (let n = sec_options s;
         list_of = (\<lambda>l. let vs = strtok_all is_list_sep l
                        in ZArray (zip (map (\<lambda>i. KInt (int i)) [0..<length vs]) (map ZString vs)))
     in ZArray
      [(KStr ''enabled'', ZBool (o_enabled n)),
       (KStr ''per_source_rate'', ZDouble (o_per_source_rate n)),
       (KStr ''per_source_burst'', ZLong (uint (o_per_source_burst n))),
       (KStr ''global_rate'', ZDouble (o_global_rate n)),
       (KStr ''global_burst'', ZLong (uint (o_global_burst n))),
       (KStr ''who_is_rate'', ZDouble (o_who_is_rate n)),
       (KStr ''who_is_burst'', ZLong (uint (o_who_is_burst n))),
       (KStr ''write_rate'', ZDouble (o_write_rate n)),
       (KStr ''write_burst'', ZLong (uint (o_write_burst n))),
       (KStr ''flood_violations'', ZLong (uint (o_flood_violations n))),
       (KStr ''flood_window_seconds'', ZDouble (o_flood_window n)),
       (KStr ''block_duration_seconds'', ZDouble (o_block_duration n)),
       (KStr ''duplicate_window_seconds'', ZDouble (o_duplicate_window n)),
       (KStr ''max_sources'', ZLong (uint (o_max_sources n))),
       (KStr ''source_ttl_seconds'', ZDouble (o_source_ttl n)),
       (KStr ''log_interval_seconds'', ZDouble (o_log_interval n)),
       (KStr ''allowed_networks'', list_of (o_allowed_networks n)),
       (KStr ''denied_networks'', list_of (o_denied_networks n))])"

end
