(* ===== verification/Security_Config.thy ===== *)
theory Security_Config
  imports Security
begin

text \<open>
  Correctness of the configuration of src/bacnet_security.c: what a validated set of options
  guarantees, that the INI defaults are valid, that a failed configure changes nothing and a
  successful one starts with empty tables, and that configuring a server with the options it
  reports reproduces them.
\<close>

subsection \<open>Validated options\<close>

definition nul_free :: "string \<Rightarrow> bool" where
  "nul_free s \<longleftrightarrow> CHR 0x00 \<notin> set s"

lemma nul_free_cstr [simp]: "nul_free (cstr s)"
  by (auto simp: nul_free_def cstr_def dest: set_takeWhileD)

definition options_ok :: "security_options \<Rightarrow> bool" where
  "options_ok n \<longleftrightarrow>
     options_positive n \<and>
     php_bacnet_security_parse_cidr_list (o_allowed_networks n) = Inr (o_allowed n) \<and>
     php_bacnet_security_parse_cidr_list (o_denied_networks n) = Inr (o_denied n)"

definition options_text_ok :: "security_options \<Rightarrow> bool" where
  "options_text_ok n \<longleftrightarrow> nul_free (o_allowed_networks n) \<and> nul_free (o_denied_networks n)"

lemma validate_Inr:
  "php_bacnet_security_validate_options n = Inr n' \<Longrightarrow>
     options_ok n' \<and> n' = n\<lparr>o_allowed := o_allowed n', o_denied := o_denied n'\<rparr>"
  by (auto simp: php_bacnet_security_validate_options_def options_ok_def options_positive_def
      split: if_splits sum.splits)

lemma validate_fields:
  assumes "php_bacnet_security_validate_options n = Inr n'"
  shows "o_allowed_networks n' = o_allowed_networks n" "o_denied_networks n' = o_denied_networks n"
    "o_max_sources n' = o_max_sources n" "o_enabled n' = o_enabled n"
  using assms
  by (auto simp: php_bacnet_security_validate_options_def split: if_splits sum.splits)

lemma validate_ok: "options_ok n \<Longrightarrow> php_bacnet_security_validate_options n = Inr n"
  by (simp add: php_bacnet_security_validate_options_def options_ok_def)

lemma options_positiveD:
  assumes "options_positive n"
  shows "isfinite (o_global_rate n)" "0 < dbl_val (o_global_rate n)"
    "isfinite (o_per_source_rate n)" "0 < dbl_val (o_per_source_rate n)"
    "isfinite (o_who_is_rate n)" "0 < dbl_val (o_who_is_rate n)"
    "isfinite (o_write_rate n)" "0 < dbl_val (o_write_rate n)"
    "isfinite (o_source_ttl n)" "0 < dbl_val (o_source_ttl n)"
    "isfinite (o_block_duration n)" "0 < dbl_val (o_block_duration n)"
    "isfinite (o_flood_window n)" "0 < dbl_val (o_flood_window n)"
    "isfinite (o_duplicate_window n)" "0 < dbl_val (o_duplicate_window n)"
    "isfinite (o_log_interval n)" "0 < dbl_val (o_log_interval n)"
    "0 < unat (o_global_burst n)" "0 < unat (o_per_source_burst n)"
    "0 < unat (o_who_is_burst n)" "0 < unat (o_write_burst n)"
    "0 < unat (o_flood_violations n)" "0 < unat (o_max_sources n)" "unat (o_max_sources n) \<le> 65535"
proof -
  have v: "isfinite d \<and> 0 < dbl_val d" if "php_bacnet_security_valid_number d" for d
    using that by (cases d) (auto simp: php_bacnet_security_valid_number_def dbl_simps)
  note a = assms [unfolded options_positive_def de_Morgan_disj not_not]
  show "isfinite (o_global_rate n)" "0 < dbl_val (o_global_rate n)"
    "isfinite (o_per_source_rate n)" "0 < dbl_val (o_per_source_rate n)"
    "isfinite (o_who_is_rate n)" "0 < dbl_val (o_who_is_rate n)"
    "isfinite (o_write_rate n)" "0 < dbl_val (o_write_rate n)"
    "isfinite (o_source_ttl n)" "0 < dbl_val (o_source_ttl n)"
    "isfinite (o_block_duration n)" "0 < dbl_val (o_block_duration n)"
    "isfinite (o_flood_window n)" "0 < dbl_val (o_flood_window n)"
    "isfinite (o_duplicate_window n)" "0 < dbl_val (o_duplicate_window n)"
    "isfinite (o_log_interval n)" "0 < dbl_val (o_log_interval n)"
    using a v by blast+
  show "0 < unat (o_global_burst n)" "0 < unat (o_per_source_burst n)"
    "0 < unat (o_who_is_burst n)" "0 < unat (o_write_burst n)"
    "0 < unat (o_flood_violations n)" "0 < unat (o_max_sources n)"
    using a by (simp_all add: unat_gt_0)
  have "o_max_sources n \<le> 65535" using a by (simp add: not_less)
  then show "unat (o_max_sources n) \<le> 65535"
    by (simp add: word_le_nat_alt)
qed

text \<open>Every option array keeps the list texts free of NUL bytes.\<close>

lemma set_number_text: "set_number k v n = Inr n' \<Longrightarrow> options_text_ok n' = options_text_ok n"
  by (auto simp: set_number_def options_text_ok_def split: if_splits)

lemma network_array_nul_free: "php_bacnet_security_network_array v k = Inr l \<Longrightarrow> nul_free l"
  by (auto simp: php_bacnet_security_network_array_def split: zval.splits sum.splits)

lemma set_option_text: "set_option k v n = Inr n' \<Longrightarrow> options_text_ok n \<Longrightarrow> options_text_ok n'"
  by (auto simp: set_option_def Let_def set_number_text split: zkey.splits zval.splits if_splits
      sum.splits option.splits)
     (auto simp: options_text_ok_def dest: network_array_nul_free)

lemma set_options_loop_text:
  "set_options_loop kvs n = Inr n' \<Longrightarrow> options_text_ok n \<Longrightarrow> options_text_ok n'"
  by (induction kvs n rule: set_options_loop.induct) (auto split: sum.splits dest: set_option_text)

subsection \<open>The state\<close>

definition global_bucket :: "security \<Rightarrow> bucket" where
  "global_bucket s = \<lparr>bk_tokens = sec_global_tokens s, bk_updated = sec_global_updated s,
     bk_rate = o_global_rate (sec_options s), bk_burst = dbl_of_u32 (o_global_burst (sec_options s))\<rparr>"

text \<open>At most one used entry per address, and an exact count of the used entries.\<close>

definition ips_distinct :: "security_source list \<Rightarrow> bool" where
  "ips_distinct xs \<longleftrightarrow>
     (\<forall>i < length xs. \<forall>j < length xs.
        x_used (xs ! i) \<and> x_used (xs ! j) \<and> x_ip (xs ! i) = x_ip (xs ! j) \<longrightarrow> i = j)"

definition table_wf :: "security_source list \<Rightarrow> u32 \<Rightarrow> bool" where
  "table_wf xs count \<longleftrightarrow> count = of_nat (length (filter x_used xs)) \<and> ips_distinct xs"

definition sources_wf :: "security \<Rightarrow> bool" where
  "sources_wf s \<longleftrightarrow>
     length (sec_sources s) = unat (o_max_sources (sec_options s)) \<and>
     table_wf (sec_sources s) (sec_source_count s)"

definition security_wf :: "security \<Rightarrow> bool" where
  "security_wf s \<longleftrightarrow>
     options_ok (sec_options s) \<and> options_text_ok (sec_options s) \<and> sources_wf s \<and>
     bucket_ok (global_bucket s) \<and> length (sec_duplicates s) = SECURITY_DUPLICATES"

lemma burst_rat: "0 < unat (w::u32) \<Longrightarrow> 1 \<le> (of_nat (unat w) :: rat) \<and> (of_nat (unat w) :: rat) \<le> 2 ^ 32"
proof -
  assume "0 < unat w"
  then have "1 \<le> unat w" by simp
  then have "(1::rat) \<le> of_nat (unat w)"
    by (metis of_nat_1 of_nat_le_iff)
  moreover have "unat w < 2 ^ LENGTH(32)"
    by (rule unsigned_less)
  then have "(of_nat (unat w) :: rat) < of_nat (2 ^ LENGTH(32))"
    by (simp only: of_nat_less_iff)
  then have "(of_nat (unat w) :: rat) < 2 ^ 32"
    by (simp only: of_nat_power of_nat_numeral len_bit0 len_num1) simp
  ultimately show ?thesis
    by (simp only: order_less_imp_le simp_thms)
qed

lemma full_bucket_ok:
  assumes "options_positive n" "isfinite now"
  shows "bucket_ok \<lparr>bk_tokens = dbl_of_u32 (o_global_burst n), bk_updated = now,
    bk_rate = o_global_rate n, bk_burst = dbl_of_u32 (o_global_burst n)\<rparr>"
  using assms burst_rat [OF options_positiveD(19) [OF assms(1)]]
    options_positiveD(1,2) [OF assms(1)]
  by (simp add: bucket_ok_def dbl_of_u32_def)

lemma fresh_sources_wf:
  "sec_sources s = replicate (unat (o_max_sources (sec_options s))) empty_source \<Longrightarrow>
   sec_source_count s = 0 \<Longrightarrow> sources_wf s"
  by (simp add: sources_wf_def table_wf_def ips_distinct_def empty_source_def)

lemma create_wf:
  assumes "php_bacnet_security_create g now = Inr s" and "isfinite now"
  shows "security_wf s"
proof -
  obtain n where n: "php_bacnet_security_validate_options (php_bacnet_security_options_from_ini g) = Inr n"
    and s: "sec_options s = n" "sec_sources s = replicate (unat (o_max_sources n)) empty_source"
      "sec_source_count s = 0" "sec_global_tokens s = dbl_of_u32 (o_global_burst n)"
      "sec_global_updated s = now" "length (sec_duplicates s) = SECURITY_DUPLICATES"
    using assms(1) by (auto simp: php_bacnet_security_create_def split: sum.splits)
  have ok: "options_ok n" using validate_Inr [OF n] by simp
  have "options_text_ok n"
    unfolding options_text_ok_def validate_fields [OF n]
    by (simp add: php_bacnet_security_options_from_ini_def ini_string_def
        nul_free_def [of "[]"] split: option.splits)
  moreover have "bucket_ok (global_bucket s)"
    using full_bucket_ok [of n now] ok assms(2) s by (simp add: global_bucket_def options_ok_def)
  ultimately show ?thesis
    using ok s fresh_sources_wf [of s] by (simp add: security_wf_def)
qed

lemma configure_error:
  "fst (php_bacnet_security_configure kvs now s) = Inl err \<Longrightarrow>
   snd (php_bacnet_security_configure kvs now s) = s"
  by (auto simp: php_bacnet_security_configure_def split: sum.splits)

lemma configure_wf:
  assumes "security_wf s" and "isfinite now"
  shows "security_wf (snd (php_bacnet_security_configure kvs now s))"
proof (cases "set_options_loop kvs (sec_options s)")
  case (Inl err)
  then show ?thesis using assms by (simp add: php_bacnet_security_configure_def)
next
  case l: (Inr n)
  show ?thesis
  proof (cases "php_bacnet_security_validate_options n")
    case (Inl err)
    then show ?thesis using assms l by (simp add: php_bacnet_security_configure_def)
  next
    case v: (Inr n')
    have ok: "options_ok n'" using validate_Inr [OF v] by simp
    have "options_text_ok n"
      using set_options_loop_text [OF l] assms by (simp add: security_wf_def)
    moreover have "options_text_ok n' = options_text_ok n"
      unfolding options_text_ok_def validate_fields [OF v] ..
    ultimately show ?thesis
      using assms ok full_bucket_ok [of n' now] l v
      by (simp add: php_bacnet_security_configure_def security_wf_def fresh_sources_wf
          global_bucket_def options_ok_def)
  qed
qed

subsection \<open>The options reported configure the same server\<close>

lemma set_uint_u32: "set_uint (dbl_of_int (uint w)) = w"
proof -
  have eq: "dbl_of_int (uint w) = Fin (of_nat (unat w))"
    using dbl_of_u32_exact [of w] by (simp only: dbl_of_u32_def uint_nat)
  have "unat w < 2 ^ LENGTH(32)"
    by (rule unsigned_less)
  then have "unat w \<le> 4294967295" by simp
  then have "(of_nat (unat w) :: rat) \<le> of_nat 4294967295"
    by (simp only: of_nat_le_iff)
  then have le: "(of_nat (unat w) :: rat) \<le> 4294967295"
    by (simp only: of_nat_numeral)
  have fl: "\<lfloor>of_nat (unat w) :: rat\<rfloor> = int (unat w)"
    by (rule floor_of_nat)
  have w: "word_of_int (int (unat w)) = w"
    by simp
  show ?thesis
  proof (cases "unat w = 0")
    case True
    then show ?thesis
      unfolding eq by (simp add: set_uint_def unat_eq_zero)
  next
    case False
    then have "(0::rat) < of_nat (unat w)" by (simp only: of_nat_0_less_iff neq0_conv)
    then show ?thesis
      unfolding eq set_uint_def dbl.case fl using le w by (simp only: of_int_of_nat_eq if_True simp_thms)
  qed
qed

lemma strtok_tokens:
  "t \<in> set (strtok_all d s) \<Longrightarrow> t \<noteq> [] \<and> (\<forall>c \<in> set t. \<not> d c) \<and> set t \<subseteq> set s"
proof (induction d s rule: strtok_all.induct)
  case (1 d s)
  define u where "u = dropWhile d s"
  have us: "set u \<subseteq> set s"
    using set_dropWhileD unfolding u_def by fast
  show ?case
  proof (cases "u = []")
    case True
    then show ?thesis using 1(2) by (simp add: strtok_all.simps [of d s] u_def)
  next
    case False
    then obtain c cs where u: "u = c # cs" by (cases u) auto
    then have "\<not> d c" by (metis dropWhile_eq_Cons_conv u_def)
    have eq: "strtok_all d s = takeWhile (\<lambda>c. \<not> d c) u # strtok_all d (dropWhile (\<lambda>c. \<not> d c) u)"
      using False by (subst strtok_all.simps) (simp only: u_def Let_def if_False)
    have "t = takeWhile (\<lambda>c. \<not> d c) u \<or> t \<in> set (strtok_all d (dropWhile (\<lambda>c. \<not> d c) u))"
      using 1(2) unfolding eq by simp
    then show ?thesis
    proof
      assume t: "t = takeWhile (\<lambda>c. \<not> d c) u"
      then have "\<forall>x \<in> set t. \<not> d x \<and> x \<in> set u"
        by (metis set_takeWhileD)
      moreover have "t \<noteq> []"
        unfolding t u by (simp only: takeWhile.simps \<open>\<not> d c\<close> if_True simp_thms list.distinct)
      ultimately show ?thesis using us by blast
    next
      assume "t \<in> set (strtok_all d (dropWhile (\<lambda>c. \<not> d c) u))"
      then have "t \<noteq> [] \<and> (\<forall>c \<in> set t. \<not> d c) \<and> set t \<subseteq> set (dropWhile (\<lambda>c. \<not> d c) u)"
        by (rule 1(1) [OF u_def False])
      moreover have "set (dropWhile (\<lambda>c. \<not> d c) u) \<subseteq> set u"
        using set_dropWhileD by (rule subsetI)
      ultimately show ?thesis using us by blast
    qed
  qed
qed

lemma network_array_loop_strings:
  assumes "\<forall>t \<in> set ts. t \<noteq> []"
  shows "network_array_loop key (map ZString ts) l =
    Inr (if l \<noteq> [] \<and> ts \<noteq> [] then l @ CHR '','' # join_comma ts else l @ join_comma ts)"
  using assms
proof (induction ts arbitrary: l)
  case step: (Cons t ts)
  show ?case
  proof (cases ts)
    case Nil
    then show ?thesis by simp
  next
    case (Cons t' ts')
    then show ?thesis
      using step.IH [of "(if l \<noteq> [] then l @ '','' else l) @ t"] step.prems
      by (simp only: list.map network_array_loop.simps zval.case) simp
  qed
qed simp

lemma join_comma_chars: "set (join_comma ts) \<subseteq> insert CHR '','' (\<Union>t \<in> set ts. set t)"
  by (induction ts rule: join_comma.induct) auto

definition network_zval :: "string \<Rightarrow> zval" where
  "network_zval l =
    (let vs = strtok_all is_list_sep l
     in ZArray (zip (map (\<lambda>i. KInt (int i)) [0..<length vs]) (map ZString vs)))"

definition canonical_networks :: "string \<Rightarrow> string" where
  "canonical_networks l = join_comma (strtok_all is_list_sep l)"

lemma nul_free_canonical: "nul_free l \<Longrightarrow> nul_free (canonical_networks l)"
  using join_comma_chars [of "strtok_all is_list_sep l"] strtok_tokens [of _ is_list_sep l]
  by (fastforce simp: nul_free_def canonical_networks_def)

lemma network_array_zval:
  assumes "nul_free l"
  shows "php_bacnet_security_network_array (network_zval l) k = Inr (canonical_networks l)"
proof -
  let ?vs = "strtok_all is_list_sep l"
  have "map snd (zip (map (\<lambda>i. KInt (int i)) [0..<length ?vs]) (map ZString ?vs)) = map ZString ?vs"
    by simp
  moreover have "cstr (canonical_networks l) = canonical_networks l"
    using nul_free_canonical [OF assms] by (simp add: nul_free_def cstr_id)
  ultimately show ?thesis
    using strtok_tokens [of _ is_list_sep l]
    by (simp add: php_bacnet_security_network_array_def network_zval_def Let_def
        network_array_loop_strings canonical_networks_def)
qed

lemma strtok_canonical: "strtok_all is_list_sep (canonical_networks l) = strtok_all is_list_sep l"
  unfolding canonical_networks_def
  by (rule strtok_join_comma) (use strtok_tokens [of _ is_list_sep l] in blast)

lemma parse_canonical:
  "php_bacnet_security_parse_cidr_list (canonical_networks l) = php_bacnet_security_parse_cidr_list l"
  by (cases "l = []")
     (auto simp: php_bacnet_security_parse_cidr_list_def strtok_canonical canonical_networks_def
       strtok_canonical [unfolded canonical_networks_def] dest: arg_cong [where f = "strtok_all is_list_sep"])

definition canonical_options :: "security_options \<Rightarrow> security_options" where
  "canonical_options n = n\<lparr>o_allowed_networks := canonical_networks (o_allowed_networks n),
     o_denied_networks := canonical_networks (o_denied_networks n)\<rparr>"

lemma options_ok_canonical: "options_ok n \<Longrightarrow> options_ok (canonical_options n)"
  by (simp add: options_ok_def canonical_options_def options_positive_def parse_canonical)

definition options_pairs :: "security_options \<Rightarrow> (zkey \<times> zval) list" where
  "options_pairs n =
      [(KStr ''enabled'', ZBool (o_enabled n)),
       (KStr ''per_source_rate'', ZDouble (o_per_source_rate n)),
       (KStr ''per_source_burst'', ZLong (uint (o_per_source_burst n))),
       (KStr ''global_rate'', ZDouble (o_global_rate n)),
       (KStr ''global_burst'', ZLong (uint (o_global_burst n))),
       (KStr ''who_is_rate'', ZDouble (o_who_is_rate n)),
       (KStr ''who_is_burst'', ZLong (uint (o_who_is_burst n))),
       (KStr ''write_rate'', ZDouble (o_write_rate n)),
       (KStr ''write_burst'', ZLong (uint (o_write_burst n))),
       (KStr ''flood_violations'', ZLong (uint (o_flood_violations n))),
       (KStr ''flood_window_seconds'', ZDouble (o_flood_window n)),
       (KStr ''block_duration_seconds'', ZDouble (o_block_duration n)),
       (KStr ''duplicate_window_seconds'', ZDouble (o_duplicate_window n)),
       (KStr ''max_sources'', ZLong (uint (o_max_sources n))),
       (KStr ''source_ttl_seconds'', ZDouble (o_source_ttl n)),
       (KStr ''log_interval_seconds'', ZDouble (o_log_interval n)),
       (KStr ''allowed_networks'', network_zval (o_allowed_networks n)),
       (KStr ''denied_networks'', network_zval (o_denied_networks n))]"

lemma options_to_array_pairs:
  "php_bacnet_security_options_to_array s = ZArray (options_pairs (sec_options s))"
  by (simp add: php_bacnet_security_options_to_array_def options_pairs_def network_zval_def Let_def)

lemma options_pairs_canonical: "options_pairs (canonical_options n) = options_pairs n"
  by (simp add: options_pairs_def canonical_options_def network_zval_def strtok_canonical)

lemma set_options_loop_Cons_Inr:
  "set_option k v n = Inr n' \<Longrightarrow> set_options_loop ((k, v) # kvs) n = set_options_loop kvs n'"
  by simp

lemma set_options_pairs:
  assumes "options_text_ok n"
  shows "set_options_loop (options_pairs n) n = Inr (canonical_options n)"
proof -
  have t: "nul_free (o_allowed_networks n)" "nul_free (o_denied_networks n)"
    using assms by (simp_all add: options_text_ok_def)
  show ?thesis
    by (cases n)
       (use t in \<open>simp add: options_pairs_def set_option_def set_number_def cstr_def set_uint_u32
         network_array_zval canonical_options_def\<close>)
qed

lemma configure_reported:
  assumes "security_wf s" and "php_bacnet_security_options_to_array s = ZArray kvs"
  shows "fst (php_bacnet_security_configure kvs now s) = Inr ()"
    and "sec_options (snd (php_bacnet_security_configure kvs now s)) = canonical_options (sec_options s)"
proof -
  let ?n = "canonical_options (sec_options s)"
  have kvs: "kvs = options_pairs (sec_options s)"
    using assms(2) by (simp add: options_to_array_pairs)
  have "set_options_loop kvs (sec_options s) = Inr ?n"
    unfolding kvs using assms(1) by (intro set_options_pairs) (simp add: security_wf_def)
  moreover have "php_bacnet_security_validate_options ?n = Inr ?n"
    using assms(1) by (intro validate_ok options_ok_canonical) (simp add: security_wf_def)
  ultimately show "fst (php_bacnet_security_configure kvs now s) = Inr ()"
    and "sec_options (snd (php_bacnet_security_configure kvs now s)) = canonical_options (sec_options s)"
    by (simp_all add: php_bacnet_security_configure_def)
qed

end
