(* ===== verification/Security_Sources.thy ===== *)
theory Security_Sources
  imports Security_Config
begin

text \<open>
  The table of packet sources of src/bacnet_security.c: the lookup that also expires, inserts
  and evicts (php_bacnet_security_get_source), and the pass over the table that counts the
  active and blocked sources.  A pointer into the table is its index.  The lemmas show that
  the table keeps at most one entry per address and an exact count, that a lookup always ends
  with an entry of the address asked for, and which other entries it may touch.
\<close>

definition expired :: "dbl \<Rightarrow> dbl \<Rightarrow> security_source \<Rightarrow> bool" where
  "expired ttl now x \<longleftrightarrow> x_used x \<and> ttl < now - x_last_seen x"

record scan_state =
  sc_sources :: "security_source list"
  sc_count :: u32
  sc_free :: "nat option"
  sc_oldest :: "nat option"

text \<open>The first statement of the loop body: entry i is wiped when its time to live is over.\<close>

definition sweep_at :: "dbl \<Rightarrow> dbl \<Rightarrow> nat \<Rightarrow> scan_state \<Rightarrow> scan_state" where
  "sweep_at ttl now i sc =
     (if x_used (sc_sources sc ! i) \<and> now - x_last_seen (sc_sources sc ! i) > ttl
      then sc\<lparr>sc_sources := (sc_sources sc)[i := empty_source], sc_count := sc_count sc - 1\<rparr>
      else sc)"

text \<open>The last two statements: entry i as the first free or the least recently seen slot.\<close>

definition note_slot :: "nat \<Rightarrow> scan_state \<Rightarrow> scan_state" where
  "note_slot i sc =
     (let x = sc_sources sc ! i;
          sc = (if \<not> x_used x \<and> sc_free sc = None then sc\<lparr>sc_free := Some i\<rparr> else sc);
          older = (case sc_oldest sc of
                     None \<Rightarrow> True
                   | Some j \<Rightarrow> x_last_seen x < x_last_seen (sc_sources sc ! j))
      in if x_used x \<and> older then sc\<lparr>sc_oldest := Some i\<rparr> else sc)"

text \<open>
  The loop of get_source, from index i on, for the k indices left; the first component is the
  entry it returns from inside the loop.
\<close>

fun get_source_scan ::
    "dbl \<Rightarrow> u32 \<Rightarrow> dbl \<Rightarrow> nat \<Rightarrow> nat \<Rightarrow> scan_state \<Rightarrow> nat option \<times> scan_state" where
  "get_source_scan ttl ip now 0 i sc = (None, sc)"
| "get_source_scan ttl ip now (Suc k) i sc =
     (let sc = sweep_at ttl now i sc;
          x = sc_sources sc ! i
      in if x_used x \<and> x_ip x = ip
         then (Some i, sc\<lparr>sc_sources := (sc_sources sc)[i := x\<lparr>x_last_seen := now\<rparr>]\<rparr>)
         else get_source_scan ttl ip now k (Suc i) (note_slot i sc))"

definition new_source :: "security_options \<Rightarrow> u32 \<Rightarrow> dbl \<Rightarrow> security_source" where
  "new_source n ip now = empty_source
     \<lparr>x_used := True, x_ip := ip, x_last_seen := now,
      x_tokens := dbl_of_u32 (o_per_source_burst n), x_who_tokens := dbl_of_u32 (o_who_is_burst n),
      x_write_tokens := dbl_of_u32 (o_write_burst n),
      x_updated := now, x_who_updated := now, x_write_updated := now\<rparr>"

definition php_bacnet_security_get_source ::
    "u32 \<Rightarrow> dbl \<Rightarrow> security \<Rightarrow> nat option \<times> security" where
  "php_bacnet_security_get_source ip now s =
    (let n = sec_options s;
         (found, sc) = get_source_scan (o_source_ttl n) ip now (unat (o_max_sources n)) 0
           \<lparr>sc_sources = sec_sources s, sc_count = sec_source_count s, sc_free = None, sc_oldest = None\<rparr>;
         s = s\<lparr>sec_sources := sc_sources sc, sec_source_count := sc_count sc\<rparr>
     in case found of
          Some i \<Rightarrow> (Some i, s)
        | None \<Rightarrow>
            (case (case sc_free sc of Some i \<Rightarrow> Some i | None \<Rightarrow> sc_oldest sc) of
               None \<Rightarrow> (None, s)
             | Some i \<Rightarrow>
                 (Some i,
                  s\<lparr>sec_source_count :=
                      (if \<not> x_used (sc_sources sc ! i) then sec_source_count s + 1
                       else sec_source_count s),
                    sec_sources := (sec_sources s)[i := new_source n ip now]\<rparr>)))"

text \<open>active_sources: the numbers of active and of blocked sources, with the table swept.\<close>

fun active_sources_loop ::
    "dbl \<Rightarrow> dbl \<Rightarrow> nat \<Rightarrow> nat \<Rightarrow> security_source list \<times> u32 \<times> u32 \<times> u32 \<Rightarrow> security_source list \<times> u32 \<times> u32 \<times> u32"
  where
  "active_sources_loop ttl now 0 i st = st"
| "active_sources_loop ttl now (Suc k) i (xs, count, active, blocked) =
     active_sources_loop ttl now k (Suc i)
       (if x_used (xs ! i) then
          (if now - x_last_seen (xs ! i) > ttl
           then (xs[i := empty_source], count - 1, active, blocked)
           else (xs, count, active + 1, if x_blocked_until (xs ! i) > now then blocked + 1 else blocked))
        else (xs, count, active, blocked))"

definition php_bacnet_security_active_sources :: "dbl \<Rightarrow> security \<Rightarrow> u32 \<times> u32 \<times> security" where
  "php_bacnet_security_active_sources now s =
    (let (xs, count, active, blocked) =
           active_sources_loop (o_source_ttl (sec_options s)) now
             (unat (o_max_sources (sec_options s))) 0 (sec_sources s, sec_source_count s, 0, 0)
     in (active, blocked, s\<lparr>sec_sources := xs, sec_source_count := count\<rparr>))"

subsection \<open>Tables\<close>

lemma of_nat_used_update:
  assumes "i < length xs"
  shows "(of_nat (length (filter x_used (xs[i := x]))) :: u32) =
    of_nat (length (filter x_used xs)) + (if x_used x then 1 else 0) - (if x_used (xs ! i) then 1 else 0)"
proof -
  have "of_nat (length (filter x_used (xs[i := x])) + (if x_used (xs ! i) then 1 else 0))
      = (of_nat (length (filter x_used xs) + (if x_used x then 1 else 0)) :: u32)"
    using length_filter_list_update [OF assms, of x_used x] by (simp only:)
  then show ?thesis
    by (cases "x_used x"; cases "x_used (xs ! i)")
       (simp_all only: if_True if_False of_nat_add of_nat_1 of_nat_0 eq_diff_eq add_0_right diff_zero)
qed

lemma ips_distinct_update:
  assumes "ips_distinct xs"
    and "x_used x \<Longrightarrow> \<forall>j < length xs. j \<noteq> i \<longrightarrow> x_used (xs ! j) \<longrightarrow> x_ip (xs ! j) \<noteq> x_ip x"
  shows "ips_distinct (xs[i := x])"
  unfolding ips_distinct_def
proof (intro allI impI)
  fix j k
  assume jk: "j < length (xs[i := x])" "k < length (xs[i := x])"
    and u: "x_used (xs[i := x] ! j) \<and> x_used (xs[i := x] ! k) \<and> x_ip (xs[i := x] ! j) = x_ip (xs[i := x] ! k)"
  show "j = k"
  proof (rule ccontr)
    assume "j \<noteq> k"
    then consider "i = j" "k \<noteq> i" | "i = k" "j \<noteq> i" | "i \<noteq> j" "i \<noteq> k" by blast
    then show False
    proof cases
      case 1
      then show ?thesis using assms(2) jk u by (metis length_list_update nth_list_update_eq nth_list_update_neq)
    next
      case 2
      then show ?thesis using assms(2) jk u by (metis length_list_update nth_list_update_eq nth_list_update_neq)
    next
      case 3
      then show ?thesis using assms(1) jk u \<open>j \<noteq> k\<close> by (simp add: ips_distinct_def)
    qed
  qed
qed

lemma table_wf_wipe:
  assumes "table_wf xs count" "i < length xs" "x_used (xs ! i)"
  shows "table_wf (xs[i := empty_source]) (count - 1)"
  using assms of_nat_used_update [of i xs empty_source] ips_distinct_update [of xs empty_source i]
  by (simp add: table_wf_def empty_source_def)

lemma table_wf_replace:
  assumes "table_wf xs count" "i < length xs" "x_used x"
    and "\<forall>j < length xs. j \<noteq> i \<longrightarrow> x_used (xs ! j) \<longrightarrow> x_ip (xs ! j) \<noteq> x_ip x"
  shows "table_wf (xs[i := x]) (if \<not> x_used (xs ! i) then count + 1 else count)"
  using assms(1,3) of_nat_used_update [OF assms(2), of x] ips_distinct_update [OF _ assms(4)]
  by (simp add: table_wf_def)

lemma table_wf_modify:
  assumes "table_wf xs count" "i < length xs" "x_used (xs ! i)" "x_used x" "x_ip x = x_ip (xs ! i)"
  shows "table_wf (xs[i := x]) count"
proof -
  have "\<forall>j < length xs. j \<noteq> i \<longrightarrow> x_used (xs ! j) \<longrightarrow> x_ip (xs ! j) \<noteq> x_ip x"
  proof (intro allI impI)
    fix j
    assume j: "j < length xs" "j \<noteq> i" "x_used (xs ! j)"
    have "ips_distinct xs" using assms(1) by (simp add: table_wf_def)
    with j assms(2,3) have "x_ip (xs ! j) \<noteq> x_ip (xs ! i)"
      unfolding ips_distinct_def by blast
    then show "x_ip (xs ! j) \<noteq> x_ip x" by (simp add: assms(5))
  qed
  from table_wf_replace [OF assms(1,2,4) this] assms(3) show ?thesis by simp
qed

subsection \<open>The scan\<close>

text \<open>What the loop has established when it stands at index i of the table it started with.\<close>

definition swept :: "dbl \<Rightarrow> dbl \<Rightarrow> security_source \<Rightarrow> security_source" where
  "swept ttl now x = (if expired ttl now x then empty_source else x)"

definition scan_inv ::
    "dbl \<Rightarrow> u32 \<Rightarrow> dbl \<Rightarrow> security_source list \<Rightarrow> nat \<Rightarrow> scan_state \<Rightarrow> bool" where
  "scan_inv ttl ip now xs0 i sc \<longleftrightarrow>
     i \<le> length xs0 \<and> sc_sources sc = map (swept ttl now) (take i xs0) @ drop i xs0 \<and>
     table_wf (sc_sources sc) (sc_count sc) \<and>
     (\<forall>j < i. x_used (sc_sources sc ! j) \<longrightarrow> x_ip (sc_sources sc ! j) \<noteq> ip) \<and>
     (case sc_free sc of
        None \<Rightarrow> \<forall>j < i. x_used (sc_sources sc ! j)
      | Some f \<Rightarrow> f < i \<and> \<not> x_used (sc_sources sc ! f)) \<and>
     (case sc_oldest sc of
        None \<Rightarrow> \<forall>j < i. \<not> x_used (sc_sources sc ! j)
      | Some f \<Rightarrow> f < i \<and> x_used (sc_sources sc ! f))"

lemma scan_inv_length: "scan_inv ttl ip now xs0 i sc \<Longrightarrow> length (sc_sources sc) = length xs0"
  by (simp add: scan_inv_def)

lemma swept_update:
  assumes "i < length xs0"
  shows "(map (swept ttl now) (take i xs0) @ drop i xs0)[i := swept ttl now (xs0 ! i)]
       = map (swept ttl now) (take (Suc i) xs0) @ drop (Suc i) xs0"
  using assms
  by (simp add: take_Suc_conv_app_nth list_update_append Cons_nth_drop_Suc [symmetric])

lemma swept_used: "x_used (swept ttl now x) \<Longrightarrow> swept ttl now x = x"
  by (auto simp: swept_def empty_source_def)

lemma sweep_at:
  assumes "scan_inv ttl ip now xs0 i sc" and "i < length xs0"
  shows "sc_sources (sweep_at ttl now i sc) = map (swept ttl now) (take (Suc i) xs0) @ drop (Suc i) xs0"
    and "table_wf (sc_sources (sweep_at ttl now i sc)) (sc_count (sweep_at ttl now i sc))"
    and "sc_free (sweep_at ttl now i sc) = sc_free sc" "sc_oldest (sweep_at ttl now i sc) = sc_oldest sc"
    and "j < i \<Longrightarrow> sc_sources (sweep_at ttl now i sc) ! j = sc_sources sc ! j"
proof -
  have xi: "sc_sources sc ! i = xs0 ! i"
    using assms by (simp add: scan_inv_def nth_append)
  have len: "length (sc_sources sc) = length xs0"
    using assms(1) by (rule scan_inv_length)
  have src: "sc_sources sc = map (swept ttl now) (take i xs0) @ drop i xs0"
    using assms(1) by (simp add: scan_inv_def)
  have "sc_sources (sweep_at ttl now i sc) = (sc_sources sc)[i := swept ttl now (xs0 ! i)]"
    using list_update_id [of "sc_sources sc" i] xi
    by (auto simp: sweep_at_def swept_def expired_def)
  then show "sc_sources (sweep_at ttl now i sc) = map (swept ttl now) (take (Suc i) xs0) @ drop (Suc i) xs0"
    unfolding src swept_update [OF assms(2)] .
  show "table_wf (sc_sources (sweep_at ttl now i sc)) (sc_count (sweep_at ttl now i sc))"
    using assms len by (auto simp: sweep_at_def scan_inv_def table_wf_wipe)
  show "sc_free (sweep_at ttl now i sc) = sc_free sc" "sc_oldest (sweep_at ttl now i sc) = sc_oldest sc"
    "j < i \<Longrightarrow> sc_sources (sweep_at ttl now i sc) ! j = sc_sources sc ! j"
    by (simp_all add: sweep_at_def)
qed

lemma note_slot:
  "sc_sources (note_slot i sc) = sc_sources sc" "sc_count (note_slot i sc) = sc_count sc"
  "sc_free (note_slot i sc) =
     (if \<not> x_used (sc_sources sc ! i) \<and> sc_free sc = None then Some i else sc_free sc)"
  "sc_oldest (note_slot i sc) \<noteq> sc_oldest sc \<Longrightarrow>
     sc_oldest (note_slot i sc) = Some i \<and> x_used (sc_sources sc ! i)"
  "sc_oldest (note_slot i sc) = None \<Longrightarrow> \<not> x_used (sc_sources sc ! i) \<and> sc_oldest sc = None"
  by (auto simp: note_slot_def Let_def split: option.splits if_splits)

lemma scan_step:
  assumes "scan_inv ttl ip now xs0 i sc" and "i < length xs0"
    and "\<not> (x_used (swept ttl now (xs0 ! i)) \<and> x_ip (swept ttl now (xs0 ! i)) = ip)"
  shows "scan_inv ttl ip now xs0 (Suc i) (note_slot i (sweep_at ttl now i sc))"
proof -
  let ?sc = "sweep_at ttl now i sc"
  note sw = sweep_at [OF assms(1,2)]
  have xi: "sc_sources ?sc ! i = swept ttl now (xs0 ! i)"
    unfolding sw(1) using assms(2) by (simp add: nth_append take_Suc_conv_app_nth)
  have small: "\<forall>j < i. x_used (sc_sources sc ! j) \<longrightarrow> x_ip (sc_sources sc ! j) \<noteq> ip"
    and fr: "case sc_free sc of None \<Rightarrow> \<forall>j < i. x_used (sc_sources sc ! j)
      | Some f \<Rightarrow> f < i \<and> \<not> x_used (sc_sources sc ! f)"
    and old: "case sc_oldest sc of None \<Rightarrow> \<forall>j < i. \<not> x_used (sc_sources sc ! j)
      | Some f \<Rightarrow> f < i \<and> x_used (sc_sources sc ! f)"
    using assms(1) unfolding scan_inv_def by blast+
  have "\<forall>j < Suc i. x_used (sc_sources ?sc ! j) \<longrightarrow> x_ip (sc_sources ?sc ! j) \<noteq> ip"
    using small assms(3) xi by (simp add: less_Suc_eq sw(5) all_conj_distrib)
  moreover have "case sc_free (note_slot i ?sc) of None \<Rightarrow> \<forall>j < Suc i. x_used (sc_sources ?sc ! j)
      | Some f \<Rightarrow> f < Suc i \<and> \<not> x_used (sc_sources ?sc ! f)"
    using fr by (auto simp: note_slot(3) sw(3,5) less_Suc_eq split: option.splits if_splits)
  moreover have "case sc_oldest (note_slot i ?sc) of None \<Rightarrow> \<forall>j < Suc i. \<not> x_used (sc_sources ?sc ! j)
      | Some f \<Rightarrow> f < Suc i \<and> x_used (sc_sources ?sc ! f)"
  proof (cases "sc_oldest (note_slot i ?sc) = sc_oldest ?sc")
    case True
    show ?thesis
    proof (cases "sc_oldest sc")
      case None
      then have "\<not> x_used (sc_sources ?sc ! i)" using True note_slot(5) [of i ?sc] sw(4) by simp
      then show ?thesis using True None old by (auto simp: sw(4,5) less_Suc_eq)
    next
      case (Some f)
      then show ?thesis using True old by (simp add: sw(4,5))
    qed
  next
    case False
    then show ?thesis using note_slot(4) [of i ?sc] by auto
  qed
  ultimately show ?thesis
    using assms(2) sw(1,2) unfolding scan_inv_def note_slot(1,2) by simp
qed

lemma scan_result:
  assumes "scan_inv ttl ip now xs0 i sc" and "i + k = length xs0"
    and "get_source_scan ttl ip now k i sc = (found, sc')"
  shows "case found of
      None \<Rightarrow> scan_inv ttl ip now xs0 (length xs0) sc'
    | Some j \<Rightarrow> i \<le> j \<and> j < length xs0 \<and> x_used (xs0 ! j) \<and> \<not> expired ttl now (xs0 ! j) \<and>
        x_ip (xs0 ! j) = ip \<and>
        sc_sources sc' = (map (swept ttl now) (take j xs0) @ drop j xs0)
          [j := (xs0 ! j)\<lparr>x_last_seen := now\<rparr>] \<and>
        table_wf (sc_sources sc') (sc_count sc')"
  using assms
proof (induction k arbitrary: i sc)
  case 0
  then show ?case by auto
next
  case (Suc k)
  have i: "i < length xs0" using Suc.prems by simp
  let ?sc = "sweep_at ttl now i sc"
  note sw = sweep_at [OF Suc.prems(1) i]
  have xi: "sc_sources ?sc ! i = swept ttl now (xs0 ! i)"
    unfolding sw(1) using i by (simp add: nth_append take_Suc_conv_app_nth)
  show ?case
  proof (cases "x_used (swept ttl now (xs0 ! i)) \<and> x_ip (swept ttl now (xs0 ! i)) = ip")
    case True
    then have x: "swept ttl now (xs0 ! i) = xs0 ! i" "\<not> expired ttl now (xs0 ! i)"
      using swept_used by (auto simp: swept_def empty_source_def split: if_splits)
    then have same: "?sc = sc"
      using Suc.prems(1) i
      by (auto simp: sweep_at_def expired_def scan_inv_def nth_append)
    have "found = Some i" "sc' = sc\<lparr>sc_sources := (sc_sources sc)[i := (xs0 ! i)\<lparr>x_last_seen := now\<rparr>]\<rparr>"
      using Suc.prems(3) True x xi by (simp_all add: Let_def same)
    moreover have "table_wf ((sc_sources sc)[i := (xs0 ! i)\<lparr>x_last_seen := now\<rparr>]) (sc_count sc)"
      using sw(2) i True x xi scan_inv_length [OF Suc.prems(1)] unfolding same
      by (intro table_wf_modify) simp_all
    ultimately show ?thesis
      using Suc.prems(1) i True x by (simp add: scan_inv_def)
  next
    case False
    then have "get_source_scan ttl ip now (Suc k) i sc = get_source_scan ttl ip now k (Suc i) (note_slot i ?sc)"
      by (simp only: get_source_scan.simps Let_def xi if_False)
    then show ?thesis
      using Suc.IH [OF scan_step [OF Suc.prems(1) i False]] Suc.prems(2,3)
      by (auto split: option.splits)
  qed
qed

subsection \<open>Lookup\<close>

lemma new_source_fields [simp]:
  "x_used (new_source n ip now)" "x_ip (new_source n ip now) = ip"
  "x_last_seen (new_source n ip now) = now"
  "x_blocked_until (new_source n ip now) = 0" "x_violations (new_source n ip now) = 0"
  by (simp_all add: new_source_def empty_source_def)

text \<open>
  A lookup in a well-formed table of at least one slot ends with an entry of the address, at
  an index of the table; the table stays well formed.  If the table held an entry of the
  address that is not expired, that entry is returned, only its last_seen changed; otherwise
  the entry is a fresh one.  Another entry that is not expired and not the one replaced is
  untouched.
\<close>

lemma get_source:
  assumes wf: "sources_wf s" and pos: "0 < unat (o_max_sources (sec_options s))"
    and gs: "php_bacnet_security_get_source ip now s = (r, s')"
  obtains i where "r = Some i" "i < length (sec_sources s')"
    "length (sec_sources s') = length (sec_sources s)"
    "sources_wf s'" "s' = s\<lparr>sec_sources := sec_sources s', sec_source_count := sec_source_count s'\<rparr>"
    "x_used (sec_sources s' ! i)" "x_ip (sec_sources s' ! i) = ip" "x_last_seen (sec_sources s' ! i) = now"
    "(\<exists>x. x \<in> set (sec_sources s) \<and> x_used x \<and> \<not> expired (o_source_ttl (sec_options s)) now x \<and>
        x_ip x = ip \<and> x = sec_sources s ! i \<and> sec_sources s' ! i = x\<lparr>x_last_seen := now\<rparr>) \<or>
     (\<forall>j < length (sec_sources s). x_used (sec_sources s ! j) \<longrightarrow>
        \<not> expired (o_source_ttl (sec_options s)) now (sec_sources s ! j) \<longrightarrow> x_ip (sec_sources s ! j) \<noteq> ip) \<and>
     sec_sources s' ! i = new_source (sec_options s) ip now"
    "\<And>j. j < length (sec_sources s) \<Longrightarrow> j \<noteq> i \<Longrightarrow>
       sec_sources s' ! j = sec_sources s ! j \<or>
       (sec_sources s' ! j = empty_source \<and> expired (o_source_ttl (sec_options s)) now (sec_sources s ! j))"
proof -
  let ?ttl = "o_source_ttl (sec_options s)"
  let ?xs = "sec_sources s"
  let ?sc0 = "\<lparr>sc_sources = ?xs, sc_count = sec_source_count s, sc_free = None, sc_oldest = None\<rparr>"
  have len: "length ?xs = unat (o_max_sources (sec_options s))" and tw: "table_wf ?xs (sec_source_count s)"
    using wf by (simp_all add: sources_wf_def)
  obtain found sc where scan: "get_source_scan ?ttl ip now (length ?xs) 0 ?sc0 = (found, sc)"
    by (cases "get_source_scan ?ttl ip now (length ?xs) 0 ?sc0")
  have "scan_inv ?ttl ip now ?xs 0 ?sc0"
    using tw by (simp add: scan_inv_def)
  note res = scan_result [OF this _ scan, simplified]
  show thesis
  proof (cases found)
    case (Some i)
    then have i: "i < length ?xs" "x_used (?xs ! i)" "\<not> expired ?ttl now (?xs ! i)" "x_ip (?xs ! i) = ip"
      and src: "sc_sources sc = (map (swept ?ttl now) (take i ?xs) @ drop i ?xs)[i := (?xs ! i)\<lparr>x_last_seen := now\<rparr>]"
      and tw': "table_wf (sc_sources sc) (sc_count sc)"
      using res unfolding Some option.case by blast+
    have s': "r = Some i" "s' = s\<lparr>sec_sources := sc_sources sc, sec_source_count := sc_count sc\<rparr>"
      using gs scan Some len by (simp_all add: php_bacnet_security_get_source_def)
    have len': "length (sc_sources sc) = length ?xs" using src by simp
    have at: "sc_sources sc ! i = (?xs ! i)\<lparr>x_last_seen := now\<rparr>"
      using src i by simp
    have other: "sc_sources sc ! j = ?xs ! j \<or> (sc_sources sc ! j = empty_source \<and> expired ?ttl now (?xs ! j))"
      if "j < length ?xs" "j \<noteq> i" for j
      using that i src by (auto simp: nth_append swept_def)
    show ?thesis
      using s' i at other len' len tw' by (intro that [of i]) (auto simp: sources_wf_def)
  next
    case None
    then have inv: "scan_inv ?ttl ip now ?xs (length ?xs) sc" using res by simp
    then have src: "sc_sources sc = map (swept ?ttl now) ?xs" and tw': "table_wf (sc_sources sc) (sc_count sc)"
      and absent: "\<forall>j < length ?xs. x_used (sc_sources sc ! j) \<longrightarrow> x_ip (sc_sources sc ! j) \<noteq> ip"
      using inv unfolding scan_inv_def take_all [OF order_refl] drop_all [OF order_refl] append_Nil2
      by blast+
    define slot where "slot = (case sc_free sc of Some i \<Rightarrow> Some i | None \<Rightarrow> sc_oldest sc)"
    have "\<exists>i. slot = Some i \<and> i < length ?xs"
      using inv pos len unfolding scan_inv_def slot_def by (auto split: option.splits)
    then obtain i where i: "slot = Some i" "i < length ?xs" by blast
    let ?n = "new_source (sec_options s) ip now"
    let ?c = "if \<not> x_used (sc_sources sc ! i) then sc_count sc + 1 else sc_count sc"
    have s': "r = Some i" "s' = s\<lparr>sec_sources := (sc_sources sc)[i := ?n], sec_source_count := ?c\<rparr>"
      using gs scan None len i(1) by (auto simp: php_bacnet_security_get_source_def slot_def Let_def)
    have len': "length (sc_sources sc) = length ?xs" using src by simp
    have "table_wf ((sc_sources sc)[i := ?n]) ?c"
      using absent i len' by (intro table_wf_replace [OF tw']) simp_all
    moreover have "x_ip (?xs ! j) \<noteq> ip"
      if "j < length ?xs" "x_used (?xs ! j)" "\<not> expired ?ttl now (?xs ! j)" for j
      using absent that src by (auto simp: swept_def)
    moreover have "(sc_sources sc)[i := ?n] ! j = ?xs ! j \<or>
        ((sc_sources sc)[i := ?n] ! j = empty_source \<and> expired ?ttl now (?xs ! j))"
      if "j < length ?xs" "j \<noteq> i" for j
      using that src by (auto simp: swept_def)
    ultimately show ?thesis
      using s' i len len' by (intro that [of i]) (auto simp: sources_wf_def)
  qed
qed

lemma empty_source_unused [simp]: "\<not> x_used empty_source"
  by (simp add: empty_source_def)

subsection \<open>Sweeping the table\<close>

lemma active_sources_loop:
  assumes "i + k = length xs0" and "table_wf xs count"
    and "xs = map (swept ttl now) (take i xs0) @ drop i xs0"
    and "active_sources_loop ttl now k i (xs, count, active, blocked) = (xs', count', active', blocked')"
  shows "xs' = map (swept ttl now) xs0 \<and> table_wf xs' count' \<and>
    active' = active + of_nat (length (filter x_used (map (swept ttl now) (drop i xs0)))) \<and>
    blocked' = blocked + of_nat (length (filter (\<lambda>x. x_used x \<and> x_blocked_until x > now)
      (map (swept ttl now) (drop i xs0))))"
  using assms
proof (induction k arbitrary: i xs count active blocked)
  case 0
  then show ?case by auto
next
  case (Suc k)
  have i: "i < length xs0" using Suc.prems(1) by simp
  have xi: "xs ! i = xs0 ! i" "length xs = length xs0"
    using i Suc.prems(3) by (simp_all add: nth_append)
  have dr: "drop i xs0 = xs0 ! i # drop (Suc i) xs0"
    using i by (simp add: Cons_nth_drop_Suc)
  have upd: "xs[i := swept ttl now (xs0 ! i)] = map (swept ttl now) (take (Suc i) xs0) @ drop (Suc i) xs0"
    unfolding Suc.prems(3) by (rule swept_update [OF i])
  show ?case
  proof (cases "expired ttl now (xs0 ! i)")
    case True
    then have e: "swept ttl now (xs0 ! i) = empty_source" "x_used (xs0 ! i)" "now - x_last_seen (xs0 ! i) > ttl"
      by (simp_all add: swept_def expired_def)
    have "table_wf (xs[i := empty_source]) (count - 1)"
      using Suc.prems(2) i xi e by (intro table_wf_wipe) simp_all
    moreover have "active_sources_loop ttl now k (Suc i) (xs[i := empty_source], count - 1, active, blocked)
        = (xs', count', active', blocked')"
      using Suc.prems(4) xi e by simp
    ultimately show ?thesis
      using Suc.IH [of "Suc i" "xs[i := empty_source]" "count - 1" active blocked] Suc.prems(1) upd e(1)
      by (auto simp: dr)
  next
    case False
    then have e: "swept ttl now (xs0 ! i) = xs0 ! i" "\<not> (x_used (xs0 ! i) \<and> now - x_last_seen (xs0 ! i) > ttl)"
      unfolding swept_def expired_def by auto
    have same: "xs = map (swept ttl now) (take (Suc i) xs0) @ drop (Suc i) xs0"
      using upd e(1) xi i list_update_id [of xs i] by simp
    show ?thesis
    proof (cases "x_used (xs0 ! i)")
      case True
      define b where "b = (if x_blocked_until (xs0 ! i) > now then blocked + 1 else blocked)"
      have "active_sources_loop ttl now k (Suc i) (xs, count, active + 1, b) = (xs', count', active', blocked')"
        using Suc.prems(4) xi e True by (simp add: b_def)
      then show ?thesis
        using Suc.IH [of "Suc i" xs count "active + 1" b] Suc.prems(1,2) same e(1) True
        by (auto simp: dr b_def)
    next
      case False
      then have "active_sources_loop ttl now k (Suc i) (xs, count, active, blocked) = (xs', count', active', blocked')"
        using Suc.prems(4) xi e by simp
      then show ?thesis
        using Suc.IH [of "Suc i" xs count active blocked] Suc.prems(1,2) same e(1) False
        by (auto simp: dr)
    qed
  qed
qed

lemma active_sources:
  assumes "sources_wf s"
    and "php_bacnet_security_active_sources now s = (active, blocked, s')"
  shows "sources_wf s'"
    and "sec_sources s' = map (swept (o_source_ttl (sec_options s)) now) (sec_sources s)"
    and "active = sec_source_count s'"
    and "blocked = of_nat (length (filter (\<lambda>x. x_used x \<and> x_blocked_until x > now) (sec_sources s')))"
    and "s' = s\<lparr>sec_sources := sec_sources s', sec_source_count := sec_source_count s'\<rparr>"
proof -
  let ?ttl = "o_source_ttl (sec_options s)"
  have len: "length (sec_sources s) = unat (o_max_sources (sec_options s))"
    and tw: "table_wf (sec_sources s) (sec_source_count s)"
    using assms(1) by (simp_all add: sources_wf_def)
  obtain xs c a b where lp: "active_sources_loop ?ttl now (length (sec_sources s)) 0
      (sec_sources s, sec_source_count s, 0, 0) = (xs, c, a, b)"
    by (metis prod_cases4)
  then have s': "s' = s\<lparr>sec_sources := xs, sec_source_count := c\<rparr>" "active = a" "blocked = b"
    using assms(2) len by (simp_all add: php_bacnet_security_active_sources_def)
  note r = active_sources_loop [OF _ tw _ lp, of "sec_sources s", simplified]
  show "sources_wf s'" using r s' len by (auto simp: sources_wf_def)
  show "sec_sources s' = map (swept ?ttl now) (sec_sources s)" using r s' by simp
  show "active = sec_source_count s'" using r s' by (auto simp: table_wf_def)
  show "blocked = of_nat (length (filter (\<lambda>x. x_used x \<and> x_blocked_until x > now) (sec_sources s')))"
    using r s' by auto
  show "s' = s\<lparr>sec_sources := sec_sources s', sec_source_count := sec_source_count s'\<rparr>"
    using s' by simp
qed

end
