(* ===== verification/Protocol.thy ===== *)
theory Protocol
  imports Prelude
begin

text \<open>
  The protocol numbers of the BACnet standard (ASHRAE 135) the extension tests for; the code
  takes them from bacenum.h of bacnet-stack.
\<close>

definition PDU_TYPE_CONFIRMED_SERVICE_REQUEST :: u8 where "PDU_TYPE_CONFIRMED_SERVICE_REQUEST = 0x00"
definition PDU_TYPE_UNCONFIRMED_SERVICE_REQUEST :: u8 where "PDU_TYPE_UNCONFIRMED_SERVICE_REQUEST = 0x10"
definition PDU_TYPE_SIMPLE_ACK :: u8 where "PDU_TYPE_SIMPLE_ACK = 0x20"
definition PDU_TYPE_COMPLEX_ACK :: u8 where "PDU_TYPE_COMPLEX_ACK = 0x30"
definition PDU_TYPE_ERROR :: u8 where "PDU_TYPE_ERROR = 0x50"
definition PDU_TYPE_REJECT :: u8 where "PDU_TYPE_REJECT = 0x60"
definition PDU_TYPE_ABORT :: u8 where "PDU_TYPE_ABORT = 0x70"

definition SERVICE_UNCONFIRMED_I_AM :: u8 where "SERVICE_UNCONFIRMED_I_AM = 0"
definition SERVICE_UNCONFIRMED_COV_NOTIFICATION :: u8 where "SERVICE_UNCONFIRMED_COV_NOTIFICATION = 2"
definition SERVICE_UNCONFIRMED_WHO_IS :: u8 where "SERVICE_UNCONFIRMED_WHO_IS = 8"

definition SERVICE_CONFIRMED_COV_NOTIFICATION :: u8 where "SERVICE_CONFIRMED_COV_NOTIFICATION = 1"
definition SERVICE_CONFIRMED_READ_PROPERTY :: u8 where "SERVICE_CONFIRMED_READ_PROPERTY = 12"
definition SERVICE_CONFIRMED_READ_PROP_MULTIPLE :: u8 where "SERVICE_CONFIRMED_READ_PROP_MULTIPLE = 14"
definition SERVICE_CONFIRMED_WRITE_PROPERTY :: u8 where "SERVICE_CONFIRMED_WRITE_PROPERTY = 15"

lemmas pdu_defs =
  PDU_TYPE_CONFIRMED_SERVICE_REQUEST_def PDU_TYPE_UNCONFIRMED_SERVICE_REQUEST_def
  PDU_TYPE_SIMPLE_ACK_def PDU_TYPE_COMPLEX_ACK_def PDU_TYPE_ERROR_def PDU_TYPE_REJECT_def
  PDU_TYPE_ABORT_def

lemmas service_defs =
  SERVICE_UNCONFIRMED_I_AM_def SERVICE_UNCONFIRMED_COV_NOTIFICATION_def
  SERVICE_UNCONFIRMED_WHO_IS_def SERVICE_CONFIRMED_COV_NOTIFICATION_def
  SERVICE_CONFIRMED_READ_PROPERTY_def SERVICE_CONFIRMED_READ_PROP_MULTIPLE_def
  SERVICE_CONFIRMED_WRITE_PROPERTY_def

end
