(* ===== verification/Security_Accept.thy ===== *)
theory Security_Accept
  imports Security_Sources Protocol
begin

text \<open>
  The packet filter of src/bacnet_security.c: php_bacnet_security_accept with its warnings,
  its violation counter and its four token buckets, the counters for malformed packets and
  queue overflows, and the statistics array.  npdu stands for bacnet_npdu_decode of
  bacnet-stack: the length of the network header (negative on an error) and whether the
  packet is a network layer message.
\<close>

datatype packet_kind = PACKET_OTHER | PACKET_WHO_IS | PACKET_WRITE

definition upd_stats :: "(security_stats \<Rightarrow> security_stats) \<Rightarrow> security \<Rightarrow> security" where
  "upd_stats f s = s\<lparr>sec_stats := f (sec_stats s)\<rparr>"

definition upd_source :: "nat \<Rightarrow> (security_source \<Rightarrow> security_source) \<Rightarrow> security \<Rightarrow> security" where
  "upd_source i f s = s\<lparr>sec_sources := (sec_sources s)[i := f (sec_sources s ! i)]\<rparr>"

definition php_bacnet_security_warn :: "dbl \<Rightarrow> security \<Rightarrow> security" where
  "php_bacnet_security_warn now s =
    (let s = s\<lparr>sec_pending_warnings := sec_pending_warnings s + 1\<rparr>
     in if now - sec_last_log s \<ge> o_log_interval (sec_options s)
        then s\<lparr>sec_warned := sec_pending_warnings s # sec_warned s,
               sec_pending_warnings := 0, sec_last_log := now\<rparr>
        else s)"

definition php_bacnet_security_violation ::
    "security_options \<Rightarrow> dbl \<Rightarrow> security_source \<Rightarrow> security_source" where
  "php_bacnet_security_violation n now x =
    (let x = (if now - x_violation_started x > o_flood_window n
              then x\<lparr>x_violation_started := now, x_violations := 0\<rparr> else x);
         x = (if x_violations x = 0 then x\<lparr>x_violation_started := now\<rparr> else x);
         x = x\<lparr>x_violations := x_violations x + 1\<rparr>
     in if x_violations x \<ge> o_flood_violations n
        then x\<lparr>x_blocked_until := now + o_block_duration n, x_violations := 0, x_violation_started := now\<rparr>
        else x)"

text \<open>One of the drop branches: a statistic, a counter of the source, the warning.\<close>

definition drop_packet ::
    "(security_stats \<Rightarrow> security_stats) \<Rightarrow> nat \<Rightarrow> (security_source \<Rightarrow> security_source) \<Rightarrow> dbl \<Rightarrow> security \<Rightarrow> security"
  where
  "drop_packet fs i fx now s = php_bacnet_security_warn now (upd_source i fx (upd_stats fs s))"

definition count_acl :: "security_stats \<Rightarrow> security_stats" where
  "count_acl st = st\<lparr>st_acl_drops := st_acl_drops st + 1\<rparr>"
definition count_blocked :: "security_stats \<Rightarrow> security_stats" where
  "count_blocked st = st\<lparr>st_blocked_drops := st_blocked_drops st + 1\<rparr>"
definition count_malformed :: "security_stats \<Rightarrow> security_stats" where
  "count_malformed st = st\<lparr>st_malformed_pdus := st_malformed_pdus st + 1\<rparr>"
definition count_rate :: "security_stats \<Rightarrow> security_stats" where
  "count_rate st = st\<lparr>st_rate_drops := st_rate_drops st + 1\<rparr>"
definition count_accepted :: "security_stats \<Rightarrow> security_stats" where
  "count_accepted st = st\<lparr>st_accepted_packets := st_accepted_packets st + 1\<rparr>"

definition take_global :: "dbl \<Rightarrow> security \<Rightarrow> bool \<times> security" where
  "take_global now s =
    (let (ok, t, u) = php_bacnet_security_take (sec_global_tokens s) (sec_global_updated s)
           (o_global_rate (sec_options s)) (dbl_of_u32 (o_global_burst (sec_options s))) now
     in (ok, s\<lparr>sec_global_tokens := t, sec_global_updated := u\<rparr>))"

definition take_source :: "nat \<Rightarrow> dbl \<Rightarrow> security \<Rightarrow> bool \<times> security" where
  "take_source i now s =
    (let x = sec_sources s ! i;
         (ok, t, u) = php_bacnet_security_take (x_tokens x) (x_updated x)
           (o_per_source_rate (sec_options s)) (dbl_of_u32 (o_per_source_burst (sec_options s))) now
     in (ok, upd_source i (\<lambda>x. x\<lparr>x_tokens := t, x_updated := u\<rparr>) s))"

definition take_who_is :: "nat \<Rightarrow> dbl \<Rightarrow> security \<Rightarrow> bool \<times> security" where
  "take_who_is i now s =
    (let x = sec_sources s ! i;
         (ok, t, u) = php_bacnet_security_take (x_who_tokens x) (x_who_updated x)
           (o_who_is_rate (sec_options s)) (dbl_of_u32 (o_who_is_burst (sec_options s))) now
     in (ok, upd_source i (\<lambda>x. x\<lparr>x_who_tokens := t, x_who_updated := u\<rparr>) s))"

definition take_write :: "nat \<Rightarrow> dbl \<Rightarrow> security \<Rightarrow> bool \<times> security" where
  "take_write i now s =
    (let x = sec_sources s ! i;
         (ok, t, u) = php_bacnet_security_take (x_write_tokens x) (x_write_updated x)
           (o_write_rate (sec_options s)) (dbl_of_u32 (o_write_burst (sec_options s))) now
     in (ok, upd_source i (\<lambda>x. x\<lparr>x_write_tokens := t, x_write_updated := u\<rparr>) s))"

text \<open>The buckets in the order of the code; a refused bucket stops the chain.\<close>

definition take_buckets :: "packet_kind \<Rightarrow> nat \<Rightarrow> dbl \<Rightarrow> security \<Rightarrow> bool \<times> security" where
  "take_buckets kind i now s =
    (let (ok, s) = take_global now s;
         (ok, s) = (if ok then take_source i now s else (False, s));
         (ok, s) = (if ok \<and> kind = PACKET_WHO_IS then take_who_is i now s else (ok, s))
     in if ok \<and> kind = PACKET_WRITE then take_write i now s else (ok, s))"

definition acl_refuses :: "security_options \<Rightarrow> u32 \<Rightarrow> bool" where
  "acl_refuses n ip \<longleftrightarrow>
     php_bacnet_security_match ip (o_denied n) \<or>
     (o_allowed n \<noteq> [] \<and> \<not> php_bacnet_security_match ip (o_allowed n))"

text \<open>
  What the header check leaves of a packet: None for a malformed one, otherwise the kind.
  The subtraction is on int, with the header length cut to 16 bits.
\<close>

definition classify_packet :: "(bytes \<Rightarrow> int \<times> bool) \<Rightarrow> bytes \<Rightarrow> packet_kind option" where
  "classify_packet npdu pdu =
    (let (nl, network_layer_message) = npdu pdu;
         al = int (length pdu) - nl mod 65536
     in if nl < 0 \<or> network_layer_message \<or> al < 2 then None
        else let apdu = drop (nat nl) pdu; type = apdu ! 0 AND 0xf0
             in if type = PDU_TYPE_UNCONFIRMED_SERVICE_REQUEST \<and> apdu ! 1 = SERVICE_UNCONFIRMED_WHO_IS
                then Some PACKET_WHO_IS
                else if type = PDU_TYPE_CONFIRMED_SERVICE_REQUEST
                then (if al < 4 then None
                      else if apdu ! 3 = SERVICE_CONFIRMED_WRITE_PROPERTY then Some PACKET_WRITE
                      else Some PACKET_OTHER)
                else Some PACKET_OTHER)"

text \<open>The body of accept once it has the entry i of the source.\<close>

definition check_packet ::
    "(bytes \<Rightarrow> int \<times> bool) \<Rightarrow> u32 \<Rightarrow> bytes \<Rightarrow> dbl \<Rightarrow> nat \<Rightarrow> security \<Rightarrow> bool \<times> packet_kind \<times> security"
  where
  "check_packet npdu ip pdu now i s =
    (if acl_refuses (sec_options s) ip then
       (False, PACKET_OTHER,
        drop_packet count_acl i (\<lambda>x. x\<lparr>x_acl_drops := x_acl_drops x + 1\<rparr>) now s)
     else if x_blocked_until (sec_sources s ! i) > now then
       (False, PACKET_OTHER,
        drop_packet count_blocked i (\<lambda>x. x\<lparr>x_blocked_drops := x_blocked_drops x + 1\<rparr>) now s)
     else
       (case classify_packet npdu pdu of
          None \<Rightarrow>
            (False, PACKET_OTHER,
             drop_packet count_malformed i (\<lambda>x. x\<lparr>x_malformed := x_malformed x + 1\<rparr>) now s)
        | Some kind \<Rightarrow>
            (let (ok, s) = take_buckets kind i now s
             in if \<not> ok then
                  (False, kind,
                   drop_packet count_rate i
                     (\<lambda>x. php_bacnet_security_violation (sec_options s) now
                            (x\<lparr>x_rate_drops := x_rate_drops x + 1\<rparr>)) now s)
                else
                  (True, kind,
                   upd_source i (\<lambda>x. x\<lparr>x_accepted := x_accepted x + 1\<rparr>)
                     (upd_stats count_accepted s)))))"

definition php_bacnet_security_accept ::
    "(bytes \<Rightarrow> int \<times> bool) \<Rightarrow> bacnet_address \<Rightarrow> bytes \<Rightarrow> dbl \<Rightarrow> security \<Rightarrow> bool \<times> packet_kind \<times> security"
  where
  "php_bacnet_security_accept npdu source pdu now s =
    (if \<not> o_enabled (sec_options s) then (True, PACKET_OTHER, upd_stats count_accepted s)
     else
       let ip = php_bacnet_security_source_ip source;
           (r, s) = php_bacnet_security_get_source ip now s
       in case r of
            None \<Rightarrow> (False, PACKET_OTHER, s)
          | Some i \<Rightarrow> check_packet npdu ip pdu now i s)"

text \<open>The other entry points that count: a malformed request found later, a full queue.\<close>

definition php_bacnet_security_malformed :: "bacnet_address \<Rightarrow> dbl \<Rightarrow> security \<Rightarrow> security" where
  "php_bacnet_security_malformed source now s =
    (let (r, s) = php_bacnet_security_get_source (php_bacnet_security_source_ip source) now s;
         s = upd_stats count_malformed s;
         s = (case r of
                Some i \<Rightarrow> upd_source i (\<lambda>x. x\<lparr>x_malformed := x_malformed x + 1\<rparr>) s
              | None \<Rightarrow> s)
     in php_bacnet_security_warn now s)"

definition php_bacnet_security_queue_overflow :: "dbl \<Rightarrow> security \<Rightarrow> security" where
  "php_bacnet_security_queue_overflow now s =
    php_bacnet_security_warn now
      (upd_stats (\<lambda>st. st\<lparr>st_queue_overflows := st_queue_overflows st + 1\<rparr>) s)"

subsection \<open>Statistics\<close>

text \<open>add_assoc_zval: an existing key keeps its place and gets the new value.\<close>

fun add_assoc :: "zkey \<Rightarrow> zval \<Rightarrow> (zkey \<times> zval) list \<Rightarrow> (zkey \<times> zval) list" where
  "add_assoc k v [] = [(k, v)]"
| "add_assoc k v ((k', v') # kvs) = (if k = k' then (k, v) # kvs else (k', v') # add_assoc k v kvs)"

definition source_row :: "dbl \<Rightarrow> security_source \<Rightarrow> zval" where
  "source_row now x = ZArray
    [(KStr ''accepted_packets'', ZLong (sint (x_accepted x))),
     (KStr ''rate_drops'', ZLong (sint (x_rate_drops x))),
     (KStr ''acl_drops'', ZLong (sint (x_acl_drops x))),
     (KStr ''blocked_drops'', ZLong (sint (x_blocked_drops x))),
     (KStr ''malformed_pdus'', ZLong (sint (x_malformed x))),
     (KStr ''blocked'', ZBool (x_blocked_until x > now)),
     (KStr ''idle_seconds'', ZDouble (now - x_last_seen x))]"

definition source_rows :: "dbl \<Rightarrow> security_source list \<Rightarrow> (zkey \<times> zval) list" where
  "source_rows now xs =
    foldl (\<lambda>rows x. if x_used x
             then add_assoc (KStr (php_bacnet_security_ip_string (x_ip x))) (source_row now x) rows
             else rows) [] xs"

definition reset_counters :: "security_source \<Rightarrow> security_source" where
  "reset_counters x =
    x\<lparr>x_accepted := 0, x_rate_drops := 0, x_acl_drops := 0, x_blocked_drops := 0, x_malformed := 0\<rparr>"

definition php_bacnet_security_stats_to_array ::
    "bool \<Rightarrow> bool \<Rightarrow> dbl \<Rightarrow> security \<Rightarrow> zval \<times> security" where
  "php_bacnet_security_stats_to_array include_sources reset now s =
    (let (active, blocked, s) = php_bacnet_security_active_sources now s;
         st = sec_stats s;
         result =
           [(KStr ''accepted_packets'', ZLong (sint (st_accepted_packets st))),
            (KStr ''rate_drops'', ZLong (sint (st_rate_drops st))),
            (KStr ''acl_drops'', ZLong (sint (st_acl_drops st))),
            (KStr ''blocked_drops'', ZLong (sint (st_blocked_drops st))),
            (KStr ''malformed_pdus'', ZLong (sint (st_malformed_pdus st))),
            (KStr ''queue_overflows'', ZLong (sint (st_queue_overflows st))),
            (KStr ''deduplicated_writes'', ZLong (sint (st_deduplicated_writes st))),
            (KStr ''active_sources'', ZLong (uint active)),
            (KStr ''blocked_sources'', ZLong (uint blocked))];
         result = (if include_sources
                   then result @ [(KStr ''sources'', ZArray (source_rows now (sec_sources s)))]
                   else result);
         s = (if reset
              then s\<lparr>sec_stats := empty_stats, sec_sources := map reset_counters (sec_sources s)\<rparr>
              else s)
     in (ZArray result, s))"

end
