(* ===== verification/Security_Filter.thy ===== *)
theory Security_Filter
  imports Security_Accept
begin

text \<open>
  Correctness of the packet filter: it keeps the state well formed, counts every packet once,
  refuses in the order of the code (access lists, block, header, buckets), stays within the
  global rate, and blocks a source after repeated violations.
\<close>

subsection \<open>Frames\<close>

text \<open>The parts of an entry that no step after the lookup changes.\<close>

definition same_identity :: "security_source \<Rightarrow> security_source \<Rightarrow> bool" where
  "same_identity x y \<longleftrightarrow> x_used y = x_used x \<and> x_ip y = x_ip x \<and> x_last_seen y = x_last_seen x"

lemma same_identity_refl [simp]: "same_identity x x"
  by (simp add: same_identity_def)

lemma violation_identity [simp]: "same_identity x (php_bacnet_security_violation n now x)"
  by (simp add: same_identity_def php_bacnet_security_violation_def Let_def)

lemma same_identity_counters [simp]:
  "same_identity x (x\<lparr>x_acl_drops := v\<rparr>)" "same_identity x (x\<lparr>x_blocked_drops := v\<rparr>)"
  "same_identity x (x\<lparr>x_malformed := v\<rparr>)" "same_identity x (x\<lparr>x_accepted := v\<rparr>)"
  "same_identity x (x\<lparr>x_tokens := t, x_updated := u\<rparr>)"
  "same_identity x (x\<lparr>x_who_tokens := t, x_who_updated := u\<rparr>)"
  "same_identity x (x\<lparr>x_write_tokens := t, x_write_updated := u\<rparr>)"
  "same_identity x (php_bacnet_security_violation n now (x\<lparr>x_rate_drops := v\<rparr>))"
  using violation_identity [of "x\<lparr>x_rate_drops := v\<rparr>" n now]
  by (simp_all add: same_identity_def)

lemma sources_wf_upd_source:
  assumes "sources_wf s" and "i < length (sec_sources s)"
    and "same_identity (sec_sources s ! i) (f (sec_sources s ! i))"
  shows "sources_wf (upd_source i f s)"
proof -
  let ?xs = "sec_sources s" and ?y = "f (sec_sources s ! i)"
  have y: "x_used ?y = x_used (?xs ! i)" "x_ip ?y = x_ip (?xs ! i)"
    using assms(3) by (simp_all add: same_identity_def)
  have d: "ips_distinct ?xs" "sec_source_count s = of_nat (length (filter x_used ?xs))"
    using assms(1) by (simp_all add: sources_wf_def table_wf_def)
  have "ips_distinct (?xs[i := ?y])"
    by (rule ips_distinct_update [OF d(1)]) (use d(1) assms(2) y in \<open>auto simp: ips_distinct_def\<close>)
  moreover have "length (filter x_used (?xs[i := ?y])) = length (filter x_used ?xs)"
    using length_filter_list_update [OF assms(2), of x_used ?y] y by simp
  ultimately show ?thesis
    using assms(1) d(2) by (simp add: sources_wf_def table_wf_def upd_source_def)
qed

text \<open>What a step of the filter leaves alone.\<close>

definition frame :: "security \<Rightarrow> security \<Rightarrow> bool" where
  "frame s s' \<longleftrightarrow> sec_options s' = sec_options s \<and> sec_duplicates s' = sec_duplicates s \<and>
     sec_duplicate_cursor s' = sec_duplicate_cursor s"

definition same_bucket :: "security \<Rightarrow> security \<Rightarrow> bool" where
  "same_bucket s s' \<longleftrightarrow> sec_global_tokens s' = sec_global_tokens s \<and>
     sec_global_updated s' = sec_global_updated s"

lemma warn_fields [simp]:
  "sec_options (php_bacnet_security_warn now s) = sec_options s"
  "sec_stats (php_bacnet_security_warn now s) = sec_stats s"
  "sec_sources (php_bacnet_security_warn now s) = sec_sources s"
  "sec_source_count (php_bacnet_security_warn now s) = sec_source_count s"
  "sec_global_tokens (php_bacnet_security_warn now s) = sec_global_tokens s"
  "sec_global_updated (php_bacnet_security_warn now s) = sec_global_updated s"
  "sec_duplicates (php_bacnet_security_warn now s) = sec_duplicates s"
  "sec_duplicate_cursor (php_bacnet_security_warn now s) = sec_duplicate_cursor s"
  by (simp_all add: php_bacnet_security_warn_def Let_def)

lemma upd_fields [simp]:
  "sec_options (upd_source i f s) = sec_options s" "sec_options (upd_stats g s) = sec_options s"
  "sec_stats (upd_source i f s) = sec_stats s" "sec_stats (upd_stats g s) = g (sec_stats s)"
  "sec_sources (upd_source i f s) = (sec_sources s)[i := f (sec_sources s ! i)]"
  "sec_sources (upd_stats g s) = sec_sources s"
  "sec_source_count (upd_source i f s) = sec_source_count s"
  "sec_source_count (upd_stats g s) = sec_source_count s"
  "sec_global_tokens (upd_source i f s) = sec_global_tokens s"
  "sec_global_tokens (upd_stats g s) = sec_global_tokens s"
  "sec_global_updated (upd_source i f s) = sec_global_updated s"
  "sec_global_updated (upd_stats g s) = sec_global_updated s"
  "sec_duplicates (upd_source i f s) = sec_duplicates s"
  "sec_duplicates (upd_stats g s) = sec_duplicates s"
  "sec_duplicate_cursor (upd_source i f s) = sec_duplicate_cursor s"
  "sec_duplicate_cursor (upd_stats g s) = sec_duplicate_cursor s"
  by (simp_all add: upd_source_def upd_stats_def)

lemma drop_fields [simp]:
  "sec_options (drop_packet fs i fx now s) = sec_options s"
  "sec_stats (drop_packet fs i fx now s) = fs (sec_stats s)"
  "sec_sources (drop_packet fs i fx now s) = (sec_sources s)[i := fx (sec_sources s ! i)]"
  "sec_source_count (drop_packet fs i fx now s) = sec_source_count s"
  "sec_global_tokens (drop_packet fs i fx now s) = sec_global_tokens s"
  "sec_global_updated (drop_packet fs i fx now s) = sec_global_updated s"
  "sec_duplicates (drop_packet fs i fx now s) = sec_duplicates s"
  "sec_duplicate_cursor (drop_packet fs i fx now s) = sec_duplicate_cursor s"
  by (simp_all add: drop_packet_def)

lemma sources_wf_cong:
  "sec_options s' = sec_options s \<Longrightarrow> sec_sources s' = sec_sources s \<Longrightarrow>
   sec_source_count s' = sec_source_count s \<Longrightarrow> sources_wf s' = sources_wf s"
  by (simp add: sources_wf_def)

lemma sources_wf_drop:
  assumes "sources_wf s" "i < length (sec_sources s)"
    "same_identity (sec_sources s ! i) (fx (sec_sources s ! i))"
  shows "sources_wf (drop_packet fs i fx now s)"
  using sources_wf_upd_source [OF assms(1,2), of fx] assms(3) by (simp add: sources_wf_def)

subsection \<open>The buckets\<close>

text \<open>An entry without its buckets, and two states that differ in buckets only.\<close>

definition no_buckets :: "security_source \<Rightarrow> security_source" where
  "no_buckets x = x\<lparr>x_tokens := 0, x_updated := 0, x_who_tokens := 0, x_who_updated := 0,
     x_write_tokens := 0, x_write_updated := 0\<rparr>"

lemma no_buckets_upd [simp]:
  "no_buckets (x\<lparr>x_tokens := t, x_updated := u\<rparr>) = no_buckets x"
  "no_buckets (x\<lparr>x_who_tokens := t, x_who_updated := u\<rparr>) = no_buckets x"
  "no_buckets (x\<lparr>x_write_tokens := t, x_write_updated := u\<rparr>) = no_buckets x"
  by (simp_all add: no_buckets_def)

lemma no_buckets_fields:
  assumes "no_buckets y = no_buckets x"
  shows "x_used y = x_used x" "x_ip y = x_ip x" "x_last_seen y = x_last_seen x"
    "x_blocked_until y = x_blocked_until x" "x_violations y = x_violations x"
    "x_violation_started y = x_violation_started x" "x_accepted y = x_accepted x"
    "x_rate_drops y = x_rate_drops x" "same_identity x y"
  using assms by (cases x; cases y; simp add: no_buckets_def same_identity_def)+

definition bucket_step :: "nat \<Rightarrow> security \<Rightarrow> security \<Rightarrow> bool" where
  "bucket_step i s s' \<longleftrightarrow>
     frame s s' \<and> sec_stats s' = sec_stats s \<and> sec_source_count s' = sec_source_count s \<and>
     sec_last_log s' = sec_last_log s \<and> sec_pending_warnings s' = sec_pending_warnings s \<and>
     sec_warned s' = sec_warned s \<and>
     (\<exists>y. sec_sources s' = (sec_sources s)[i := y] \<and> no_buckets y = no_buckets (sec_sources s ! i))"

lemma bucket_step_sources:
  "sec_sources s' = (sec_sources s)[i := y] \<Longrightarrow> no_buckets y = no_buckets (sec_sources s ! i) \<Longrightarrow>
   frame s s' \<Longrightarrow> sec_stats s' = sec_stats s \<Longrightarrow> sec_source_count s' = sec_source_count s \<Longrightarrow>
   sec_last_log s' = sec_last_log s \<Longrightarrow> sec_pending_warnings s' = sec_pending_warnings s \<Longrightarrow>
   sec_warned s' = sec_warned s \<Longrightarrow> bucket_step i s s'"
  unfolding bucket_step_def by blast

lemma bucket_step_refl: "bucket_step i s s"
  by (rule bucket_step_sources [of _ _ _ "sec_sources s ! i"]) (simp_all add: frame_def)

lemma take_global_step: "bucket_step i s (snd (take_global now s))"
  by (rule bucket_step_sources [of _ _ _ "sec_sources s ! i"])
     (simp_all add: take_global_def frame_def split: prod.splits)

lemma take_source_step:
  "bucket_step i s (snd (take_source i now s))"
  "bucket_step i s (snd (take_who_is i now s))"
  "bucket_step i s (snd (take_write i now s))"
proof -
  have "bucket_step i s (upd_source i (\<lambda>x. x\<lparr>x_tokens := t, x_updated := u\<rparr>) s)"
    "bucket_step i s (upd_source i (\<lambda>x. x\<lparr>x_who_tokens := t, x_who_updated := u\<rparr>) s)"
    "bucket_step i s (upd_source i (\<lambda>x. x\<lparr>x_write_tokens := t, x_write_updated := u\<rparr>) s)" for t u
    by (rule bucket_step_sources, simp add: upd_source_def, simp_all add: upd_source_def frame_def)+
  then show "bucket_step i s (snd (take_source i now s))"
    "bucket_step i s (snd (take_who_is i now s))"
    "bucket_step i s (snd (take_write i now s))"
    by (simp_all add: take_source_def take_who_is_def take_write_def Let_def case_prod_beta)
qed

lemma bucket_step_trans:
  assumes "i < length (sec_sources s)" "bucket_step i s s'" "bucket_step i s' s''"
  shows "bucket_step i s s''"
  using assms by (fastforce simp: bucket_step_def frame_def)

lemma take_buckets_step:
  assumes "i < length (sec_sources s)"
  shows "bucket_step i s (snd (take_buckets kind i now s))"
proof -
  obtain ok1 s1 where 1: "take_global now s = (ok1, s1)" by (cases "take_global now s")
  obtain ok2 s2 where 2: "(if ok1 then take_source i now s1 else (False, s1)) = (ok2, s2)"
    by (cases "if ok1 then take_source i now s1 else (False, s1)")
  obtain ok3 s3 where 3: "(if ok2 \<and> kind = PACKET_WHO_IS then take_who_is i now s2 else (ok2, s2)) = (ok3, s3)"
    by (cases "if ok2 \<and> kind = PACKET_WHO_IS then take_who_is i now s2 else (ok2, s2)")
  have b1: "bucket_step i s s1" using take_global_step [of i s now] 1 by simp
  have b2: "bucket_step i s1 s2"
    using take_source_step(1) [of i s1 now] bucket_step_refl 2 by (auto split: if_splits)
  have b3: "bucket_step i s2 s3"
    using take_source_step(2) [of i s2 now] bucket_step_refl 3 by (auto split: if_splits)
  have b4: "bucket_step i s3 (snd (if ok3 \<and> kind = PACKET_WRITE then take_write i now s3 else (ok3, s3)))"
    using take_source_step(3) [of i s3 now] bucket_step_refl by auto
  have len: "length (sec_sources s1) = length (sec_sources s)"
    using b1 by (auto simp: bucket_step_def)
  have "bucket_step i s s2" using bucket_step_trans [OF assms b1 b2] .
  then have "bucket_step i s s3" using bucket_step_trans [OF assms _ b3] by blast
  from bucket_step_trans [OF assms this b4] show ?thesis
    by (simp add: take_buckets_def 1 2 3 del: if_split split del: if_split)
qed

text \<open>Whether the chain grants, in terms of the single buckets; the global bucket afterwards.\<close>

lemma take_global_bucket:
  "fst (take_global now s) = fst (bucket_take (global_bucket s) now)"
  "global_bucket (snd (take_global now s)) = snd (bucket_take (global_bucket s) now)"
  by (simp_all add: take_global_def bucket_take_def global_bucket_def Let_def case_prod_beta)

lemma upd_source_bucket [simp]: "global_bucket (upd_source i f s) = global_bucket s"
  by (simp add: global_bucket_def)

lemma take_source_bucket:
  "global_bucket (snd (take_source i now s)) = global_bucket s"
  "global_bucket (snd (take_who_is i now s)) = global_bucket s"
  "global_bucket (snd (take_write i now s)) = global_bucket s"
  by (simp_all add: take_source_def take_who_is_def take_write_def Let_def case_prod_beta)

lemma take_buckets_global:
  "global_bucket (snd (take_buckets kind i now s)) = snd (bucket_take (global_bucket s) now)"
  "fst (take_buckets kind i now s) \<Longrightarrow> fst (bucket_take (global_bucket s) now)"
  by (auto simp: take_buckets_def Let_def case_prod_beta take_global_bucket take_source_bucket
      split: if_splits)

subsection \<open>One packet\<close>

lemma bucket_step_wf:
  assumes "bucket_step i s s'" "sources_wf s" "i < length (sec_sources s)"
  shows "sources_wf s'" "length (sec_sources s') = length (sec_sources s)"
    "sec_options s' = sec_options s" "sec_stats s' = sec_stats s"
    "no_buckets (sec_sources s' ! i) = no_buckets (sec_sources s ! i)"
    "j \<noteq> i \<Longrightarrow> sec_sources s' ! j = sec_sources s ! j"
proof -
  obtain y where y: "sec_sources s' = (sec_sources s)[i := y]" "no_buckets y = no_buckets (sec_sources s ! i)"
    and f: "frame s s'" "sec_source_count s' = sec_source_count s" "sec_stats s' = sec_stats s"
    using assms(1) by (auto simp: bucket_step_def)
  have "sources_wf (upd_source i (\<lambda>_. y) s)"
    using assms(2,3) no_buckets_fields(9) [OF y(2)] by (rule sources_wf_upd_source)
  moreover have o: "sec_options s' = sec_options s" using f by (simp add: frame_def)
  ultimately show "sources_wf s'"
    using f y by (simp add: sources_wf_def)
  show "length (sec_sources s') = length (sec_sources s)" "sec_options s' = sec_options s"
    "sec_stats s' = sec_stats s"
    "no_buckets (sec_sources s' ! i) = no_buckets (sec_sources s ! i)"
    "j \<noteq> i \<Longrightarrow> sec_sources s' ! j = sec_sources s ! j"
    using y f o assms(3) by simp_all
qed

text \<open>The five outcomes of check_packet.\<close>

lemma check_packet_cases:
  assumes "check_packet npdu ip pdu now i s = (ok, kind, s')"
  obtains
    (acl) "acl_refuses (sec_options s) ip" "\<not> ok"
      "s' = drop_packet count_acl i (\<lambda>x. x\<lparr>x_acl_drops := x_acl_drops x + 1\<rparr>) now s"
  | (blocked) "\<not> acl_refuses (sec_options s) ip" "x_blocked_until (sec_sources s ! i) > now" "\<not> ok"
      "s' = drop_packet count_blocked i (\<lambda>x. x\<lparr>x_blocked_drops := x_blocked_drops x + 1\<rparr>) now s"
  | (malformed) "\<not> acl_refuses (sec_options s) ip" "\<not> x_blocked_until (sec_sources s ! i) > now"
      "classify_packet npdu pdu = None" "\<not> ok"
      "s' = drop_packet count_malformed i (\<lambda>x. x\<lparr>x_malformed := x_malformed x + 1\<rparr>) now s"
  | (rate) s1 where "\<not> acl_refuses (sec_options s) ip" "\<not> x_blocked_until (sec_sources s ! i) > now"
      "classify_packet npdu pdu = Some kind" "take_buckets kind i now s = (False, s1)" "\<not> ok"
      "s' = drop_packet count_rate i (\<lambda>x. php_bacnet_security_violation (sec_options s1) now
              (x\<lparr>x_rate_drops := x_rate_drops x + 1\<rparr>)) now s1"
  | (accepted) s1 where "\<not> acl_refuses (sec_options s) ip" "\<not> x_blocked_until (sec_sources s ! i) > now"
      "classify_packet npdu pdu = Some kind" "take_buckets kind i now s = (True, s1)" "ok"
      "s' = upd_source i (\<lambda>x. x\<lparr>x_accepted := x_accepted x + 1\<rparr>) (upd_stats count_accepted s1)"
proof (cases "acl_refuses (sec_options s) ip")
  case True
  then show thesis using assms acl by (simp add: check_packet_def)
next
  case a: False
  show thesis
  proof (cases "x_blocked_until (sec_sources s ! i) > now")
    case True
    then show thesis using assms a blocked by (simp add: check_packet_def)
  next
    case b: False
    show thesis
    proof (cases "classify_packet npdu pdu")
      case None
      then show thesis using assms a b malformed by (simp add: check_packet_def)
    next
      case (Some k)
      obtain g s1 where t: "take_buckets k i now s = (g, s1)" by (cases "take_buckets k i now s")
      show thesis
        using assms a b Some t rate [of s1] accepted [of s1]
        by (cases g) (simp_all add: check_packet_def)
    qed
  qed
qed

definition bucket_same_or_taken :: "dbl \<Rightarrow> bool \<Rightarrow> security \<Rightarrow> security \<Rightarrow> bool" where
  "bucket_same_or_taken now ok s s' \<longleftrightarrow>
     (global_bucket s' = global_bucket s \<and> \<not> ok) \<or>
     (global_bucket s' = snd (bucket_take (global_bucket s) now) \<and>
        (ok \<longrightarrow> fst (bucket_take (global_bucket s) now)))"

lemma global_bucket_cong:
  "sec_options s' = sec_options s \<Longrightarrow> sec_global_tokens s' = sec_global_tokens s \<Longrightarrow>
   sec_global_updated s' = sec_global_updated s \<Longrightarrow> global_bucket s' = global_bucket s"
  by (simp add: global_bucket_def)

lemma check_packet_effect:
  assumes "sources_wf s" "i < length (sec_sources s)"
    and cp: "check_packet npdu ip pdu now i s = (ok, kind, s')"
  shows "sources_wf s'" and "frame s s'" and "bucket_same_or_taken now ok s s'"
    and "\<exists>y. sec_sources s' = (sec_sources s)[i := y]"
proof -
  have b: "bucket_step i s s1" if "take_buckets k i now s = (g, s1)" for k g s1
    using take_buckets_step [OF assms(2), of k now] that by simp
  have g: "global_bucket s1 = snd (bucket_take (global_bucket s) now) \<and>
      (g \<longrightarrow> fst (bucket_take (global_bucket s) now))" if "take_buckets k i now s = (g, s1)" for k g s1
    using take_buckets_global [of k i now s] that by auto
  from cp show "sources_wf s'"
  proof (cases rule: check_packet_cases)
    case (rate s1)
    note w = bucket_step_wf [OF b [OF rate(4)] assms(1,2)]
    show ?thesis unfolding rate(6) by (rule sources_wf_drop [OF w(1)]) (simp_all add: w assms(2))
  next
    case (accepted s1)
    note w = bucket_step_wf [OF b [OF accepted(4)] assms(1,2)]
    have "sources_wf (upd_stats count_accepted s1)"
      using w(1) by (simp add: sources_wf_def)
    then show ?thesis
      unfolding accepted(6) by (rule sources_wf_upd_source) (simp_all add: w assms(2))
  qed (simp_all add: assms sources_wf_drop)
  from cp show "frame s s'"
  proof (cases rule: check_packet_cases)
    case (rate s1)
    then show ?thesis using b [OF rate(4)] by (simp add: bucket_step_def frame_def)
  next
    case (accepted s1)
    then show ?thesis using b [OF accepted(4)] by (simp add: bucket_step_def frame_def)
  qed (simp_all add: frame_def)
  from cp show "bucket_same_or_taken now ok s s'"
  proof (cases rule: check_packet_cases)
    case (rate s1)
    have "global_bucket s' = global_bucket s1" unfolding rate(6) by (rule global_bucket_cong) simp_all
    then show ?thesis using g [OF rate(4)] rate(5) by (simp add: bucket_same_or_taken_def)
  next
    case (accepted s1)
    have "global_bucket s' = global_bucket s1" unfolding accepted(6) by (rule global_bucket_cong) simp_all
    then show ?thesis using g [OF accepted(4)] by (simp add: bucket_same_or_taken_def)
  qed (simp_all add: bucket_same_or_taken_def global_bucket_def)
  from cp show "\<exists>y. sec_sources s' = (sec_sources s)[i := y]"
  proof (cases rule: check_packet_cases)
    case (rate s1)
    then show ?thesis using b [OF rate(4)] by (auto simp: bucket_step_def)
  next
    case (accepted s1)
    then show ?thesis using b [OF accepted(4)] by (auto simp: bucket_step_def)
  qed auto
qed

subsection \<open>accept\<close>

lemma accept_disabled:
  "\<not> o_enabled (sec_options s) \<Longrightarrow>
   php_bacnet_security_accept npdu source pdu now s = (True, PACKET_OTHER, upd_stats count_accepted s)"
  by (simp add: php_bacnet_security_accept_def)

lemma security_wfD:
  assumes "security_wf s"
  shows "sources_wf s" "options_positive (sec_options s)" "0 < unat (o_max_sources (sec_options s))"
    "bucket_ok (global_bucket s)"
  using assms options_positiveD(24) by (simp_all add: security_wf_def options_ok_def)

lemma accept_cases:
  assumes wf: "security_wf s" and en: "o_enabled (sec_options s)"
    and acc: "php_bacnet_security_accept npdu source pdu now s = (ok, kind, s')"
  obtains i s1 where
    "php_bacnet_security_get_source (php_bacnet_security_source_ip source) now s = (Some i, s1)"
    "sources_wf s1" "i < length (sec_sources s1)"
    "s1 = s\<lparr>sec_sources := sec_sources s1, sec_source_count := sec_source_count s1\<rparr>"
    "check_packet npdu (php_bacnet_security_source_ip source) pdu now i s1 = (ok, kind, s')"
proof -
  let ?ip = "php_bacnet_security_source_ip source"
  obtain r s1 where gs: "php_bacnet_security_get_source ?ip now s = (r, s1)"
    by (cases "php_bacnet_security_get_source ?ip now s")
  obtain i where i: "r = Some i" "i < length (sec_sources s1)" "sources_wf s1"
    "s1 = s\<lparr>sec_sources := sec_sources s1, sec_source_count := sec_source_count s1\<rparr>"
    by (rule get_source [OF security_wfD(1,3) [OF wf] gs])
  show thesis
    using gs i acc en by (intro that [of i s1]) (auto simp: php_bacnet_security_accept_def)
qed

lemma lookup_keeps:
  assumes "s1 = s\<lparr>sec_sources := sec_sources s1, sec_source_count := sec_source_count s1\<rparr>"
  shows "sec_options s1 = sec_options s" "sec_stats s1 = sec_stats s" "global_bucket s1 = global_bucket s"
    "frame s s1" "sec_global_updated s1 = sec_global_updated s" "sec_global_tokens s1 = sec_global_tokens s"
    "sec_duplicates s1 = sec_duplicates s"
  by (subst assms, simp add: global_bucket_def frame_def)+

lemma accept_effect:
  assumes "security_wf s" "o_enabled (sec_options s)"
    and "php_bacnet_security_accept npdu source pdu now s = (ok, kind, s')"
  shows "sources_wf s'" "frame s s'" "bucket_same_or_taken now ok s s'"
proof -
  obtain i s1 where *: "sources_wf s1" "i < length (sec_sources s1)"
    "s1 = s\<lparr>sec_sources := sec_sources s1, sec_source_count := sec_source_count s1\<rparr>"
    "check_packet npdu (php_bacnet_security_source_ip source) pdu now i s1 = (ok, kind, s')"
    by (rule accept_cases [OF assms])
  note e = check_packet_effect [OF *(1,2,4)] and l = lookup_keeps [OF *(3)]
  show "sources_wf s'" by (rule e(1))
  show "frame s s'" using e(2) l(4) by (simp add: frame_def)
  show "bucket_same_or_taken now ok s s'"
    using e(3) l(3) by (simp add: bucket_same_or_taken_def)
qed

lemma accept_wf:
  assumes wf: "security_wf s" and "isfinite now" "dbl_val (sec_global_updated s) \<le> dbl_val now"
  shows "security_wf (snd (snd (php_bacnet_security_accept npdu source pdu now s)))"
proof (cases "o_enabled (sec_options s)")
  case False
  then show ?thesis
    using wf by (simp add: accept_disabled security_wf_def sources_wf_def global_bucket_def)
next
  case True
  obtain ok kind s' where acc: "php_bacnet_security_accept npdu source pdu now s = (ok, kind, s')"
    by (cases "php_bacnet_security_accept npdu source pdu now s")
  note e = accept_effect [OF wf True acc]
  have "bucket_ok (global_bucket s')"
    using e(3) security_wfD(4) [OF wf] bucket_take_step(1) [OF security_wfD(4) [OF wf] assms(2)] assms(3)
    by (auto simp: bucket_same_or_taken_def global_bucket_def [of s])
  then show ?thesis
    using e wf acc by (simp add: security_wf_def frame_def)
qed

text \<open>The filter as a rate limiter over events: source, packet, time.\<close>

type_synonym packet_event = "bacnet_address \<times> bytes \<times> dbl"

definition accept_event :: "(bytes \<Rightarrow> int \<times> bool) \<Rightarrow> security \<Rightarrow> packet_event \<Rightarrow> bool \<times> security" where
  "accept_event npdu s e =
    (case e of (source, pdu, now) \<Rightarrow>
       (case php_bacnet_security_accept npdu source pdu now s of (ok, kind, s') \<Rightarrow> (ok, s')))"

definition filtering :: "security \<Rightarrow> bool" where
  "filtering s \<longleftrightarrow> security_wf s \<and> o_enabled (sec_options s)"

lemma accept_event_effect:
  assumes "filtering s" "isfinite now" "dbl_val (sec_global_updated s) \<le> dbl_val now"
    and "accept_event npdu s (source, pdu, now) = (ok, s')"
  shows "filtering s'" "frame s s'" "bucket_same_or_taken now ok s s'"
proof -
  obtain kind where acc: "php_bacnet_security_accept npdu source pdu now s = (ok, kind, s')"
    using assms(4) by (auto simp: accept_event_def split: prod.splits)
  have f: "security_wf s" "o_enabled (sec_options s)" using assms(1) by (simp_all add: filtering_def)
  note e = accept_effect [OF f acc]
  show "frame s s'" "bucket_same_or_taken now ok s s'" using e by simp_all
  show "filtering s'"
    using accept_wf [OF f(1) assms(2,3), of npdu source pdu] acc e(2) f
    by (simp add: filtering_def frame_def)
qed

interpretation sf: rate_limited filtering "\<lambda>e. isfinite (snd (snd e))" "accept_event npdu"
  "\<lambda>s. dbl_val (sec_global_tokens s)" "\<lambda>s. dbl_val (sec_global_updated s)"
  "\<lambda>e. dbl_val (snd (snd e))" "\<lambda>s. dbl_val (o_global_rate (sec_options s))" for npdu
proof unfold_locales
  fix s :: security and e :: packet_event
  assume f: "filtering s"
  then have b: "bucket_ok (global_bucket s)" by (simp add: filtering_def security_wf_def)
  then show "0 \<le> dbl_val (sec_global_tokens s)" "0 \<le> dbl_val (o_global_rate (sec_options s))"
    by (simp_all add: bucket_ok_def global_bucket_def)
  obtain source pdu now where e: "e = (source, pdu, now)" by (cases e)
  obtain ok s' where acc: "accept_event npdu s (source, pdu, now) = (ok, s')"
    by (cases "accept_event npdu s (source, pdu, now)")
  assume fin: "isfinite (snd (snd e))"
  then have fn: "isfinite now" by (simp add: e)
  {
    obtain kind where acc': "php_bacnet_security_accept npdu source pdu now s = (ok, kind, s')"
      using acc by (auto simp: accept_event_def split: prod.splits)
    have "frame s s'"
      using accept_effect(2) [OF _ _ acc'] f by (simp add: filtering_def)
    then show "dbl_val (o_global_rate (sec_options (snd (accept_event npdu s e)))) =
        dbl_val (o_global_rate (sec_options s))"
      by (simp add: e acc frame_def)
  }
  assume "dbl_val (sec_global_updated s) \<le> dbl_val (snd (snd e))"
  then have le: "dbl_val (sec_global_updated s) \<le> dbl_val now" by (simp add: e)
  note ef = accept_event_effect [OF f fn le acc]
  show "filtering (snd (accept_event npdu s e))" using ef(1) by (simp add: e acc)
  let ?b = "global_bucket s"
  have le': "dbl_val (bk_updated ?b) \<le> dbl_val now" using le by (simp add: global_bucket_def)
  note bt = bucket_take_step [OF b fn le']
  have g: "sec_global_updated s' = bk_updated (global_bucket s')"
    "sec_global_tokens s' = bk_tokens (global_bucket s')"
    "sec_global_updated s = bk_updated ?b" "sec_global_tokens s = bk_tokens ?b"
    "o_global_rate (sec_options s) = bk_rate ?b"
    by (simp_all add: global_bucket_def)
  show "dbl_val (sec_global_updated s) \<le> dbl_val (sec_global_updated (snd (accept_event npdu s e))) \<and>
      dbl_val (sec_global_updated (snd (accept_event npdu s e))) \<le> dbl_val (snd (snd e))"
    using ef(3) bt(2) le' by (auto simp: e acc g bucket_same_or_taken_def)
  have lv: "0 \<le> dbl_val (bk_tokens ?b)" using b by (simp add: bucket_ok_def)
  have one: "dbl_val (bk_tokens ?b) \<le> step_growth * dbl_val (bk_tokens ?b)"
    using mult_right_mono [OF step_growth_ge_1 lv] by simp
  show "dbl_val (sec_global_tokens (snd (accept_event npdu s e)))
      + (if fst (accept_event npdu s e) then 1 else 0)
      \<le> step_growth * (dbl_val (sec_global_tokens s) + dbl_val (o_global_rate (sec_options s)) *
          (dbl_val (sec_global_updated (snd (accept_event npdu s e))) - dbl_val (sec_global_updated s)))"
    using ef(3) bt(2,5) one
    by (cases ok) (auto simp: e acc g bucket_same_or_taken_def split: if_splits)
qed

text \<open>A run of packets: how many were accepted, and the state after it.\<close>

fun accept_run :: "(bytes \<Rightarrow> int \<times> bool) \<Rightarrow> security \<Rightarrow> packet_event list \<Rightarrow> nat \<times> security" where
  "accept_run npdu s [] = (0, s)"
| "accept_run npdu s ((source, pdu, now) # es) =
     (let (ok, kind, s') = php_bacnet_security_accept npdu source pdu now s;
          (n, s'') = accept_run npdu s' es
      in (if ok then Suc n else n, s''))"

fun in_time_order :: "rat \<Rightarrow> packet_event list \<Rightarrow> bool" where
  "in_time_order t [] = True"
| "in_time_order t ((source, pdu, now) # es) =
     (isfinite now \<and> t \<le> dbl_val now \<and> in_time_order (dbl_val now) es)"

lemma accept_run_Cons:
  "accept_run npdu s (e # es) =
     (let (ok, s') = accept_event npdu s e; (n, s'') = accept_run npdu s' es
      in (if ok then Suc n else n, s''))"
  by (cases e) (simp add: accept_event_def Let_def case_prod_beta)

lemma accept_run_sf: "accept_run npdu s es = sf.run npdu s es"
proof (induction es arbitrary: s)
  case Nil
  show ?case by (simp add: sf.run.simps)
next
  case (Cons e es)
  show ?case unfolding accept_run_Cons sf.run.simps Cons.IH by (rule refl)
qed

lemma in_time_order_sf: "in_time_order t es \<longleftrightarrow> sf.in_order t es \<and> (\<forall>e \<in> set es. isfinite (snd (snd e)))"
  by (induction t es rule: in_time_order.induct) (auto simp: sf.in_order.simps)

lemma accept_run_bound:
  assumes f: "filtering s" and o: "in_time_order (dbl_val (sec_global_updated s)) es" and ne: "es \<noteq> []"
  shows "of_nat (fst (accept_run npdu s es))
    \<le> step_growth ^ length es * (dbl_val (sec_global_tokens s) +
        dbl_val (o_global_rate (sec_options s)) *
          (dbl_val (snd (snd (last es))) - dbl_val (sec_global_updated s)))"
proof -
  let ?r = "dbl_val (o_global_rate (sec_options s))"
  have o': "sf.in_order (dbl_val (sec_global_updated s)) es" "\<forall>e \<in> set es. isfinite (snd (snd e))"
    using o by (simp_all add: in_time_order_sf)
  note st = sf.run_stamp [OF f o'(2,1) ne, of npdu]
  have r: "0 \<le> ?r" by (rule sf.rate_nonneg [OF f])
  have g: "0 \<le> step_growth ^ length es" using step_growth_ge_1 by simp
  have "of_nat (fst (accept_run npdu s es)) \<le> step_growth ^ length es *
      (dbl_val (sec_global_tokens s) + ?r *
        (dbl_val (sec_global_updated (snd (accept_run npdu s es))) - dbl_val (sec_global_updated s)))"
    unfolding accept_run_sf by (rule sf.run_grants [OF f o'(2,1)])
  also have "\<dots> \<le> step_growth ^ length es * (dbl_val (sec_global_tokens s) + ?r *
        (dbl_val (snd (snd (last es))) - dbl_val (sec_global_updated s)))"
    using st unfolding accept_run_sf [symmetric]
    by (intro mult_left_mono [OF _ g] add_left_mono mult_left_mono [OF _ r]) simp
  finally show ?thesis .
qed

subsection \<open>The outcome of a packet\<close>

text \<open>The source has an entry that is still valid and is blocked.\<close>

definition blocked_source :: "security \<Rightarrow> u32 \<Rightarrow> dbl \<Rightarrow> bool" where
  "blocked_source s ip now \<longleftrightarrow>
     list_ex (\<lambda>x. x_used x \<and> \<not> expired (o_source_ttl (sec_options s)) now x \<and> x_ip x = ip \<and>
                  x_blocked_until x > now) (sec_sources s)"

lemma lookup_blocked:
  assumes wf: "security_wf s" and "0 \<le> now"
    and gs: "php_bacnet_security_get_source ip now s = (Some i, s1)"
  shows "x_blocked_until (sec_sources s1 ! i) > now \<longleftrightarrow> blocked_source s ip now"
proof -
  let ?ttl = "o_source_ttl (sec_options s)" and ?xs = "sec_sources s"
  obtain i' where i': "Some i = Some i'"
    and len: "length (sec_sources s1) = length ?xs" "i' < length (sec_sources s1)"
    and alt: "(\<exists>x. x \<in> set ?xs \<and> x_used x \<and> \<not> expired ?ttl now x \<and> x_ip x = ip \<and> x = ?xs ! i' \<and>
          sec_sources s1 ! i' = x\<lparr>x_last_seen := now\<rparr>) \<or>
      (\<forall>j < length ?xs. x_used (?xs ! j) \<longrightarrow> \<not> expired ?ttl now (?xs ! j) \<longrightarrow> x_ip (?xs ! j) \<noteq> ip) \<and>
      sec_sources s1 ! i' = new_source (sec_options s) ip now"
    by (rule get_source [OF security_wfD(1,3) [OF wf] gs])
  have i: "i' = i" using i' by simp
  from alt show ?thesis
  proof
    assume "\<exists>x. x \<in> set ?xs \<and> x_used x \<and> \<not> expired ?ttl now x \<and> x_ip x = ip \<and> x = ?xs ! i' \<and>
          sec_sources s1 ! i' = x\<lparr>x_last_seen := now\<rparr>"
    then have x: "x_used (?xs ! i)" "\<not> expired ?ttl now (?xs ! i)" "x_ip (?xs ! i) = ip"
      "x_blocked_until (sec_sources s1 ! i) = x_blocked_until (?xs ! i)" "i < length ?xs"
      using len i by auto
    have "ips_distinct ?xs"
      using security_wfD(1) [OF wf] by (simp add: sources_wf_def table_wf_def)
    then have uniq: "j = i" if "j < length ?xs" "x_used (?xs ! j)" "x_ip (?xs ! j) = ip" for j
      using that x unfolding ips_distinct_def by blast
    have "x_blocked_until (?xs ! i) > now \<longleftrightarrow> blocked_source s ip now"
      unfolding blocked_source_def list_ex_length using x(1,2,3,5) uniq by blast
    then show ?thesis by (simp only: x(4))
  next
    assume *: "(\<forall>j < length ?xs. x_used (?xs ! j) \<longrightarrow> \<not> expired ?ttl now (?xs ! j) \<longrightarrow> x_ip (?xs ! j) \<noteq> ip) \<and>
      sec_sources s1 ! i' = new_source (sec_options s) ip now"
    then have "\<not> blocked_source s ip now"
      by (auto simp: blocked_source_def list_ex_length)
    moreover have "\<not> now < 0"
      using assms(2) by (cases now) (auto simp: less_eq_dbl_def dbl_simps)
    ultimately show ?thesis using * i by simp
  qed
qed

lemma accept_outcome:
  assumes wf: "security_wf s" and en: "o_enabled (sec_options s)" and t: "0 \<le> now"
    and acc: "php_bacnet_security_accept npdu source pdu now s = (ok, kind, s')"
  shows "if acl_refuses (sec_options s) (php_bacnet_security_source_ip source)
     then \<not> ok \<and> sec_stats s' = count_acl (sec_stats s) \<and> global_bucket s' = global_bucket s
     else if blocked_source s (php_bacnet_security_source_ip source) now
     then \<not> ok \<and> sec_stats s' = count_blocked (sec_stats s) \<and> global_bucket s' = global_bucket s
     else (case classify_packet npdu pdu of
         None \<Rightarrow> \<not> ok \<and> sec_stats s' = count_malformed (sec_stats s) \<and> global_bucket s' = global_bucket s
       | Some k \<Rightarrow> kind = k \<and> sec_stats s' = (if ok then count_accepted else count_rate) (sec_stats s) \<and>
           global_bucket s' = snd (bucket_take (global_bucket s) now) \<and>
           (ok \<longrightarrow> fst (bucket_take (global_bucket s) now)))"
proof -
  let ?ip = "php_bacnet_security_source_ip source"
  obtain i s1 where gs: "php_bacnet_security_get_source ?ip now s = (Some i, s1)"
    and s1: "sources_wf s1" "i < length (sec_sources s1)"
      "s1 = s\<lparr>sec_sources := sec_sources s1, sec_source_count := sec_source_count s1\<rparr>"
    and cp: "check_packet npdu ?ip pdu now i s1 = (ok, kind, s')"
    by (rule accept_cases [OF wf en acc])
  note l = lookup_keeps [OF s1(3)]
  note bl = lookup_blocked [OF wf t gs]
  from cp show ?thesis
  proof (cases rule: check_packet_cases)
    case (rate s2)
    have b: "bucket_step i s1 s2" using take_buckets_step [OF s1(2), of kind now] rate(4) by simp
    have "global_bucket s' = global_bucket s2" unfolding rate(6) by (rule global_bucket_cong) simp_all
    then show ?thesis
      using rate bl l bucket_step_wf(4) [OF b s1(1,2)] take_buckets_global(1) [of kind i now s1] by simp
  next
    case (accepted s2)
    have b: "bucket_step i s1 s2" using take_buckets_step [OF s1(2), of kind now] accepted(4) by simp
    have "global_bucket s' = global_bucket s2" unfolding accepted(6) by (rule global_bucket_cong) simp_all
    then show ?thesis
      using accepted bl l bucket_step_wf(4) [OF b s1(1,2)] take_buckets_global [of kind i now s1] by simp
  qed (use bl l in \<open>simp_all add: global_bucket_def\<close>)
qed

subsection \<open>Violations\<close>

lemma violation_first:
  assumes "1 < unat (o_flood_violations n)" and "x_violations x = 0"
  shows "x_violations (php_bacnet_security_violation n now x) = 1"
    and "x_violation_started (php_bacnet_security_violation n now x) = now"
  using assms
  by (simp_all add: php_bacnet_security_violation_def Let_def word_le_nat_alt)

lemma violation_next:
  assumes v: "0 < unat (x_violations x)" "Suc (unat (x_violations x)) < unat (o_flood_violations n)"
    and w: "\<not> now - x_violation_started x > o_flood_window n"
  shows "php_bacnet_security_violation n now x = x\<lparr>x_violations := x_violations x + 1\<rparr>"
    and "unat (x_violations x + 1) = Suc (unat (x_violations x))"
proof -
  have u: "unat (x_violations x + 1) = Suc (unat (x_violations x))"
    using v(2) unsigned_less [of "o_flood_violations n", where ?'a = nat]
    by (simp add: unat_word_ariths)
  moreover have "x_violations x \<noteq> 0" using v(1) by auto
  ultimately show "php_bacnet_security_violation n now x = x\<lparr>x_violations := x_violations x + 1\<rparr>"
    using v(2) w by (simp add: php_bacnet_security_violation_def Let_def word_le_nat_alt)
  show "unat (x_violations x + 1) = Suc (unat (x_violations x))" by (rule u)
qed

lemma violation_last:
  assumes v: "Suc (unat (x_violations x)) = unat (o_flood_violations n)"
    and w: "0 < unat (x_violations x) \<Longrightarrow> \<not> now - x_violation_started x > o_flood_window n"
  shows "x_blocked_until (php_bacnet_security_violation n now x) = now + o_block_duration n"
proof -
  have u: "unat (x_violations x + 1) = Suc (unat (x_violations x))"
    using v unsigned_less [of "o_flood_violations n", where ?'a = nat] by (simp add: unat_word_ariths)
  have z: "x_violations x = 0 \<longleftrightarrow> unat (x_violations x) = 0" by (simp add: unat_eq_zero)
  have "o_flood_violations n \<le> x_violations x + 1" using u v by (simp add: word_le_nat_alt)
  then show ?thesis
    using w z by (auto simp: php_bacnet_security_violation_def Let_def)
qed

lemma violations_count:
  assumes "0 < unat (x_violations x)"
    and "unat (x_violations x) + length ts < unat (o_flood_violations n)"
    and "\<forall>t \<in> set ts. \<not> t - x_violation_started x > o_flood_window n"
  shows "unat (x_violations (foldl (\<lambda>x t. php_bacnet_security_violation n t x) x ts))
      = unat (x_violations x) + length ts"
    and "x_violation_started (foldl (\<lambda>x t. php_bacnet_security_violation n t x) x ts) = x_violation_started x"
proof -
  let ?f = "\<lambda>x t. php_bacnet_security_violation n t x"
  have "unat (x_violations (foldl ?f x ts)) = unat (x_violations x) + length ts \<and>
      x_violation_started (foldl ?f x ts) = x_violation_started x"
    using assms
  proof (induction ts arbitrary: x)
    case (Cons t ts)
    have *: "?f x t = x\<lparr>x_violations := x_violations x + 1\<rparr>"
      "unat (x_violations x + 1) = Suc (unat (x_violations x))"
      using violation_next [of x n t] Cons.prems by simp_all
    show ?case
      using Cons.IH [of "x\<lparr>x_violations := x_violations x + 1\<rparr>"] Cons.prems * by simp
  qed simp
  then show "unat (x_violations (foldl ?f x ts)) = unat (x_violations x) + length ts"
    and "x_violation_started (foldl ?f x ts) = x_violation_started x" by simp_all
qed

lemma violations_block:
  assumes "x_violations x = 0" and "length ts = unat (o_flood_violations n)" and "ts \<noteq> []"
    and "\<forall>t \<in> set ts. \<not> t - hd ts > o_flood_window n"
  shows "x_blocked_until (foldl (\<lambda>x t. php_bacnet_security_violation n t x) x ts)
    = last ts + o_block_duration n"
proof (cases "length ts = 1")
  case True
  then obtain t where "ts = [t]" by (cases ts) auto
  then show ?thesis
    using violation_last [of x n t] assms(1,2) by simp
next
  case False
  obtain t rest where ts: "ts = t # rest" "rest \<noteq> []" using assms(3) False by (cases ts) auto
  define mid where "mid = butlast rest"
  define u where "u = last rest"
  have rest: "rest = mid @ [u]" using ts(2) by (simp add: mid_def u_def)
  have u: "last ts = u" using ts by (simp add: u_def)
  let ?f = "\<lambda>x t. php_bacnet_security_violation n t x"
  have l: "unat (o_flood_violations n) = Suc (Suc (length mid))"
    using assms(2) unfolding ts(1) rest by simp
  define y where "y = ?f x t"
  have y: "x_violations y = 1" "x_violation_started y = t"
    using violation_first [of n x t] assms(1) l by (simp_all add: y_def)
  have mid: "\<forall>u \<in> set mid. \<not> u - x_violation_started y > o_flood_window n"
    using assms(4) unfolding ts(1) rest y by simp
  have c: "unat (x_violations (foldl ?f y mid)) = Suc (length mid)"
    "x_violation_started (foldl ?f y mid) = t"
    using violations_count [OF _ _ mid] y l by simp_all
  have "\<not> u - t > o_flood_window n" using assms(4) unfolding ts(1) rest by simp
  then have "x_blocked_until (?f (foldl ?f y mid) u) = u + o_block_duration n"
    using c l by (intro violation_last) simp_all
  then show ?thesis unfolding u by (simp add: ts(1) rest y_def [symmetric])
qed

end
