(* ===== verification/Security_Dedup.thy ===== *)
theory Security_Dedup
  imports Security_Filter
begin

text \<open>
  Suppression of repeated writes in src/bacnet_security.c: the hash of a write request, the
  table of recent writes that is overwritten in a ring, the test and the recording.  The
  table refines the list of the most recent SECURITY_DUPLICATES writes.
\<close>

definition php_bacnet_security_hash_write :: "u32 \<Rightarrow> bytes \<Rightarrow> u64" where
  "php_bacnet_security_hash_write ip apdu =
    foldl fnv1a_step
      (foldl (\<lambda>h i. fnv1a_step h (ucast (drop_bit (i * 8) ip AND 255))) fnv1a_basis [0..<4])
      apdu"

definition php_bacnet_security_is_duplicate_write ::
    "bacnet_address \<Rightarrow> bytes \<Rightarrow> dbl \<Rightarrow> security \<Rightarrow> bool \<times> security" where
  "php_bacnet_security_is_duplicate_write source apdu now s =
    (if \<not> o_enabled (sec_options s) then (False, s)
     else
       let ip = php_bacnet_security_source_ip source;
           h = php_bacnet_security_hash_write ip apdu
       in if list_ex (\<lambda>d. dup_used d \<and> dup_expires d > now \<and> dup_ip d = ip \<and> dup_hash d = h)
               (sec_duplicates s)
          then (True, upd_stats (\<lambda>st. st\<lparr>st_deduplicated_writes := st_deduplicated_writes st + 1\<rparr>) s)
          else (False, s))"

definition php_bacnet_security_record_write ::
    "bacnet_address \<Rightarrow> bytes \<Rightarrow> dbl \<Rightarrow> security \<Rightarrow> security" where
  "php_bacnet_security_record_write source apdu now s =
    (if \<not> o_enabled (sec_options s) then s
     else
       let ip = php_bacnet_security_source_ip source
       in s\<lparr>sec_duplicates := (sec_duplicates s)[unat (sec_duplicate_cursor s) mod SECURITY_DUPLICATES :=
              \<lparr>dup_ip = ip, dup_hash = php_bacnet_security_hash_write ip apdu,
               dup_expires = now + o_duplicate_window (sec_options s), dup_used = True\<rparr>],
            sec_duplicate_cursor := sec_duplicate_cursor s + 1\<rparr>)"

subsection \<open>The ring\<close>

lemma capacity_pos: "0 < SECURITY_DUPLICATES"
  by (simp add: SECURITY_DUPLICATES_def)

lemma cursor_wrap: "unat (c + 1 :: u16) mod SECURITY_DUPLICATES = Suc (unat c) mod SECURITY_DUPLICATES"
proof -
  have "unat (c + 1) = Suc (unat c) mod 2 ^ LENGTH(16)"
    by (simp add: unat_word_ariths)
  moreover have "SECURITY_DUPLICATES dvd 2 ^ LENGTH(16)"
    by (simp add: SECURITY_DUPLICATES_def)
  ultimately show ?thesis by (simp only: mod_mod_cancel)
qed

text \<open>The slot of the write recorded i writes before the last one.\<close>

definition slot :: "nat \<Rightarrow> u16 \<Rightarrow> nat \<Rightarrow> nat" where
  "slot cap c i = (unat c mod cap + cap - Suc i) mod cap"

lemma slot_less: "0 < cap \<Longrightarrow> slot cap c i < cap"
  by (simp add: slot_def)

lemma slot_shift:
  assumes "Suc i < cap" "unat c' mod cap = Suc (unat c) mod cap"
  shows "slot cap c' (Suc i) = slot cap c i"
proof (cases "Suc (unat c mod cap) = cap")
  case True
  then have "unat c' mod cap = 0" using assms by (simp add: mod_Suc)
  then have "slot cap c' (Suc i) = cap - Suc (Suc i)" using assms(1) by (simp add: slot_def)
  moreover have "unat c mod cap + cap - Suc i = cap + (cap - Suc (Suc i))" using True assms(1) by simp
  then have "slot cap c i = (cap - Suc (Suc i)) mod cap" unfolding slot_def by (simp only: mod_add_self1)
  then have "slot cap c i = cap - Suc (Suc i)" using assms(1) by simp
  ultimately show ?thesis by simp
next
  case False
  then have "unat c' mod cap = Suc (unat c mod cap)" using assms by (simp add: mod_Suc)
  then show ?thesis using assms(1) by (simp add: slot_def)
qed

lemma slot_0:
  assumes "0 < cap" "unat c' mod cap = Suc (unat c) mod cap"
  shows "slot cap c' 0 = unat c mod cap"
proof (cases "Suc (unat c mod cap) = cap")
  case True
  then have "unat c' mod cap = 0" using assms by (simp add: mod_Suc)
  then show ?thesis using True assms(1) by (simp add: slot_def)
next
  case False
  moreover have "unat c mod cap < cap" using assms(1) by simp
  ultimately show ?thesis using assms by (simp add: slot_def mod_Suc)
qed

lemma slot_neq:
  assumes "Suc i < cap"
  shows "slot cap c i \<noteq> unat c mod cap"
proof (cases "Suc i \<le> unat c mod cap")
  case True
  then have "unat c mod cap + cap - Suc i = cap + (unat c mod cap - Suc i)" by simp
  moreover have "unat c mod cap - Suc i < cap"
    using mod_less_divisor [of cap "unat c"] assms by linarith
  ultimately have "slot cap c i = unat c mod cap - Suc i"
    unfolding slot_def by (simp only: mod_add_self1 mod_less)
  then show ?thesis using True by simp
next
  case False
  moreover have "unat c mod cap < cap" using assms by simp
  ultimately have "slot cap c i = unat c mod cap + cap - Suc i"
    by (simp add: slot_def)
  then show ?thesis using assms False by simp
qed

lemma slot_surj:
  assumes "j < cap"
  shows "\<exists>i < cap. slot cap c i = j"
proof (cases "j < unat c mod cap")
  case True
  have "unat c mod cap < cap" using assms by simp
  then have "unat c mod cap - Suc j < cap" by linarith
  moreover have "unat c mod cap + cap - Suc (unat c mod cap - Suc j) = cap + j"
    using True by simp
  then have "slot cap c (unat c mod cap - Suc j) = j"
    unfolding slot_def using assms by (simp only: mod_add_self1 mod_less)
  ultimately show ?thesis by blast
next
  case False
  have "unat c mod cap < cap" using assms by simp
  then show ?thesis
    using False assms by (intro exI [of _ "unat c mod cap + cap - Suc j"]) (auto simp: slot_def)
qed

text \<open>The table holds the given records, the most recent first, and nothing else.\<close>

definition ring_holds :: "security_duplicate list \<Rightarrow> u16 \<Rightarrow> security_duplicate list \<Rightarrow> bool" where
  "ring_holds ds c recs \<longleftrightarrow>
     length ds = SECURITY_DUPLICATES \<and> (\<forall>d \<in> set recs. dup_used d) \<and>
     (\<forall>i < SECURITY_DUPLICATES.
        if i < length recs then ds ! slot SECURITY_DUPLICATES c i = recs ! i
        else \<not> dup_used (ds ! slot SECURITY_DUPLICATES c i))"

lemma ring_empty: "ring_holds (replicate SECURITY_DUPLICATES empty_duplicate) c []"
  using slot_less [OF capacity_pos] by (simp add: ring_holds_def empty_duplicate_def)

lemma ring_push:
  assumes "ring_holds ds c recs" and "dup_used d"
  shows "ring_holds (ds[unat c mod SECURITY_DUPLICATES := d]) (c + 1) (d # recs)"
proof -
  let ?N = SECURITY_DUPLICATES
  have len: "length ds = ?N" using assms(1) by (simp add: ring_holds_def)
  have c: "unat c mod ?N < ?N" using capacity_pos by simp
  have "if i < length (d # recs) then ds[unat c mod ?N := d] ! slot ?N (c + 1) i = (d # recs) ! i
        else \<not> dup_used (ds[unat c mod ?N := d] ! slot ?N (c + 1) i)" if i: "i < ?N" for i
  proof (cases i)
    case 0
    then show ?thesis
      using slot_0 [OF capacity_pos cursor_wrap] len c by simp
  next
    case (Suc j)
    have s: "slot ?N (c + 1) (Suc j) = slot ?N c j" "slot ?N c j \<noteq> unat c mod ?N"
      using slot_shift [OF _ cursor_wrap] slot_neq i Suc by simp_all
    then have "ds[unat c mod ?N := d] ! slot ?N (c + 1) i = ds ! slot ?N c j"
      using Suc by simp
    moreover have "if j < length recs then ds ! slot ?N c j = recs ! j else \<not> dup_used (ds ! slot ?N c j)"
      using assms(1) i Suc by (simp add: ring_holds_def)
    ultimately show ?thesis using Suc by simp
  qed
  then show ?thesis
    using assms len by (simp add: ring_holds_def)
qed

lemma ring_member:
  assumes "ring_holds ds c recs"
  shows "(\<exists>d \<in> set ds. dup_used d \<and> P d) \<longleftrightarrow> (\<exists>d \<in> set (take SECURITY_DUPLICATES recs). P d)"
proof
  let ?N = SECURITY_DUPLICATES
  have h: "if i < length recs then ds ! slot ?N c i = recs ! i else \<not> dup_used (ds ! slot ?N c i)"
    if "i < ?N" for i using assms that by (simp add: ring_holds_def)
  have len: "length ds = ?N" using assms by (simp add: ring_holds_def)
  {
    assume "\<exists>d \<in> set ds. dup_used d \<and> P d"
    then obtain j where j: "j < ?N" "dup_used (ds ! j)" "P (ds ! j)"
      using len by (auto simp: in_set_conv_nth)
    obtain i where i: "i < ?N" "slot ?N c i = j" using slot_surj [OF j(1)] by blast
    then have "i < length recs" "recs ! i = ds ! j" using h [OF i(1)] j by (auto split: if_splits)
    then have "recs ! i \<in> set (take ?N recs)"
      using i(1) by (auto simp: in_set_conv_nth intro: exI [of _ i])
    then show "\<exists>d \<in> set (take ?N recs). P d" using \<open>recs ! i = ds ! j\<close> j(3) by auto
  next
    assume "\<exists>d \<in> set (take ?N recs). P d"
    then obtain i where i: "i < ?N" "i < length recs" "P (recs ! i)"
      by (auto simp: in_set_conv_nth)
    then have "ds ! slot ?N c i = recs ! i" using h [OF i(1)] by simp
    moreover have "dup_used (recs ! i)" using assms i(2) by (simp add: ring_holds_def)
    moreover have "slot ?N c i < length ds" using slot_less [OF capacity_pos] len by simp
    ultimately show "\<exists>d \<in> set ds. dup_used d \<and> P d" using i(3) nth_mem by metis
  }
qed

subsection \<open>Writes\<close>

type_synonym write_event = "bacnet_address \<times> bytes \<times> dbl"

definition record_writes :: "write_event list \<Rightarrow> security \<Rightarrow> security" where
  "record_writes es s = foldl (\<lambda>s (source, apdu, now). php_bacnet_security_record_write source apdu now s) s es"

definition record_of :: "dbl \<Rightarrow> write_event \<Rightarrow> security_duplicate" where
  "record_of window e = (case e of (source, apdu, now) \<Rightarrow>
     \<lparr>dup_ip = php_bacnet_security_source_ip source,
      dup_hash = php_bacnet_security_hash_write (php_bacnet_security_source_ip source) apdu,
      dup_expires = now + window, dup_used = True\<rparr>)"

lemma record_writes_ring:
  assumes "o_enabled (sec_options s)"
    and "ring_holds (sec_duplicates s) (sec_duplicate_cursor s) recs"
  shows "ring_holds (sec_duplicates (record_writes es s)) (sec_duplicate_cursor (record_writes es s))
      (rev (map (record_of (o_duplicate_window (sec_options s))) es) @ recs)
    \<and> sec_options (record_writes es s) = sec_options s"
  using assms
proof (induction es arbitrary: s recs)
  case Nil
  then show ?case by (simp add: record_writes_def)
next
  case (Cons e es)
  obtain source apdu now where e: "e = (source, apdu, now)" by (cases e)
  let ?s = "php_bacnet_security_record_write source apdu now s"
  let ?r = "record_of (o_duplicate_window (sec_options s)) e"
  have o: "sec_options ?s = sec_options s"
    using Cons.prems by (simp add: php_bacnet_security_record_write_def Let_def)
  have "ring_holds (sec_duplicates ?s) (sec_duplicate_cursor ?s) (?r # recs)"
    using ring_push [OF Cons.prems(2), of ?r] Cons.prems(1)
    by (simp add: php_bacnet_security_record_write_def Let_def record_of_def e)
  from Cons.IH [OF _ this] Cons.prems(1) o show ?case
    by (simp add: record_writes_def e)
qed

lemma is_duplicate_iff:
  assumes "o_enabled (sec_options s)"
    and "ring_holds (sec_duplicates s) (sec_duplicate_cursor s) recs"
  shows "fst (php_bacnet_security_is_duplicate_write source apdu now s) \<longleftrightarrow>
    (\<exists>d \<in> set (take SECURITY_DUPLICATES recs). dup_expires d > now \<and>
       dup_ip d = php_bacnet_security_source_ip source \<and>
       dup_hash d = php_bacnet_security_hash_write (php_bacnet_security_source_ip source) apdu)"
  using assms(1) ring_member [OF assms(2)]
  by (simp add: php_bacnet_security_is_duplicate_write_def Let_def list_ex_iff)

lemma fresh_is_duplicate:
  assumes "o_enabled (sec_options s)"
    and "sec_duplicates s = replicate SECURITY_DUPLICATES empty_duplicate"
  shows "fst (php_bacnet_security_is_duplicate_write source apdu now (record_writes es s)) \<longleftrightarrow>
    (\<exists>(source', apdu', t) \<in> set (take SECURITY_DUPLICATES (rev es)).
       t + o_duplicate_window (sec_options s) > now \<and>
       php_bacnet_security_source_ip source' = php_bacnet_security_source_ip source \<and>
       php_bacnet_security_hash_write (php_bacnet_security_source_ip source') apdu' =
       php_bacnet_security_hash_write (php_bacnet_security_source_ip source) apdu)"
proof -
  let ?w = "o_duplicate_window (sec_options s)"
  have "ring_holds (sec_duplicates s) (sec_duplicate_cursor s) []"
    unfolding assms(2) by (rule ring_empty)
  note r = record_writes_ring [OF assms(1) this, of es]
  have "o_enabled (sec_options (record_writes es s))" using r assms(1) by simp
  from is_duplicate_iff [OF this, of "rev (map (record_of ?w) es)" source apdu now] r show ?thesis
    by (simp add: rev_map take_map record_of_def case_prod_beta)
qed

end
