(* ===== verification/Security_Reach.thy ===== *)
theory Security_Reach
  imports Security_Dedup
begin

text \<open>
  The protection layer as a state machine: one step per entry point of
  src/bacnet_security.h, with a clock that does not go back.  Every reachable state is well
  formed.
\<close>

subsection \<open>Invariant\<close>

lemma malformed_wf:
  assumes wf: "security_wf s"
  shows "security_wf (php_bacnet_security_malformed source now s)"
    and "sec_global_updated (php_bacnet_security_malformed source now s) = sec_global_updated s"
proof -
  obtain r s1 where gs: "php_bacnet_security_get_source (php_bacnet_security_source_ip source) now s = (r, s1)"
    by (cases "php_bacnet_security_get_source (php_bacnet_security_source_ip source) now s")
  obtain i where i: "r = Some i" "i < length (sec_sources s1)" "sources_wf s1"
    "s1 = s\<lparr>sec_sources := sec_sources s1, sec_source_count := sec_source_count s1\<rparr>"
    by (rule get_source [OF security_wfD(1,3) [OF wf] gs])
  note l = lookup_keeps [OF i(4)]
  have "sources_wf (upd_stats count_malformed s1)"
    using i(3) by (simp add: sources_wf_def)
  then have "sources_wf (upd_source i (\<lambda>x. x\<lparr>x_malformed := x_malformed x + 1\<rparr>) (upd_stats count_malformed s1))"
    by (rule sources_wf_upd_source) (simp_all add: i(2))
  then show "security_wf (php_bacnet_security_malformed source now s)"
    "sec_global_updated (php_bacnet_security_malformed source now s) = sec_global_updated s"
    using gs i(1) l wf
    by (simp_all add: php_bacnet_security_malformed_def security_wf_def sources_wf_def global_bucket_def)
qed

lemma overflow_wf:
  "security_wf s \<Longrightarrow> security_wf (php_bacnet_security_queue_overflow now s)"
  "sec_global_updated (php_bacnet_security_queue_overflow now s) = sec_global_updated s"
  by (simp_all add: php_bacnet_security_queue_overflow_def security_wf_def sources_wf_def global_bucket_def)

lemma dup_wf:
  "security_wf s \<Longrightarrow> security_wf (snd (php_bacnet_security_is_duplicate_write source apdu now s))"
  "sec_global_updated (snd (php_bacnet_security_is_duplicate_write source apdu now s)) = sec_global_updated s"
  by (simp_all add: php_bacnet_security_is_duplicate_write_def Let_def security_wf_def sources_wf_def
      global_bucket_def)

lemma record_wf:
  "security_wf s \<Longrightarrow> security_wf (php_bacnet_security_record_write source apdu now s)"
  "sec_global_updated (php_bacnet_security_record_write source apdu now s) = sec_global_updated s"
  by (simp_all add: php_bacnet_security_record_write_def Let_def security_wf_def sources_wf_def
      global_bucket_def)

lemma reset_counters_fields [simp]:
  "x_used (reset_counters x) = x_used x" "x_ip (reset_counters x) = x_ip x"
  by (simp_all add: reset_counters_def)

lemma table_wf_reset: "table_wf (map reset_counters xs) c = table_wf xs c"
  by (simp add: table_wf_def ips_distinct_def filter_map o_def)

lemma stats_wf:
  assumes wf: "security_wf s"
  shows "security_wf (snd (php_bacnet_security_stats_to_array inc reset now s))"
    and "sec_global_updated (snd (php_bacnet_security_stats_to_array inc reset now s)) = sec_global_updated s"
proof -
  obtain a b s1 where as: "php_bacnet_security_active_sources now s = (a, b, s1)"
    by (cases "php_bacnet_security_active_sources now s")
  note act = active_sources [OF security_wfD(1) [OF wf] as]
  note l = lookup_keeps [OF act(5)]
  show "security_wf (snd (php_bacnet_security_stats_to_array inc reset now s))"
    "sec_global_updated (snd (php_bacnet_security_stats_to_array inc reset now s)) = sec_global_updated s"
    using wf act(1) l
    by (simp_all add: php_bacnet_security_stats_to_array_def as security_wf_def sources_wf_def
        global_bucket_def table_wf_reset Let_def)
qed

subsection \<open>Steps\<close>

inductive security_step :: "(bytes \<Rightarrow> int \<times> bool) \<Rightarrow> security \<times> rat \<Rightarrow> security \<times> rat \<Rightarrow> bool"
  for npdu where
  step_accept: "t \<le> n \<Longrightarrow> php_bacnet_security_accept npdu source pdu (Fin n) s = (ok, kind, s') \<Longrightarrow>
    security_step npdu (s, t) (s', n)"
| step_malformed: "t \<le> n \<Longrightarrow> php_bacnet_security_malformed source (Fin n) s = s' \<Longrightarrow>
    security_step npdu (s, t) (s', n)"
| step_overflow: "t \<le> n \<Longrightarrow> php_bacnet_security_queue_overflow (Fin n) s = s' \<Longrightarrow>
    security_step npdu (s, t) (s', n)"
| step_duplicate: "t \<le> n \<Longrightarrow> php_bacnet_security_is_duplicate_write source apdu (Fin n) s = (d, s') \<Longrightarrow>
    security_step npdu (s, t) (s', n)"
| step_record: "t \<le> n \<Longrightarrow> php_bacnet_security_record_write source apdu (Fin n) s = s' \<Longrightarrow>
    security_step npdu (s, t) (s', n)"
| step_stats: "t \<le> n \<Longrightarrow> php_bacnet_security_stats_to_array inc reset (Fin n) s = (z, s') \<Longrightarrow>
    security_step npdu (s, t) (s', n)"
| step_configure: "t \<le> n \<Longrightarrow> php_bacnet_security_configure kvs (Fin n) s = (r, s') \<Longrightarrow>
    security_step npdu (s, t) (s', n)"

inductive_cases security_stepE: "security_step npdu (s, t) st'"

inductive security_reachable :: "(bytes \<Rightarrow> int \<times> bool) \<Rightarrow> security \<times> rat \<Rightarrow> bool" for npdu where
  reach_create: "php_bacnet_security_create g (Fin n) = Inr s \<Longrightarrow> security_reachable npdu (s, n)"
| reach_step: "security_reachable npdu st \<Longrightarrow> security_step npdu st st' \<Longrightarrow> security_reachable npdu st'"

definition security_inv :: "security \<times> rat \<Rightarrow> bool" where
  "security_inv st \<longleftrightarrow> security_wf (fst st) \<and> dbl_val (sec_global_updated (fst st)) \<le> snd st"

lemma accept_updated:
  assumes wf: "security_wf s" and "dbl_val (sec_global_updated s) \<le> n"
    and acc: "php_bacnet_security_accept npdu source pdu (Fin n) s = (ok, kind, s')"
  shows "dbl_val (sec_global_updated s') \<le> n"
proof (cases "o_enabled (sec_options s)")
  case False
  then show ?thesis using assms by (simp add: accept_disabled) (auto simp: upd_stats_def)
next
  case True
  have b: "bucket_ok (global_bucket s)" using wf by (simp add: security_wf_def)
  have u: "sec_global_updated s' = bk_updated (global_bucket s')"
    "sec_global_updated s = bk_updated (global_bucket s)" by (simp_all add: global_bucket_def)
  show ?thesis
    using accept_effect(3) [OF wf True acc] bucket_take_step(2) [OF b, of "Fin n"] assms(2)
    unfolding u bucket_same_or_taken_def by auto
qed

lemma configure_updated:
  "dbl_val (sec_global_updated s) \<le> n \<Longrightarrow> php_bacnet_security_configure kvs (Fin n) s = (r, s') \<Longrightarrow>
   dbl_val (sec_global_updated s') \<le> n"
  by (auto simp: php_bacnet_security_configure_def split: sum.splits)

lemma security_step_inv:
  assumes "security_step npdu st st'" and "security_inv st"
  shows "security_inv st'"
  using assms
proof (cases rule: security_step.cases)
  case (step_accept t n source pdu s ok kind s')
  have i: "security_wf s" "dbl_val (sec_global_updated s) \<le> n"
    using assms(2) step_accept by (auto simp: security_inv_def)
  show ?thesis
    using accept_wf [OF i(1), of "Fin n" npdu source pdu] i(2) accept_updated [OF i step_accept(4)]
      step_accept by (simp add: security_inv_def)
next
  case (step_malformed t n source s s')
  then show ?thesis
    using assms(2) malformed_wf(1,2) [of s source "Fin n"] by (auto simp: security_inv_def)
next
  case (step_overflow t n s s')
  then show ?thesis
    using assms(2) overflow_wf(1) [of s "Fin n"] overflow_wf(2) [of "Fin n" s] by (auto simp: security_inv_def)
next
  case (step_duplicate t n source apdu s d s')
  then show ?thesis
    using assms(2) dup_wf(1) [of s source apdu "Fin n"] dup_wf(2) [of source apdu "Fin n" s] by (auto simp: security_inv_def)
next
  case (step_record t n source apdu s s')
  then show ?thesis
    using assms(2) record_wf(1) [of s source apdu "Fin n"] record_wf(2) [of source apdu "Fin n" s] by (auto simp: security_inv_def)
next
  case (step_stats t n inc reset s z s')
  then show ?thesis
    using assms(2) stats_wf [of s inc reset "Fin n"] by (auto simp: security_inv_def)
next
  case (step_configure t n kvs s r s')
  have i: "security_wf s" "dbl_val (sec_global_updated s) \<le> n"
    using assms(2) step_configure by (auto simp: security_inv_def)
  show ?thesis
    using configure_wf [OF i(1), of "Fin n" kvs] configure_updated [OF i(2) step_configure(4)]
      step_configure by (simp add: security_inv_def)
qed

lemma create_inv:
  assumes "php_bacnet_security_create g (Fin n) = Inr s"
  shows "security_inv (s, n)"
proof -
  have "sec_global_updated s = Fin n"
    using assms by (auto simp: php_bacnet_security_create_def split: sum.splits)
  then show ?thesis
    using create_wf [OF assms] by (simp add: security_inv_def)
qed

lemma reachable_inv: "security_reachable npdu st \<Longrightarrow> security_inv st"
  by (induction rule: security_reachable.induct) (auto intro: create_inv security_step_inv)

end
