(* ===== verification/Security_Policy.thy ===== *)
theory Security_Policy
  imports Security_Reach
begin

text \<open>
  The policy of the packet filter of src/bacnet_security.c, stated apart from its code: the
  addresses the lists refuse (refused_address), the kind of a packet by its header
  (header_kind), the entry a source counts as having (entry_of), the token buckets a packet of
  a kind has to pass (due_buckets), and what passing them in order does (charge).  The lemmas
  show that php_bacnet_security_accept decides and changes the table exactly so.
\<close>

subsection \<open>Entries and buckets\<close>

text \<open>The entry of an address: the one in the table that has not expired, otherwise a new one.\<close>

definition valid_entry :: "security \<Rightarrow> u32 \<Rightarrow> dbl \<Rightarrow> security_source \<Rightarrow> bool" where
  "valid_entry s ip now x \<longleftrightarrow> x_used x \<and> \<not> expired (o_source_ttl (sec_options s)) now x \<and> x_ip x = ip"

definition fresh_entry :: "security_options \<Rightarrow> u32 \<Rightarrow> dbl \<Rightarrow> security_source" where
  "fresh_entry n ip now =
    \<lparr>x_ip = ip, x_tokens = dbl_of_u32 (o_per_source_burst n), x_who_tokens = dbl_of_u32 (o_who_is_burst n),
     x_write_tokens = dbl_of_u32 (o_write_burst n), x_updated = now, x_who_updated = now, x_write_updated = now,
     x_last_seen = now, x_violation_started = 0, x_blocked_until = 0, x_violations = 0, x_accepted = 0,
     x_rate_drops = 0, x_acl_drops = 0, x_blocked_drops = 0, x_malformed = 0, x_used = True\<rparr>"

lemma new_source_fresh: "new_source n ip now = fresh_entry n ip now"
  by (simp add: new_source_def empty_source_def fresh_entry_def)

definition entry_of :: "security \<Rightarrow> u32 \<Rightarrow> dbl \<Rightarrow> security_source" where
  "entry_of s ip now =
    (case find (valid_entry s ip now) (sec_sources s) of
       Some x \<Rightarrow> x\<lparr>x_last_seen := now\<rparr>
     | None \<Rightarrow> fresh_entry (sec_options s) ip now)"

definition own_bucket :: "security_options \<Rightarrow> security_source \<Rightarrow> bucket" where
  "own_bucket n x = \<lparr>bk_tokens = x_tokens x, bk_updated = x_updated x,
     bk_rate = o_per_source_rate n, bk_burst = dbl_of_u32 (o_per_source_burst n)\<rparr>"

definition who_is_bucket :: "security_options \<Rightarrow> security_source \<Rightarrow> bucket" where
  "who_is_bucket n x = \<lparr>bk_tokens = x_who_tokens x, bk_updated = x_who_updated x,
     bk_rate = o_who_is_rate n, bk_burst = dbl_of_u32 (o_who_is_burst n)\<rparr>"

definition write_bucket :: "security_options \<Rightarrow> security_source \<Rightarrow> bucket" where
  "write_bucket n x = \<lparr>bk_tokens = x_write_tokens x, bk_updated = x_write_updated x,
     bk_rate = o_write_rate n, bk_burst = dbl_of_u32 (o_write_burst n)\<rparr>"

text \<open>
  The buckets a packet has to pass, in order, and those of its source that it has nothing to do
  with.
\<close>

definition due_buckets :: "packet_kind \<Rightarrow> security \<Rightarrow> security_source \<Rightarrow> bucket list" where
  "due_buckets kind s x =
    [global_bucket s, own_bucket (sec_options s) x] @
    (case kind of
       PACKET_WHO_IS \<Rightarrow> [who_is_bucket (sec_options s) x]
     | PACKET_WRITE \<Rightarrow> [write_bucket (sec_options s) x]
     | PACKET_OTHER \<Rightarrow> [])"

definition other_buckets :: "packet_kind \<Rightarrow> security \<Rightarrow> security_source \<Rightarrow> bucket list" where
  "other_buckets kind s x =
    (case kind of
       PACKET_WHO_IS \<Rightarrow> [write_bucket (sec_options s) x]
     | PACKET_WRITE \<Rightarrow> [who_is_bucket (sec_options s) x]
     | PACKET_OTHER \<Rightarrow> [who_is_bucket (sec_options s) x, write_bucket (sec_options s) x])"

text \<open>
  The kind of a packet by its header, None for a malformed one: an application layer header with
  at least the two bytes every service has, and the four of a confirmed request.
\<close>

definition header_kind :: "(bytes \<Rightarrow> int \<times> bool) \<Rightarrow> bytes \<Rightarrow> packet_kind option" where
  "header_kind npdu pdu =
    (let hl = fst (npdu pdu); rest = int (length pdu) - hl mod 65536; apdu = drop (nat hl) pdu;
         type = apdu ! 0 AND 0xF0
     in if hl < 0 \<or> snd (npdu pdu) \<or> rest < 2 \<or> (type = 0x00 \<and> rest < 4) then None
        else if type = 0x10 \<and> apdu ! 1 = 8 then Some PACKET_WHO_IS
        else if type = 0x00 \<and> apdu ! 3 = 15 then Some PACKET_WRITE
        else Some PACKET_OTHER)"

lemma classify_header: "classify_packet npdu pdu = header_kind npdu pdu"
  by (simp add: classify_packet_def header_kind_def case_prod_beta pdu_defs service_defs Let_def)

text \<open>The addresses the lists refuse: denied ones, and those not allowed when some are.\<close>

definition refused_address :: "security_options \<Rightarrow> u32 \<Rightarrow> bool" where
  "refused_address n ip \<longleftrightarrow>
     (\<exists>c \<in> set (o_denied n). ip AND mask_of c = network c) \<or>
     (o_allowed n \<noteq> [] \<and> (\<forall>c \<in> set (o_allowed n). ip AND mask_of c \<noteq> network c))"

lemma acl_refused_address: "acl_refuses n ip \<longleftrightarrow> refused_address n ip"
  by (auto simp: acl_refuses_def refused_address_def match_iff)

text \<open>
  Passing a list of buckets: each grants a token or the packet stops there, with the buckets
  before it charged and the ones after it as they were.
\<close>

fun charge :: "dbl \<Rightarrow> bucket list \<Rightarrow> bool \<times> bucket list" where
  "charge now [] = (True, [])"
| "charge now (b # bs) =
     (let (ok, b') = bucket_take b now
      in if ok then (let (r, bs') = charge now bs in (r, b' # bs')) else (False, b' # bs))"

subsection \<open>The chain of the code\<close>

lemma upd_source_at: "i < length (sec_sources s) \<Longrightarrow> sec_sources (upd_source i f s) ! i = f (sec_sources s ! i)"
  by simp

lemma take_sources:
  assumes "i < length (sec_sources s)"
  shows "fst (take_source i now s) = fst (bucket_take (own_bucket (sec_options s) (sec_sources s ! i)) now)"
    and "own_bucket (sec_options s) (sec_sources (snd (take_source i now s)) ! i) =
      snd (bucket_take (own_bucket (sec_options s) (sec_sources s ! i)) now)"
    and "who_is_bucket n (sec_sources (snd (take_source i now s)) ! i) = who_is_bucket n (sec_sources s ! i)"
    and "write_bucket n (sec_sources (snd (take_source i now s)) ! i) = write_bucket n (sec_sources s ! i)"
  using assms
  by (simp_all add: take_source_def bucket_take_def own_bucket_def who_is_bucket_def write_bucket_def
      Let_def case_prod_beta)

lemma take_who_is:
  assumes "i < length (sec_sources s)"
  shows "fst (take_who_is i now s) = fst (bucket_take (who_is_bucket (sec_options s) (sec_sources s ! i)) now)"
    and "who_is_bucket (sec_options s) (sec_sources (snd (take_who_is i now s)) ! i) =
      snd (bucket_take (who_is_bucket (sec_options s) (sec_sources s ! i)) now)"
    and "own_bucket n (sec_sources (snd (take_who_is i now s)) ! i) = own_bucket n (sec_sources s ! i)"
    and "write_bucket n (sec_sources (snd (take_who_is i now s)) ! i) = write_bucket n (sec_sources s ! i)"
  using assms
  by (simp_all add: take_who_is_def bucket_take_def own_bucket_def who_is_bucket_def write_bucket_def
      Let_def case_prod_beta)

lemma take_write:
  assumes "i < length (sec_sources s)"
  shows "fst (take_write i now s) = fst (bucket_take (write_bucket (sec_options s) (sec_sources s ! i)) now)"
    and "write_bucket (sec_options s) (sec_sources (snd (take_write i now s)) ! i) =
      snd (bucket_take (write_bucket (sec_options s) (sec_sources s ! i)) now)"
    and "own_bucket n (sec_sources (snd (take_write i now s)) ! i) = own_bucket n (sec_sources s ! i)"
    and "who_is_bucket n (sec_sources (snd (take_write i now s)) ! i) = who_is_bucket n (sec_sources s ! i)"
  using assms
  by (simp_all add: take_write_def bucket_take_def own_bucket_def who_is_bucket_def write_bucket_def
      Let_def case_prod_beta)

lemma take_sources_frame [simp]:
  "sec_options (snd (take_source i now s)) = sec_options s" "sec_options (snd (take_who_is i now s)) = sec_options s"
  "sec_options (snd (take_write i now s)) = sec_options s"
  "length (sec_sources (snd (take_source i now s))) = length (sec_sources s)"
  "length (sec_sources (snd (take_who_is i now s))) = length (sec_sources s)"
  "length (sec_sources (snd (take_write i now s))) = length (sec_sources s)"
  by (simp_all add: take_source_def take_who_is_def take_write_def Let_def case_prod_beta)

lemma take_global_frame [simp]:
  "sec_options (snd (take_global now s)) = sec_options s" "sec_sources (snd (take_global now s)) = sec_sources s"
  by (simp_all add: take_global_def Let_def case_prod_beta)

lemmas take_steps = take_sources take_who_is take_write take_global_bucket take_source_bucket

lemma take_buckets_chain:
  "take_buckets kind i now s =
    (let s1 = snd (take_global now s); s2 = snd (take_source i now s1)
     in if \<not> fst (take_global now s) then (False, s1)
        else if \<not> fst (take_source i now s1) then (False, s2)
        else case kind of PACKET_OTHER \<Rightarrow> (True, s2) | PACKET_WHO_IS \<Rightarrow> take_who_is i now s2
          | PACKET_WRITE \<Rightarrow> take_write i now s2)"
  by (cases kind; cases "take_global now s"; cases "take_source i now (snd (take_global now s))";
      simp add: take_buckets_def split: prod.splits)

lemma charge_Cons:
  "charge now (b # bs) =
    (if fst (bucket_take b now) then (fst (charge now bs), snd (bucket_take b now) # snd (charge now bs))
     else (False, snd (bucket_take b now) # bs))"
  by (simp add: case_prod_beta)

lemma take_buckets_charge:
  assumes "i < length (sec_sources s)" and "take_buckets kind i now s = (ok, s')"
  shows "charge now (due_buckets kind s (sec_sources s ! i)) = (ok, due_buckets kind s' (sec_sources s' ! i))"
    and "other_buckets kind s' (sec_sources s' ! i) = other_buckets kind s (sec_sources s ! i)"
proof -
  define s1 where "s1 = snd (take_global now s)"
  define s2 where "s2 = snd (take_source i now s1)"
  have n: "sec_options s1 = sec_options s" "sec_sources s1 = sec_sources s" "sec_options s2 = sec_options s"
    "i < length (sec_sources s1)" "i < length (sec_sources s2)"
    using assms(1) by (simp_all add: s1_def s2_def)
  have ok: "ok = fst (take_buckets kind i now s)" "s' = snd (take_buckets kind i now s)"
    using assms(2) by simp_all
  note g = take_global_bucket [of now s, folded s1_def]
  note o = take_sources [OF n(4), where now = now, folded s2_def, unfolded n(1-3)] take_source_bucket(1) [of i now s1, folded s2_def]
  note w = take_who_is [OF n(5), where now = now, unfolded n(3)] take_source_bucket(2) [of i now s2]
  note r = take_write [OF n(5), where now = now, unfolded n(3)] take_source_bucket(3) [of i now s2]
  note defs = ok take_buckets_chain Let_def s1_def [symmetric] s2_def [symmetric] due_buckets_def other_buckets_def
    charge_Cons
  show "charge now (due_buckets kind s (sec_sources s ! i)) = (ok, due_buckets kind s' (sec_sources s' ! i))"
    by (cases kind) (simp_all add: defs g o w r n del: charge.simps(2))
  show "other_buckets kind s' (sec_sources s' ! i) = other_buckets kind s (sec_sources s ! i)"
    by (cases kind) (simp_all add: defs g o w r n del: charge.simps(2))
qed

subsection \<open>One packet\<close>

lemma bucket_fields_only:
  "x_tokens y = x_tokens x \<Longrightarrow> x_updated y = x_updated x \<Longrightarrow> x_who_tokens y = x_who_tokens x \<Longrightarrow>
   x_who_updated y = x_who_updated x \<Longrightarrow> x_write_tokens y = x_write_tokens x \<Longrightarrow> x_write_updated y = x_write_updated x \<Longrightarrow>
   global_bucket t = global_bucket s \<Longrightarrow> sec_options t = sec_options s \<Longrightarrow>
   due_buckets k t y = due_buckets k s x \<and> other_buckets k t y = other_buckets k s x"
  by (cases k) (simp_all add: due_buckets_def other_buckets_def own_bucket_def who_is_bucket_def write_bucket_def)

lemma violation_buckets [simp]:
  "x_tokens (php_bacnet_security_violation n now x) = x_tokens x"
  "x_updated (php_bacnet_security_violation n now x) = x_updated x"
  "x_who_tokens (php_bacnet_security_violation n now x) = x_who_tokens x"
  "x_who_updated (php_bacnet_security_violation n now x) = x_who_updated x"
  "x_write_tokens (php_bacnet_security_violation n now x) = x_write_tokens x"
  "x_write_updated (php_bacnet_security_violation n now x) = x_write_updated x"
  by (simp_all add: php_bacnet_security_violation_def Let_def)

lemma no_buckets_violation:
  "no_buckets y = no_buckets x \<Longrightarrow>
   no_buckets (php_bacnet_security_violation n now (y\<lparr>x_rate_drops := x_rate_drops y + 1\<rparr>)) =
   no_buckets (php_bacnet_security_violation n now (x\<lparr>x_rate_drops := x_rate_drops x + 1\<rparr>))"
  by (cases x; cases y; simp add: no_buckets_def php_bacnet_security_violation_def Let_def)

lemma no_buckets_accepted:
  "no_buckets y = no_buckets x \<Longrightarrow>
   no_buckets (y\<lparr>x_accepted := x_accepted y + 1\<rparr>) = no_buckets (x\<lparr>x_accepted := x_accepted x + 1\<rparr>)"
  by (cases x; cases y; simp add: no_buckets_def)

lemma check_packet_charged:
  assumes wf: "sources_wf s" "i < length (sec_sources s)"
    and cp: "check_packet npdu ip pdu now i s = (ok, kind, s')"
    and let_through: "\<not> acl_refuses (sec_options s) ip" "\<not> x_blocked_until (sec_sources s ! i) > now"
      "classify_packet npdu pdu = Some k"
  shows "charge now (due_buckets k s (sec_sources s ! i)) = (ok, due_buckets k s' (sec_sources s' ! i))"
    and "other_buckets k s' (sec_sources s' ! i) = other_buckets k s (sec_sources s ! i)"
    and "no_buckets (sec_sources s' ! i) = no_buckets
      (if ok then (sec_sources s ! i)\<lparr>x_accepted := x_accepted (sec_sources s ! i) + 1\<rparr>
       else php_bacnet_security_violation (sec_options s) now
         ((sec_sources s ! i)\<lparr>x_rate_drops := x_rate_drops (sec_sources s ! i) + 1\<rparr>))"
proof -
  obtain g s1 where t: "take_buckets k i now s = (g, s1)" by (cases "take_buckets k i now s")
  note b = bucket_step_wf [OF take_buckets_step [OF wf(2), of k now, unfolded t snd_conv] wf]
  have i: "i < length (sec_sources s1)" using b(2) wf(2) by simp
  let ?x = "sec_sources s1 ! i"
  have g: "ok = g" "global_bucket s' = global_bucket s1" "sec_options s' = sec_options s1"
    "sec_sources s' ! i = (if g then ?x\<lparr>x_accepted := x_accepted ?x + 1\<rparr>
       else php_bacnet_security_violation (sec_options s1) now (?x\<lparr>x_rate_drops := x_rate_drops ?x + 1\<rparr>))"
    using cp let_through t i by (cases g; auto simp: check_packet_def global_bucket_def)+
  have "due_buckets k s' (sec_sources s' ! i) = due_buckets k s1 ?x \<and>
      other_buckets k s' (sec_sources s' ! i) = other_buckets k s1 ?x"
    by (rule bucket_fields_only) (simp_all add: g)
  then show "charge now (due_buckets k s (sec_sources s ! i)) = (ok, due_buckets k s' (sec_sources s' ! i))"
    and "other_buckets k s' (sec_sources s' ! i) = other_buckets k s (sec_sources s ! i)"
    using take_buckets_charge [OF wf(2) t] g(1) by simp_all
  show "no_buckets (sec_sources s' ! i) = no_buckets
      (if ok then (sec_sources s ! i)\<lparr>x_accepted := x_accepted (sec_sources s ! i) + 1\<rparr>
       else php_bacnet_security_violation (sec_options s) now
         ((sec_sources s ! i)\<lparr>x_rate_drops := x_rate_drops (sec_sources s ! i) + 1\<rparr>))"
    using no_buckets_violation [OF b(5)] no_buckets_accepted [OF b(5)] by (simp add: g b(3))
qed

subsection \<open>accept\<close>

lemma entry_of_used: "x_used (entry_of s ip now) \<and> x_ip (entry_of s ip now) = ip"
proof (cases "find (valid_entry s ip now) (sec_sources s)")
  case (Some x)
  then have "valid_entry s ip now x" by (auto simp: find_Some_iff)
  then show ?thesis using Some by (simp add: entry_of_def valid_entry_def)
qed (simp add: entry_of_def fresh_entry_def)

lemma check_packet_identity:
  assumes "sources_wf s" "i < length (sec_sources s)"
    and "check_packet npdu ip pdu now i s = (ok, kind, s')"
  shows "same_identity (sec_sources s ! i) (sec_sources s' ! i)"
  using assms(3)
proof (cases rule: check_packet_cases)
  case (rate s1)
  note b = bucket_step_wf [OF take_buckets_step [OF assms(2), of kind now, unfolded rate(4) snd_conv] assms(1,2)]
  show ?thesis
    using no_buckets_fields(9) [OF b(5)] b(2) assms(2) same_identity_counters(8) [of "sec_sources s1 ! i"]
    by (simp add: rate(6) same_identity_def)
next
  case (accepted s1)
  note b = bucket_step_wf [OF take_buckets_step [OF assms(2), of kind now, unfolded accepted(4) snd_conv] assms(1,2)]
  show ?thesis
    using no_buckets_fields(9) [OF b(5)] b(2) assms(2) by (simp add: accepted(6) same_identity_def)
qed (use assms(2) in simp_all)

lemma lookup_entry:
  assumes wf: "security_wf s"
    and gs: "php_bacnet_security_get_source ip now s = (Some i, s1)"
  shows "sec_sources s1 ! i = entry_of s ip now" and "i < length (sec_sources s1)"
    and "y \<in> set (sec_sources s1) \<Longrightarrow> x_used y \<Longrightarrow> x_ip y \<noteq> ip \<Longrightarrow> y \<in> set (sec_sources s)"
proof -
  let ?ttl = "o_source_ttl (sec_options s)" and ?xs = "sec_sources s"
  obtain i' where i': "Some i = Some i'"
    and len: "length (sec_sources s1) = length ?xs" "i' < length (sec_sources s1)"
    and ip: "x_ip (sec_sources s1 ! i') = ip"
    and alt: "(\<exists>x. x \<in> set ?xs \<and> x_used x \<and> \<not> expired ?ttl now x \<and> x_ip x = ip \<and> x = ?xs ! i' \<and>
          sec_sources s1 ! i' = x\<lparr>x_last_seen := now\<rparr>) \<or>
      (\<forall>j < length ?xs. x_used (?xs ! j) \<longrightarrow> \<not> expired ?ttl now (?xs ! j) \<longrightarrow> x_ip (?xs ! j) \<noteq> ip) \<and>
      sec_sources s1 ! i' = new_source (sec_options s) ip now"
    and rest: "\<And>j. j < length ?xs \<Longrightarrow> j \<noteq> i' \<Longrightarrow> sec_sources s1 ! j = ?xs ! j \<or>
        (sec_sources s1 ! j = empty_source \<and> expired ?ttl now (?xs ! j))"
    by (rule get_source [OF security_wfD(1,3) [OF wf] gs]; rule that; (assumption | blast))
  have i: "i' = i" using i' by simp
  show "i < length (sec_sources s1)" using len i by simp
  show "y \<in> set (sec_sources s)" if y: "y \<in> set (sec_sources s1)" "x_used y" "x_ip y \<noteq> ip"
  proof -
    obtain j where j: "j < length ?xs" "sec_sources s1 ! j = y" using y(1) len by (auto simp: in_set_conv_nth)
    then have "j \<noteq> i'" using ip y(3) by auto
    then show ?thesis using rest [OF j(1)] j y(2) by auto
  qed
  from alt show "sec_sources s1 ! i = entry_of s ip now"
  proof
    assume "\<exists>x. x \<in> set ?xs \<and> x_used x \<and> \<not> expired ?ttl now x \<and> x_ip x = ip \<and> x = ?xs ! i' \<and>
          sec_sources s1 ! i' = x\<lparr>x_last_seen := now\<rparr>"
    then have x: "valid_entry s ip now (?xs ! i)" "sec_sources s1 ! i = (?xs ! i)\<lparr>x_last_seen := now\<rparr>"
      "i < length ?xs"
      using len i by (auto simp: valid_entry_def)
    have "ips_distinct ?xs"
      using security_wfD(1) [OF wf] by (simp add: sources_wf_def table_wf_def)
    moreover have "x_used (?xs ! i)" "x_ip (?xs ! i) = ip" using x(1) by (simp_all add: valid_entry_def)
    ultimately have same: "j = i" if "j < length ?xs" "x_used (?xs ! j)" "x_ip (?xs ! j) = ip" for j
      using that x(3) unfolding ips_distinct_def by metis
    have uniq: "j = i" if "j < length ?xs" "valid_entry s ip now (?xs ! j)" for j
      using that by (intro same) (simp_all add: valid_entry_def)
    have "\<not> valid_entry s ip now (?xs ! j)" if "j < i" for j
      using uniq [of j] x(3) that by (metis less_trans less_irrefl)
    then have "find (valid_entry s ip now) ?xs = Some (?xs ! i)"
      unfolding find_Some_iff using x(1,3) by blast
    then show ?thesis using x(2) by (simp add: entry_of_def)
  next
    assume "(\<forall>j < length ?xs. x_used (?xs ! j) \<longrightarrow> \<not> expired ?ttl now (?xs ! j) \<longrightarrow> x_ip (?xs ! j) \<noteq> ip) \<and>
      sec_sources s1 ! i' = new_source (sec_options s) ip now"
    moreover from this have "find (valid_entry s ip now) ?xs = None"
      by (auto simp: find_None_iff valid_entry_def in_set_conv_nth)
    ultimately show ?thesis using i by (simp add: entry_of_def new_source_fresh)
  qed
qed

text \<open>The table after a packet: the entry of its source, and the entries of all others as they were.\<close>

lemma accept_entry:
  assumes wf: "security_wf s" and en: "o_enabled (sec_options s)" and t: "0 \<le> now"
    and acc: "php_bacnet_security_accept npdu source pdu now s = (ok, kind, s')"
    and ip: "ip = php_bacnet_security_source_ip source" and x: "x = entry_of s ip now"
  shows "\<exists>x' \<in> set (sec_sources s'). x_used x' \<and> x_ip x' = ip \<and>
    (\<forall>y \<in> set (sec_sources s'). x_used y \<and> x_ip y \<noteq> ip \<longrightarrow> y \<in> set (sec_sources s)) \<and>
    (if acl_refuses (sec_options s) ip then x' = x\<lparr>x_acl_drops := x_acl_drops x + 1\<rparr>
     else if blocked_source s ip now then x' = x\<lparr>x_blocked_drops := x_blocked_drops x + 1\<rparr>
     else (case classify_packet npdu pdu of
         None \<Rightarrow> x' = x\<lparr>x_malformed := x_malformed x + 1\<rparr>
       | Some k \<Rightarrow> charge now (due_buckets k s x) = (ok, due_buckets k s' x') \<and>
           other_buckets k s' x' = other_buckets k s x \<and>
           no_buckets x' = no_buckets (if ok then x\<lparr>x_accepted := x_accepted x + 1\<rparr>
             else php_bacnet_security_violation (sec_options s) now (x\<lparr>x_rate_drops := x_rate_drops x + 1\<rparr>))))"
proof -
  obtain i s1 where gs: "php_bacnet_security_get_source ip now s = (Some i, s1)"
    and s1: "sources_wf s1" "i < length (sec_sources s1)"
      "s1 = s\<lparr>sec_sources := sec_sources s1, sec_source_count := sec_source_count s1\<rparr>"
    and cp: "check_packet npdu ip pdu now i s1 = (ok, kind, s')"
    unfolding ip by (rule accept_cases [OF wf en acc])
  note l = lookup_keeps [OF s1(3)]
  note bl = lookup_blocked [OF wf t gs]
  note e = lookup_entry [OF wf gs, folded x]
  obtain y where y: "sec_sources s' = (sec_sources s1)[i := y]"
    using check_packet_effect(4) [OF s1(1,2) cp] by blast
  have due: "due_buckets k s1 z = due_buckets k s z" "other_buckets k s1 z = other_buckets k s z" for k z
    using bucket_fields_only [of z z s1 s k] l by simp_all
  have at: "sec_sources s' ! i = y" using y s1(2) by simp
  have same: "if acl_refuses (sec_options s) ip then y = x\<lparr>x_acl_drops := x_acl_drops x + 1\<rparr>
     else if blocked_source s ip now then y = x\<lparr>x_blocked_drops := x_blocked_drops x + 1\<rparr>
     else (case classify_packet npdu pdu of
         None \<Rightarrow> y = x\<lparr>x_malformed := x_malformed x + 1\<rparr>
       | Some k \<Rightarrow> charge now (due_buckets k s x) = (ok, due_buckets k s' y) \<and>
           other_buckets k s' y = other_buckets k s x \<and>
           no_buckets y = no_buckets (if ok then x\<lparr>x_accepted := x_accepted x + 1\<rparr>
             else php_bacnet_security_violation (sec_options s) now (x\<lparr>x_rate_drops := x_rate_drops x + 1\<rparr>)))"
    using cp
  proof (cases rule: check_packet_cases)
    case (rate s2)
    note c = check_packet_charged [OF s1(1,2) cp, of kind, unfolded e(1) due l(1) y nth_list_update_eq [OF s1(2)]]
    show ?thesis using rate bl l(1) e(1) c by simp
  next
    case (accepted s2)
    note c = check_packet_charged [OF s1(1,2) cp, of kind, unfolded e(1) due l(1) y nth_list_update_eq [OF s1(2)]]
    show ?thesis using accepted bl l(1) e(1) c by simp
  qed (use bl l(1) e(1) s1(2) at in simp_all)
  have "x_used x \<and> x_ip x = ip" using entry_of_used by (simp add: x)
  then have "x_used y \<and> x_ip y = ip"
    using check_packet_identity [OF s1(1,2) cp] by (simp add: at e(1) same_identity_def)
  moreover have "y \<in> set (sec_sources s')" using y s1(2) by (simp add: set_update_memI)
  moreover have "z \<in> set (sec_sources s)" if "z \<in> set (sec_sources s')" "x_used z" "x_ip z \<noteq> ip" for z
    using that e(3) [of z] y set_update_subset_insert [of "sec_sources s1" i y] \<open>x_used y \<and> x_ip y = ip\<close> by auto
  ultimately show ?thesis using same by blast
qed

end
