(* ===== verification/Security_Props.thy ===== *)
theory Security_Props
  imports Security_Policy
begin

text \<open>
  The properties of the protection layer (src/bacnet_security.c), each with a witness on a
  server created from the INI defaults with a table of two sources.
\<close>

subsection \<open>A concrete server\<close>

definition demo_globals :: bacnet_globals where
  "demo_globals = PHP_MINIT_bacnet\<lparr>g_server_max_sources := 2\<rparr>"

definition demo_security :: security where
  "demo_security =
    (case php_bacnet_security_create demo_globals (Fin 0) of Inr s \<Rightarrow> s | Inl _ \<Rightarrow> undefined)"

definition demo_options :: security_options where
  "demo_options = php_bacnet_security_options_from_ini demo_globals"

lemma demo_options_fields:
  "o_enabled demo_options" "o_allowed_networks demo_options = []" "o_denied_networks demo_options = []"
  "o_allowed demo_options = []" "o_denied demo_options = []" "o_max_sources demo_options = 2"
  "o_global_rate demo_options = Fin 500" "o_global_burst demo_options = 1000"
  "o_per_source_rate demo_options = Fin 50" "o_per_source_burst demo_options = 100"
  "o_who_is_rate demo_options = Fin 2" "o_who_is_burst demo_options = 5"
  "o_write_rate demo_options = Fin 5" "o_write_burst demo_options = 10"
  "o_flood_violations demo_options = 20" "o_flood_window demo_options = Fin 10"
  "o_block_duration demo_options = Fin 60" "o_duplicate_window demo_options = Fin 5"
  "o_source_ttl demo_options = Fin 300" "o_log_interval demo_options = Fin 60"
  by (simp_all add: demo_options_def demo_globals_def PHP_MINIT_bacnet_def bacnet_ini_defaults_def
      php_bacnet_security_options_from_ini_def burst_from_ini_def ini_string_def cstr_def)

lemma demo_validate: "php_bacnet_security_validate_options demo_options = Inr demo_options"
  by (rule validate_ok)
     (simp add: options_ok_def options_positive_def php_bacnet_security_valid_number_def
       demo_options_fields php_bacnet_security_parse_cidr_list_def dbl_simps)

lemma demo_create: "php_bacnet_security_create demo_globals (Fin 0) = Inr demo_security"
  by (simp add: demo_security_def php_bacnet_security_create_def demo_options_def [symmetric]
      demo_validate)

lemma replicate_2: "replicate 2 x = [x, x]"
  by (simp add: numeral_2_eq_2)

lemma demo_fields:
  "sec_options demo_security = demo_options" "sec_sources demo_security = [empty_source, empty_source]"
  "sec_source_count demo_security = 0" "sec_stats demo_security = empty_stats"
  "sec_global_tokens demo_security = Fin 1000" "sec_global_updated demo_security = Fin 0"
  "sec_last_log demo_security = Fin 0" "sec_pending_warnings demo_security = 0"
  "sec_duplicates demo_security = replicate SECURITY_DUPLICATES empty_duplicate"
  "sec_duplicate_cursor demo_security = 0" "sec_warned demo_security = []"
  by (simp_all add: demo_security_def php_bacnet_security_create_def demo_options_def [symmetric]
      demo_validate demo_options_fields dbl_of_u32_def replicate_2)

lemma demo_wf: "security_wf demo_security"
  by (rule create_wf [OF demo_create]) simp

lemma demo_filtering: "filtering demo_security"
  by (simp add: filtering_def demo_wf demo_fields demo_options_fields)

definition demo_source :: bacnet_address where
  "demo_source = \<lparr>mac = [10, 0, 0, 1, 186, 192], net = 0\<rparr>"

text \<open>A Who-Is and a WriteProperty request behind a network header of two bytes.\<close>

definition demo_who_is :: bytes where "demo_who_is = [1, 0, 0x10, 8]"
definition demo_write :: bytes where "demo_write = [1, 4, 0x00, 0x05, 1, 15]"

definition demo_npdu :: "bytes \<Rightarrow> int \<times> bool" where "demo_npdu = (\<lambda>pdu. (2, False))"

subsection \<open>Properties\<close>

text \<open>C1.
  The decision of php_bacnet_security_accept on a well-formed server with the filter on, and all
  it changes.  A source the access lists refuse is dropped whatever else holds; then a source
  whose valid entry is blocked; then a malformed packet.  Each of these counts in its own
  statistic and in its own counter of the source, and takes no token of any bucket.  Every other
  packet has to pass, in this order, the global bucket, the bucket of its source and, for a
  Who-Is or a WriteProperty, the Who-Is or write bucket of its source (due_buckets): it is
  accepted if and only if each of them grants a token; the buckets are charged up to the first
  that refuses, that one included, and no other bucket of the source changes.  The source then
  has one packet more accepted, or one more dropped for its rate and a violation.  The entry
  is the valid one of the address, or a new one with full buckets; the entries of other
  sources stay as they were.
\<close>

theorem accept_follows_policy:
  assumes "security_wf s" and "o_enabled (sec_options s)" and "0 \<le> now"
    and "php_bacnet_security_accept npdu source pdu now s = (ok, kind, s')"
    and "ip = php_bacnet_security_source_ip source" and "x = entry_of s ip now"
  shows "\<exists>x' \<in> set (sec_sources s'). x_used x' \<and> x_ip x' = ip \<and>
    (\<forall>y \<in> set (sec_sources s'). x_used y \<and> x_ip y \<noteq> ip \<longrightarrow> y \<in> set (sec_sources s)) \<and>
    (if refused_address (sec_options s) ip
     then \<not> ok \<and> sec_stats s' = count_acl (sec_stats s) \<and> global_bucket s' = global_bucket s \<and>
       x' = x\<lparr>x_acl_drops := x_acl_drops x + 1\<rparr>
     else if blocked_source s ip now
     then \<not> ok \<and> sec_stats s' = count_blocked (sec_stats s) \<and> global_bucket s' = global_bucket s \<and>
       x' = x\<lparr>x_blocked_drops := x_blocked_drops x + 1\<rparr>
     else (case header_kind npdu pdu of
         None \<Rightarrow> \<not> ok \<and> sec_stats s' = count_malformed (sec_stats s) \<and> global_bucket s' = global_bucket s \<and>
           x' = x\<lparr>x_malformed := x_malformed x + 1\<rparr>
       | Some k \<Rightarrow> kind = k \<and> sec_stats s' = (if ok then count_accepted else count_rate) (sec_stats s) \<and>
           charge now (due_buckets k s x) = (ok, due_buckets k s' x') \<and>
           other_buckets k s' x' = other_buckets k s x \<and>
           no_buckets x' = no_buckets (if ok then x\<lparr>x_accepted := x_accepted x + 1\<rparr>
             else php_bacnet_security_violation (sec_options s) now (x\<lparr>x_rate_drops := x_rate_drops x + 1\<rparr>))))"
proof -
  note o = accept_outcome [OF assms(1-4), folded assms(5)]
  obtain x' where x': "x' \<in> set (sec_sources s')" "x_used x' \<and> x_ip x' = ip \<and>
    (\<forall>y \<in> set (sec_sources s'). x_used y \<and> x_ip y \<noteq> ip \<longrightarrow> y \<in> set (sec_sources s)) \<and>
    (if acl_refuses (sec_options s) ip then x' = x\<lparr>x_acl_drops := x_acl_drops x + 1\<rparr>
     else if blocked_source s ip now then x' = x\<lparr>x_blocked_drops := x_blocked_drops x + 1\<rparr>
     else (case classify_packet npdu pdu of
         None \<Rightarrow> x' = x\<lparr>x_malformed := x_malformed x + 1\<rparr>
       | Some k \<Rightarrow> charge now (due_buckets k s x) = (ok, due_buckets k s' x') \<and>
           other_buckets k s' x' = other_buckets k s x \<and>
           no_buckets x' = no_buckets (if ok then x\<lparr>x_accepted := x_accepted x + 1\<rparr>
             else php_bacnet_security_violation (sec_options s) now (x\<lparr>x_rate_drops := x_rate_drops x + 1\<rparr>))))"
    using accept_entry [OF assms] by blast
  show ?thesis
    unfolding acl_refused_address [symmetric] classify_header [symmetric]
    by (rule bexI [OF _ x'(1)])
       (use x'(2) o in \<open>simp split del: if_split split: option.splits; cases "acl_refuses (sec_options s) ip";
          cases "blocked_source s ip now"; simp\<close>)
qed

text \<open>
  The first Who-Is of a source on a new server passes its three full buckets and is accepted.
\<close>

theorem accept_follows_policy_witness:
  "case php_bacnet_security_accept demo_npdu demo_source demo_who_is (Fin 0) demo_security of
     (ok, kind, s') \<Rightarrow> ok \<and> kind = PACKET_WHO_IS \<and> sec_stats s' = count_accepted empty_stats"
proof -
  let ?ip = "php_bacnet_security_source_ip demo_source"
  obtain ok kind s' where acc:
    "php_bacnet_security_accept demo_npdu demo_source demo_who_is (Fin 0) demo_security = (ok, kind, s')"
    by (metis prod_cases3)
  have e: "entry_of demo_security ?ip (Fin 0) = fresh_entry demo_options ?ip (Fin 0)"
    by (simp add: entry_of_def valid_entry_def demo_fields)
  have "fst (charge (Fin 0) (due_buckets PACKET_WHO_IS demo_security (fresh_entry demo_options ?ip (Fin 0))))"
    by (simp add: due_buckets_def own_bucket_def who_is_bucket_def global_bucket_def demo_fields fresh_entry_def
        demo_options_fields charge_Cons bucket_take_def php_bacnet_security_take_def dbl_of_u32_def dbl_simps
        del: charge.simps(2))
  moreover have "\<not> refused_address demo_options ?ip"
    by (simp add: refused_address_def demo_options_fields)
  moreover have "\<not> blocked_source demo_security ?ip (Fin 0)"
    by (simp add: blocked_source_def demo_fields)
  moreover have "header_kind demo_npdu demo_who_is = Some PACKET_WHO_IS"
    by (simp add: header_kind_def demo_npdu_def demo_who_is_def Let_def drop_Cons')
  ultimately show ?thesis
    using accept_follows_policy [OF demo_wf _ _ acc refl refl] acc unfolding e
    by (auto simp: demo_fields demo_options_fields dbl_simps)
qed

text \<open>
  Every packet moves exactly one of the five counters of the statistics by one, and it is the
  counter of accepted packets if and only if the packet is accepted; this also holds with the
  filter switched off, where every packet is accepted.
\<close>

theorem packet_counted_once:
  assumes "security_wf s" and "0 \<le> now"
    and "php_bacnet_security_accept npdu source pdu now s = (ok, kind, s')"
  shows "if ok then sec_stats s' = count_accepted (sec_stats s)
    else sec_stats s' \<in> {count_acl (sec_stats s), count_blocked (sec_stats s),
                          count_malformed (sec_stats s), count_rate (sec_stats s)}"
proof (cases "o_enabled (sec_options s)")
  case False
  then show ?thesis using assms(3) by (auto simp: accept_disabled)
next
  case True
  show ?thesis
    using accept_outcome [OF assms(1) True assms(2,3)] by (auto split: if_splits option.splits)
qed

theorem packet_counted_once_witness:
  "case php_bacnet_security_accept demo_npdu demo_source [1, 0, 0x10] (Fin 1) demo_security of
     (ok, kind, s') \<Rightarrow>
       if ok then sec_stats s' = count_accepted empty_stats
       else sec_stats s' \<in> {count_acl empty_stats, count_blocked empty_stats,
                             count_malformed empty_stats, count_rate empty_stats}"
proof -
  obtain ok kind s' where acc:
    "php_bacnet_security_accept demo_npdu demo_source [1, 0, 0x10] (Fin 1) demo_security = (ok, kind, s')"
    by (metis prod_cases3)
  show ?thesis
    using packet_counted_once [OF demo_wf _ acc] acc by (auto simp: demo_fields dbl_simps split: if_splits)
qed

text \<open>C8.
  The rate limit.  From any well-formed state, over any packets from any sources at times that
  do not decrease, the number of accepted packets is at most the tokens of the global bucket
  plus the configured rate times the elapsed time, up to a factor of four double roundings
  per packet, (1 + 2^-53)^4 each.
\<close>

theorem accepted_within_rate:
  assumes "security_wf s" and "o_enabled (sec_options s)" and "es \<noteq> []"
    and "in_time_order (dbl_val (sec_global_updated s)) es"
  shows "of_nat (fst (accept_run npdu s es))
    \<le> ((1 + 1 / 2 ^ 53) ^ 4) ^ length es * (dbl_val (sec_global_tokens s) +
        dbl_val (o_global_rate (sec_options s)) *
          (dbl_val (snd (snd (last es))) - dbl_val (sec_global_updated s)))"
  using accept_run_bound [OF _ assms(4,3)] assms(1,2)
  by (simp add: filtering_def step_growth_def ulp_def)

theorem accepted_within_rate_witness:
  "of_nat (fst (accept_run demo_npdu demo_security
      [(demo_source, demo_who_is, Fin 1), (demo_source, demo_write, Fin 2)]))
    \<le> ((1 + 1 / 2 ^ 53) ^ 4) ^ 2 * (1000 + 500 * (2 - 0) :: rat)"
  using accepted_within_rate [of demo_security
      "[(demo_source, demo_who_is, Fin 1), (demo_source, demo_write, Fin 2)]" demo_npdu] demo_wf
  by (simp add: demo_fields demo_options_fields)

text \<open>C32.
  Flooding.  An entry with no pending violation that is charged with flood_violations
  violations, all of them within the flood window of the first, is blocked from the last of
  them on for the block duration.
\<close>

theorem flood_blocks_source:
  assumes "x_violations x = 0" and "length ts = unat (o_flood_violations n)" and "ts \<noteq> []"
    and "\<forall>t \<in> set ts. \<not> t - hd ts > o_flood_window n"
  shows "x_blocked_until (foldl (\<lambda>x t. php_bacnet_security_violation n t x) x ts)
    = last ts + o_block_duration n"
  by (rule violations_block [OF assms])

theorem flood_blocks_source_witness:
  "x_blocked_until (foldl (\<lambda>x t. php_bacnet_security_violation
      (demo_options\<lparr>o_flood_violations := 2\<rparr>) t x) empty_source [Fin 1, Fin 3]) = Fin 63"
  using flood_blocks_source [of empty_source "[Fin 1, Fin 3]" "demo_options\<lparr>o_flood_violations := 2\<rparr>"]
  by (simp add: demo_options_fields empty_source_def)

text \<open>C9.
  Duplicate suppression.  After any sequence of recorded writes on a table that starts empty, a
  write is taken for a duplicate exactly if one of the last 4096 recorded writes came from the
  same source with the same hash and its window has not passed; the 16-bit cursor wraps
  without losing a record.
\<close>

theorem duplicate_detection:
  assumes "o_enabled (sec_options s)"
    and "sec_duplicates s = replicate SECURITY_DUPLICATES empty_duplicate"
  shows "fst (php_bacnet_security_is_duplicate_write source apdu now (record_writes es s)) \<longleftrightarrow>
    (\<exists>(source', apdu', t) \<in> set (take 4096 (rev es)).
       t + o_duplicate_window (sec_options s) > now \<and>
       php_bacnet_security_source_ip source' = php_bacnet_security_source_ip source \<and>
       php_bacnet_security_hash_write (php_bacnet_security_source_ip source') apdu' =
       php_bacnet_security_hash_write (php_bacnet_security_source_ip source) apdu)"
  using fresh_is_duplicate [OF assms] by (simp add: SECURITY_DUPLICATES_def)

theorem duplicate_detection_witness:
  "fst (php_bacnet_security_is_duplicate_write demo_source demo_write (Fin 4)
      (record_writes [(demo_source, demo_write, Fin 1)] demo_security))
   \<and> \<not> fst (php_bacnet_security_is_duplicate_write demo_source demo_write (Fin 7)
      (record_writes [(demo_source, demo_write, Fin 1)] demo_security))"
  using duplicate_detection [of demo_security demo_source demo_write "Fin 4" "[(demo_source, demo_write, Fin 1)]"]
    duplicate_detection [of demo_security demo_source demo_write "Fin 7" "[(demo_source, demo_write, Fin 1)]"]
  by (simp add: demo_fields demo_options_fields)

text \<open>C23.
  The invariant of the protection layer.  In every state reachable from a created server by
  packets, malformed requests, queue overflows, duplicate tests, recorded writes, statistics
  calls and reconfigurations, the options are valid, the table has the configured size with at
  most one entry per address and an exact count, and the global bucket holds between zero and
  burst tokens.
\<close>

theorem reachable_wf:
  assumes "security_reachable npdu (s, t)"
  shows "security_wf s"
  using reachable_inv [OF assms] by (simp add: security_inv_def)

theorem reachable_wf_witness:
  "security_wf (php_bacnet_security_malformed demo_source (Fin 2) demo_security)"
proof -
  have "security_reachable demo_npdu (demo_security, 0)"
    by (rule reach_create [OF demo_create])
  then have "security_reachable demo_npdu (php_bacnet_security_malformed demo_source (Fin 2) demo_security, 2)"
    by (rule reach_step, intro step_malformed) simp_all
  then show ?thesis by (rule reachable_wf)
qed

text \<open>C39.
  Server::configureSecurity is atomic.  If the overrides are refused the layer is unchanged.  If
  they are taken the new options are valid, both tables are empty, the global bucket is full from
  now on, the warnings start afresh, and the statistics are kept.
\<close>

theorem configure_atomic:
  "case php_bacnet_security_configure overrides now s of
     (Inl err, s') \<Rightarrow> s' = s
   | (Inr _, s') \<Rightarrow>
       php_bacnet_security_validate_options (sec_options s') = Inr (sec_options s') \<and>
       \<not> list_ex x_used (sec_sources s') \<and> \<not> list_ex dup_used (sec_duplicates s') \<and>
       length (sec_sources s') = unat (o_max_sources (sec_options s')) \<and>
       sec_source_count s' = 0 \<and>
       sec_global_tokens s' = dbl_of_u32 (o_global_burst (sec_options s')) \<and>
       sec_global_updated s' = now \<and> sec_last_log s' = now \<and> sec_pending_warnings s' = 0 \<and>
       sec_stats s' = sec_stats s"
proof (cases "set_options_loop overrides (sec_options s)")
  case (Inl err)
  then show ?thesis by (simp add: php_bacnet_security_configure_def)
next
  case l: (Inr n)
  show ?thesis
  proof (cases "php_bacnet_security_validate_options n")
    case (Inl err)
    then show ?thesis using l by (simp add: php_bacnet_security_configure_def)
  next
    case v: (Inr n')
    have "php_bacnet_security_validate_options n' = Inr n'"
      using validate_Inr [OF v] by (intro validate_ok) simp
    then show ?thesis
      using l v by (simp add: php_bacnet_security_configure_def list_ex_iff empty_duplicate_def)
  qed
qed

text \<open>C38.
  Configuring a server with the array its options report succeeds and changes no option; only
  the texts of the two network lists are brought to a normal form that reports the same array.
\<close>

theorem configure_own_options:
  assumes "security_wf s" and "php_bacnet_security_options_to_array s = ZArray kvs"
  shows "fst (php_bacnet_security_configure kvs now s) = Inr () \<and>
    sec_options (snd (php_bacnet_security_configure kvs now s)) =
      (sec_options s)\<lparr>o_allowed_networks := canonical_networks (o_allowed_networks (sec_options s)),
                      o_denied_networks := canonical_networks (o_denied_networks (sec_options s))\<rparr> \<and>
    php_bacnet_security_options_to_array (snd (php_bacnet_security_configure kvs now s)) = ZArray kvs"
  using configure_reported [OF assms] assms(2)
  by (simp_all add: canonical_options_def [symmetric] options_to_array_pairs options_pairs_canonical)

theorem configure_own_options_witness:
  "fst (php_bacnet_security_configure (options_pairs demo_options) (Fin 3) demo_security) = Inr ()"
  using configure_own_options [OF demo_wf, of "options_pairs demo_options" "Fin 3"]
  by (simp add: options_to_array_pairs demo_fields)

text \<open>C33.
  Access lists.  A network written as address/length parses to a network that contains exactly
  the addresses agreeing with it on the first length bits; a length above 32 is refused.
\<close>

theorem cidr_membership:
  assumes "p \<le> 255"
  shows "(case php_bacnet_security_parse_cidr (php_bacnet_security_ip_string base @ CHR ''/'' # show_nat p) of
      None \<Rightarrow> p > 32
    | Some c \<Rightarrow> p \<le> 32 \<and>
        (\<forall>ip. php_bacnet_security_match ip [c] \<longleftrightarrow> drop_bit (32 - p) ip = drop_bit (32 - p) base))"
proof (cases "p \<le> 32")
  case True
  have n: "nat (32 - int p) = 32 - p" by simp
  have "ip AND cidr_mask (int p) = base AND cidr_mask (int p) \<longleftrightarrow>
      drop_bit (32 - p) ip = drop_bit (32 - p) base" for ip
    using masked_drop_bit [of "int p" ip base] True unfolding n by simp
  then show ?thesis
    using True parse_cidr_string [OF assms, of base]
    by (simp only: cidr_string_def if_True option.case php_bacnet_security_match.simps
        security_cidr.simps if_bool_eq_disj simp_thms)
next
  case False
  then show ?thesis
    using parse_cidr_string [OF assms, of base] by (simp add: cidr_string_def)
qed

theorem cidr_membership_witness:
  "case php_bacnet_security_parse_cidr (php_bacnet_security_ip_string 0x0A000000 @ CHR ''/'' # show_nat 8) of
      None \<Rightarrow> False
    | Some c \<Rightarrow> \<forall>ip. php_bacnet_security_match ip [c] \<longleftrightarrow> drop_bit 24 ip = drop_bit 24 (0x0A000000 :: u32)"
  using cidr_membership [of 8 "0x0A000000"]
  by (simp split: option.splits del: php_bacnet_security_match.simps)

text \<open>
  A list of networks in a configuration array is parsed to the networks it names, in order, as
  long as there are at most 128 of them.
\<close>

theorem network_list_parses:
  assumes "\<forall>(ip, p) \<in> set nets. p \<le> 32" and "length nets \<le> SECURITY_MAX_CIDRS"
    and "php_bacnet_security_network_array
           (ZArray (map (\<lambda>(ip, p). (k, ZString (cidr_string ip p))) nets)) key = Inr text"
  shows "php_bacnet_security_parse_cidr_list text
    = Inr (map (\<lambda>(ip, p). \<lparr>network = ip AND cidr_mask (int p), mask_of = cidr_mask (int p)\<rparr>) nets)"
proof -
  let ?ts = "map (\<lambda>(ip, p). cidr_string ip p) nets"
  have items: "map snd (map (\<lambda>(ip, p). (k, ZString (cidr_string ip p))) nets) = map ZString ?ts"
    by auto
  have ne: "\<forall>t \<in> set ?ts. t \<noteq> []" using cidr_string_token by auto
  have "text = cstr (join_comma ?ts)"
    using assms(3) network_array_loop_strings [OF ne, of key "[]"]
    by (simp add: php_bacnet_security_network_array_def items del: map_map)
  moreover have "CHR 0x00 \<notin> set (join_comma ?ts)"
  proof -
    have "CHR 0x00 \<notin> set (cidr_string ip p)" for ip p
      by (simp add: cidr_string_def ip_string_dotted dotted_no_nul show_nat_no_sep)
    then show ?thesis using join_comma_chars [of ?ts] by fastforce
  qed
  ultimately have "text = join_comma ?ts" by (simp add: cstr_id)
  then show ?thesis using parse_cidr_list_strings [OF assms(1,2)] by simp
qed

theorem network_list_parses_witness:
  "php_bacnet_security_parse_cidr_list (join_comma [cidr_string 0x0A000000 8, cidr_string 0xC0A80000 16])
   = Inr [\<lparr>network = 0x0A000000 AND cidr_mask 8, mask_of = cidr_mask 8\<rparr>,
          \<lparr>network = 0xC0A80000 AND cidr_mask 16, mask_of = cidr_mask 16\<rparr>]"
proof -
  let ?nets = "[(0x0A000000 :: u32, 8 :: nat), (0xC0A80000, 16)]"
  let ?text = "join_comma [cidr_string 0x0A000000 8, cidr_string 0xC0A80000 16]"
  have "CHR 0x00 \<notin> set (cidr_string ip p)" for ip p
    by (simp add: cidr_string_def ip_string_dotted dotted_no_nul show_nat_no_sep)
  then have "cstr ?text = ?text" by (intro cstr_id) simp
  moreover have "network_array_loop ''allowed_networks'' (map ZString [cidr_string 0x0A000000 8, cidr_string 0xC0A80000 16]) []
      = Inr ?text"
    using cidr_string_token by (subst network_array_loop_strings) auto
  ultimately have "php_bacnet_security_network_array
      (ZArray (map (\<lambda>(ip, p). (KInt 0, ZString (cidr_string ip p))) ?nets)) ''allowed_networks'' = Inr ?text"
    by (simp add: php_bacnet_security_network_array_def)
  from network_list_parses [OF _ _ this] show ?thesis
    by (simp add: SECURITY_MAX_CIDRS_def)
qed

end
