(* ===== verification/Helpers.thy ===== *)
theory Helpers
  imports Php_Values
begin

text \<open>
  src/bacnet_helpers.c: the conversions between BACnet application data and PHP values,
  and the value factories and present-value coercion of src/bacnet_classes.c that use them.
  char_init is characterstring_init_ansi of bacnet-stack (what the value holds after it was
  initialised with a C string), dec is bacapp_decode_application_data (bytes consumed, or
  at most 0 on an error, and the value), enc is bacapp_encode_application_data.
\<close>

subsection \<open>Application data to PHP\<close>

definition php_bacnet_date_new :: "bac_date \<Rightarrow> php_date" where
  "php_bacnet_date_new d =
    \<lparr>date_c = d,
     date_props = [uint (d_year d), uint (d_month d), uint (d_day d), uint (d_wday d)]\<rparr>"

definition php_bacnet_time_new :: "bac_time \<Rightarrow> php_time" where
  "php_bacnet_time_new t =
    \<lparr>time_c = t,
     time_props = [uint (t_hour t), uint (t_min t), uint (t_sec t), uint (t_hundredths t)]\<rparr>"

fun bacapp_value_to_zval :: "appdata \<Rightarrow> zval" where
  "bacapp_value_to_zval AppNull = ZNull"
| "bacapp_value_to_zval (AppBoolean b) = ZBool b"
| "bacapp_value_to_zval (AppUnsigned n) = ZLong (sint n)"
| "bacapp_value_to_zval (AppSigned n) = ZLong (sint n)"
| "bacapp_value_to_zval (AppReal d) = ZDouble d"
| "bacapp_value_to_zval (AppDouble d) = ZDouble d"
| "bacapp_value_to_zval (AppEnumerated n) = ZLong (uint n)"
| "bacapp_value_to_zval (AppChars s) = ZString s"
| "bacapp_value_to_zval (AppOctets s) = ZString s"
| "bacapp_value_to_zval (AppBits b) = ZBitString (php_bacnet_bitstring_new b)"
| "bacapp_value_to_zval (AppDate d) = ZDate (php_bacnet_date_new d)"
| "bacapp_value_to_zval (AppTime t) = ZTime (php_bacnet_time_new t)"
| "bacapp_value_to_zval (AppObjectId t i) = ZOid (php_bacnet_oid_from_c t i)"
| "bacapp_value_to_zval (AppOther _) = ZNull"

text \<open>The decode loop: it stops at the end of the data or at the first decoding error.\<close>

function bacapp_decode_loop :: "(bytes \<Rightarrow> int \<times> appdata) \<Rightarrow> bytes \<Rightarrow> zval list" where
  "bacapp_decode_loop dec apdu =
    (if apdu = [] then []
     else let (n, val) = dec apdu
          in if n \<le> 0 then []
             else bacapp_value_to_zval val # bacapp_decode_loop dec (drop (nat n) apdu))"
  by pat_completeness auto
termination
  by (relation "measure (\<lambda>(dec, apdu). length apdu)") auto

declare bacapp_decode_loop.simps [simp del]

definition bacapp_values_to_zval :: "(bytes \<Rightarrow> int \<times> appdata) \<Rightarrow> bytes \<Rightarrow> zval" where
  "bacapp_values_to_zval dec apdu =
    (let arr = bacapp_decode_loop dec apdu
     in if length arr = 1 then hd arr
        else if length arr > 1 then ZArray (zip (map (\<lambda>i. KInt (int i)) [0..<length arr]) arr)
        else ZNull)"

subsection \<open>PHP to application data\<close>

definition zval_to_bacapp_value :: "(string \<Rightarrow> string) \<Rightarrow> zval \<Rightarrow> appdata option" where
  "zval_to_bacapp_value char_init zv =
    (case zv of
       ZNull \<Rightarrow> Some AppNull
     | ZBool b \<Rightarrow> Some (AppBoolean b)
     | ZLong n \<Rightarrow> Some (if n \<ge> 0 then AppUnsigned (word_of_int n) else AppSigned (word_of_int n))
     | ZDouble d \<Rightarrow> Some (AppReal (float_of_dbl d))
     | ZString s \<Rightarrow> Some (AppChars (char_init (cstr s)))
     | ZValue v \<Rightarrow> Some v
     | ZBitString bs \<Rightarrow> Some (AppBits bs)
     | ZDate d \<Rightarrow> Some (AppDate (date_c d))
     | ZTime t \<Rightarrow> Some (AppTime (time_c t))
     | ZOid oid \<Rightarrow> Some (AppObjectId (oid_type oid) (oid_instance oid))
     | ZArray _ \<Rightarrow> None
     | ZEnum _ _ \<Rightarrow> None
     | ZOther _ \<Rightarrow> None)"

definition php_bacnet_value_encode ::
    "(appdata \<Rightarrow> int \<times> bytes) \<Rightarrow> zval \<Rightarrow> int \<Rightarrow> int \<times> bytes" where
  "php_bacnet_value_encode enc value_zv apdu_size =
    (case value_zv of
       ZValue v \<Rightarrow>
         (let (n, out) = enc v in (if n > 0 \<and> n \<le> apdu_size then n else -1, out))
     | _ \<Rightarrow> (-1, []))"

subsection \<open>The factories of Bacnet\\Value, and Date and Time\<close>

definition Value_boolean :: "bool \<Rightarrow> appdata" where
  "Value_boolean v = AppBoolean v"

definition Value_unsignedInt :: "int \<Rightarrow> appdata" where
  "Value_unsignedInt v = AppUnsigned (if v < 0 then 0 else ucast (word_of_int v :: u32))"

definition Value_signedInt :: "int \<Rightarrow> appdata" where
  "Value_signedInt v = AppSigned (word_of_int v)"

definition Value_real :: "dbl \<Rightarrow> appdata" where
  "Value_real v = AppReal (float_of_dbl v)"

definition Value_enumerated :: "int \<Rightarrow> appdata" where
  "Value_enumerated v = AppEnumerated (word_of_int v)"

definition Value_characterString :: "(string \<Rightarrow> string) \<Rightarrow> string \<Rightarrow> appdata" where
  "Value_characterString char_init v = AppChars (char_init (cstr v))"

definition Value_bitString :: "bitstring \<Rightarrow> appdata" where
  "Value_bitString bs = AppBits bs"

definition Value_date :: "php_date \<Rightarrow> appdata" where
  "Value_date d = AppDate (date_c d)"

definition Value_time :: "php_time \<Rightarrow> appdata" where
  "Value_time t = AppTime (time_c t)"

definition Value_objectIdentifier :: "php_oid \<Rightarrow> appdata" where
  "Value_objectIdentifier oid = AppObjectId (oid_type oid) (oid_instance oid)"

definition Date_construct :: "int \<Rightarrow> int \<Rightarrow> int \<Rightarrow> int \<Rightarrow> php_date" where
  "Date_construct year month day weekday =
    \<lparr>date_c = \<lparr>d_year = word_of_int year, d_month = word_of_int month,
               d_day = word_of_int day, d_wday = word_of_int weekday\<rparr>,
     date_props = [year, month, day, weekday]\<rparr>"

definition Time_construct :: "int \<Rightarrow> int \<Rightarrow> int \<Rightarrow> int \<Rightarrow> php_time" where
  "Time_construct hour minute second hundredths =
    \<lparr>time_c = \<lparr>t_hour = word_of_int hour, t_min = word_of_int minute,
               t_sec = word_of_int second, t_hundredths = word_of_int hundredths\<rparr>,
     time_props = [hour, minute, second, hundredths]\<rparr>"

subsection \<open>Bacnet\\ObjectIdentifier\<close>

definition BACNET_MAX_INSTANCE :: int where
  "BACNET_MAX_INSTANCE = 0x3FFFFF"

text \<open>The constructor; None is the Bacnet\\Exception for an instance out of range.\<close>

definition ObjectIdentifier_construct :: "string \<Rightarrow> u32 \<Rightarrow> int \<Rightarrow> php_oid option" where
  "ObjectIdentifier_construct case_name backing inst =
    (if inst < 0 \<or> inst > BACNET_MAX_INSTANCE then None
     else Some \<lparr>oid_type = backing, oid_instance = word_of_int inst, oid_case = Some case_name\<rparr>)"

definition ObjectIdentifier_toString :: "php_oid \<Rightarrow> string" where
  "ObjectIdentifier_toString oid =
    show_nat (unat (oid_type oid)) @ '':'' @ show_nat (unat (oid_instance oid))"

subsection \<open>ObjectRef::writePresentValue\<close>

text \<open>
  appdata.type.Unsigned_Int read after zval_to_bacapp_value stored an unsigned or a signed
  integer.  The value was cleared with memset first and the members of the union share their
  first bytes, so after Signed_Int (32 bits) was stored the 64-bit member holds its bit
  pattern in the low half and zeros above (little endian).
\<close>

fun union_unsigned :: "appdata \<Rightarrow> u64" where
  "union_unsigned (AppUnsigned n) = n"
| "union_unsigned (AppSigned n) = ucast n"
| "union_unsigned _ = 0"

definition float_of_u64 :: "u64 \<Rightarrow> dbl" where
  "float_of_u64 n = Fin (round_prec 24 (of_nat (unat n)))"

definition coerce_present_value :: "u32 \<Rightarrow> appdata \<Rightarrow> appdata" where
  "coerce_present_value ot a =
    (case a of
       AppUnsigned _ \<Rightarrow>
         (if ot = OBJECT_BINARY_INPUT \<or> ot = OBJECT_BINARY_OUTPUT \<or> ot = OBJECT_BINARY_VALUE
          then AppEnumerated (ucast (union_unsigned a))
          else if ot = OBJECT_ANALOG_INPUT \<or> ot = OBJECT_ANALOG_OUTPUT \<or> ot = OBJECT_ANALOG_VALUE
          then AppReal (float_of_u64 (union_unsigned a)) else a)
     | AppSigned _ \<Rightarrow>
         (if ot = OBJECT_BINARY_INPUT \<or> ot = OBJECT_BINARY_OUTPUT \<or> ot = OBJECT_BINARY_VALUE
          then AppEnumerated (ucast (union_unsigned a))
          else if ot = OBJECT_ANALOG_INPUT \<or> ot = OBJECT_ANALOG_OUTPUT \<or> ot = OBJECT_ANALOG_VALUE
          then AppReal (float_of_u64 (union_unsigned a)) else a)
     | _ \<Rightarrow> a)"

text \<open>The value writePresentValue hands to WriteProperty; None is the exception.\<close>

definition writePresentValue_data :: "(string \<Rightarrow> string) \<Rightarrow> u32 \<Rightarrow> zval \<Rightarrow> appdata option" where
  "writePresentValue_data char_init ot value_zv =
    (case value_zv of
       ZValue v \<Rightarrow> Some v
     | _ \<Rightarrow> map_option (coerce_present_value ot) (zval_to_bacapp_value char_init value_zv))"

subsection \<open>Round trips\<close>

lemma sint_word_of_int_64: "- (2 ^ 63) \<le> n \<Longrightarrow> n < 2 ^ 63 \<Longrightarrow> sint (word_of_int n :: u64) = n"
  by (simp add: sint_sbintrunc' signed_take_bit_int_eq_self)

lemma sint_word_of_int_32: "- (2 ^ 31) \<le> n \<Longrightarrow> n < 2 ^ 31 \<Longrightarrow> sint (word_of_int n :: u32) = n"
  by (simp add: sint_sbintrunc' signed_take_bit_int_eq_self)

text \<open>
  The PHP values that have an exact image in application data: integers that fit the 32 bits of
  a signed or the 64 bits of an unsigned number, numbers of single precision (and infinities
  and NaN), strings without NUL of at most cap bytes, bit strings whose unused bytes are clear,
  dates and times as their constructors make them of values in range, and object identifiers
  whose enum case belongs to their type, or without one where the type has none.
\<close>

fun wire_value :: "nat \<Rightarrow> zval \<Rightarrow> bool" where
  "wire_value cap ZNull = True"
| "wire_value cap (ZBool b) = True"
| "wire_value cap (ZLong n) = (- (2 ^ 31) \<le> n \<and> n < 2 ^ 63)"
| "wire_value cap (ZDouble d) = (\<forall>q. d = Fin q \<longrightarrow> single_precision q)"
| "wire_value cap (ZString s) = (CHR 0x00 \<notin> set s \<and> length s \<le> cap)"
| "wire_value cap (ZBitString bs) = (\<forall>j < PHP_BACNET_BITSTRING_MAX_BYTES.
     unat (bits_used bs) \<le> 8 * j \<longrightarrow> bit_bytes bs ! j = 0)"
| "wire_value cap (ZDate d) = (\<exists>year month day weekday.
     {year} \<subseteq> {0..65535} \<and> {month, day, weekday} \<subseteq> {0..255} \<and> d = Date_construct year month day weekday)"
| "wire_value cap (ZTime t) = (\<exists>hour minute second hundredths.
     {hour, minute, second, hundredths} \<subseteq> {0..255} \<and> t = Time_construct hour minute second hundredths)"
| "wire_value cap (ZOid oid) =
     (case oid_case oid of
        Some name \<Rightarrow> map_of object_type_enum name = Some (oid_type oid)
      | None \<Rightarrow> oid_type oid \<notin> snd ` set object_type_enum)"
| "wire_value cap _ = False"

lemma long_round_trip:
  "map_option bacapp_value_to_zval (zval_to_bacapp_value ci (ZLong n)) = Some (ZLong n) \<longleftrightarrow>
     - (2 ^ 31) \<le> n \<and> n < 2 ^ 63"
proof (cases "0 \<le> n")
  case True
  have "sint (word_of_int n :: u64) < 2 ^ 63"
    using sint_lt [of "word_of_int n :: u64"] by simp
  then have "sint (word_of_int n :: u64) = n \<longleftrightarrow> n < 2 ^ 63"
    using True sint_word_of_int_64 [of n] by auto
  then show ?thesis using True by (simp add: zval_to_bacapp_value_def)
next
  case False
  have "- (2 ^ 31) \<le> sint (word_of_int n :: u32)"
    using sint_ge [of "word_of_int n :: u32"] by simp
  then have "sint (word_of_int n :: u32) = n \<longleftrightarrow> - (2 ^ 31) \<le> n"
    using False sint_word_of_int_32 [of n] by auto
  then show ?thesis using False by (simp add: zval_to_bacapp_value_def)
qed

lemma cstr_fixed: "cstr s = s \<longleftrightarrow> CHR 0x00 \<notin> set s"
  by (auto simp: cstr_def takeWhile_eq_all_conv)

lemma length_cstr: "length (cstr s) \<le> length s"
  by (simp add: cstr_def length_takeWhile_le)

lemma string_round_trip:
  assumes "\<forall>s. length s \<le> cap \<longrightarrow> char_init s = s" and "\<forall>s. length (char_init s) \<le> cap"
  shows "char_init (cstr s) = s \<longleftrightarrow> CHR 0x00 \<notin> set s \<and> length s \<le> cap"
proof (cases "length (cstr s) \<le> cap")
  case True
  then show ?thesis using assms(1) cstr_fixed [of s] by auto
next
  case False
  then show ?thesis using assms(2) length_cstr [of s] by (metis le_trans)
qed

lemma bitstring_round_trip:
  assumes "length (bit_bytes bs) = PHP_BACNET_BITSTRING_MAX_BYTES"
  shows "php_bacnet_bitstring_new bs = bs \<longleftrightarrow>
    (\<forall>j < PHP_BACNET_BITSTRING_MAX_BYTES. unat (bits_used bs) \<le> 8 * j \<longrightarrow> bit_bytes bs ! j = 0)"
proof -
  define k where "k = (unat (bits_used bs) + 7) div 8"
  let ?n = PHP_BACNET_BITSTRING_MAX_BYTES
  have "php_bacnet_bitstring_new bs = bs \<longleftrightarrow>
      take k (bit_bytes bs) @ replicate (?n - k) 0 = take k (bit_bytes bs) @ drop k (bit_bytes bs)"
    by (cases bs) (simp add: php_bacnet_bitstring_new_def k_def Let_def)
  also have "\<dots> \<longleftrightarrow> drop k (bit_bytes bs) = replicate (?n - k) 0"
    unfolding same_append_eq by (rule eq_commute)
  also have "\<dots> \<longleftrightarrow> (\<forall>j < ?n. k \<le> j \<longrightarrow> bit_bytes bs ! j = 0)"
  proof
    assume d: "drop k (bit_bytes bs) = replicate (?n - k) 0"
    show "\<forall>j < ?n. k \<le> j \<longrightarrow> bit_bytes bs ! j = 0"
    proof (intro allI impI)
      fix j assume j: "j < ?n" "k \<le> j"
      then have "bit_bytes bs ! j = drop k (bit_bytes bs) ! (j - k)" using assms by simp
      then show "bit_bytes bs ! j = 0" using j by (simp add: d)
    qed
  qed (use assms in \<open>auto intro!: nth_equalityI\<close>)
  also have "\<dots> \<longleftrightarrow> (\<forall>j < ?n. unat (bits_used bs) \<le> 8 * j \<longrightarrow> bit_bytes bs ! j = 0)"
  proof -
    have "k \<le> j \<longleftrightarrow> unat (bits_used bs) \<le> 8 * j" for j unfolding k_def by linarith
    then show ?thesis by simp
  qed
  finally show ?thesis .
qed

lemma in_byte: "x \<in> {0..255} \<Longrightarrow> uint (word_of_int x :: u8) = x"
  and in_two_bytes: "x \<in> {0..65535} \<Longrightarrow> uint (word_of_int x :: u16) = x"
  by (simp_all add: uint_word_of_int)

lemma uint_byte: "uint (b::u8) \<in> {0..255}" and uint_two_bytes: "uint (w::u16) \<in> {0..65535}"
  using uint_lt2p [of b] uint_lt2p [of w] by simp_all

lemma date_round_trip: "php_bacnet_date_new (date_c d) = d \<longleftrightarrow> wire_value cap (ZDate d)"
proof
  assume d: "php_bacnet_date_new (date_c d) = d"
  let ?c = "date_c d"
  have "d = Date_construct (uint (d_year ?c)) (uint (d_month ?c)) (uint (d_day ?c)) (uint (d_wday ?c))"
    by (subst d [symmetric], cases ?c) (simp add: php_bacnet_date_new_def Date_construct_def)
  then show "wire_value cap (ZDate d)"
    unfolding wire_value.simps using uint_byte uint_two_bytes by blast
next
  assume "wire_value cap (ZDate d)"
  then show "php_bacnet_date_new (date_c d) = d"
    by (auto simp: php_bacnet_date_new_def Date_construct_def in_byte in_two_bytes)
qed

lemma time_round_trip: "php_bacnet_time_new (time_c t) = t \<longleftrightarrow> wire_value cap (ZTime t)"
proof
  assume t: "php_bacnet_time_new (time_c t) = t"
  let ?c = "time_c t"
  have "t = Time_construct (uint (t_hour ?c)) (uint (t_min ?c)) (uint (t_sec ?c)) (uint (t_hundredths ?c))"
    by (subst t [symmetric], cases ?c) (simp add: php_bacnet_time_new_def Time_construct_def)
  then show "wire_value cap (ZTime t)"
    unfolding wire_value.simps using uint_byte by blast
next
  assume "wire_value cap (ZTime t)"
  then show "php_bacnet_time_new (time_c t) = t"
    by (auto simp: php_bacnet_time_new_def Time_construct_def in_byte)
qed

lemma oid_round_trip:
  "php_bacnet_oid_from_c (oid_type oid) (oid_instance oid) = oid \<longleftrightarrow> wire_value cap (ZOid oid)"
proof -
  let ?t = "oid_type oid"
  have "php_bacnet_find_ot_case ?t = None \<longleftrightarrow> ?t \<notin> snd ` set object_type_enum"
  proof
    show "?t \<notin> snd ` set object_type_enum" if none: "php_bacnet_find_ot_case ?t = None"
    proof
      assume "?t \<in> snd ` set object_type_enum"
      then obtain name where "(name, ?t) \<in> set object_type_enum" by auto
      then have "map_of s_ot_map ?t = Some name" using s_ot_map_complete by (auto simp: list_all_iff)
      then have "(?t, name) \<in> set s_ot_map" by (rule map_of_SomeD)
      then have "map_of object_type_enum name = Some ?t" using s_ot_map_sound by (auto simp: list_all_iff)
      with none show False using find_ot_case_complete by simp
    qed
    show "php_bacnet_find_ot_case ?t = None" if "?t \<notin> snd ` set object_type_enum"
      using that find_ot_case_backing [of ?t] by (cases "php_bacnet_find_ot_case ?t") (auto dest!: map_of_SomeD intro: rev_image_eqI)
  qed
  moreover have "php_bacnet_find_ot_case ?t = Some name \<longleftrightarrow> map_of object_type_enum name = Some ?t" for name
    using find_ot_case_backing find_ot_case_complete by blast
  moreover have "php_bacnet_oid_from_c ?t (oid_instance oid) = oid \<longleftrightarrow> php_bacnet_find_ot_case ?t = oid_case oid"
    by (cases oid) (simp add: php_bacnet_oid_from_c_def)
  ultimately show ?thesis by (cases "oid_case oid") auto
qed

lemma ObjectIdentifier_construct_exact:
  assumes name: "map_of object_type_enum name = Some t"
    and oid: "ObjectIdentifier_construct name t i = Some oid"
  shows "wire_value cap (ZOid oid)" and "int (unat (oid_instance oid)) = i"
proof -
  have range: "0 \<le> i" "i \<le> BACNET_MAX_INSTANCE"
    and eq: "oid = \<lparr>oid_type = t, oid_instance = word_of_int i, oid_case = Some name\<rparr>"
    using oid by (simp_all add: ObjectIdentifier_construct_def split: if_splits)
  show "wire_value cap (ZOid oid)" using name by (simp add: eq)
  have "i < 2 ^ 32"
    using range by (simp add: BACNET_MAX_INSTANCE_def)
  then have "uint (word_of_int i :: u32) = i"
    using range by (simp add: uint_word_of_int)
  moreover have "oid_instance oid = word_of_int i"
    by (simp add: eq)
  ultimately show "int (unat (oid_instance oid)) = i"
    using range by (simp only: unat_eq_nat_uint)
qed

end
