(* ===== verification/Pending_Queue.thy ===== *)
theory Pending_Queue
  imports Address
begin

text \<open>
  The queue of PDUs a client sets aside while it waits for an answer
  (php_bacnet_client_queue_pdu and php_bacnet_client_pop_pdu of src/bacnet_client.c): a ring of
  PHP_BACNET_PENDING_PDU_CAPACITY slots with an 8-bit head and count.  The locale bounded_fifo
  states what a bounded first-in first-out buffer promises; the ring is shown to be one.
  max_pdu is MAX_APDU + MAX_NPDU of bacnet-stack.
\<close>

type_synonym pending_pdu = "bacnet_address \<times> bytes"

record pdu_queue =
  pending_pdus :: "pending_pdu list"
  pending_head :: u8
  pending_count :: u8

definition PHP_BACNET_PENDING_PDU_CAPACITY :: nat where
  "PHP_BACNET_PENDING_PDU_CAPACITY = 32"

text \<open>The queue of a client that memset has cleared.\<close>

definition empty_queue :: pdu_queue where
  "empty_queue = \<lparr>pending_pdus = replicate PHP_BACNET_PENDING_PDU_CAPACITY (\<lparr>mac = [], net = 0\<rparr>, []),
    pending_head = 0, pending_count = 0\<rparr>"

definition php_bacnet_client_queue_pdu ::
    "nat \<Rightarrow> bacnet_address \<Rightarrow> bytes \<Rightarrow> pdu_queue \<Rightarrow> bool \<times> pdu_queue" where
  "php_bacnet_client_queue_pdu max_pdu source pdu q =
    (if length pdu = 0 \<or> length pdu > max_pdu \<or>
        unat (pending_count q) \<ge> PHP_BACNET_PENDING_PDU_CAPACITY
     then (False, q)
     else
       let index = (unat (pending_head q) + unat (pending_count q)) mod PHP_BACNET_PENDING_PDU_CAPACITY
       in (True, q\<lparr>pending_pdus := (pending_pdus q)[index := (source, pdu)],
                   pending_count := pending_count q + 1\<rparr>))"

definition php_bacnet_client_pop_pdu :: "pdu_queue \<Rightarrow> (pending_pdu \<times> pdu_queue) option" where
  "php_bacnet_client_pop_pdu q =
    (if pending_count q = 0 then None
     else Some (pending_pdus q ! unat (pending_head q),
       q\<lparr>pending_head := of_nat ((unat (pending_head q) + 1) mod PHP_BACNET_PENDING_PDU_CAPACITY),
         pending_count := pending_count q - 1\<rparr>))"

subsection \<open>Bounded queues\<close>

locale bounded_fifo =
  fixes inv :: "'s \<Rightarrow> bool"
    and contents :: "'s \<Rightarrow> 'a list"
    and cap :: nat
    and admissible :: "'a \<Rightarrow> bool"
    and enq :: "'a \<Rightarrow> 's \<Rightarrow> bool \<times> 's"
    and deq :: "'s \<Rightarrow> ('a \<times> 's) option"
  assumes enq_taken: "inv s \<Longrightarrow> admissible x \<Longrightarrow> length (contents s) < cap \<Longrightarrow>
      fst (enq x s) \<and> inv (snd (enq x s)) \<and> contents (snd (enq x s)) = contents s @ [x]"
    and enq_refused: "inv s \<Longrightarrow> \<not> (admissible x \<and> length (contents s) < cap) \<Longrightarrow> enq x s = (False, s)"
    and deq_none: "inv s \<Longrightarrow> deq s = None \<longleftrightarrow> contents s = []"
    and deq_some: "inv s \<Longrightarrow> deq s = Some (x, s') \<Longrightarrow> inv s' \<and> contents s = x # contents s'"
begin

fun enq_all :: "'a list \<Rightarrow> 's \<Rightarrow> 's" where
  "enq_all [] s = s"
| "enq_all (x # xs) s = enq_all xs (snd (enq x s))"

text \<open>Taking out at most k elements.\<close>

fun drain :: "nat \<Rightarrow> 's \<Rightarrow> 'a list \<times> 's" where
  "drain 0 s = ([], s)"
| "drain (Suc k) s =
     (case deq s of
        None \<Rightarrow> ([], s)
      | Some (x, s') \<Rightarrow> (let (xs, s'') = drain k s' in (x # xs, s'')))"

lemma enq_all_contents:
  assumes "inv s" and "length (contents s) \<le> cap"
  shows "inv (enq_all xs s) \<and> contents (enq_all xs s) =
    contents s @ take (cap - length (contents s)) (filter admissible xs)"
  using assms
proof (induction xs arbitrary: s)
  case (Cons x xs)
  show ?case
  proof (cases "admissible x \<and> length (contents s) < cap")
    case True
    then have e: "inv (snd (enq x s))" "contents (snd (enq x s)) = contents s @ [x]"
      using enq_taken Cons.prems by auto
    then have "length (contents (snd (enq x s))) \<le> cap" using True by simp
    with e have "inv (enq_all xs (snd (enq x s))) \<and> contents (enq_all xs (snd (enq x s))) =
        contents s @ [x] @ take (cap - Suc (length (contents s))) (filter admissible xs)"
      using Cons.IH [of "snd (enq x s)"] by simp
    then show ?thesis using True by (simp add: take_Cons')
  next
    case False
    then have "enq x s = (False, s)" using enq_refused Cons.prems by blast
    then show ?thesis using Cons False by auto
  qed
qed simp

lemma drain_contents:
  assumes "inv s"
  shows "fst (drain k s) = take k (contents s)" and "inv (snd (drain k s))"
    and "contents (snd (drain k s)) = drop k (contents s)"
proof -
  have "fst (drain k s) = take k (contents s) \<and> inv (snd (drain k s)) \<and>
      contents (snd (drain k s)) = drop k (contents s)"
    using assms
  proof (induction k arbitrary: s)
    case (Suc k)
    show ?case
    proof (cases "deq s")
      case None
      have "contents s = []" using deq_none [OF Suc.prems] None by blast
      then show ?thesis using Suc.prems by (simp add: None)
    next
      case (Some p)
      obtain x s' where p: "p = (x, s')" by (cases p)
      have "inv s'" "contents s = x # contents s'"
        using deq_some Suc.prems Some p by auto
      then show ?thesis using Suc.IH [of s'] Some p by (simp add: case_prod_beta)
    qed
  qed simp
  then show "fst (drain k s) = take k (contents s)" and "inv (snd (drain k s))"
    and "contents (snd (drain k s)) = drop k (contents s)" by simp_all
qed

text \<open>What was accepted comes out once, in order; nothing else does.\<close>

lemma fifo:
  assumes "inv s" and "contents s = []" and "cap \<le> k"
  shows "fst (drain k (enq_all xs s)) = take cap (filter admissible xs)"
proof -
  have e: "inv (enq_all xs s)" "contents (enq_all xs s) = take cap (filter admissible xs)"
    using enq_all_contents [of s xs] assms by simp_all
  then show ?thesis using drain_contents(1) [OF e(1), of k] assms(3) by simp
qed

end

subsection \<open>The ring\<close>

definition queue_contents :: "pdu_queue \<Rightarrow> pending_pdu list" where
  "queue_contents q = map (\<lambda>i. pending_pdus q ! ((unat (pending_head q) + i) mod PHP_BACNET_PENDING_PDU_CAPACITY))
     [0..<unat (pending_count q)]"

definition queue_wf :: "pdu_queue \<Rightarrow> bool" where
  "queue_wf q \<longleftrightarrow> length (pending_pdus q) = PHP_BACNET_PENDING_PDU_CAPACITY \<and>
     unat (pending_head q) < PHP_BACNET_PENDING_PDU_CAPACITY \<and>
     unat (pending_count q) \<le> PHP_BACNET_PENDING_PDU_CAPACITY"

definition pdu_ok :: "nat \<Rightarrow> pending_pdu \<Rightarrow> bool" where
  "pdu_ok max_pdu p \<longleftrightarrow> 0 < length (snd p) \<and> length (snd p) \<le> max_pdu"

lemma cap_pos: "0 < PHP_BACNET_PENDING_PDU_CAPACITY"
  by (simp add: PHP_BACNET_PENDING_PDU_CAPACITY_def)

lemma cap_byte: "n \<le> PHP_BACNET_PENDING_PDU_CAPACITY \<Longrightarrow> unat (of_nat n :: u8) = n"
  by (simp add: PHP_BACNET_PENDING_PDU_CAPACITY_def unsigned_of_nat take_bit_nat_eq_self)

lemma length_queue_contents [simp]: "length (queue_contents q) = unat (pending_count q)"
  by (simp add: queue_contents_def)

lemma empty_queue_wf: "queue_wf empty_queue" "queue_contents empty_queue = []"
  by (simp_all add: queue_wf_def empty_queue_def queue_contents_def cap_pos)

lemma unat_Suc_u8: "unat (c :: u8) < PHP_BACNET_PENDING_PDU_CAPACITY \<Longrightarrow> unat (c + 1) = Suc (unat c)"
  by (simp add: PHP_BACNET_PENDING_PDU_CAPACITY_def unat_word_ariths)

lemma unat_pred_u8: "(c :: u8) \<noteq> 0 \<Longrightarrow> unat (c - 1) = unat c - 1"
  by (simp add: unat_minus_one)

lemma mod_add_neq:
  assumes "i < c" "c < N"
  shows "(h + i) mod N \<noteq> (h + c) mod (N::nat)"
proof
  assume "(h + i) mod N = (h + c) mod N"
  then have "(h + c - (h + i)) mod N = 0"
    using assms by (metis mod_eq_dvd_iff_nat add_le_cancel_left less_imp_le dvd_imp_mod_0)
  then have "(c - i) mod N = 0" by simp
  then show False using assms by (simp add: mod_eq_0_iff_dvd nat_dvd_not_less)
qed

lemma queue_enq:
  assumes wf: "queue_wf q" and ok: "pdu_ok n (source, pdu)"
    and room: "unat (pending_count q) < PHP_BACNET_PENDING_PDU_CAPACITY"
  shows "fst (php_bacnet_client_queue_pdu n source pdu q)"
    and "queue_wf (snd (php_bacnet_client_queue_pdu n source pdu q))"
    and "queue_contents (snd (php_bacnet_client_queue_pdu n source pdu q)) = queue_contents q @ [(source, pdu)]"
proof -
  let ?N = PHP_BACNET_PENDING_PDU_CAPACITY
  let ?i = "(unat (pending_head q) + unat (pending_count q)) mod ?N"
  let ?q = "q\<lparr>pending_pdus := (pending_pdus q)[?i := (source, pdu)], pending_count := pending_count q + 1\<rparr>"
  have eq: "php_bacnet_client_queue_pdu n source pdu q = (True, ?q)"
    using ok room by (auto simp: php_bacnet_client_queue_pdu_def pdu_ok_def Let_def)
  have c: "unat (pending_count q + 1) = Suc (unat (pending_count q))"
    using room by (rule unat_Suc_u8)
  have i: "?i < length (pending_pdus q)" using wf cap_pos by (simp add: queue_wf_def)
  have "(pending_pdus q)[?i := (source, pdu)] ! ((unat (pending_head q) + j) mod ?N) =
      pending_pdus q ! ((unat (pending_head q) + j) mod ?N)" if "j < unat (pending_count q)" for j
    using mod_add_neq [OF that room] by (metis nth_list_update_neq)
  then have "queue_contents ?q = queue_contents q @ [(source, pdu)]"
    using i by (simp add: queue_contents_def c)
  moreover have "queue_wf ?q" using wf room c by (simp add: queue_wf_def)
  ultimately show "fst (php_bacnet_client_queue_pdu n source pdu q)"
    and "queue_wf (snd (php_bacnet_client_queue_pdu n source pdu q))"
    and "queue_contents (snd (php_bacnet_client_queue_pdu n source pdu q)) = queue_contents q @ [(source, pdu)]"
    by (simp_all add: eq)
qed

lemma queue_deq:
  assumes wf: "queue_wf q" and pop: "php_bacnet_client_pop_pdu q = Some (p, q')"
  shows "queue_wf q'" and "queue_contents q = p # queue_contents q'"
proof -
  let ?N = PHP_BACNET_PENDING_PDU_CAPACITY
  have nz: "pending_count q \<noteq> 0" and p: "p = pending_pdus q ! unat (pending_head q)"
    and q': "q' = q\<lparr>pending_head := of_nat ((unat (pending_head q) + 1) mod ?N), pending_count := pending_count q - 1\<rparr>"
    using pop by (auto simp: php_bacnet_client_pop_pdu_def split: if_splits)
  have h: "unat (of_nat (Suc (unat (pending_head q)) mod ?N) :: u8) = Suc (unat (pending_head q)) mod ?N"
    using cap_pos by (intro cap_byte) (simp add: less_imp_le)
  have c: "unat (pending_count q - 1) = unat (pending_count q) - 1" using nz by (rule unat_pred_u8)
  have pos: "0 < unat (pending_count q)" using nz by (simp add: unat_gt_0)
  have hd: "unat (pending_head q) mod ?N = unat (pending_head q)" using wf by (simp add: queue_wf_def)
  show "queue_wf q'" using wf h c cap_pos by (auto simp: queue_wf_def q')
  have shift: "(Suc (unat (pending_head q)) mod ?N + i) mod ?N = Suc (unat (pending_head q) + i) mod ?N" for i
    by (simp add: mod_add_left_eq)
  have up: "[0..<unat (pending_count q)] = 0 # map Suc [0..<unat (pending_count q) - 1]"
    using pos by (simp add: upt_conv_Cons map_Suc_upt)
  show "queue_contents q = p # queue_contents q'"
    unfolding queue_contents_def q' by (simp add: h c up p hd shift del: upt_Suc)
qed

interpretation pq: bounded_fifo queue_wf queue_contents PHP_BACNET_PENDING_PDU_CAPACITY "pdu_ok n"
  "\<lambda>(source, pdu). php_bacnet_client_queue_pdu n source pdu" php_bacnet_client_pop_pdu for n
proof unfold_locales
  fix q :: pdu_queue and x :: pending_pdu and q'
  assume wf: "queue_wf q"
  obtain source pdu where x: "x = (source, pdu)" by (cases x)
  show "fst ((case x of (source, pdu) \<Rightarrow> php_bacnet_client_queue_pdu n source pdu) q) \<and>
      queue_wf (snd ((case x of (source, pdu) \<Rightarrow> php_bacnet_client_queue_pdu n source pdu) q)) \<and>
      queue_contents (snd ((case x of (source, pdu) \<Rightarrow> php_bacnet_client_queue_pdu n source pdu) q)) =
      queue_contents q @ [x]"
    if "pdu_ok n x" "length (queue_contents q) < PHP_BACNET_PENDING_PDU_CAPACITY"
    using queue_enq [OF wf, of n source pdu] that by (simp add: x)
  show "(case x of (source, pdu) \<Rightarrow> php_bacnet_client_queue_pdu n source pdu) q = (False, q)"
    if "\<not> (pdu_ok n x \<and> length (queue_contents q) < PHP_BACNET_PENDING_PDU_CAPACITY)"
    using that by (auto simp: x php_bacnet_client_queue_pdu_def pdu_ok_def)
  show "php_bacnet_client_pop_pdu q = None \<longleftrightarrow> queue_contents q = []"
    by (auto simp: php_bacnet_client_pop_pdu_def queue_contents_def unat_eq_zero)
  show "queue_wf q' \<and> queue_contents q = x # queue_contents q'" if "php_bacnet_client_pop_pdu q = Some (x, q')"
    using queue_deq [OF wf that] by simp
qed

subsection \<open>Properties\<close>

fun queue_all :: "nat \<Rightarrow> pending_pdu list \<Rightarrow> pdu_queue \<Rightarrow> pdu_queue" where
  "queue_all n [] q = q"
| "queue_all n ((source, pdu) # ps) q = queue_all n ps (snd (php_bacnet_client_queue_pdu n source pdu q))"

fun pop_all :: "nat \<Rightarrow> pdu_queue \<Rightarrow> pending_pdu list \<times> pdu_queue" where
  "pop_all 0 q = ([], q)"
| "pop_all (Suc k) q =
     (case php_bacnet_client_pop_pdu q of
        None \<Rightarrow> ([], q)
      | Some (p, q') \<Rightarrow> (let (ps, q'') = pop_all k q' in (p # ps, q'')))"

lemma queue_all_pq: "queue_all n ps q = pq.enq_all n ps q"
  by (induction n ps q rule: queue_all.induct) (simp_all add: pq.enq_all.simps)

lemma pop_all_pq: "pop_all k q = pq.drain k q"
  by (induction k q rule: pop_all.induct) (simp_all add: pq.drain.simps split: option.splits)

text \<open>C14.
  The queue of set-aside PDUs is a bounded first-in first-out buffer.  Of any PDUs offered to an
  empty queue it keeps the first 32 that are neither empty nor too long, and hands them back
  in the order of arrival, each once.
\<close>

theorem pending_queue_fifo:
  assumes "32 \<le> k"
  shows "fst (pop_all k (queue_all max_pdu ps empty_queue))
    = take 32 (filter (\<lambda>(source, pdu). pdu \<noteq> [] \<and> length pdu \<le> max_pdu) ps)"
proof -
  have "pdu_ok max_pdu = (\<lambda>(source, pdu). pdu \<noteq> [] \<and> length pdu \<le> max_pdu)"
    by (auto simp: pdu_ok_def fun_eq_iff)
  then show ?thesis
    using pq.fifo [OF empty_queue_wf, of k max_pdu ps] assms
    unfolding queue_all_pq pop_all_pq by (simp add: PHP_BACNET_PENDING_PDU_CAPACITY_def)
qed

theorem pending_queue_fifo_witness:
  "fst (pop_all 32 (queue_all 4
     [(\<lparr>mac = [1], net = 0\<rparr>, [7]), (\<lparr>mac = [2], net = 0\<rparr>, []), (\<lparr>mac = [3], net = 0\<rparr>, [8, 9])] empty_queue))
   = [(\<lparr>mac = [1], net = 0\<rparr>, [7]), (\<lparr>mac = [3], net = 0\<rparr>, [8, 9])]"
  by (subst pending_queue_fifo) simp_all

end
