(* ===== verification/Transport.thy ===== *)
theory Transport
  imports Pending_Queue Protocol
begin

text \<open>
  The two synchronous exchanges of src/bacnet_client.c: send_and_wait, a unicast request that
  waits for the answer with its invoke id, and broadcast_and_collect, a Who-Is that gathers
  I-Am answers.  The environment of a loop is the list of its rounds: the two clock readings
  (milliseconds, uint64_t) and what bip_receive returned.  A loop that has consumed all given
  rounds without returning has the value None.  npdu is bacnet_npdu_decode, iam is
  iam_decode_service_request, handler the unsolicited handler of the client with its
  context (False when it left a PHP exception; a client without handler always gives True),
  max_apdu and max_npdu are MAX_APDU and MAX_NPDU.
\<close>

record io_round =
  io_clock :: u64
  io_clock2 :: u64
  io_source :: bacnet_address
  io_pdu :: bytes

text \<open>The APDU of a packet and the 16-bit length the code computes for it.\<close>

definition apdu_at :: "int \<Rightarrow> bytes \<Rightarrow> bytes" where
  "apdu_at nl pdu = drop (nat nl) pdu"

definition apdu_len :: "int \<Rightarrow> bytes \<Rightarrow> nat" where
  "apdu_len nl pdu = nat ((int (length pdu) - nl mod 65536) mod 65536)"

text \<open>The monotonic clock in milliseconds, from its seconds and nanoseconds.\<close>

definition php_bacnet_ms_now :: "u64 \<Rightarrow> u64 \<Rightarrow> u64" where
  "php_bacnet_ms_now tv_sec tv_nsec = tv_sec * 1000 + tv_nsec div 1000000"

text \<open>The timeout handed to bip_receive: the time left on uint64_t, cut to unsigned.\<close>

definition receive_timeout :: "u64 \<Rightarrow> io_round \<Rightarrow> u32" where
  "receive_timeout deadline r = ucast (deadline - io_clock2 r)"

subsection \<open>Waiting for an answer\<close>

datatype answer =
    Skip
  | Unsolicited
  | Answer int bytes

definition classify_answer :: "(bytes \<Rightarrow> int \<times> bool) \<Rightarrow> nat \<Rightarrow> u8 \<Rightarrow> bytes \<Rightarrow> answer" where
  "classify_answer npdu max_apdu invoke pdu =
    (let (nl, network_layer_message) = npdu pdu
     in if nl < 0 then Skip
        else if network_layer_message then Skip
        else
          let apdu = apdu_at nl pdu; al = apdu_len nl pdu
          in if al < 3 then Unsolicited
             else
               let pdu_type = apdu ! 0 AND 0xF0;
                   out = take (if al > max_apdu then max_apdu else al) apdu
               in if pdu_type = PDU_TYPE_SIMPLE_ACK then
                    (if apdu ! 1 \<noteq> invoke then Unsolicited else Answer 0 out)
                  else if pdu_type = PDU_TYPE_COMPLEX_ACK then
                    (if apdu ! 1 \<noteq> invoke then Unsolicited else Answer 0 out)
                  else if pdu_type = PDU_TYPE_ERROR \<or> pdu_type = PDU_TYPE_REJECT \<or> pdu_type = PDU_TYPE_ABORT then
                    (if apdu ! 1 \<noteq> invoke then Unsolicited else Answer (uint pdu_type) out)
                  else Unsolicited)"

text \<open>The result: the return code, the answer, and the context of the handler.\<close>

type_synonym 'w handler = "'w \<Rightarrow> bacnet_address \<Rightarrow> bytes \<Rightarrow> bool \<times> 'w"

text \<open>
  The handler of the loops below is php_bacnet_dispatch_unsolicited of the handler the client
  has, if any: without one a packet is dropped.
\<close>

definition php_bacnet_dispatch_unsolicited :: "'w handler option \<Rightarrow> 'w handler" where
  "php_bacnet_dispatch_unsolicited h w source pdu = (case h of None \<Rightarrow> (True, w) | Some f \<Rightarrow> f w source pdu)"

fun wait_loop ::
    "(bytes \<Rightarrow> int \<times> bool) \<Rightarrow> nat \<Rightarrow> 'w handler \<Rightarrow> u8 \<Rightarrow> u64 \<Rightarrow> 'w \<Rightarrow> io_round list \<Rightarrow> (int \<times> bytes \<times> 'w) option"
  where
  "wait_loop npdu max_apdu handler invoke deadline w [] = None"
| "wait_loop npdu max_apdu handler invoke deadline w (r # rs) =
     (if \<not> io_clock r < deadline then Some (-1, [], w)
      else if deadline - io_clock2 r = 0 then Some (-1, [], w)
      else if io_pdu r = [] then Some (-1, [], w)
      else (case classify_answer npdu max_apdu invoke (io_pdu r) of
              Skip \<Rightarrow> wait_loop npdu max_apdu handler invoke deadline w rs
            | Unsolicited \<Rightarrow>
                (let (ok, w') = handler w (io_source r) (io_pdu r)
                 in if \<not> ok then Some (-2, [], w')
                    else wait_loop npdu max_apdu handler invoke deadline w' rs)
            | Answer rc out \<Rightarrow> Some (rc, out, w)))"

text \<open>
  The whole function: header is the encoded network header (None for an encoding error), the
  first component of the result the PDU sent, clock0 the reading the deadline is computed
  from.
\<close>

definition php_bacnet_send_and_wait ::
    "(bytes \<Rightarrow> int \<times> bool) \<Rightarrow> nat \<Rightarrow> nat \<Rightarrow> 'w handler \<Rightarrow> bool \<Rightarrow> bytes option \<Rightarrow> bytes \<Rightarrow> u8 \<Rightarrow> u32 \<Rightarrow>
     u64 \<Rightarrow> 'w \<Rightarrow> io_round list \<Rightarrow> (bytes option \<times> int \<times> bytes \<times> 'w) option" where
  "php_bacnet_send_and_wait npdu max_apdu max_npdu handler initialized header request invoke timeout_ms
     clock0 w rounds =
    (if \<not> initialized then Some (None, -1, [], w)
     else case header of
            None \<Rightarrow> Some (None, -1, [], w)
          | Some h \<Rightarrow>
              if length h + length request > max_apdu + max_npdu then Some (None, -1, [], w)
              else map_option (\<lambda>res. (Some (h @ request), res))
                     (wait_loop npdu max_apdu handler invoke (clock0 + ucast timeout_ms) w rounds))"

subsection \<open>Collecting I-Am answers\<close>

definition PHP_BACNET_MAX_COLLECTED_DEVICES :: nat where
  "PHP_BACNET_MAX_COLLECTED_DEVICES = 64"

record iam_entry =
  e_address :: bacnet_address
  e_device_id :: u32
  e_max_apdu :: u16
  e_vendor_id :: u16

datatype collected =
    CSkip
  | CUnsolicited
  | CIam iam_entry

text \<open>local is the own device id when ignore_device_id is set.\<close>

definition classify_iam ::
    "(bytes \<Rightarrow> int \<times> bool) \<Rightarrow> (bytes \<Rightarrow> (u32 \<times> u32 \<times> u16) option) \<Rightarrow> u32 option \<Rightarrow> bacnet_address \<Rightarrow> bytes \<Rightarrow> collected"
  where
  "classify_iam npdu iam local src pdu =
    (let (nl, network_layer_message) = npdu pdu
     in if nl < 0 then CSkip
        else if network_layer_message then CSkip
        else
          let apdu = apdu_at nl pdu; al = apdu_len nl pdu
          in if al < 2 then CSkip
             else if apdu ! 0 AND 0xF0 \<noteq> PDU_TYPE_UNCONFIRMED_SERVICE_REQUEST then CUnsolicited
             else if apdu ! 1 \<noteq> SERVICE_UNCONFIRMED_I_AM then CUnsolicited
             else (case iam (drop 2 apdu) of
                     None \<Rightarrow> CSkip
                   | Some (device_id, max_apdu, vendor_id) \<Rightarrow>
                       if local = Some device_id then CSkip
                       else CIam \<lparr>e_address = src, e_device_id = device_id,
                                  e_max_apdu = ucast max_apdu, e_vendor_id = vendor_id\<rparr>))"

definition add_entry :: "iam_entry \<Rightarrow> iam_entry list \<Rightarrow> iam_entry list" where
  "add_entry e es = (if list_ex (\<lambda>x. e_device_id x = e_device_id e) es then es else es @ [e])"

fun collect_loop ::
    "(bytes \<Rightarrow> int \<times> bool) \<Rightarrow> (bytes \<Rightarrow> (u32 \<times> u32 \<times> u16) option) \<Rightarrow> 'w handler \<Rightarrow> u32 option \<Rightarrow> u64 \<Rightarrow>
     iam_entry list \<Rightarrow> 'w \<Rightarrow> io_round list \<Rightarrow> (bool \<times> iam_entry list \<times> 'w) option" where
  "collect_loop npdu iam handler local deadline es w [] = None"
| "collect_loop npdu iam handler local deadline es w (r # rs) =
     (if \<not> (io_clock r < deadline \<and> length es < PHP_BACNET_MAX_COLLECTED_DEVICES) then Some (True, es, w)
      else if deadline - io_clock2 r = 0 then Some (True, es, w)
      else if io_pdu r = [] then Some (True, es, w)
      else (case classify_iam npdu iam local (io_source r) (io_pdu r) of
              CSkip \<Rightarrow> collect_loop npdu iam handler local deadline es w rs
            | CUnsolicited \<Rightarrow>
                (let (ok, w') = handler w (io_source r) (io_pdu r)
                 in if \<not> ok then Some (False, es, w')
                    else collect_loop npdu iam handler local deadline es w' rs)
            | CIam e \<Rightarrow> collect_loop npdu iam handler local deadline (add_entry e es) w rs))"

text \<open>
  The result: the PDU broadcast, the return value (-1 after an exception, otherwise the number
  of entries), the entries, the context.
\<close>

definition php_bacnet_broadcast_and_collect ::
    "(bytes \<Rightarrow> int \<times> bool) \<Rightarrow> (bytes \<Rightarrow> (u32 \<times> u32 \<times> u16) option) \<Rightarrow> nat \<Rightarrow> nat \<Rightarrow> 'w handler \<Rightarrow> bool \<Rightarrow>
     u32 option \<Rightarrow> bytes option \<Rightarrow> bytes \<Rightarrow> u32 \<Rightarrow> u64 \<Rightarrow> 'w \<Rightarrow> io_round list \<Rightarrow>
     (bytes option \<times> int \<times> iam_entry list \<times> 'w) option" where
  "php_bacnet_broadcast_and_collect npdu iam max_apdu max_npdu handler initialized local header request
     timeout_ms clock0 w rounds =
    (if \<not> initialized then Some (None, 0, [], w)
     else case header of
            None \<Rightarrow> Some (None, 0, [], w)
          | Some h \<Rightarrow>
              if length h + length request > max_apdu + max_npdu then Some (None, 0, [], w)
              else map_option (\<lambda>(ok, es, w'). (Some (h @ request), if ok then int (length es) else -1, es, w'))
                     (collect_loop npdu iam handler local (clock0 + ucast timeout_ms) [] w rounds))"

subsection \<open>The rounds of a wait\<close>

text \<open>A round that does not end the loop by its clock or an empty receive.\<close>

definition live :: "u64 \<Rightarrow> io_round \<Rightarrow> bool" where
  "live deadline r \<longleftrightarrow> io_clock r < deadline \<and> io_clock2 r \<noteq> deadline \<and> io_pdu r \<noteq> []"

text \<open>The unsolicited packets handed to the handler, in order; None after an exception.\<close>

fun dispatch_all :: "'w handler \<Rightarrow> 'w \<Rightarrow> (bacnet_address \<times> bytes) list \<Rightarrow> bool \<times> 'w" where
  "dispatch_all handler w [] = (True, w)"
| "dispatch_all handler w ((src, pdu) # ps) =
     (let (ok, w') = handler w src pdu in if ok then dispatch_all handler w' ps else (False, w'))"

definition unsolicited_of ::
    "(bytes \<Rightarrow> answer) \<Rightarrow> io_round list \<Rightarrow> (bacnet_address \<times> bytes) list" where
  "unsolicited_of cl rs = map (\<lambda>r. (io_source r, io_pdu r)) (filter (\<lambda>r. cl (io_pdu r) = Unsolicited) rs)"

text \<open>How a wait can end.\<close>

definition wait_outcome ::
    "(bytes \<Rightarrow> answer) \<Rightarrow> 'w handler \<Rightarrow> u64 \<Rightarrow> 'w \<Rightarrow> io_round list \<Rightarrow> io_round \<Rightarrow> int \<Rightarrow> bytes \<Rightarrow> 'w \<Rightarrow> bool"
  where
  "wait_outcome cl handler deadline w seen r rc out w' \<longleftrightarrow>
     list_all (\<lambda>x. live deadline x \<and> (\<forall>c a. cl (io_pdu x) \<noteq> Answer c a)) seen \<and>
     ((\<not> live deadline r \<and> rc = -1 \<and> out = [] \<and> dispatch_all handler w (unsolicited_of cl seen) = (True, w')) \<or>
      (live deadline r \<and> cl (io_pdu r) = Answer rc out \<and>
         dispatch_all handler w (unsolicited_of cl seen) = (True, w')) \<or>
      (live deadline r \<and> cl (io_pdu r) = Unsolicited \<and> rc = -2 \<and> out = [] \<and>
         dispatch_all handler w (unsolicited_of cl (seen @ [r])) = (False, w')))"

lemma deadline_zero: "(d::u64) - c = 0 \<longleftrightarrow> c = d"
  by auto

lemma wait_loop_outcome:
  assumes "wait_loop npdu max_apdu handler invoke deadline w rounds = Some (rc, out, w')"
  shows "\<exists>seen r rest. rounds = seen @ r # rest \<and>
    wait_outcome (classify_answer npdu max_apdu invoke) handler deadline w seen r rc out w'"
  using assms
proof (induction npdu max_apdu handler invoke deadline w rounds rule: wait_loop.induct)
  case (2 npdu max_apdu handler invoke deadline w r rs)
  let ?cl = "classify_answer npdu max_apdu invoke"
  show ?case
  proof (cases "live deadline r")
    case False
    then have "rc = -1" "out = []" "w' = w"
      using "2.prems" by (auto simp: live_def deadline_zero split: if_splits)
    then have "wait_outcome ?cl handler deadline w [] r rc out w'"
      using False by (simp add: wait_outcome_def unsolicited_of_def)
    then show ?thesis by (intro exI [of _ "[]"]) auto
  next
    case l: True
    then have c: "io_clock r < deadline" "deadline - io_clock2 r \<noteq> 0" "io_pdu r \<noteq> []"
      by (auto simp: live_def deadline_zero)
    show ?thesis
    proof (cases "?cl (io_pdu r)")
      case Skip
      then have "wait_loop npdu max_apdu handler invoke deadline w rs = Some (rc, out, w')"
        using "2.prems" c by simp
      from "2.IH"(1) [OF _ _ _ Skip this] c obtain seen r' rest where
        "rs = seen @ r' # rest" "wait_outcome ?cl handler deadline w seen r' rc out w'" by auto
      then have "r # rs = (r # seen) @ r' # rest" "wait_outcome ?cl handler deadline w (r # seen) r' rc out w'"
        using l Skip by (auto simp: wait_outcome_def unsolicited_of_def)
      then show ?thesis by blast
    next
      case Unsolicited
      obtain ok w1 where h: "handler w (io_source r) (io_pdu r) = (ok, w1)"
        by (cases "handler w (io_source r) (io_pdu r)")
      show ?thesis
      proof (cases ok)
        case True
        then have wl: "wait_loop npdu max_apdu handler invoke deadline w1 rs = Some (rc, out, w')"
          using "2.prems" c Unsolicited h by simp
        have "\<exists>seen r' rest. rs = seen @ r' # rest \<and> wait_outcome ?cl handler deadline w1 seen r' rc out w'"
          using "2.IH"(2) [OF _ _ _ Unsolicited h [symmetric] refl] c True wl by simp
        then obtain seen r' rest where
          s: "rs = seen @ r' # rest" "wait_outcome ?cl handler deadline w1 seen r' rc out w'" by blast
        then have "wait_outcome ?cl handler deadline w (r # seen) r' rc out w'"
          using l Unsolicited h True by (auto simp: wait_outcome_def unsolicited_of_def)
        moreover have "r # rs = (r # seen) @ r' # rest" using s by simp
        ultimately show ?thesis by blast
      next
        case False
        then have "rc = -2" "out = []" "w' = w1" using "2.prems" c Unsolicited h by simp_all
        then have "wait_outcome ?cl handler deadline w [] r rc out w'"
          using l Unsolicited h False by (simp add: wait_outcome_def unsolicited_of_def)
        then show ?thesis by (intro exI [of _ "[]"]) auto
      qed
    next
      case (Answer rc' out')
      then have "rc = rc'" "out = out'" "w' = w" using "2.prems" c by simp_all
      then have "wait_outcome ?cl handler deadline w [] r rc out w'"
        using l Answer by (simp add: wait_outcome_def unsolicited_of_def)
      then show ?thesis by (intro exI [of _ "[]"]) auto
    qed
  qed
qed simp

lemma wait_loop_returns:
  assumes "\<exists>r \<in> set rounds. \<not> io_clock r < deadline"
  shows "wait_loop npdu max_apdu handler invoke deadline w rounds \<noteq> None"
  using assms
  by (induction npdu max_apdu handler invoke deadline w rounds rule: wait_loop.induct)
     (auto split: answer.splits prod.splits)

text \<open>What an answer is.\<close>

lemma classify_Answer:
  assumes "classify_answer npdu max_apdu invoke pdu = Answer rc out"
    and nl: "fst (npdu pdu) \<le> int (length pdu)" and len: "length pdu < 65536" and "3 \<le> max_apdu"
  shows "3 \<le> length out" and "length out \<le> max_apdu" and "out ! 1 = invoke"
    and "\<exists>h. 0 \<le> fst (npdu pdu) \<and> h = drop (nat (fst (npdu pdu))) pdu \<and> out = take max_apdu h"
    and "rc = (if out ! 0 AND 0xF0 = PDU_TYPE_SIMPLE_ACK \<or> out ! 0 AND 0xF0 = PDU_TYPE_COMPLEX_ACK
               then 0 else uint (out ! 0 AND 0xF0))"
    and "out ! 0 AND 0xF0 \<in> {PDU_TYPE_SIMPLE_ACK, PDU_TYPE_COMPLEX_ACK, PDU_TYPE_ERROR, PDU_TYPE_REJECT, PDU_TYPE_ABORT}"
proof -
  obtain n net where np: "npdu pdu = (n, net)" by (cases "npdu pdu")
  have n0: "0 \<le> n" "\<not> net" using assms(1) np by (auto simp: classify_answer_def split: if_splits)
  let ?a = "apdu_at n pdu"
  have al: "apdu_len n pdu = length ?a"
    using n0 nl np len by (simp add: apdu_len_def apdu_at_def)
  let ?t = "?a ! 0 AND 0xF0"
  have c: "\<not> apdu_len n pdu < 3" "?a ! 1 = invoke"
    "out = take (if apdu_len n pdu > max_apdu then max_apdu else apdu_len n pdu) ?a"
    "?t \<in> {PDU_TYPE_SIMPLE_ACK, PDU_TYPE_COMPLEX_ACK, PDU_TYPE_ERROR, PDU_TYPE_REJECT, PDU_TYPE_ABORT}"
    "rc = (if ?t = PDU_TYPE_SIMPLE_ACK \<or> ?t = PDU_TYPE_COMPLEX_ACK then 0 else uint ?t)"
    using assms(1) np n0
    by (auto simp: classify_answer_def Let_def pdu_defs split: if_splits)
  have out: "out = take max_apdu ?a" using c(3) al by auto
  have l3: "3 \<le> length ?a" using c(1) al by simp
  show "3 \<le> length out" "length out \<le> max_apdu" using out l3 assms(4) by auto
  have i: "out ! 0 = ?a ! 0" "out ! 1 = ?a ! 1" using out l3 assms(4) by simp_all
  show "out ! 1 = invoke" using i c by simp
  show "\<exists>h. 0 \<le> fst (npdu pdu) \<and> h = drop (nat (fst (npdu pdu))) pdu \<and> out = take max_apdu h"
    using out np n0 by (simp add: apdu_at_def)
  show "rc = (if out ! 0 AND 0xF0 = PDU_TYPE_SIMPLE_ACK \<or> out ! 0 AND 0xF0 = PDU_TYPE_COMPLEX_ACK
               then 0 else uint (out ! 0 AND 0xF0))"
    "out ! 0 AND 0xF0 \<in> {PDU_TYPE_SIMPLE_ACK, PDU_TYPE_COMPLEX_ACK, PDU_TYPE_ERROR, PDU_TYPE_REJECT, PDU_TYPE_ABORT}"
    using c i by simp_all
qed

subsection \<open>Collected devices\<close>

definition device_ids :: "iam_entry list \<Rightarrow> u32 list" where
  "device_ids es = map e_device_id es"

lemma add_entry_props:
  assumes "distinct (device_ids es)"
  shows "distinct (device_ids (add_entry e es))"
    and "set (device_ids (add_entry e es)) = insert (e_device_id e) (set (device_ids es))"
    and "set (add_entry e es) \<subseteq> insert e (set es)" and "length (add_entry e es) \<le> Suc (length es)"
  using assms by (auto simp: add_entry_def device_ids_def list_ex_iff intro: rev_image_eqI [OF _ sym])

text \<open>The I-Am entries of some rounds, and what the entries collected from them are.\<close>

definition iams_of :: "(bacnet_address \<Rightarrow> bytes \<Rightarrow> collected) \<Rightarrow> io_round list \<Rightarrow> iam_entry list" where
  "iams_of cl rs = concat (map (\<lambda>r. case cl (io_source r) (io_pdu r) of CIam e \<Rightarrow> [e] | _ \<Rightarrow> []) rs)"

lemma iams_of_Cons:
  "iams_of cl (r # rs) = (case cl (io_source r) (io_pdu r) of CIam e \<Rightarrow> e # iams_of cl rs | _ \<Rightarrow> iams_of cl rs)"
  by (simp add: iams_of_def split: collected.splits)

lemma collect_loop_entries:
  assumes "collect_loop npdu iam handler local deadline es w rounds = Some (ok, es', w')"
    and "distinct (device_ids es)" and "length es \<le> PHP_BACNET_MAX_COLLECTED_DEVICES"
  shows "\<exists>k \<le> length rounds. (\<forall>i < k. live deadline (rounds ! i))
    \<and> es' = foldl (\<lambda>es e. add_entry e es) es (iams_of (classify_iam npdu iam local) (take k rounds))
    \<and> (ok \<longrightarrow> k < length rounds \<and>
         (\<not> (live deadline (rounds ! k)) \<or> length es' = PHP_BACNET_MAX_COLLECTED_DEVICES))
    \<and> length es' \<le> PHP_BACNET_MAX_COLLECTED_DEVICES \<and> distinct (device_ids es')"
  using assms
proof (induction npdu iam handler local deadline es w rounds rule: collect_loop.induct)
  case (2 npdu iam handler local deadline es w r rs)
  let ?cl = "classify_iam npdu iam local"
  let ?goal = "\<lambda>es rounds. \<exists>k \<le> length rounds. (\<forall>i < k. live deadline (rounds ! i))
    \<and> es' = foldl (\<lambda>es e. add_entry e es) es (iams_of ?cl (take k rounds))
    \<and> (ok \<longrightarrow> k < length rounds \<and>
         (\<not> (live deadline (rounds ! k)) \<or> length es' = PHP_BACNET_MAX_COLLECTED_DEVICES))
    \<and> length es' \<le> PHP_BACNET_MAX_COLLECTED_DEVICES \<and> distinct (device_ids es')"
  show ?case
  proof (cases "live deadline r \<and> length es < PHP_BACNET_MAX_COLLECTED_DEVICES")
    case False
    then have "ok" "es' = es" and stop: "\<not> live deadline r \<or> length es = PHP_BACNET_MAX_COLLECTED_DEVICES"
      using "2.prems" by (auto simp: live_def deadline_zero split: if_splits)
    then show ?thesis using "2.prems" by (intro exI [of _ 0]) (simp add: iams_of_def)
  next
    case l: True
    then have c: "io_clock r < deadline \<and> length es < PHP_BACNET_MAX_COLLECTED_DEVICES"
      "deadline - io_clock2 r \<noteq> 0" "io_pdu r \<noteq> []"
      by (auto simp: live_def deadline_zero)
    have shift: "?goal es (r # rs)" if "?goal es1 rs"
      and "foldl (\<lambda>es e. add_entry e es) es (iams_of ?cl [r]) = es1" for es1
    proof -
      from that(1) obtain k where k: "k \<le> length rs" "\<forall>i < k. live deadline (rs ! i)"
        "es' = foldl (\<lambda>es e. add_entry e es) es1 (iams_of ?cl (take k rs))"
        "ok \<longrightarrow> k < length rs \<and> (\<not> live deadline (rs ! k) \<or> length es' = PHP_BACNET_MAX_COLLECTED_DEVICES)"
        "length es' \<le> PHP_BACNET_MAX_COLLECTED_DEVICES" "distinct (device_ids es')" by blast
      have "iams_of ?cl (take (Suc k) (r # rs)) = iams_of ?cl [r] @ iams_of ?cl (take k rs)"
        by (simp add: iams_of_def)
      moreover have "\<forall>i < Suc k. live deadline ((r # rs) ! i)"
        using k(2) l by (auto simp: nth_Cons split: nat.splits)
      ultimately show ?thesis using k that(2) by (intro exI [of _ "Suc k"]) auto
    qed
    show ?thesis
    proof (cases "?cl (io_source r) (io_pdu r)")
      case CSkip
      then have "collect_loop npdu iam handler local deadline es w rs = Some (ok, es', w')"
        using "2.prems" c by simp
      from "2.IH"(1) [OF _ c(2,3) CSkip this] c "2.prems"(2,3) have "?goal es rs" by simp
      then show ?thesis by (rule shift) (simp add: iams_of_def CSkip)
    next
      case CUnsolicited
      obtain g w1 where h: "handler w (io_source r) (io_pdu r) = (g, w1)"
        by (cases "handler w (io_source r) (io_pdu r)")
      show ?thesis
      proof (cases g)
        case True
        then have "collect_loop npdu iam handler local deadline es w1 rs = Some (ok, es', w')"
          using "2.prems" c CUnsolicited h by simp
        then have "?goal es rs"
          using "2.IH"(2) [OF _ c(2,3) CUnsolicited h [symmetric] refl] c True "2.prems"(2,3) by simp
        then show ?thesis by (rule shift) (simp add: iams_of_def CUnsolicited)
      next
        case False
        then have "\<not> ok" "es' = es" using "2.prems" c CUnsolicited h by simp_all
        then show ?thesis using "2.prems" by (intro exI [of _ 0]) (simp add: iams_of_def)
      qed
    next
      case (CIam e)
      then have "collect_loop npdu iam handler local deadline (add_entry e es) w rs = Some (ok, es', w')"
        using "2.prems" c by simp
      moreover have "length (add_entry e es) \<le> PHP_BACNET_MAX_COLLECTED_DEVICES"
        using add_entry_props(4) [OF "2.prems"(2), of e] c by simp
      ultimately have "?goal (add_entry e es) rs"
        using "2.IH"(3) [OF _ c(2,3) CIam] c add_entry_props(1) [OF "2.prems"(2), of e] by simp
      then show ?thesis by (rule shift) (simp add: iams_of_def CIam)
    qed
  qed
qed simp

lemma fold_add_entry:
  assumes "distinct (device_ids es)"
  shows "set (device_ids (foldl (\<lambda>es e. add_entry e es) es new)) = set (device_ids es) \<union> set (device_ids new)"
    and "set (foldl (\<lambda>es e. add_entry e es) es new) \<subseteq> set es \<union> set new"
proof -
  have "set (device_ids (foldl (\<lambda>es e. add_entry e es) es new)) = set (device_ids es) \<union> set (device_ids new) \<and>
      set (foldl (\<lambda>es e. add_entry e es) es new) \<subseteq> set es \<union> set new"
    using assms
  proof (induction new arbitrary: es)
    case (Cons e new)
    note a = add_entry_props [OF Cons.prems, of e]
    show ?case using Cons.IH [OF a(1)] a(2,3) by (auto simp: device_ids_def)
  qed (simp add: device_ids_def)
  then show "set (device_ids (foldl (\<lambda>es e. add_entry e es) es new)) = set (device_ids es) \<union> set (device_ids new)"
    and "set (foldl (\<lambda>es e. add_entry e es) es new) \<subseteq> set es \<union> set new" by simp_all
qed

text \<open>
  The reference for a collection: of a list of entries the first of each device, in order.
\<close>

fun first_answers :: "iam_entry list \<Rightarrow> iam_entry list" where
  "first_answers [] = []"
| "first_answers (e # es) = e # filter (\<lambda>x. e_device_id x \<noteq> e_device_id e) (first_answers es)"

lemma first_answers_filter:
  "filter (\<lambda>x. e_device_id x \<noteq> d) (first_answers es) = first_answers (filter (\<lambda>x. e_device_id x \<noteq> d) es)"
proof (induction es)
  case (Cons e es)
  have "filter (\<lambda>x. e_device_id x \<noteq> d \<and> e_device_id x \<noteq> e_device_id e) (first_answers es) =
      filter (\<lambda>x. e_device_id x \<noteq> e_device_id e) (filter (\<lambda>x. e_device_id x \<noteq> d) (first_answers es))"
    by (simp add: conj_commute)
  with Cons.IH show ?case by (auto simp: conj_commute)
qed simp

lemma fold_add_entry_first:
  "foldl (\<lambda>es e. add_entry e es) es new =
     es @ first_answers (filter (\<lambda>x. e_device_id x \<notin> set (device_ids es)) new)"
proof (induction new arbitrary: es)
  case (Cons e new)
  show ?case
  proof (cases "e_device_id e \<in> set (device_ids es)")
    case True
    then have "add_entry e es = es" by (auto simp: add_entry_def device_ids_def list_ex_iff)
    then show ?thesis using Cons.IH True by simp
  next
    case False
    then have "\<not> list_ex (\<lambda>x. e_device_id x = e_device_id e) es"
      by (auto simp: device_ids_def list_ex_iff intro: rev_image_eqI [OF _ sym])
    then have a: "add_entry e es = es @ [e]" by (simp add: add_entry_def)
    have "filter (\<lambda>x. e_device_id x \<notin> set (device_ids (es @ [e]))) new =
        filter (\<lambda>x. e_device_id x \<noteq> e_device_id e) (filter (\<lambda>x. e_device_id x \<notin> set (device_ids es)) new)"
      by (auto simp: device_ids_def intro: filter_cong)
    then show ?thesis using Cons.IH [of "es @ [e]"] False a by (simp add: first_answers_filter)
  qed
qed simp

lemma first_answers_first:
  assumes "e \<in> set (first_answers es)"
  shows "\<exists>i < length es. es ! i = e \<and> (\<forall>j < i. e_device_id (es ! j) \<noteq> e_device_id e)"
  using assms
proof (induction es)
  case (Cons x es)
  show ?case
  proof (cases "e = x")
    case True
    then show ?thesis by (intro exI [of _ 0]) simp
  next
    case False
    with Cons obtain i where i: "i < length es" "es ! i = e" "\<forall>j < i. e_device_id (es ! j) \<noteq> e_device_id e"
      "e_device_id x \<noteq> e_device_id e" by force
    then show ?thesis by (intro exI [of _ "Suc i"]) (auto simp: nth_Cons split: nat.splits)
  qed
qed simp

text \<open>The first I-Am of a device among the I-Ams of some rounds is in the first round with one.\<close>

lemma first_iam_round:
  assumes "e \<in> set (first_answers (iams_of cl rs))"
  shows "\<exists>i < length rs. cl (io_source (rs ! i)) (io_pdu (rs ! i)) = CIam e \<and>
    (\<forall>j < i. \<forall>e'. cl (io_source (rs ! j)) (io_pdu (rs ! j)) = CIam e' \<longrightarrow> e_device_id e' \<noteq> e_device_id e)"
  using assms
proof (induction rs)
  case (Cons r rs)
  have later: ?case
    if rest: "e \<in> set (first_answers (iams_of cl rs))"
      and new: "\<forall>e'. cl (io_source r) (io_pdu r) = CIam e' \<longrightarrow> e_device_id e' \<noteq> e_device_id e"
  proof -
    obtain i where "i < length rs" "cl (io_source (rs ! i)) (io_pdu (rs ! i)) = CIam e"
      "\<forall>j < i. \<forall>e'. cl (io_source (rs ! j)) (io_pdu (rs ! j)) = CIam e' \<longrightarrow> e_device_id e' \<noteq> e_device_id e"
      using Cons.IH [OF rest] by blast
    with new show ?thesis by (intro exI [of _ "Suc i"]) (auto simp: nth_Cons split: nat.splits)
  qed
  show ?case
  proof (cases "cl (io_source r) (io_pdu r) = CIam e")
    case True
    then show ?thesis by (intro exI [of _ 0]) simp
  next
    case False
    with Cons.prems show ?thesis
      by (intro later) (auto simp: iams_of_Cons split: collected.splits)
  qed
qed (simp add: iams_of_def)

lemma collect_loop_returns:
  assumes "\<exists>r \<in> set rounds. \<not> io_clock r < deadline"
  shows "collect_loop npdu iam handler local deadline es w rounds \<noteq> None"
  using assms
  by (induction npdu iam handler local deadline es w rounds rule: collect_loop.induct)
     (auto split: collected.splits prod.splits)

lemma classify_iam_local: "classify_iam npdu iam local src pdu = CIam e \<Longrightarrow> local \<noteq> Some (e_device_id e) \<and> e_address e = src"
  by (auto simp: classify_iam_def Let_def split: prod.splits if_splits option.splits)

subsection \<open>Properties\<close>

text \<open>C24.
  A completed wait is explained by the rounds it saw.  All rounds before the last one were live
  and held no answer to the request, and every packet among them that was not for the request
  went to the unsolicited handler, in order.  Then the deadline passed or nothing came
  (timeout), or the last round held the answer that is returned, or the handler raised an
  exception on the last packet.
\<close>

theorem wait_explained:
  assumes "php_bacnet_send_and_wait npdu max_apdu max_npdu handler True (Some h) request invoke
     timeout_ms clock0 w rounds = Some (sent, rc, out, w')"
    and "length h + length request \<le> max_apdu + max_npdu"
  shows "sent = Some (h @ request) \<and>
    (\<exists>seen r rest. rounds = seen @ r # rest \<and>
       wait_outcome (classify_answer npdu max_apdu invoke) handler (clock0 + ucast timeout_ms) w seen r rc out w')"
  using assms wait_loop_outcome [of npdu max_apdu handler invoke "clock0 + ucast timeout_ms" w rounds rc out w']
  by (auto simp: php_bacnet_send_and_wait_def)

definition demo_handler :: "nat handler" where
  "demo_handler w src pdu = (True, Suc w)"

definition demo_rounds :: "io_round list" where
  "demo_rounds =
    [\<lparr>io_clock = 10, io_clock2 = 10, io_source = \<lparr>mac = [], net = 0\<rparr>, io_pdu = [1, 0, 0x30, 8, 12, 5]\<rparr>,
     \<lparr>io_clock = 12, io_clock2 = 13, io_source = \<lparr>mac = [], net = 0\<rparr>, io_pdu = [1, 0, 0x30, 7, 12, 6]\<rparr>]"

lemma demo_wait:
  "php_bacnet_send_and_wait (\<lambda>pdu. (2, False)) 480 20 demo_handler True (Some [1, 4]) [0, 5, 7, 12] 7
     100 9 0 demo_rounds = Some (Some [1, 4, 0, 5, 7, 12], 0, [0x30, 7, 12, 6], 1)"
  by (simp add: php_bacnet_send_and_wait_def demo_rounds_def classify_answer_def apdu_len_def apdu_at_def
      pdu_defs demo_handler_def)

theorem wait_explained_witness:
  "\<exists>seen r rest. demo_rounds = seen @ r # rest \<and>
     wait_outcome (classify_answer (\<lambda>pdu. (2, False)) 480 7) demo_handler 109 0 seen r 0 [0x30, 7, 12, 6] 1"
  using wait_explained [OF demo_wait] by simp

text \<open>C13.
  An answer is never taken from another request: whenever a wait returns a code of at least 0,
  the returned bytes start an APDU of one of the received packets, carry the invoke id asked
  for, and the code tells its type: 0 for an acknowledgement, the PDU type for an error,
  reject or abort.
\<close>

theorem answer_matches_request:
  assumes "php_bacnet_send_and_wait npdu max_apdu max_npdu handler True (Some h) request invoke
     timeout_ms clock0 w rounds = Some (sent, rc, out, w')"
    and "length h + length request \<le> max_apdu + max_npdu" and "3 \<le> max_apdu" and "0 \<le> rc"
    and "\<forall>r \<in> set rounds. fst (npdu (io_pdu r)) \<le> int (length (io_pdu r)) \<and> length (io_pdu r) < 65536"
  shows "3 \<le> length out \<and> length out \<le> max_apdu \<and> out ! 1 = invoke \<and>
    rc = (if out ! 0 AND 0xF0 = PDU_TYPE_SIMPLE_ACK \<or> out ! 0 AND 0xF0 = PDU_TYPE_COMPLEX_ACK
          then 0 else uint (out ! 0 AND 0xF0)) \<and>
    (\<exists>r \<in> set rounds. out = take max_apdu (drop (nat (fst (npdu (io_pdu r)))) (io_pdu r)))"
proof -
  have "wait_loop npdu max_apdu handler invoke (clock0 + ucast timeout_ms) w rounds = Some (rc, out, w')"
    using assms(1,2) by (auto simp: php_bacnet_send_and_wait_def)
  from wait_loop_outcome [OF this] assms(4) obtain seen r rest where
    r: "rounds = seen @ r # rest" "classify_answer npdu max_apdu invoke (io_pdu r) = Answer rc out"
    by (auto simp: wait_outcome_def)
  then have m: "r \<in> set rounds" by simp
  then have "fst (npdu (io_pdu r)) \<le> int (length (io_pdu r))" "length (io_pdu r) < 65536"
    using assms(5) by blast+
  note c = classify_Answer [OF r(2) this assms(3)]
  show ?thesis using c(1-5) m by blast
qed

theorem answer_matches_request_witness:
  "(0x30 :: u8) AND 0xF0 = PDU_TYPE_COMPLEX_ACK \<and>
   (\<exists>r \<in> set demo_rounds. [0x30, 7, 12, 6] = take 480 (drop 2 (io_pdu r)))"
  using answer_matches_request [OF demo_wait]
  by (simp add: demo_rounds_def pdu_defs split: if_splits)

text \<open>C25.
  Both exchanges return.  If the clock of one of the rounds has reached the deadline, the wait
  for an answer and the collection of I-Am answers end, whatever is received.
\<close>

theorem exchange_returns:
  assumes "\<exists>r \<in> set rounds. \<not> io_clock r < clock0 + ucast timeout_ms"
  shows "php_bacnet_send_and_wait npdu max_apdu max_npdu handler init header request invoke timeout_ms
      clock0 w rounds \<noteq> None \<and>
    php_bacnet_broadcast_and_collect npdu iam max_apdu max_npdu handler init local header request timeout_ms
      clock0 w rounds \<noteq> None"
proof -
  obtain a where a: "wait_loop npdu max_apdu handler invoke (clock0 + ucast timeout_ms) w rounds = Some a"
    using wait_loop_returns [OF assms, of npdu max_apdu handler invoke w] by auto
  obtain b where b: "collect_loop npdu iam handler local (clock0 + ucast timeout_ms) [] w rounds = Some b"
    using collect_loop_returns [OF assms, of npdu iam handler local "[]" w] by auto
  show ?thesis
    by (cases a; cases b)
       (simp add: php_bacnet_send_and_wait_def php_bacnet_broadcast_and_collect_def a b split: option.split)
qed

theorem exchange_returns_witness:
  "php_bacnet_send_and_wait (\<lambda>pdu. (2, False)) 480 20 demo_handler True (Some [1, 4]) [0] 7 2 9 0
     (demo_rounds :: io_round list) \<noteq> None \<and>
   php_bacnet_broadcast_and_collect (\<lambda>pdu. (2, False)) (\<lambda>a. None) 480 20 demo_handler True None
     (Some [1, 4]) [0] 2 9 0 demo_rounds \<noteq> None"
  by (rule exchange_returns) (simp add: demo_rounds_def)

text \<open>
  The device a received packet announces, stated apart from the loop: the entry of an I-Am with a
  header of the application layer and a service the decoder accepts, not from the own device.
\<close>

definition heard_iam ::
    "(bytes \<Rightarrow> int \<times> bool) \<Rightarrow> (bytes \<Rightarrow> (u32 \<times> u32 \<times> u16) option) \<Rightarrow> u32 option \<Rightarrow> io_round \<Rightarrow> iam_entry option"
  where
  "heard_iam npdu iam local r =
    (let pdu = io_pdu r; hl = fst (npdu pdu); apdu = apdu_at hl pdu
     in if 0 \<le> hl \<and> \<not> snd (npdu pdu) \<and> 2 \<le> apdu_len hl pdu \<and>
           apdu ! 0 AND 0xF0 = PDU_TYPE_UNCONFIRMED_SERVICE_REQUEST \<and> apdu ! 1 = SERVICE_UNCONFIRMED_I_AM
        then (case iam (drop 2 apdu) of
                Some (device_id, max_apdu, vendor_id) \<Rightarrow>
                  if local \<noteq> Some device_id
                  then Some \<lparr>e_address = io_source r, e_device_id = device_id,
                    e_max_apdu = ucast max_apdu, e_vendor_id = vendor_id\<rparr>
                  else None
              | None \<Rightarrow> None)
        else None)"

lemma heard_classified:
  "classify_iam npdu iam local (io_source r) (io_pdu r) = CIam e \<longleftrightarrow> heard_iam npdu iam local r = Some e"
proof -
  obtain hl nlm where n: "npdu (io_pdu r) = (hl, nlm)" by (cases "npdu (io_pdu r)")
  show ?thesis
    by (cases "iam (drop 2 (apdu_at hl (io_pdu r)))")
       (simp_all add: classify_iam_def heard_iam_def n not_less case_prod_beta Let_def)
qed

lemma iams_heard: "iams_of (classify_iam npdu iam local) rs = List.map_filter (heard_iam npdu iam local) rs"
proof (induction rs)
  case (Cons r rs)
  show ?case
  proof (cases "heard_iam npdu iam local r")
    case (Some e)
    then have "classify_iam npdu iam local (io_source r) (io_pdu r) = CIam e"
      using heard_classified [of npdu iam local r e] by simp
    then show ?thesis using Some Cons.IH by (simp add: iams_of_Cons map_filter_simps)
  next
    case None
    then have "classify_iam npdu iam local (io_source r) (io_pdu r) \<noteq> CIam e" for e
      using heard_classified [of npdu iam local r e] by simp
    then have "iams_of (classify_iam npdu iam local) (r # rs) = iams_of (classify_iam npdu iam local) rs"
      by (simp add: iams_of_Cons split: collected.split)
    then show ?thesis using None Cons.IH by (simp add: map_filter_simps)
  qed
qed (simp add: iams_of_def map_filter_simps)

text \<open>C28.
  Collected devices.  A collection looks at the rounds up to the first one at which the deadline
  has passed or nothing came, at which 64 devices are known, or at which the handler raised an
  exception (count -1).  It returns the first I-Am of every device among them, in the order they
  came: each entry is the one the first I-Am of its device gave, with the address that I-Am came
  from, and a later I-Am of the same device changes nothing.  The device ids are pairwise distinct,
  at most 64, never the own one when that is ignored, and no device heard in these rounds is
  missing.
\<close>

theorem collected_devices:
  assumes "php_bacnet_broadcast_and_collect npdu iam max_apdu max_npdu handler True local (Some h) request
      timeout_ms clock0 w rounds = Some (sent, count, es, w')"
    and "length h + length request \<le> max_apdu + max_npdu"
  shows "\<exists>k \<le> length rounds.
    (\<forall>i < k. live (clock0 + ucast timeout_ms) (rounds ! i)) \<and>
    (count = -1 \<or> count = int (length es) \<and> k < length rounds \<and>
       (\<not> live (clock0 + ucast timeout_ms) (rounds ! k) \<or> length es = 64)) \<and>
    es = first_answers (List.map_filter (heard_iam npdu iam local) (take k rounds)) \<and>
    (\<forall>e \<in> set es. \<exists>i < k. heard_iam npdu iam local (rounds ! i) = Some e \<and>
       e_address e = io_source (rounds ! i) \<and>
       (\<forall>j < i. \<forall>e'. heard_iam npdu iam local (rounds ! j) = Some e' \<longrightarrow>
          e_device_id e' \<noteq> e_device_id e)) \<and>
    (\<forall>r \<in> set (take k rounds). \<forall>e. heard_iam npdu iam local r = Some e \<longrightarrow>
       e_device_id e \<in> set (map e_device_id es)) \<and>
    distinct (map e_device_id es) \<and> length es \<le> 64 \<and> local \<notin> Some ` e_device_id ` set es"
proof -
  let ?cl = "classify_iam npdu iam local"
  obtain ok where cl: "collect_loop npdu iam handler local (clock0 + ucast timeout_ms) [] w rounds = Some (ok, es, w')"
    and count: "count = (if ok then int (length es) else -1)"
    using assms by (auto simp: php_bacnet_broadcast_and_collect_def)
  obtain k where k: "k \<le> length rounds" "\<forall>i < k. live (clock0 + ucast timeout_ms) (rounds ! i)"
    "es = foldl (\<lambda>es e. add_entry e es) [] (iams_of ?cl (take k rounds))"
    "ok \<longrightarrow> k < length rounds \<and> (\<not> live (clock0 + ucast timeout_ms) (rounds ! k) \<or> length es = PHP_BACNET_MAX_COLLECTED_DEVICES)"
    "length es \<le> PHP_BACNET_MAX_COLLECTED_DEVICES" "distinct (device_ids es)"
    using collect_loop_entries [OF cl] by (auto simp: device_ids_def)
  have d: "distinct (device_ids [])" by (simp add: device_ids_def)
  note fe = fold_add_entry [OF d, of "iams_of ?cl (take k rounds)", folded k(3)]
  have es: "es = first_answers (iams_of ?cl (take k rounds))"
    using k(3) by (simp add: fold_add_entry_first device_ids_def)
  have first: "\<exists>i < k. ?cl (io_source (rounds ! i)) (io_pdu (rounds ! i)) = CIam e \<and>
      (\<forall>j < i. \<forall>e'. ?cl (io_source (rounds ! j)) (io_pdu (rounds ! j)) = CIam e' \<longrightarrow> e_device_id e' \<noteq> e_device_id e)"
    if "e \<in> set es" for e
    using first_iam_round [of e ?cl "take k rounds"] that k(1) unfolding es [symmetric] by auto
  have entry: "\<exists>i < k. ?cl (io_source (rounds ! i)) (io_pdu (rounds ! i)) = CIam e \<and>
       e_address e = io_source (rounds ! i) \<and>
       (\<forall>j < i. \<forall>e'. ?cl (io_source (rounds ! j)) (io_pdu (rounds ! j)) = CIam e' \<longrightarrow>
          e_device_id e' \<noteq> e_device_id e)" if e: "e \<in> set es" for e
  proof -
    obtain i where i: "i < k" "?cl (io_source (rounds ! i)) (io_pdu (rounds ! i)) = CIam e"
      "\<forall>j < i. \<forall>e'. ?cl (io_source (rounds ! j)) (io_pdu (rounds ! j)) = CIam e' \<longrightarrow> e_device_id e' \<noteq> e_device_id e"
      using first [OF e] by blast
    have a: "e_address e = io_source (rounds ! i)" using classify_iam_local [OF i(2)] by simp
    then show ?thesis using i by blast
  qed
  have loc: "local \<noteq> Some (e_device_id e)" if "e \<in> set es" for e
    using first [OF that] classify_iam_local by metis
  have all: "e_device_id e \<in> set (map e_device_id es)"
    if "r \<in> set (take k rounds)" "?cl (io_source r) (io_pdu r) = CIam e" for r e
  proof -
    have "e \<in> set (iams_of ?cl (take k rounds))" using that by (force simp: iams_of_def)
    then show ?thesis using fe(1) by (auto simp: device_ids_def)
  qed
  have end_: "count = -1 \<or> count = int (length es) \<and> k < length rounds \<and>
       (\<not> live (clock0 + ucast timeout_ms) (rounds ! k) \<or> length es = 64)"
    using k(4) count by (simp add: PHP_BACNET_MAX_COLLECTED_DEVICES_def)
  have few: "distinct (map e_device_id es)" "length es \<le> 64"
    using k(5,6) by (simp_all add: device_ids_def PHP_BACNET_MAX_COLLECTED_DEVICES_def)
  show ?thesis
    unfolding heard_classified [symmetric] iams_heard [symmetric]
    using k(1,2) end_ es entry all few loc by (intro exI [of _ k]) blast
qed

definition demo_iam_rounds :: "io_round list" where
  "demo_iam_rounds =
    [\<lparr>io_clock = 10, io_clock2 = 10, io_source = \<lparr>mac = [9], net = 0\<rparr>, io_pdu = [1, 0, 0x10, 0, 77]\<rparr>,
     \<lparr>io_clock = 11, io_clock2 = 11, io_source = \<lparr>mac = [8], net = 0\<rparr>, io_pdu = [1, 0, 0x10, 0, 77]\<rparr>,
     \<lparr>io_clock = 200, io_clock2 = 200, io_source = \<lparr>mac = [], net = 0\<rparr>, io_pdu = []\<rparr>]"

definition demo_iam :: "bytes \<Rightarrow> (u32 \<times> u32 \<times> u16) option" where
  "demo_iam a = (case a of [] \<Rightarrow> None | b # _ \<Rightarrow> Some (ucast b, 480, 7))"

lemma demo_collect:
  "php_bacnet_broadcast_and_collect (\<lambda>pdu. (2, False)) demo_iam 480 20 demo_handler True None
     (Some [1, 4]) [0x10, 8] 100 9 0 demo_iam_rounds =
   Some (Some [1, 4, 0x10, 8], 1, [\<lparr>e_address = \<lparr>mac = [9], net = 0\<rparr>, e_device_id = 77,
      e_max_apdu = 480, e_vendor_id = 7\<rparr>], 0)"
  by (simp add: php_bacnet_broadcast_and_collect_def demo_iam_rounds_def classify_iam_def apdu_len_def
      apdu_at_def pdu_defs service_defs demo_iam_def add_entry_def PHP_BACNET_MAX_COLLECTED_DEVICES_def)

theorem collected_devices_witness:
  "\<exists>k \<le> length demo_iam_rounds. \<not> live 109 (demo_iam_rounds ! k) \<and>
     (\<exists>i < k. io_source (demo_iam_rounds ! i) = \<lparr>mac = [9], net = 0\<rparr>)"
  using collected_devices [OF demo_collect] by (simp; elim exE conjE) (metis less_imp_le)

text \<open>
  The remaining time is computed from a second reading of the clock.  When that reading is past
  the deadline, the unsigned subtraction wraps, and the receive is called with a timeout of
  nearly 2^32 milliseconds instead of none.
\<close>

theorem timeout_wraps:
  assumes "unat deadline < unat (io_clock2 r)" and "unat (io_clock2 r) - unat deadline < 2 ^ 32"
  shows "unat (receive_timeout deadline r) = 2 ^ 32 - (unat (io_clock2 r) - unat deadline)"
proof -
  define d where "d = int (unat (io_clock2 r)) - int (unat deadline)"
  have sub: "int (unat (io_clock2 r) - unat deadline) = d"
    unfolding d_def using assms(1) by (rule of_nat_diff [OF less_imp_le])
  have "int (unat (io_clock2 r) - unat deadline) < int (2 ^ 32)"
    using assms(2) by (simp only: of_nat_less_iff)
  then have d2: "d < 2 ^ 32" unfolding sub by simp
  have "0 < d" using assms(1) unfolding d_def by linarith
  note d = this d2
  have d3: "int (2 ^ 32 - (unat (io_clock2 r) - unat deadline)) = 2 ^ 32 - d"
    using assms(2) by (subst of_nat_diff) (simp_all only: less_imp_le sub of_nat_power of_nat_numeral)
  have dvd: "(2::int) ^ 32 dvd 2 ^ LENGTH(64)" by simp
  have "uint (receive_timeout deadline r) = uint (deadline - io_clock2 r) mod 2 ^ LENGTH(32)"
    unfolding receive_timeout_def unsigned_ucast_eq by (rule take_bit_eq_mod)
  also have "\<dots> = (uint deadline - uint (io_clock2 r)) mod 2 ^ LENGTH(64) mod 2 ^ 32"
    unfolding uint_word_ariths by simp
  also have "\<dots> = (- d) mod 2 ^ 32"
    unfolding mod_mod_cancel [OF dvd] d_def uint_nat by (simp only: minus_diff_eq)
  also have "\<dots> = 2 ^ 32 - d"
    using d(1,2) by (simp add: zmod_zminus1_eq_if)
  finally show ?thesis
    using d3 by (metis of_nat_eq_iff uint_nat)
qed

lemma timeout_wraps_witness:
  "unat (receive_timeout 1000 \<lparr>io_clock = 999, io_clock2 = 1003, io_source = \<lparr>mac = [], net = 0\<rparr>, io_pdu = []\<rparr>) = 4294967293"
  using timeout_wraps [of 1000 "\<lparr>io_clock = 999, io_clock2 = 1003, io_source = \<lparr>mac = [], net = 0\<rparr>, io_pdu = []\<rparr>"] by simp

end
