(* ===== verification/Cache_L1.thy ===== *)
theory Cache_L1
  imports Prelude
begin

text \<open>
  The shared-memory cache of src/bacnet_cache.c (level 1): a table of slots that processes
  share under one mutex.  Each function here is one critical section: php_bacnet_shm_get,
  php_bacnet_shm_put and php_bacnet_shm_clear_partition.  A slot's key and value are the used
  parts of its arrays, their lengths the stored lengths.  size_t values are nat: the sums are
  bounded by the size of the table, and only summands are subtracted.
\<close>

definition CACHE_SHM_SLOTS :: nat where "CACHE_SHM_SLOTS = 2048"
definition CACHE_KEY_MAX :: nat where "CACHE_KEY_MAX = 192"
definition CACHE_VALUE_MAX :: nat where "CACHE_VALUE_MAX = 4096"
definition CACHE_PARTITION_COUNT :: nat where "CACHE_PARTITION_COUNT = 6"
definition UINT64_MAX :: u64 where "UINT64_MAX = - 1"

record cache_slot =
  sl_used :: bool
  sl_partition :: nat
  sl_key :: string
  sl_value :: bytes
  sl_expires :: u64
  sl_touched :: u64

record cache_shm =
  shm_tick :: u64
  shm_generation :: "u64 list"
  shm_slots :: "cache_slot list"

record cache_stats =
  cs_hits :: u64
  cs_misses :: u64
  cs_stores :: u64
  cs_expirations :: u64
  cs_evictions :: u64
  cs_invalidations :: u64
  cs_refreshes :: u64
  cs_negative_hits :: u64
  cs_backend_errors :: u64
  cs_allocation_failures :: u64

definition empty_slot :: cache_slot where
  "empty_slot = \<lparr>sl_used = False, sl_partition = 0, sl_key = [], sl_value = [], sl_expires = 0, sl_touched = 0\<rparr>"

text \<open>The memory as the first process to open it leaves it.\<close>

definition php_bacnet_shm_init :: cache_shm where
  "php_bacnet_shm_init = \<lparr>shm_tick = 0, shm_generation = replicate CACHE_PARTITION_COUNT 0,
     shm_slots = replicate CACHE_SHM_SLOTS empty_slot\<rparr>"

definition empty_cache_stats :: cache_stats where
  "empty_cache_stats = \<lparr>cs_hits = 0, cs_misses = 0, cs_stores = 0, cs_expirations = 0, cs_evictions = 0,
     cs_invalidations = 0, cs_refreshes = 0, cs_negative_hits = 0, cs_backend_errors = 0,
     cs_allocation_failures = 0\<rparr>"

definition count_eviction :: "cache_stats \<Rightarrow> cache_stats" where
  "count_eviction st = st\<lparr>cs_evictions := cs_evictions st + 1\<rparr>"

definition count_failure :: "cache_stats \<Rightarrow> cache_stats" where
  "count_failure st = st\<lparr>cs_allocation_failures := cs_allocation_failures st + 1\<rparr>"

subsection \<open>Lookup\<close>

text \<open>The first slot that satisfies the test, where the loop breaks.\<close>

fun find_slot :: "(cache_slot \<Rightarrow> bool) \<Rightarrow> nat \<Rightarrow> cache_slot list \<Rightarrow> nat option" where
  "find_slot P i [] = None"
| "find_slot P i (s # ss) = (if P s then Some i else find_slot P (Suc i) ss)"

text \<open>cap is the size of the caller's buffer, *length.\<close>

definition php_bacnet_shm_get ::
    "nat \<Rightarrow> string \<Rightarrow> nat \<Rightarrow> u64 \<Rightarrow> cache_shm \<Rightarrow> cache_stats \<Rightarrow> bytes option \<times> cache_shm \<times> cache_stats"
  where
  "php_bacnet_shm_get p full cap now shm st =
    (case find_slot (\<lambda>s. sl_used s \<and> sl_partition s = p \<and> sl_key s = full) 0 (shm_slots shm) of
       None \<Rightarrow> (None, shm, st)
     | Some i \<Rightarrow>
         (let s = shm_slots shm ! i
          in if sl_expires s \<le> now
             then (None, shm\<lparr>shm_slots := (shm_slots shm)[i := s\<lparr>sl_used := False\<rparr>]\<rparr>,
                   st\<lparr>cs_expirations := cs_expirations st + 1\<rparr>)
             else if cap \<ge> length (sl_value s)
             then (Some (sl_value s),
                   shm\<lparr>shm_tick := shm_tick shm + 1,
                       shm_slots := (shm_slots shm)[i := s\<lparr>sl_touched := shm_tick shm + 1\<rparr>]\<rparr>, st)
             else (None, shm, st)))"

subsection \<open>Insertion\<close>

record put_scan =
  ps_target :: "nat option"
  ps_lru :: "nat option"
  ps_global_lru :: "nat option"
  ps_found :: bool
  ps_oldest :: u64
  ps_global_oldest :: u64
  ps_count :: u32
  ps_used_bytes :: nat

text \<open>The body of the first loop for slot i.\<close>

definition put_scan_slot :: "nat \<Rightarrow> string \<Rightarrow> nat \<Rightarrow> cache_slot \<Rightarrow> put_scan \<Rightarrow> put_scan" where
  "put_scan_slot p full i s ps =
    (let ps = (if sl_used s
               then ps\<lparr>ps_used_bytes := ps_used_bytes ps + length (sl_value s),
                       ps_count := (if sl_partition s = p then ps_count ps + 1 else ps_count ps)\<rparr>
               else ps);
         ps = (if sl_used s \<and> sl_key s = full then ps\<lparr>ps_target := Some i, ps_found := True\<rparr> else ps);
         ps = (if \<not> sl_used s \<and> ps_target ps = None then ps\<lparr>ps_target := Some i\<rparr> else ps);
         ps = (if sl_used s \<and> sl_partition s = p \<and> sl_touched s < ps_oldest ps
               then ps\<lparr>ps_oldest := sl_touched s, ps_lru := Some i\<rparr> else ps)
     in if sl_used s \<and> sl_touched s < ps_global_oldest ps
        then ps\<lparr>ps_global_oldest := sl_touched s, ps_global_lru := Some i\<rparr> else ps)"

fun put_scan_loop :: "nat \<Rightarrow> string \<Rightarrow> nat \<Rightarrow> cache_slot list \<Rightarrow> put_scan \<Rightarrow> put_scan" where
  "put_scan_loop p full i [] ps = ps"
| "put_scan_loop p full i (s # ss) ps = put_scan_loop p full (Suc i) ss (put_scan_slot p full i s ps)"

definition put_scan_init :: put_scan where
  "put_scan_init = \<lparr>ps_target = None, ps_lru = None, ps_global_lru = None, ps_found = False,
     ps_oldest = UINT64_MAX, ps_global_oldest = UINT64_MAX, ps_count = 0, ps_used_bytes = 0\<rparr>"

text \<open>The search for a victim: the first least recently touched slot in use, not the target.\<close>

fun pick_victim :: "nat \<Rightarrow> nat \<Rightarrow> cache_slot list \<Rightarrow> (nat \<times> cache_slot) option \<Rightarrow> (nat \<times> cache_slot) option" where
  "pick_victim target i [] v = v"
| "pick_victim target i (s # ss) v =
     pick_victim target (Suc i) ss
       (if i \<noteq> target \<and> sl_used s \<and> (case v of None \<Rightarrow> True | Some (j, w) \<Rightarrow> sl_touched s < sl_touched w)
        then Some (i, s) else v)"

lemma pick_victim_props:
  assumes "pick_victim target i ss v = Some (j, w)" and "v \<noteq> Some (j, w)"
  shows "i \<le> j \<and> j < i + length ss \<and> ss ! (j - i) = w \<and> sl_used w \<and> j \<noteq> target"
  using assms
proof (induction target i ss v rule: pick_victim.induct)
  case (2 target i s ss v)
  let ?v = "if i \<noteq> target \<and> sl_used s \<and> (case v of None \<Rightarrow> True | Some (j, w) \<Rightarrow> sl_touched s < sl_touched w)
        then Some (i, s) else v"
  show ?case
  proof (cases "?v = Some (j, w)")
    case True
    then show ?thesis using "2.prems"(2) by (auto split: if_splits)
  next
    case False
    then have "Suc i \<le> j \<and> j < Suc i + length ss \<and> ss ! (j - Suc i) = w \<and> sl_used w \<and> j \<noteq> target"
      using "2.IH" "2.prems"(1) by simp
    then show ?thesis by (auto simp: nth_Cons')
  qed
qed simp

lemma pick_victim_0:
  "pick_victim target 0 ss None = Some (j, w) \<Longrightarrow> j < length ss \<and> ss ! j = w \<and> sl_used w \<and> j \<noteq> target"
  using pick_victim_props [of target 0 ss None j w] by simp

definition unuse :: "nat \<Rightarrow> cache_slot list \<Rightarrow> cache_slot list" where
  "unuse j ss = ss[j := (ss ! j)\<lparr>sl_used := False\<rparr>]"

lemma filter_unuse_less:
  assumes "j < length ss" "sl_used (ss ! j)"
  shows "length (filter sl_used (unuse j ss)) < length (filter sl_used ss)"
  using length_filter_list_update [OF assms(1), of sl_used "(ss ! j)\<lparr>sl_used := False\<rparr>"] assms(2)
  by (simp add: unuse_def)

text \<open>
  The loop that frees space: None when no victim is left (with the slots freed so far),
  otherwise the slots.
\<close>

function evict_loop ::
    "nat \<Rightarrow> nat \<Rightarrow> nat \<Rightarrow> cache_slot list \<Rightarrow> cache_stats \<Rightarrow> bool \<times> cache_slot list \<times> cache_stats" where
  "evict_loop max_bytes target projected ss st =
    (if projected \<le> max_bytes then (True, ss, st)
     else case pick_victim target 0 ss None of
            None \<Rightarrow> (False, ss, count_failure st)
          | Some (j, w) \<Rightarrow>
              evict_loop max_bytes target (projected - length (sl_value w)) (unuse j ss) (count_eviction st))"
  by pat_completeness auto
termination
  by (relation "measure (\<lambda>(m, t, p, ss, st). length (filter sl_used ss))")
     (auto dest!: pick_victim_0 intro: filter_unuse_less)

declare evict_loop.simps [simp del]

text \<open>Where a new entry goes: the target of the scan, after the limits of the partition.\<close>

definition put_target :: "u32 \<Rightarrow> put_scan \<Rightarrow> cache_stats \<Rightarrow> nat option \<times> cache_stats" where
  "put_target max_entries ps st =
    (if \<not> ps_found ps \<and> (ps_target ps = None \<or> ps_count ps \<ge> max_entries)
     then let t = (case ps_lru ps of Some i \<Rightarrow> Some i | None \<Rightarrow> ps_global_lru ps)
          in (t, if t \<noteq> None then count_eviction st else st)
     else (ps_target ps, st))"

definition php_bacnet_shm_put ::
    "u32 \<Rightarrow> nat \<Rightarrow> nat \<Rightarrow> string \<Rightarrow> bytes \<Rightarrow> u64 \<Rightarrow> cache_shm \<Rightarrow> cache_stats \<Rightarrow> cache_shm \<times> cache_stats"
  where
  "php_bacnet_shm_put max_entries l1_max_bytes p full data expiry shm st =
    (if length data > CACHE_VALUE_MAX then (shm, count_failure st)
     else if length full \<ge> CACHE_KEY_MAX then (shm, st)
     else
       let ps = put_scan_loop p full 0 (shm_slots shm) put_scan_init;
           (target, st) = put_target max_entries ps st
       in case target of
            None \<Rightarrow> (shm, count_failure st)
          | Some t \<Rightarrow>
              if length data > l1_max_bytes then (shm, count_failure st)
              else
                let s = shm_slots shm ! t;
                    projected = ps_used_bytes ps - (if sl_used s then length (sl_value s) else 0) + length data;
                    (ok, ss, st) = evict_loop l1_max_bytes t projected (shm_slots shm) st
                in if \<not> ok then (shm\<lparr>shm_slots := ss\<rparr>, st)
                   else (shm\<lparr>shm_tick := shm_tick shm + 1,
                             shm_slots := ss[t := \<lparr>sl_used = True, sl_partition = p, sl_key = full,
                               sl_value = data, sl_expires = expiry, sl_touched = shm_tick shm + 1\<rparr>]\<rparr>, st))"

subsection \<open>Clearing\<close>

text \<open>part is -1 for all partitions.\<close>

definition php_bacnet_shm_clear_partition :: "int \<Rightarrow> cache_shm \<Rightarrow> cache_shm" where
  "php_bacnet_shm_clear_partition part shm =
    shm\<lparr>shm_slots := map (\<lambda>s. if sl_used s \<and> (part < 0 \<or> int (sl_partition s) = part)
                              then s\<lparr>sl_used := False\<rparr> else s) (shm_slots shm),
        shm_generation :=
          (if part < 0 then map (\<lambda>g. g + 1) (shm_generation shm)
           else (shm_generation shm)[nat part := shm_generation shm ! nat part + 1])\<rparr>"

subsection \<open>Lossy caches\<close>

text \<open>
  What a cache promises: a lookup gives nothing, or the value of the last insertion for its key
  as long as that has not expired.  Insertions of other keys, probes and clearing may lose
  entries but never change or revive one.
\<close>

datatype ('k, 'v, 'c) cache_event = Insert 'k 'v u64 | Probe 'k u64 | Clear 'c

text \<open>The last insertion of a key, the events given in order.\<close>

definition last_insert :: "'k \<Rightarrow> ('k, 'v, 'c) cache_event list \<Rightarrow> ('v \<times> u64) option" where
  "last_insert k es =
    foldl (\<lambda>a ev. case ev of Insert k' v e \<Rightarrow> if k' = k then Some (v, e) else a | _ \<Rightarrow> a) None es"

locale lossy_cache =
  fixes inv :: "'s \<Rightarrow> bool"
    and lookup :: "'k \<Rightarrow> u64 \<Rightarrow> 's \<Rightarrow> 'v option"
    and admissible :: "'k \<Rightarrow> 'v \<Rightarrow> bool"
    and insert_entry :: "'k \<Rightarrow> 'v \<Rightarrow> u64 \<Rightarrow> 's \<Rightarrow> 's"
    and probe :: "'k \<Rightarrow> u64 \<Rightarrow> 's \<Rightarrow> 's"
    and clear :: "'c \<Rightarrow> 's \<Rightarrow> 's"
  assumes insert_inv: "inv s \<Longrightarrow> admissible k v \<Longrightarrow> inv (insert_entry k v e s)"
    and probe_inv: "inv s \<Longrightarrow> inv (probe k now s)"
    and clear_inv: "inv s \<Longrightarrow> inv (clear c s)"
    and insert_same: "inv s \<Longrightarrow> admissible k v \<Longrightarrow> lookup k now (insert_entry k v e s) = Some u \<Longrightarrow>
      u = v \<and> now < e"
    and insert_other: "inv s \<Longrightarrow> admissible k v \<Longrightarrow> k' \<noteq> k \<Longrightarrow>
      lookup k' now (insert_entry k v e s) = Some u \<Longrightarrow> lookup k' now s = Some u"
    and probe_lookup: "inv s \<Longrightarrow> lookup k' now' (probe k now s) = Some u \<Longrightarrow> lookup k' now' s = Some u"
    and clear_lookup: "inv s \<Longrightarrow> lookup k' now' (clear c s) = Some u \<Longrightarrow> lookup k' now' s = Some u"
begin

fun event :: "('k, 'v, 'c) cache_event \<Rightarrow> 's \<Rightarrow> 's" where
  "event (Insert k v e) s = insert_entry k v e s"
| "event (Probe k now) s = probe k now s"
| "event (Clear c) s = clear c s"

definition admissible_events :: "('k, 'v, 'c) cache_event list \<Rightarrow> bool" where
  "admissible_events es \<longleftrightarrow> (\<forall>k v e. Insert k v e \<in> set es \<longrightarrow> admissible k v)"

lemma no_stale_lookup:
  assumes "inv s" and "\<forall>k now. lookup k now s = None" and "admissible_events es"
  shows "inv (foldl (\<lambda>s ev. event ev s) s es) \<and>
    (lookup k now (foldl (\<lambda>s ev. event ev s) s es) = Some u \<longrightarrow>
      (\<exists>e. last_insert k es = Some (u, e) \<and> now < e))"
  using assms(3)
proof (induction es arbitrary: u rule: rev_induct)
  case Nil
  then show ?case using assms(1,2) by (simp add: last_insert_def)
next
  case (snoc ev es)
  let ?t = "foldl (\<lambda>s ev. event ev s) s es"
  have adm: "admissible_events es" "\<And>k v e. ev = Insert k v e \<Longrightarrow> admissible k v"
    using snoc.prems by (auto simp: admissible_events_def)
  have IH: "inv ?t" "\<And>u. lookup k now ?t = Some u \<Longrightarrow> \<exists>e. last_insert k es = Some (u, e) \<and> now < e"
    using snoc.IH adm(1) by auto
  show ?case
  proof (cases ev)
    case (Insert k' v e)
    have a: "admissible k' v" using adm(2) Insert by simp
    show ?thesis
    proof (cases "k' = k")
      case True
      then show ?thesis
        using insert_inv [OF IH(1) a] insert_same [OF IH(1) a] Insert by (auto simp: last_insert_def)
    next
      case False
      then show ?thesis
        using insert_inv [OF IH(1) a] insert_other [OF IH(1) a, of k] IH(2) Insert
        by (auto simp: last_insert_def)
    qed
  next
    case (Probe k' t)
    then show ?thesis
      using probe_inv [OF IH(1)] probe_lookup [OF IH(1)] IH(2) by (auto simp: last_insert_def)
  next
    case (Clear c)
    then show ?thesis
      using clear_inv [OF IH(1)] clear_lookup [OF IH(1)] IH(2) by (auto simp: last_insert_def)
  qed
qed

end

end
