(* ===== verification/Cache_L1_Props.thy ===== *)
theory Cache_L1_Props
  imports Cache_L1
begin

text \<open>
  Correctness of the shared-memory cache: every operation keeps the keys of the used slots
  distinct and their sizes within the arrays, an insertion stays within the byte budget and
  the limit of its partition and can be read back until it expires, and the table is a lossy
  cache in the sense of the locale of Cache_L1.
\<close>

subsection \<open>Well-formed tables\<close>

definition keys_distinct :: "cache_slot list \<Rightarrow> bool" where
  "keys_distinct ss \<longleftrightarrow> (\<forall>i < length ss. \<forall>j < length ss.
     sl_used (ss ! i) \<and> sl_used (ss ! j) \<and> sl_key (ss ! i) = sl_key (ss ! j) \<longrightarrow> i = j)"

definition slot_ok :: "cache_slot \<Rightarrow> bool" where
  "slot_ok s \<longleftrightarrow> sl_used s \<longrightarrow> length (sl_key s) < CACHE_KEY_MAX \<and> length (sl_value s) \<le> CACHE_VALUE_MAX"

definition slots_wf :: "cache_slot list \<Rightarrow> bool" where
  "slots_wf ss \<longleftrightarrow> length ss = CACHE_SHM_SLOTS \<and> keys_distinct ss \<and> list_all slot_ok ss"

definition slot_bytes :: "cache_slot \<Rightarrow> nat" where
  "slot_bytes s = (if sl_used s then length (sl_value s) else 0)"

definition used_bytes :: "cache_slot list \<Rightarrow> nat" where
  "used_bytes ss = sum_list (map slot_bytes ss)"

definition in_partition :: "nat \<Rightarrow> cache_slot \<Rightarrow> bool" where
  "in_partition p s \<longleftrightarrow> sl_used s \<and> sl_partition s = p"

definition partition_count :: "nat \<Rightarrow> cache_slot list \<Rightarrow> nat" where
  "partition_count p ss = length (filter (in_partition p) ss)"

lemma used_bytes_update:
  "i < length ss \<Longrightarrow> used_bytes (ss[i := s]) + slot_bytes (ss ! i) = used_bytes ss + slot_bytes s"
  unfolding used_bytes_def by (rule sum_list_list_update)

lemma partition_count_update:
  "i < length ss \<Longrightarrow> partition_count p (ss[i := s]) + (if in_partition p (ss ! i) then 1 else 0)
    = partition_count p ss + (if in_partition p s then 1 else 0)"
  unfolding partition_count_def by (rule length_filter_list_update)

lemma keys_distinctD:
  "keys_distinct ss \<Longrightarrow> i < length ss \<Longrightarrow> j < length ss \<Longrightarrow> sl_used (ss ! i) \<Longrightarrow> sl_used (ss ! j) \<Longrightarrow>
   sl_key (ss ! i) = sl_key (ss ! j) \<Longrightarrow> i = j"
  unfolding keys_distinct_def by blast

text \<open>A change that only gives up slots or touches them.\<close>

definition weaker :: "cache_slot list \<Rightarrow> cache_slot list \<Rightarrow> bool" where
  "weaker ss ss' \<longleftrightarrow> length ss' = length ss \<and>
     (\<forall>i < length ss. sl_used (ss' ! i) \<longrightarrow> sl_used (ss ! i) \<and> sl_key (ss' ! i) = sl_key (ss ! i) \<and>
        sl_value (ss' ! i) = sl_value (ss ! i) \<and> sl_partition (ss' ! i) = sl_partition (ss ! i) \<and>
        sl_expires (ss' ! i) = sl_expires (ss ! i))"

lemma weaker_refl [simp]: "weaker ss ss"
  by (simp add: weaker_def)

lemma weaker_trans: "weaker a b \<Longrightarrow> weaker b c \<Longrightarrow> weaker a c"
  unfolding weaker_def by (metis (no_types, lifting))

lemma weaker_unuse: "weaker ss (unuse j ss)"
  by (auto simp: weaker_def unuse_def nth_list_update_if)

lemma weaker_touch: "weaker ss (ss[i := (ss ! i)\<lparr>sl_touched := t\<rparr>])"
  by (auto simp: weaker_def nth_list_update_if)

lemma weaker_wf:
  assumes "slots_wf ss" "weaker ss ss'"
  shows "slots_wf ss'"
proof -
  have len: "length ss' = length ss" using assms(2) by (simp add: weaker_def)
  have w: "sl_used (ss ! i) \<and> sl_key (ss' ! i) = sl_key (ss ! i) \<and> sl_value (ss' ! i) = sl_value (ss ! i)"
    if "i < length ss" "sl_used (ss' ! i)" for i
    using assms(2) that by (simp add: weaker_def)
  have "keys_distinct ss'"
    unfolding keys_distinct_def len
    using assms(1) w keys_distinctD [of ss] by (metis slots_wf_def)
  moreover have "slot_ok (ss' ! i)" if "i < length ss'" for i
  proof -
    have "slot_ok (ss ! i)" using assms(1) that len by (simp add: slots_wf_def list_all_length)
    then show ?thesis using w [of i] that len by (simp add: slot_ok_def)
  qed
  ultimately show ?thesis
    using assms(1) len by (simp add: slots_wf_def list_all_length)
qed

subsection \<open>Lookup\<close>

lemma find_slot_Some:
  "find_slot P i ss = Some j \<Longrightarrow> i \<le> j \<and> j < i + length ss \<and> P (ss ! (j - i))"
proof (induction ss arbitrary: i)
  case (Cons s ss)
  then show ?case
    by (cases "P s") (fastforce simp: nth_Cons' dest: Cons.IH [of "Suc i"])+
qed simp

lemma find_slot_None: "find_slot P i ss = None \<longleftrightarrow> (\<forall>s \<in> set ss. \<not> P s)"
  by (induction ss arbitrary: i) auto

definition holds :: "nat \<Rightarrow> string \<Rightarrow> cache_slot \<Rightarrow> bool" where
  "holds p full s \<longleftrightarrow> sl_used s \<and> sl_partition s = p \<and> sl_key s = full"

text \<open>The value a process would read at a time, with a buffer that is large enough.\<close>

definition l1_lookup :: "nat \<Rightarrow> string \<Rightarrow> u64 \<Rightarrow> cache_slot list \<Rightarrow> bytes option" where
  "l1_lookup p full now ss =
    (case find_slot (holds p full) 0 ss of
       None \<Rightarrow> None
     | Some i \<Rightarrow> if sl_expires (ss ! i) \<le> now then None else Some (sl_value (ss ! i)))"

lemma l1_lookup_iff:
  assumes "keys_distinct ss"
  shows "l1_lookup p full now ss = Some v \<longleftrightarrow>
    (\<exists>i < length ss. holds p full (ss ! i) \<and> now < sl_expires (ss ! i) \<and> sl_value (ss ! i) = v)"
proof
  assume "l1_lookup p full now ss = Some v"
  then show "\<exists>i < length ss. holds p full (ss ! i) \<and> now < sl_expires (ss ! i) \<and> sl_value (ss ! i) = v"
    using find_slot_Some [of "holds p full" 0 ss]
    by (auto simp: l1_lookup_def not_le split: option.splits if_splits)
next
  assume "\<exists>i < length ss. holds p full (ss ! i) \<and> now < sl_expires (ss ! i) \<and> sl_value (ss ! i) = v"
  then obtain i where i: "i < length ss" "holds p full (ss ! i)" "now < sl_expires (ss ! i)" "sl_value (ss ! i) = v"
    by blast
  then obtain j where j: "find_slot (holds p full) 0 ss = Some j"
    using find_slot_None [of "holds p full" 0 ss] nth_mem by (metis not_None_eq)
  then have "j < length ss" "holds p full (ss ! j)" using find_slot_Some by fastforce+
  then have "j = i" using keys_distinctD [OF assms] i by (simp add: holds_def)
  then show "l1_lookup p full now ss = Some v" using i j by (simp add: l1_lookup_def)
qed

lemma weaker_lookup:
  assumes "keys_distinct ss" "keys_distinct ss'" "weaker ss ss'" "l1_lookup p full now ss' = Some v"
  shows "l1_lookup p full now ss = Some v"
proof -
  obtain i where i: "i < length ss'" "holds p full (ss' ! i)" "now < sl_expires (ss' ! i)" "sl_value (ss' ! i) = v"
    using assms(4) l1_lookup_iff [OF assms(2)] by blast
  then have "i < length ss" "holds p full (ss ! i)" "now < sl_expires (ss ! i)" "sl_value (ss ! i) = v"
    using assms(3) by (auto simp: weaker_def holds_def)
  then show ?thesis using l1_lookup_iff [OF assms(1)] by blast
qed

lemma shm_get_result:
  "fst (php_bacnet_shm_get p full cap now shm st) =
    (case l1_lookup p full now (shm_slots shm) of
       Some v \<Rightarrow> if length v \<le> cap then Some v else None | None \<Rightarrow> None)"
  by (auto simp: php_bacnet_shm_get_def l1_lookup_def holds_def [abs_def] Let_def split: option.splits)

lemma shm_get_weaker:
  "weaker (shm_slots shm) (shm_slots (fst (snd (php_bacnet_shm_get p full cap now shm st))))"
  using weaker_unuse weaker_touch
  by (auto simp: php_bacnet_shm_get_def Let_def unuse_def [symmetric] split: option.splits)

subsection \<open>The scan\<close>

definition scan_inv :: "nat \<Rightarrow> string \<Rightarrow> cache_slot list \<Rightarrow> nat \<Rightarrow> put_scan \<Rightarrow> bool" where
  "scan_inv p full ss k ps \<longleftrightarrow>
     k \<le> length ss \<and>
     (ps_found ps \<longleftrightarrow> (\<exists>j < k. sl_used (ss ! j) \<and> sl_key (ss ! j) = full)) \<and>
     (case ps_target ps of
        None \<Rightarrow> \<not> ps_found ps \<and> (\<forall>j < k. sl_used (ss ! j))
      | Some t \<Rightarrow> t < k \<and> (if ps_found ps then sl_used (ss ! t) \<and> sl_key (ss ! t) = full
                           else \<not> sl_used (ss ! t))) \<and>
     (case ps_lru ps of
        None \<Rightarrow> ps_oldest ps = UINT64_MAX \<and> (\<forall>j < k. in_partition p (ss ! j) \<longrightarrow> sl_touched (ss ! j) = UINT64_MAX)
      | Some t \<Rightarrow> t < k \<and> in_partition p (ss ! t)) \<and>
     (case ps_global_lru ps of
        None \<Rightarrow> ps_global_oldest ps = UINT64_MAX \<and> (\<forall>j < k. sl_used (ss ! j) \<longrightarrow> sl_touched (ss ! j) = UINT64_MAX)
      | Some t \<Rightarrow> t < k \<and> sl_used (ss ! t)) \<and>
     ps_count ps = of_nat (partition_count p (take k ss)) \<and>
     ps_used_bytes ps = used_bytes (take k ss)"

lemma not_less_max: "\<not> (x::u64) < UINT64_MAX \<longleftrightarrow> x = UINT64_MAX"
  by (simp add: UINT64_MAX_def not_less word_order.extremum_unique)

lemma put_scan_slot_fields:
  "ps_found (put_scan_slot p full i s ps) = (ps_found ps \<or> (sl_used s \<and> sl_key s = full))"
  "ps_target (put_scan_slot p full i s ps) =
     (if sl_used s \<and> sl_key s = full \<or> (\<not> sl_used s \<and> ps_target ps = None) then Some i else ps_target ps)"
  "ps_lru (put_scan_slot p full i s ps) =
     (if in_partition p s \<and> sl_touched s < ps_oldest ps then Some i else ps_lru ps)"
  "ps_oldest (put_scan_slot p full i s ps) =
     (if in_partition p s \<and> sl_touched s < ps_oldest ps then sl_touched s else ps_oldest ps)"
  "ps_global_lru (put_scan_slot p full i s ps) =
     (if sl_used s \<and> sl_touched s < ps_global_oldest ps then Some i else ps_global_lru ps)"
  "ps_global_oldest (put_scan_slot p full i s ps) =
     (if sl_used s \<and> sl_touched s < ps_global_oldest ps then sl_touched s else ps_global_oldest ps)"
  "ps_count (put_scan_slot p full i s ps) = ps_count ps + (if in_partition p s then 1 else 0)"
  "ps_used_bytes (put_scan_slot p full i s ps) = ps_used_bytes ps + slot_bytes s"
  by (auto simp: put_scan_slot_def Let_def in_partition_def slot_bytes_def)

lemma scan_slot:
  assumes inv: "scan_inv p full ss k ps" and k: "k < length ss"
  shows "scan_inv p full ss (Suc k) (put_scan_slot p full k (ss ! k) ps)"
proof -
  let ?s = "ss ! k" and ?ps = "put_scan_slot p full k (ss ! k) ps"
  have i: "ps_found ps \<longleftrightarrow> (\<exists>j < k. sl_used (ss ! j) \<and> sl_key (ss ! j) = full)"
    "case ps_target ps of None \<Rightarrow> \<not> ps_found ps \<and> (\<forall>j < k. sl_used (ss ! j))
      | Some t \<Rightarrow> t < k \<and> (if ps_found ps then sl_used (ss ! t) \<and> sl_key (ss ! t) = full
                           else \<not> sl_used (ss ! t))"
    "case ps_lru ps of
        None \<Rightarrow> ps_oldest ps = UINT64_MAX \<and> (\<forall>j < k. in_partition p (ss ! j) \<longrightarrow> sl_touched (ss ! j) = UINT64_MAX)
      | Some t \<Rightarrow> t < k \<and> in_partition p (ss ! t)"
    "case ps_global_lru ps of
        None \<Rightarrow> ps_global_oldest ps = UINT64_MAX \<and> (\<forall>j < k. sl_used (ss ! j) \<longrightarrow> sl_touched (ss ! j) = UINT64_MAX)
      | Some t \<Rightarrow> t < k \<and> sl_used (ss ! t)"
    "ps_count ps = of_nat (partition_count p (take k ss))" "ps_used_bytes ps = used_bytes (take k ss)"
    using inv unfolding scan_inv_def by blast+
  have tk: "take (Suc k) ss = take k ss @ [?s]" using k by (rule take_Suc_conv_app_nth)
  have f: "ps_found ?ps \<longleftrightarrow> (\<exists>j < Suc k. sl_used (ss ! j) \<and> sl_key (ss ! j) = full)"
    using i(1) by (auto simp: put_scan_slot_fields less_Suc_eq)
  moreover have "case ps_target ?ps of None \<Rightarrow> \<not> ps_found ?ps \<and> (\<forall>j < Suc k. sl_used (ss ! j))
      | Some t \<Rightarrow> t < Suc k \<and> (if ps_found ?ps then sl_used (ss ! t) \<and> sl_key (ss ! t) = full
                           else \<not> sl_used (ss ! t))"
    using i(2) by (auto simp: put_scan_slot_fields(1,2) less_Suc_eq split: option.splits if_splits)
  moreover have "case ps_lru ?ps of
        None \<Rightarrow> ps_oldest ?ps = UINT64_MAX \<and> (\<forall>j < Suc k. in_partition p (ss ! j) \<longrightarrow> sl_touched (ss ! j) = UINT64_MAX)
      | Some t \<Rightarrow> t < Suc k \<and> in_partition p (ss ! t)"
    using i(3) by (auto simp: put_scan_slot_fields(3,4) less_Suc_eq not_less_max split: option.splits if_splits)
  moreover have "case ps_global_lru ?ps of
        None \<Rightarrow> ps_global_oldest ?ps = UINT64_MAX \<and> (\<forall>j < Suc k. sl_used (ss ! j) \<longrightarrow> sl_touched (ss ! j) = UINT64_MAX)
      | Some t \<Rightarrow> t < Suc k \<and> sl_used (ss ! t)"
    using i(4) by (auto simp: put_scan_slot_fields(5,6) less_Suc_eq not_less_max split: option.splits if_splits)
  moreover have "ps_count ?ps = of_nat (partition_count p (take (Suc k) ss))"
    using i(5) unfolding tk by (simp add: put_scan_slot_fields partition_count_def)
  moreover have "ps_used_bytes ?ps = used_bytes (take (Suc k) ss)"
    using i(6) unfolding tk by (simp add: put_scan_slot_fields used_bytes_def)
  moreover have "Suc k \<le> length ss" using k by simp
  ultimately show ?thesis unfolding scan_inv_def by blast
qed

lemma scan_loop:
  assumes "scan_inv p full ss k ps"
  shows "scan_inv p full ss (length ss) (put_scan_loop p full k (drop k ss) ps)"
  using assms
proof (induction "length ss - k" arbitrary: k ps)
  case 0
  then have "k = length ss" by (simp add: scan_inv_def)
  then show ?case using 0 by simp
next
  case (Suc n)
  then have k: "k < length ss" by simp
  have "drop k ss = ss ! k # drop (Suc k) ss" using k by (simp add: Cons_nth_drop_Suc)
  then show ?case
    using Suc.hyps(1) [of "Suc k"] Suc.hyps(2) scan_slot [OF Suc.prems k] by simp
qed

lemma scan_all: "scan_inv p full ss (length ss) (put_scan_loop p full 0 ss put_scan_init)"
  using scan_loop [of p full ss 0 put_scan_init]
  by (simp add: scan_inv_def put_scan_init_def partition_count_def used_bytes_def)

text \<open>The slot an entry goes to.\<close>

lemma put_target:
  assumes ps: "ps = put_scan_loop p full 0 ss put_scan_init"
    and pt: "put_target max_entries ps st = (Some t, st')"
  shows "t < length ss"
    and "\<And>j. j < length ss \<Longrightarrow> sl_used (ss ! j) \<Longrightarrow> sl_key (ss ! j) = full \<Longrightarrow> keys_distinct ss \<Longrightarrow> j = t"
    and "length ss < 2 ^ 32 \<Longrightarrow> 0 < unat max_entries \<Longrightarrow>
      (\<And>j. j < length ss \<Longrightarrow> sl_used (ss ! j) \<Longrightarrow> sl_touched (ss ! j) \<noteq> UINT64_MAX) \<Longrightarrow>
      (\<And>j. j < length ss \<Longrightarrow> sl_used (ss ! j) \<Longrightarrow> sl_key (ss ! j) = full \<Longrightarrow> sl_partition (ss ! j) = p) \<Longrightarrow>
      partition_count p ss < unat max_entries \<or> in_partition p (ss ! t)"
proof -
  have inv: "scan_inv p full ss (length ss) ps" unfolding ps by (rule scan_all)
  then have i: "ps_found ps \<longleftrightarrow> (\<exists>j < length ss. sl_used (ss ! j) \<and> sl_key (ss ! j) = full)"
    "case ps_target ps of None \<Rightarrow> \<not> ps_found ps \<and> (\<forall>j < length ss. sl_used (ss ! j))
      | Some t \<Rightarrow> t < length ss \<and> (if ps_found ps then sl_used (ss ! t) \<and> sl_key (ss ! t) = full
                           else \<not> sl_used (ss ! t))"
    "case ps_lru ps of
        None \<Rightarrow> ps_oldest ps = UINT64_MAX \<and> (\<forall>j < length ss. in_partition p (ss ! j) \<longrightarrow> sl_touched (ss ! j) = UINT64_MAX)
      | Some t \<Rightarrow> t < length ss \<and> in_partition p (ss ! t)"
    "case ps_global_lru ps of
        None \<Rightarrow> ps_global_oldest ps = UINT64_MAX \<and> (\<forall>j < length ss. sl_used (ss ! j) \<longrightarrow> sl_touched (ss ! j) = UINT64_MAX)
      | Some t \<Rightarrow> t < length ss \<and> sl_used (ss ! t)"
    "ps_count ps = of_nat (partition_count p ss)"
    unfolding scan_inv_def by simp_all
  have tgt: "(if \<not> ps_found ps \<and> (ps_target ps = None \<or> ps_count ps \<ge> max_entries)
      then (case ps_lru ps of Some i \<Rightarrow> Some i | None \<Rightarrow> ps_global_lru ps) else ps_target ps) = Some t"
    using pt by (auto simp: put_target_def Let_def split: if_splits)
  show "t < length ss"
    using tgt i(2-4) by (auto split: if_splits option.splits)
  show "j = t" if j: "j < length ss" "sl_used (ss ! j)" "sl_key (ss ! j) = full" "keys_distinct ss" for j
  proof -
    have "ps_found ps" using i(1) j by blast
    then have "ps_target ps = Some t" "sl_used (ss ! t)" "sl_key (ss ! t) = full" "t < length ss"
      using tgt i(2) by (auto split: option.splits)
    then show ?thesis using keys_distinctD [OF j(4,1)] j(2,3) by simp
  qed
  show "partition_count p ss < unat max_entries \<or> in_partition p (ss ! t)"
    if l: "length ss < 2 ^ 32" "0 < unat max_entries"
      and tch: "\<And>j. j < length ss \<Longrightarrow> sl_used (ss ! j) \<Longrightarrow> sl_touched (ss ! j) \<noteq> UINT64_MAX"
      and prt: "\<And>j. j < length ss \<Longrightarrow> sl_used (ss ! j) \<Longrightarrow> sl_key (ss ! j) = full \<Longrightarrow> sl_partition (ss ! j) = p"
  proof (cases "ps_found ps")
    case True
    then have "ps_target ps = Some t" "sl_used (ss ! t)" "sl_key (ss ! t) = full" "t < length ss"
      using tgt i(2) by (auto split: option.splits)
    then show ?thesis using prt by (simp add: in_partition_def)
  next
    case nf: False
    have "partition_count p ss \<le> length ss" by (simp add: partition_count_def)
    then have "partition_count p ss < 2 ^ LENGTH(32)" using l(1) by simp
    then have cnt: "unat (ps_count ps) = partition_count p ss"
      unfolding i(5) unsigned_of_nat of_nat_id by (rule take_bit_nat_eq_self)
    show ?thesis
    proof (cases "ps_count ps \<ge> max_entries")
      case True
      then have "0 < partition_count p ss" using l(2) cnt by (simp add: word_le_nat_alt)
      then obtain s where "s \<in> set ss" "in_partition p s"
        by (auto simp: partition_count_def filter_empty_conv)
      then obtain j where j: "j < length ss" "in_partition p (ss ! j)" by (metis in_set_conv_nth)
      then have "sl_touched (ss ! j) \<noteq> UINT64_MAX" using tch by (simp add: in_partition_def)
      then obtain l where "ps_lru ps = Some l" using i(3) j by (cases "ps_lru ps") auto
      then show ?thesis using tgt nf True i(3) by simp
    next
      case False
      then show ?thesis using cnt by (simp add: word_less_nat_alt not_le)
    qed
  qed
qed

subsection \<open>Freeing space\<close>

lemma unuse_bytes:
  assumes "j < length ss"
  shows "used_bytes (unuse j ss) + slot_bytes (ss ! j) = used_bytes ss"
  using used_bytes_update [OF assms, of "(ss ! j)\<lparr>sl_used := False\<rparr>"]
  by (simp add: unuse_def slot_bytes_def)

lemma slot_bytes_le: "j < length ss \<Longrightarrow> slot_bytes (ss ! j) \<le> used_bytes ss"
  using unuse_bytes [of j ss] by linarith

lemma length_unuse [simp]: "length (unuse j ss) = length ss"
  by (simp add: unuse_def)

lemma unuse_swap: "j \<noteq> t \<Longrightarrow> unuse t (unuse j ss) = unuse j (unuse t ss)"
  by (simp add: unuse_def list_update_swap)

lemma unuse_nth: "j < length ss \<Longrightarrow> unuse j ss ! i = (if i = j then (ss ! j)\<lparr>sl_used := False\<rparr> else ss ! i)"
  by (simp add: unuse_def nth_list_update)

lemma pick_victim_None:
  assumes "pick_victim target i ss v = None"
  shows "v = None \<and> (\<forall>k < length ss. i + k \<noteq> target \<longrightarrow> \<not> sl_used (ss ! k))"
  using assms
proof (induction target i ss v rule: pick_victim.induct)
  case (2 target i s ss v)
  then have "(if i \<noteq> target \<and> sl_used s \<and> (case v of None \<Rightarrow> True | Some (j, w) \<Rightarrow> sl_touched s < sl_touched w)
      then Some (i, s) else v) = None \<and> (\<forall>k < length ss. Suc i + k \<noteq> target \<longrightarrow> \<not> sl_used (ss ! k))"
    by simp
  then show ?case by (auto simp: nth_Cons' less_Suc_eq_0_disj split: if_splits)
qed simp

text \<open>
  The loop always finds a victim while the projected size is too large, and ends within the
  budget; it only gives up slots other than the target.
\<close>

lemma evict_loop_ok:
  assumes "t < length ss" and "projected = used_bytes (unuse t ss) + new" and "new \<le> max_bytes"
    and "evict_loop max_bytes t projected ss st = (ok, ss', st')"
  shows "ok" and "weaker ss ss'" and "ss' ! t = ss ! t" and "used_bytes (unuse t ss') + new \<le> max_bytes"
proof -
  have "ok \<and> weaker ss ss' \<and> ss' ! t = ss ! t \<and> used_bytes (unuse t ss') + new \<le> max_bytes"
    using assms
  proof (induction max_bytes t projected ss st rule: evict_loop.induct)
    case (1 max_bytes t projected ss st)
    show ?case
    proof (cases "projected \<le> max_bytes")
      case True
      then show ?thesis using "1.prems" by (simp add: evict_loop.simps)
    next
      case False
      show ?thesis
      proof (cases "pick_victim t 0 ss None")
        case None
        have "\<not> sl_used (unuse t ss ! k)" if "k < length ss" for k
          using pick_victim_None [OF None] that "1.prems"(1) by (cases "k = t") (simp_all add: unuse_nth)
        then have "used_bytes (unuse t ss) = 0"
          by (simp add: used_bytes_def slot_bytes_def sum_list_eq_0_iff in_set_conv_nth)
             (auto simp: unuse_def in_set_conv_nth)
        then show ?thesis using False "1.prems"(2,3) by simp
      next
        case (Some v)
        obtain j w where v: "v = (j, w)" by (cases v)
        have j: "j < length ss" "ss ! j = w" "sl_used w" "j \<noteq> t"
          using pick_victim_0 Some v by simp_all
        have jt: "unuse t ss ! j = w" using j "1.prems"(1) by (simp add: unuse_nth)
        have "used_bytes (unuse j (unuse t ss)) + slot_bytes (unuse t ss ! j) = used_bytes (unuse t ss)"
          by (rule unuse_bytes) (simp add: j(1))
        then have "used_bytes (unuse t (unuse j ss)) + length (sl_value w) = used_bytes (unuse t ss)"
          unfolding unuse_swap [OF j(4)] jt using j(3) by (simp add: slot_bytes_def)
        then have p': "projected - length (sl_value w) = used_bytes (unuse t (unuse j ss)) + new"
          using "1.prems"(2) by simp
        have "evict_loop max_bytes t (projected - length (sl_value w)) (unuse j ss) (count_eviction st)
            = (ok, ss', st')"
          using "1.prems"(4) False Some v by (subst (asm) evict_loop.simps) simp
        then have "ok \<and> weaker (unuse j ss) ss' \<and> ss' ! t = unuse j ss ! t \<and>
            used_bytes (unuse t ss') + new \<le> max_bytes"
          using "1.IH" [OF False Some v [symmetric]] "1.prems"(1,3) p' by simp
        moreover have "unuse j ss ! t = ss ! t" using j(4) by (simp add: unuse_def)
        ultimately show ?thesis using weaker_trans [OF weaker_unuse [of ss j], of ss'] by metis
      qed
    qed
  qed
  then show "ok" and "weaker ss ss'" and "ss' ! t = ss ! t" and "used_bytes (unuse t ss') + new \<le> max_bytes"
    by simp_all
qed

subsection \<open>Insertion\<close>

text \<open>When an insertion is carried out: the sizes fit and some slot can be given up.\<close>

definition storable :: "nat \<Rightarrow> string \<Rightarrow> bytes \<Rightarrow> bool" where
  "storable l1_max_bytes full data \<longleftrightarrow>
     length data \<le> CACHE_VALUE_MAX \<and> length full < CACHE_KEY_MAX \<and> length data \<le> l1_max_bytes"

lemma shm_put_refused:
  "\<not> storable l1_max_bytes full data \<Longrightarrow>
   fst (php_bacnet_shm_put max_entries l1_max_bytes p full data expiry shm st) = shm"
  by (auto simp: php_bacnet_shm_put_def storable_def Let_def split: option.splits prod.splits)

definition new_slot :: "nat \<Rightarrow> string \<Rightarrow> bytes \<Rightarrow> u64 \<Rightarrow> u64 \<Rightarrow> cache_slot" where
  "new_slot p full data expiry tick =
     \<lparr>sl_used = True, sl_partition = p, sl_key = full, sl_value = data, sl_expires = expiry, sl_touched = tick\<rparr>"

lemma shm_put_stored:
  assumes st: "storable l1_max_bytes full data"
    and put: "php_bacnet_shm_put max_entries l1_max_bytes p full data expiry shm st = (shm', st')"
  obtains (none) "put_target max_entries (put_scan_loop p full 0 (shm_slots shm) put_scan_init) st = (None, st)"
      "shm' = shm"
  | (stored) t st1 ss where
      "put_target max_entries (put_scan_loop p full 0 (shm_slots shm) put_scan_init) st = (Some t, st1)"
      "t < length (shm_slots shm)" "weaker (shm_slots shm) ss" "ss ! t = shm_slots shm ! t"
      "used_bytes (unuse t ss) + length data \<le> l1_max_bytes"
      "shm' = shm\<lparr>shm_tick := shm_tick shm + 1,
        shm_slots := ss[t := new_slot p full data expiry (shm_tick shm + 1)]\<rparr>"
proof -
  let ?ss = "shm_slots shm"
  let ?ps = "put_scan_loop p full 0 ?ss put_scan_init"
  obtain target st1 where pt: "put_target max_entries ?ps st = (target, st1)"
    by (cases "put_target max_entries ?ps st")
  have fits: "length data \<le> CACHE_VALUE_MAX" "length full < CACHE_KEY_MAX" "length data \<le> l1_max_bytes"
    using st by (simp_all add: storable_def)
  show thesis
  proof (cases target)
    case None
    then have "st1 = st" "shm' = shm"
      using pt put fits by (auto simp: put_target_def php_bacnet_shm_put_def Let_def split: if_splits)
    then show ?thesis using none pt None by simp
  next
    case (Some t)
    have t: "t < length ?ss" using put_target(1) [OF refl pt [unfolded Some]] .
    have ub: "ps_used_bytes ?ps = used_bytes ?ss"
      using scan_all [of p full ?ss] by (simp add: scan_inv_def)
    let ?proj = "ps_used_bytes ?ps - (if sl_used (?ss ! t) then length (sl_value (?ss ! t)) else 0) + length data"
    have proj: "?proj = used_bytes (unuse t ?ss) + length data"
      using unuse_bytes [OF t] by (simp add: ub slot_bytes_def)
    obtain ok ss st2 where ev: "evict_loop l1_max_bytes t ?proj ?ss st1 = (ok, ss, st2)"
      by (cases "evict_loop l1_max_bytes t ?proj ?ss st1")
    note e = evict_loop_ok [OF t proj fits(3) ev]
    have "shm' = shm\<lparr>shm_tick := shm_tick shm + 1,
        shm_slots := ss[t := new_slot p full data expiry (shm_tick shm + 1)]\<rparr>"
      using put fits unfolding php_bacnet_shm_put_def Let_def pt Some prod.case option.case ev
      by (simp add: e(1) new_slot_def)
    then show ?thesis using stored [OF pt [unfolded Some] t e(2,3,4)] by simp
  qed
qed

text \<open>
  The target of an insertion is the only slot that can hold the key, so the insertion keeps
  the keys distinct, adds its own entry and otherwise only gives up entries.
\<close>

lemma shm_put_slots:
  assumes wf: "slots_wf (shm_slots shm)" and st: "storable l1_max_bytes full data"
    and put: "php_bacnet_shm_put max_entries l1_max_bytes p full data expiry shm st = (shm', st')"
  shows "slots_wf (shm_slots shm')"
    and "i < length (shm_slots shm') \<Longrightarrow> holds q full (shm_slots shm' ! i) \<Longrightarrow> shm' \<noteq> shm \<Longrightarrow>
      q = p \<and> sl_value (shm_slots shm' ! i) = data \<and> sl_expires (shm_slots shm' ! i) = expiry"
    and "i < length (shm_slots shm') \<Longrightarrow> holds q k (shm_slots shm' ! i) \<Longrightarrow> k \<noteq> full \<Longrightarrow>
      holds q k (shm_slots shm ! i) \<and> sl_value (shm_slots shm' ! i) = sl_value (shm_slots shm ! i) \<and>
      sl_expires (shm_slots shm' ! i) = sl_expires (shm_slots shm ! i)"
    and "length (shm_slots shm') = length (shm_slots shm)"
proof -
  have kd: "keys_distinct (shm_slots shm)" using wf by (simp add: slots_wf_def)
  have "slots_wf (shm_slots shm') \<and> length (shm_slots shm') = length (shm_slots shm) \<and>
    (\<forall>i < length (shm_slots shm'). (holds q full (shm_slots shm' ! i) \<and> shm' \<noteq> shm \<longrightarrow>
      q = p \<and> sl_value (shm_slots shm' ! i) = data \<and> sl_expires (shm_slots shm' ! i) = expiry) \<and>
     (holds q k (shm_slots shm' ! i) \<and> k \<noteq> full \<longrightarrow>
      holds q k (shm_slots shm ! i) \<and> sl_value (shm_slots shm' ! i) = sl_value (shm_slots shm ! i) \<and>
      sl_expires (shm_slots shm' ! i) = sl_expires (shm_slots shm ! i)))" for q k
    using st put
  proof (cases rule: shm_put_stored)
    case none
    then show ?thesis using wf by simp
  next
    case (stored t st1 ss)
    let ?n = "new_slot p full data expiry (shm_tick shm + 1)"
    have len: "length ss = length (shm_slots shm)" using stored(3) by (simp add: weaker_def)
    have t: "t < length ss" using stored(2) len by simp
    have w: "slots_wf ss" using weaker_wf [OF wf stored(3)] .
    have only: "j = t" if "j < length ss" "sl_used (ss ! j)" "sl_key (ss ! j) = full" for j
      using put_target(2) [OF refl stored(1), of j] that stored(3) kd len by (auto simp: weaker_def)
    have "keys_distinct (ss[t := ?n])"
      unfolding keys_distinct_def
    proof (intro allI impI)
      fix i j
      assume ij: "i < length (ss[t := ?n])" "j < length (ss[t := ?n])"
        "sl_used (ss[t := ?n] ! i) \<and> sl_used (ss[t := ?n] ! j) \<and> sl_key (ss[t := ?n] ! i) = sl_key (ss[t := ?n] ! j)"
      have kn: "sl_key ?n = full" by (simp add: new_slot_def)
      consider "i = t" "j = t" | "i = t" "j \<noteq> t" | "i \<noteq> t" "j = t" | "i \<noteq> t" "j \<noteq> t" by blast
      then show "i = j"
      proof cases
        case 2
        then have "sl_used (ss ! j)" "sl_key (ss ! j) = full" using ij kn t by simp_all
        then show ?thesis using only [of j] ij(2) 2 by simp
      next
        case 3
        then have "sl_used (ss ! i)" "sl_key (ss ! i) = full" using ij kn t by simp_all
        then show ?thesis using only [of i] ij(1) 3 by simp
      next
        case 4
        then show ?thesis using keys_distinctD [of ss i j] w ij by (simp add: slots_wf_def)
      qed simp
    qed
    moreover have "list_all slot_ok (ss[t := ?n])"
    proof -
      have "slot_ok ?n" using st by (simp add: slot_ok_def new_slot_def storable_def)
      moreover have "list_all slot_ok ss" using w by (simp add: slots_wf_def)
      ultimately show ?thesis
        unfolding list_all_iff using set_update_subset_insert [of ss t ?n] by blast
    qed
    ultimately have "slots_wf (ss[t := ?n])" using w by (simp add: slots_wf_def)
    moreover have "(holds q full (ss[t := ?n] ! i) \<longrightarrow>
        q = p \<and> sl_value (ss[t := ?n] ! i) = data \<and> sl_expires (ss[t := ?n] ! i) = expiry) \<and>
       (holds q k (ss[t := ?n] ! i) \<and> k \<noteq> full \<longrightarrow>
        holds q k (shm_slots shm ! i) \<and> sl_value (ss[t := ?n] ! i) = sl_value (shm_slots shm ! i) \<and>
        sl_expires (ss[t := ?n] ! i) = sl_expires (shm_slots shm ! i))" if i: "i < length ss" for i
    proof (cases "i = t")
      case True
      then show ?thesis using t by (auto simp: holds_def new_slot_def)
    next
      case False
      then have e: "ss[t := ?n] ! i = ss ! i" by simp
      have "\<not> holds q full (ss ! i)" using only [OF i] False by (auto simp: holds_def)
      then show ?thesis unfolding e using stored(3) i len by (auto simp: weaker_def holds_def)
    qed
    ultimately show ?thesis using stored(6) len by simp
  qed
  then show "slots_wf (shm_slots shm')"
    and "i < length (shm_slots shm') \<Longrightarrow> holds q full (shm_slots shm' ! i) \<Longrightarrow> shm' \<noteq> shm \<Longrightarrow>
      q = p \<and> sl_value (shm_slots shm' ! i) = data \<and> sl_expires (shm_slots shm' ! i) = expiry"
    and "i < length (shm_slots shm') \<Longrightarrow> holds q k (shm_slots shm' ! i) \<Longrightarrow> k \<noteq> full \<Longrightarrow>
      holds q k (shm_slots shm ! i) \<and> sl_value (shm_slots shm' ! i) = sl_value (shm_slots shm ! i) \<and>
      sl_expires (shm_slots shm' ! i) = sl_expires (shm_slots shm ! i)"
    and "length (shm_slots shm') = length (shm_slots shm)" by blast+
qed

subsection \<open>What an insertion achieves\<close>

text \<open>No slot was touched at the last value of the clock, which no process lives to see.\<close>

definition ticks_ok :: "cache_slot list \<Rightarrow> bool" where
  "ticks_ok ss \<longleftrightarrow> list_all (\<lambda>s. sl_used s \<longrightarrow> sl_touched s < UINT64_MAX) ss"

text \<open>A full key names its partition.\<close>

definition key_partition :: "string \<Rightarrow> nat \<Rightarrow> cache_slot list \<Rightarrow> bool" where
  "key_partition full p ss \<longleftrightarrow> list_all (\<lambda>s. sl_used s \<and> sl_key s = full \<longrightarrow> sl_partition s = p) ss"

lemma put_target_None:
  assumes pt: "put_target max_entries (put_scan_loop p full 0 ss put_scan_init) st = (None, st')"
  shows "\<not> (\<exists>j < length ss. sl_used (ss ! j) \<and> sl_key (ss ! j) = full)"
    and "ticks_ok ss \<Longrightarrow> ss \<noteq> [] \<Longrightarrow> 0 < max_entries \<Longrightarrow> False"
proof -
  let ?ps = "put_scan_loop p full 0 ss put_scan_init"
  have inv: "scan_inv p full ss (length ss) ?ps" by (rule scan_all)
  have nf: "\<not> ps_found ?ps"
    using inv pt by (auto simp: scan_inv_def put_target_def split: if_splits option.splits)
  then show "\<not> (\<exists>j < length ss. sl_used (ss ! j) \<and> sl_key (ss ! j) = full)"
    using inv unfolding scan_inv_def by blast
  show False if "ticks_ok ss" "ss \<noteq> []" "0 < max_entries"
  proof -
    have lru: "ps_lru ?ps = None" "ps_global_lru ?ps = None" if "ps_target ?ps = None \<or> max_entries \<le> ps_count ?ps"
      using pt that nf by (auto simp: put_target_def Let_def split: if_splits option.splits)
    have cond: "ps_target ?ps = None \<or> max_entries \<le> ps_count ?ps"
      using pt nf by (auto simp: put_target_def split: if_splits)
    have "case ps_global_lru ?ps of
        None \<Rightarrow> ps_global_oldest ?ps = UINT64_MAX \<and>
          (\<forall>j < length ss. sl_used (ss ! j) \<longrightarrow> sl_touched (ss ! j) = UINT64_MAX)
      | Some t \<Rightarrow> t < length ss \<and> sl_used (ss ! t)"
      using inv unfolding scan_inv_def by blast
    then have un: "\<not> sl_used (ss ! j)" if "j < length ss" for j
      using lru(2) [OF cond] \<open>ticks_ok ss\<close> that by (fastforce simp: ticks_ok_def list_all_length)
    have "ps_target ?ps \<noteq> None"
      using inv un \<open>ss \<noteq> []\<close> by (auto simp: scan_inv_def split: option.splits)
    moreover have "ps_count ?ps = of_nat (partition_count p ss)"
      using inv by (simp add: scan_inv_def)
    moreover have "partition_count p ss = 0"
      using un by (auto simp: partition_count_def filter_empty_conv in_partition_def in_set_conv_nth)
    ultimately show False using cond \<open>0 < max_entries\<close> by auto
  qed
qed

lemma shm_put_done:
  assumes "storable l1_max_bytes full data" "ticks_ok (shm_slots shm)" "shm_slots shm \<noteq> []" "0 < max_entries"
    and "php_bacnet_shm_put max_entries l1_max_bytes p full data expiry shm st = (shm', st')"
  obtains t st1 ss where
      "put_target max_entries (put_scan_loop p full 0 (shm_slots shm) put_scan_init) st = (Some t, st1)"
      "t < length (shm_slots shm)" "weaker (shm_slots shm) ss" "ss ! t = shm_slots shm ! t"
      "used_bytes (unuse t ss) + length data \<le> l1_max_bytes"
      "shm_slots shm' = ss[t := new_slot p full data expiry (shm_tick shm + 1)]"
  using assms(1,5)
proof (cases rule: shm_put_stored)
  case none
  then show ?thesis using put_target_None(2) assms(2,3,4) by blast
next
  case (stored t st1 ss)
  then show ?thesis using that by simp
qed

lemma weaker_partition_count: "weaker ss ss' \<Longrightarrow> partition_count p ss' \<le> partition_count p ss"
proof -
  assume w: "weaker ss ss'"
  have "card {i. i < length ss' \<and> in_partition p (ss' ! i)} \<le> card {i. i < length ss \<and> in_partition p (ss ! i)}"
    using w by (intro card_mono) (auto simp: weaker_def in_partition_def)
  then show ?thesis by (simp add: partition_count_def length_filter_conv_card)
qed

lemma l1_lookup_new:
  assumes wf: "slots_wf (shm_slots shm)" and st: "storable l1_max_bytes full data"
    and put: "php_bacnet_shm_put max_entries l1_max_bytes p full data expiry shm st = (shm', st')"
    and l: "l1_lookup q full now (shm_slots shm') = Some u"
  shows "q = p \<and> u = data \<and> now < expiry"
proof -
  have kd: "keys_distinct (shm_slots shm')" using shm_put_slots(1) [OF wf st put] by (simp add: slots_wf_def)
  obtain i where i: "i < length (shm_slots shm')" "holds q full (shm_slots shm' ! i)"
      "now < sl_expires (shm_slots shm' ! i)" "sl_value (shm_slots shm' ! i) = u"
    using l l1_lookup_iff [OF kd] by blast
  have "shm' \<noteq> shm"
    using st put
  proof (cases rule: shm_put_stored)
    case none
    then show ?thesis using put_target_None(1) [OF none(1)] i by (auto simp: holds_def)
  next
    case (stored t st1 ss)
    have "shm_tick shm' = shm_tick shm + 1" using stored(6) by simp
    then show ?thesis by auto
  qed
  then show ?thesis using shm_put_slots(2) [OF wf st put i(1,2)] i by simp
qed

lemma l1_lookup_kept:
  assumes wf: "slots_wf (shm_slots shm)" and st: "storable l1_max_bytes full data"
    and put: "php_bacnet_shm_put max_entries l1_max_bytes p full data expiry shm st = (shm', st')"
    and l: "l1_lookup q k now (shm_slots shm') = Some u" and k: "k \<noteq> full"
  shows "l1_lookup q k now (shm_slots shm) = Some u"
proof -
  have kd: "keys_distinct (shm_slots shm')" "keys_distinct (shm_slots shm)"
    using shm_put_slots(1) [OF wf st put] wf by (simp_all add: slots_wf_def)
  obtain i where i: "i < length (shm_slots shm')" "holds q k (shm_slots shm' ! i)"
      "now < sl_expires (shm_slots shm' ! i)" "sl_value (shm_slots shm' ! i) = u"
    using l l1_lookup_iff [OF kd(1)] by blast
  then show ?thesis
    using shm_put_slots(3) [OF wf st put i(1,2) k] shm_put_slots(4) [OF wf st put] l1_lookup_iff [OF kd(2)]
    by metis
qed

lemma shm_clear_weaker: "weaker (shm_slots shm) (shm_slots (php_bacnet_shm_clear_partition part shm))"
  by (auto simp: weaker_def php_bacnet_shm_clear_partition_def)

subsection \<open>The table is a lossy cache\<close>

text \<open>The state of a run: the table and the statistics of the process.\<close>

type_synonym l1_state = "cache_shm \<times> cache_stats"

type_synonym l1_event = "(nat \<times> string, bytes, int) cache_event"

definition l1_inv :: "l1_state \<Rightarrow> bool" where
  "l1_inv s \<longleftrightarrow> slots_wf (shm_slots (fst s))"

definition l1_insert :: "(nat \<Rightarrow> u32) \<Rightarrow> nat \<Rightarrow> nat \<times> string \<Rightarrow> bytes \<Rightarrow> u64 \<Rightarrow> l1_state \<Rightarrow> l1_state" where
  "l1_insert mx mb k data e s = php_bacnet_shm_put (mx (fst k)) mb (fst k) (snd k) data e (fst s) (snd s)"

definition l1_probe :: "nat \<times> string \<Rightarrow> u64 \<Rightarrow> l1_state \<Rightarrow> l1_state" where
  "l1_probe k now s = snd (php_bacnet_shm_get (fst k) (snd k) CACHE_VALUE_MAX now (fst s) (snd s))"

definition l1_clear :: "int \<Rightarrow> l1_state \<Rightarrow> l1_state" where
  "l1_clear part s = (php_bacnet_shm_clear_partition part (fst s), snd s)"

lemma l1_kd: "l1_inv s \<Longrightarrow> keys_distinct (shm_slots (fst s))"
  by (simp add: l1_inv_def slots_wf_def)

lemma l1_weaker:
  assumes "l1_inv s" "weaker (shm_slots (fst s)) (shm_slots (fst s'))"
  shows "l1_inv s'"
    and "l1_lookup p k now (shm_slots (fst s')) = Some u \<Longrightarrow> l1_lookup p k now (shm_slots (fst s)) = Some u"
proof -
  show i: "l1_inv s'" using assms weaker_wf by (simp add: l1_inv_def)
  show "l1_lookup p k now (shm_slots (fst s)) = Some u" if "l1_lookup p k now (shm_slots (fst s')) = Some u"
    by (rule weaker_lookup [OF l1_kd [OF assms(1)] l1_kd [OF i] assms(2) that])
qed

text \<open>The shared-memory table is an instance of the interface.\<close>

interpretation l1: lossy_cache l1_inv
  "\<lambda>k now s. l1_lookup (fst k) (snd k) now (shm_slots (fst s))"
  "\<lambda>k. storable mb (snd k)"
  "l1_insert mx mb" l1_probe l1_clear
  for mx mb
proof
  fix s :: l1_state and k k' :: "nat \<times> string" and v u :: bytes and e now now' :: u64 and c :: int
  assume inv: "l1_inv s"
  show "l1_inv (l1_probe k now s)" "l1_inv (l1_clear c s)"
    using l1_weaker(1) [OF inv] shm_get_weaker shm_clear_weaker by (simp_all add: l1_probe_def l1_clear_def)
  show "l1_lookup (fst k') (snd k') now' (shm_slots (fst s)) = Some u"
    if "l1_lookup (fst k') (snd k') now' (shm_slots (fst (l1_probe k now s))) = Some u"
    using l1_weaker(2) [OF inv _ that] shm_get_weaker by (simp add: l1_probe_def)
  show "l1_lookup (fst k') (snd k') now' (shm_slots (fst s)) = Some u"
    if "l1_lookup (fst k') (snd k') now' (shm_slots (fst (l1_clear c s))) = Some u"
    using l1_weaker(2) [OF inv _ that] shm_clear_weaker by (simp add: l1_clear_def)
  assume adm: "storable mb (snd k) v"
  have wf: "slots_wf (shm_slots (fst s))" using inv by (simp add: l1_inv_def)
  obtain shm' st' where put: "l1_insert mx mb k v e s = (shm', st')" by (cases "l1_insert mx mb k v e s")
  note put' = put [unfolded l1_insert_def]
  show "l1_inv (l1_insert mx mb k v e s)"
    using shm_put_slots(1) [OF wf adm put'] put by (simp add: l1_inv_def)
  show "u = v \<and> now < e" if "l1_lookup (fst k) (snd k) now (shm_slots (fst (l1_insert mx mb k v e s))) = Some u"
    using l1_lookup_new [OF wf adm put'] that put by simp
  show "l1_lookup (fst k') (snd k') now (shm_slots (fst s)) = Some u"
    if "k' \<noteq> k" and l: "l1_lookup (fst k') (snd k') now (shm_slots (fst (l1_insert mx mb k v e s))) = Some u"
  proof (cases "snd k' = snd k")
    case True
    then have "fst k' = fst k" using l1_lookup_new [OF wf adm put'] l put by simp
    then show ?thesis using that(1) True by (simp add: prod_eq_iff)
  next
    case False
    then show ?thesis using l1_lookup_kept [OF wf adm put'] l put by simp
  qed
qed

text \<open>A run of operations on the table, by any processes in any order.\<close>

fun l1_step :: "(nat \<Rightarrow> u32) \<Rightarrow> nat \<Rightarrow> l1_event \<Rightarrow> l1_state \<Rightarrow> l1_state" where
  "l1_step mx mb (Insert k v e) s = l1_insert mx mb k v e s"
| "l1_step mx mb (Probe k now) s = l1_probe k now s"
| "l1_step mx mb (Clear c) s = l1_clear c s"

definition l1_run :: "(nat \<Rightarrow> u32) \<Rightarrow> nat \<Rightarrow> l1_event list \<Rightarrow> cache_stats \<Rightarrow> l1_state" where
  "l1_run mx mb es st = foldl (\<lambda>s ev. l1_step mx mb ev s) (php_bacnet_shm_init, st) es"

lemma l1_step_event: "l1_step mx mb ev s = l1.event mx mb ev s"
  by (cases ev) simp_all

definition storable_event :: "nat \<Rightarrow> l1_event \<Rightarrow> bool" where
  "storable_event mb ev = (case ev of Insert k v e \<Rightarrow> storable mb (snd k) v | _ \<Rightarrow> True)"

lemma init_wf: "slots_wf (shm_slots php_bacnet_shm_init)"
  by (simp add: slots_wf_def keys_distinct_def php_bacnet_shm_init_def empty_slot_def list_all_length slot_ok_def)

lemma init_lookup: "l1_lookup p k now (shm_slots php_bacnet_shm_init) = None"
proof -
  have "find_slot (holds p k) 0 (shm_slots php_bacnet_shm_init) = None"
    unfolding find_slot_None by (simp add: php_bacnet_shm_init_def holds_def empty_slot_def)
  then show ?thesis by (simp add: l1_lookup_def)
qed

lemma l1_run_sound:
  assumes "list_all (storable_event mb) es"
  shows "slots_wf (shm_slots (fst (l1_run mx mb es st)))"
    and "l1_lookup p k now (shm_slots (fst (l1_run mx mb es st))) = Some u \<Longrightarrow>
      \<exists>e. last_insert (p, k) es = Some (u, e) \<and> now < e"
proof -
  have adm: "l1.admissible_events mb es"
    using assms by (auto simp: l1.admissible_events_def list_all_iff storable_event_def split: cache_event.splits)
  have run: "l1_run mx mb es st = foldl (\<lambda>s ev. l1.event mx mb ev s) (php_bacnet_shm_init, st) es"
    unfolding l1_run_def l1_step_event ..
  have "l1_inv (php_bacnet_shm_init, st)" using init_wf by (simp add: l1_inv_def)
  note ns = l1.no_stale_lookup [OF this _ adm, of mx "(p, k)" now u, simplified init_lookup fst_conv snd_conv, simplified]
  show "slots_wf (shm_slots (fst (l1_run mx mb es st)))"
    using ns unfolding run l1_inv_def by simp
  show "\<exists>e. last_insert (p, k) es = Some (u, e) \<and> now < e"
    if "l1_lookup p k now (shm_slots (fst (l1_run mx mb es st))) = Some u"
    using ns that unfolding run by simp
qed

subsection \<open>Properties\<close>

lemma slots_not_empty: "slots_wf ss \<Longrightarrow> ss \<noteq> []"
  by (auto simp: slots_wf_def CACHE_SHM_SLOTS_def)

lemma init_ticks: "ticks_ok (shm_slots php_bacnet_shm_init)"
  by (simp add: ticks_ok_def php_bacnet_shm_init_def empty_slot_def list_all_length)

lemma holds_new:
  "holds p full (new_slot p full data expiry tick) \<and> sl_expires (new_slot p full data expiry tick) = expiry \<and>
   sl_value (new_slot p full data expiry tick) = data"
  by (simp add: holds_def new_slot_def)

lemma shm_put_get_value:
  assumes "slots_wf (shm_slots shm)" "ticks_ok (shm_slots shm)"
    and "storable l1_max_bytes full data" "0 < max_entries"
    and "now < expiry" "length data \<le> cap"
  shows "fst (php_bacnet_shm_get p full cap now
      (fst (php_bacnet_shm_put max_entries l1_max_bytes p full data expiry shm st)) st2) = Some data"
proof -
  obtain shm' st' where put: "php_bacnet_shm_put max_entries l1_max_bytes p full data expiry shm st = (shm', st')"
    by (cases "php_bacnet_shm_put max_entries l1_max_bytes p full data expiry shm st")
  have kd: "keys_distinct (shm_slots shm')"
    using shm_put_slots(1) [OF assms(1,3) put] by (simp add: slots_wf_def)
  show ?thesis
    using assms(3,2) slots_not_empty [OF assms(1)] assms(4) put
  proof (rule shm_put_done)
    fix t st1 ss
    assume t: "t < length (shm_slots shm)" "weaker (shm_slots shm) ss"
      and s: "shm_slots shm' = ss[t := new_slot p full data expiry (shm_tick shm + 1)]"
    have "t < length ss" using t by (simp add: weaker_def)
    then have "l1_lookup p full now (shm_slots shm') = Some data"
      using l1_lookup_iff [OF kd] assms(5) unfolding s
      by (metis (mono_tags, lifting) holds_new length_list_update nth_list_update_eq)
    then show ?thesis using put assms(6) by (simp add: shm_get_result)
  qed
qed

text \<open>
  An insertion whose key and value fit is carried out, whatever the table holds: the slot is
  taken from the free ones or from the entries of the partition, others are evicted until the
  value fits the budget, and a lookup of the key before the expiry time, with a buffer that is
  large enough, gives exactly the bytes that were stored.
\<close>

theorem shm_put_get:
  assumes "slots_wf (shm_slots shm)" "ticks_ok (shm_slots shm)"
    and "storable l1_max_bytes full data" "0 < max_entries"
    and "now < expiry" "length data \<le> cap"
  shows "fst (php_bacnet_shm_get p full cap now
      (fst (php_bacnet_shm_put max_entries l1_max_bytes p full data expiry shm st)) st2) = Some data"
  by (rule shm_put_get_value [OF assms])

lemma shm_put_get_witness:
  "fst (php_bacnet_shm_get 4 ''p|k'' 8 10 (fst (php_bacnet_shm_put 1 64 4 ''p|k'' [1, 2, 3] 11
     php_bacnet_shm_init empty_cache_stats)) empty_cache_stats) = Some [1, 2, 3]"
  by (rule shm_put_get [OF init_wf init_ticks])
     (simp_all add: storable_def CACHE_VALUE_MAX_def CACHE_KEY_MAX_def)

text \<open>C31.
  After an insertion the values in the table together take at most the configured number of
  bytes, whatever they took before, and the partition of the new entry has at most the
  configured number of entries unless it had more already, in which case it does not grow.
\<close>

theorem shm_put_limits:
  assumes "slots_wf (shm_slots shm)" "ticks_ok (shm_slots shm)" "key_partition full p (shm_slots shm)"
    and "storable l1_max_bytes full data" "0 < max_entries"
    and "php_bacnet_shm_put max_entries l1_max_bytes p full data expiry shm st = (shm', st')"
  shows "used_bytes (shm_slots shm') \<le> l1_max_bytes \<and>
    partition_count p (shm_slots shm') \<le> max (unat max_entries) (partition_count p (shm_slots shm))"
  using assms(4,2) slots_not_empty [OF assms(1)] assms(5,6)
proof (rule shm_put_done)
  let ?n = "new_slot p full data expiry (shm_tick shm + 1)"
  fix t st1 ss
  assume pt: "put_target max_entries (put_scan_loop p full 0 (shm_slots shm) put_scan_init) st = (Some t, st1)"
    and t: "t < length (shm_slots shm)" and w: "weaker (shm_slots shm) ss" and e: "ss ! t = shm_slots shm ! t"
    and b: "used_bytes (unuse t ss) + length data \<le> l1_max_bytes" and s: "shm_slots shm' = ss[t := ?n]"
  have t': "t < length ss" using t w by (simp add: weaker_def)
  have "used_bytes (ss[t := ?n]) + slot_bytes (ss ! t) = used_bytes ss + length data"
    using used_bytes_update [OF t', of ?n] by (simp add: slot_bytes_def new_slot_def)
  moreover have "used_bytes (unuse t ss) + slot_bytes (ss ! t) = used_bytes ss" by (rule unuse_bytes [OF t'])
  ultimately have "used_bytes (shm_slots shm') \<le> l1_max_bytes" using b s by simp
  moreover have "partition_count p (shm_slots shm) < unat max_entries \<or> in_partition p (ss ! t)"
    unfolding e
  proof (rule put_target(3) [OF refl pt])
    show "length (shm_slots shm) < 2 ^ 32" using assms(1) by (simp add: slots_wf_def CACHE_SHM_SLOTS_def)
    show "0 < unat max_entries" using assms(5) by (simp add: word_less_nat_alt)
  qed (use assms(2,3) in \<open>auto simp: ticks_ok_def key_partition_def list_all_length\<close>)
  moreover have "partition_count p (ss[t := ?n]) + (if in_partition p (ss ! t) then 1 else 0) = partition_count p ss + 1"
    using partition_count_update [OF t', of p ?n] by (simp add: in_partition_def new_slot_def)
  ultimately show ?thesis
    using weaker_partition_count [OF w, of p] s by (auto split: if_splits)
qed

lemma shm_put_limits_witness:
  "let shm' = fst (php_bacnet_shm_put 1 64 4 ''p|k'' [1, 2, 3] 11 php_bacnet_shm_init empty_cache_stats)
   in used_bytes (shm_slots shm') \<le> 64 \<and> partition_count 4 (shm_slots shm') \<le> 1"
proof -
  let ?put = "php_bacnet_shm_put 1 64 4 ''p|k'' [1, 2, 3] 11 php_bacnet_shm_init empty_cache_stats"
  have kp: "key_partition ''p|k'' 4 (shm_slots php_bacnet_shm_init)"
    by (simp add: key_partition_def php_bacnet_shm_init_def empty_slot_def list_all_length)
  have "partition_count 4 (shm_slots php_bacnet_shm_init) = 0"
    by (simp add: partition_count_def php_bacnet_shm_init_def empty_slot_def in_partition_def filter_replicate)
  then show ?thesis
    using shm_put_limits [OF init_wf init_ticks kp, of 64 "[1, 2, 3]" 1 11 empty_cache_stats "fst ?put" "snd ?put"]
    by (simp add: storable_def CACHE_VALUE_MAX_def CACHE_KEY_MAX_def Let_def)
qed

text \<open>C12.
  Whatever sequence of insertions, lookups and clearings the processes have carried out on a
  new table, a lookup never gives a stale value: what it gives for a partition and key is the
  value of the last insertion for them, and that has not expired at the time of the lookup.
\<close>

theorem shm_never_stale:
  assumes "list_all (storable_event mb) es"
    and "l1_run mx mb es st = (shm, st')"
    and "fst (php_bacnet_shm_get p full cap now shm st2) = Some v"
  shows "\<exists>e. last_insert (p, full) es = Some (v, e) \<and> now < e"
proof -
  have "l1_lookup p full now (shm_slots (fst (l1_run mx mb es st))) = Some v"
    using assms(2,3) by (simp add: shm_get_result split: option.splits if_splits)
  then show ?thesis by (rule l1_run_sound(2) [OF assms(1)])
qed

lemma shm_never_stale_witness:
  "\<exists>e. last_insert (4, ''k'') ([Insert (4, ''k'') [2] 12] :: l1_event list) = Some ([2], e) \<and> (8::u64) < e"
proof -
  let ?es = "[Insert (4, ''k'') [2] 12] :: l1_event list"
  let ?r = "l1_run (\<lambda>_. 1) 64 ?es empty_cache_stats"
  have s: "storable 64 ''k'' [2]"
    by (simp add: storable_def CACHE_VALUE_MAX_def CACHE_KEY_MAX_def)
  have es: "list_all (storable_event 64) ?es" using s by (simp add: storable_event_def)
  have run: "?r = php_bacnet_shm_put 1 64 4 ''k'' [2] 12 php_bacnet_shm_init empty_cache_stats"
    by (simp add: l1_run_def l1_insert_def)
  have "fst (php_bacnet_shm_get 4 ''k'' 8 8 (fst ?r) empty_cache_stats) = Some [2]"
    unfolding run by (rule shm_put_get_value [OF init_wf init_ticks s]) simp_all
  then show ?thesis
    using shm_never_stale [OF es, of "\<lambda>_. 1" empty_cache_stats "fst ?r" "snd ?r" 4 "''k''" 8 8 empty_cache_stats "[2]"] by simp
qed

end
