(* ===== verification/Cache_L2.thy ===== *)
theory Cache_L2
  imports Prelude
begin

text \<open>
  The records of the persistent cache of src/bacnet_cache.c (level 2, LMDB): a header with a
  magic number, the length, the expiry time and a checksum, followed by the value.  The C code
  copies the header struct as it is in memory; the layout here is that of a little-endian
  machine (24 bytes without padding).  A record is taken as valid exactly when it is one that
  the writer produces.
\<close>

subsection \<open>Little-endian numbers\<close>

fun le_bytes :: "nat \<Rightarrow> nat \<Rightarrow> bytes" where
  "le_bytes 0 x = []"
| "le_bytes (Suc n) x = of_nat (x mod 256) # le_bytes n (x div 256)"

fun le_val :: "bytes \<Rightarrow> nat" where
  "le_val [] = 0"
| "le_val (b # bs) = unat b + 256 * le_val bs"

lemma length_le_bytes [simp]: "length (le_bytes n x) = n"
  by (induction n x rule: le_bytes.induct) simp_all

lemma unat_byte_of_nat [simp]: "unat (of_nat (x mod 256) :: u8) = x mod 256"
  unfolding unsigned_of_nat of_nat_id by (rule take_bit_nat_eq_self) simp

lemma le_val_le_bytes: "x < 256 ^ n \<Longrightarrow> le_val (le_bytes n x) = x"
proof (induction n x rule: le_bytes.induct)
  case (2 n x)
  then have "x div 256 < 256 ^ n" by (simp add: less_mult_imp_div_less mult.commute)
  then show ?case using 2 by simp
qed simp

lemma le_val_bound: "le_val bs < 256 ^ length bs"
proof (induction bs)
  case (Cons b bs)
  have "unat b < 256" using unsigned_less [of b, where ?'a = nat] by simp
  then show ?case using Cons by simp
qed simp

lemma le_bytes_le_val: "le_bytes (length bs) (le_val bs) = bs"
proof (induction bs)
  case (Cons b bs)
  have b: "unat b < 256" using unsigned_less [of b, where ?'a = nat] by simp
  then have "(unat b + 256 * le_val bs) mod 256 = unat b" "(unat b + 256 * le_val bs) div 256 = le_val bs"
    by simp_all
  then show ?case using Cons by simp
qed simp

subsection \<open>Records\<close>

definition PHP_BACNET_CACHE_MAGIC :: nat where "PHP_BACNET_CACHE_MAGIC = 0x42414348"

definition php_bacnet_hash_bytes :: "bytes \<Rightarrow> u64" where
  "php_bacnet_hash_bytes data = foldl fnv1a_step fnv1a_basis data"

record cache_value_header =
  vh_magic :: nat
  vh_length :: nat
  vh_expires :: u64
  vh_checksum :: u64

definition HEADER_SIZE :: nat where "HEADER_SIZE = 24"

definition encode_header :: "cache_value_header \<Rightarrow> bytes" where
  "encode_header h = le_bytes 4 (vh_magic h) @ le_bytes 4 (vh_length h) @
     le_bytes 8 (unat (vh_expires h)) @ le_bytes 8 (unat (vh_checksum h))"

definition decode_header :: "bytes \<Rightarrow> cache_value_header" where
  "decode_header bs =
    \<lparr>vh_magic = le_val (take 4 bs), vh_length = le_val (take 4 (drop 4 bs)),
     vh_expires = of_nat (le_val (take 8 (drop 8 bs))), vh_checksum = of_nat (le_val (take 8 (drop 16 bs)))\<rparr>"

text \<open>The buffer that php_bacnet_lmdb_put writes.\<close>

definition lmdb_record :: "bytes \<Rightarrow> u64 \<Rightarrow> bytes" where
  "lmdb_record data expiry =
     encode_header \<lparr>vh_magic = PHP_BACNET_CACHE_MAGIC, vh_length = length data, vh_expires = expiry,
                    vh_checksum = php_bacnet_hash_bytes data\<rparr> @ data"

text \<open>
  The checks of php_bacnet_lmdb_get in their order; now is the time of the single clock
  reading, which only happens once magic and length have passed.
\<close>

definition header_plausible :: "bytes \<Rightarrow> bool" where
  "header_plausible v \<longleftrightarrow> HEADER_SIZE \<le> length v \<and>
     vh_magic (decode_header v) = PHP_BACNET_CACHE_MAGIC \<and>
     vh_length (decode_header v) = length v - HEADER_SIZE"

definition lmdb_accept :: "nat \<Rightarrow> u64 \<Rightarrow> bytes \<Rightarrow> bytes option" where
  "lmdb_accept cap now v =
    (let h = decode_header v; stored = drop HEADER_SIZE v
     in if header_plausible v \<and> now < vh_expires h \<and> length stored \<le> cap \<and>
           vh_checksum h = php_bacnet_hash_bytes stored
        then Some stored else None)"

lemma unat_of_le_val: "length bs \<le> 8 \<Longrightarrow> unat (of_nat (le_val bs) :: u64) = le_val bs"
proof -
  assume "length bs \<le> 8"
  then have "(256::nat) ^ length bs \<le> 256 ^ 8" by (rule power_increasing) simp
  then have "le_val bs < 2 ^ LENGTH(64)" using le_val_bound [of bs] by simp
  then show ?thesis unfolding unsigned_of_nat of_nat_id by (rule take_bit_nat_eq_self)
qed

lemma unat_u64_bound: "unat (w::u64) < 256 ^ 8"
  using unsigned_less [of w, where ?'a = nat] by simp

lemma length_encode_header [simp]: "length (encode_header h) = HEADER_SIZE"
  by (simp add: encode_header_def HEADER_SIZE_def)

lemma decode_encode_header:
  assumes "vh_magic h < 256 ^ 4" "vh_length h < 256 ^ 4"
  shows "decode_header (encode_header h @ xs) = h"
proof -
  have "le_val (le_bytes 8 (unat w)) = unat w" for w :: u64
    by (rule le_val_le_bytes [OF unat_u64_bound])
  then show ?thesis
    using assms by (cases h) (simp add: decode_header_def encode_header_def le_val_le_bytes)
qed

lemma encode_decode_header:
  assumes "HEADER_SIZE \<le> length bs"
  shows "encode_header (decode_header bs) = take HEADER_SIZE bs"
proof -
  have l: "length (take 4 bs) = 4" "length (take 4 (drop 4 bs)) = 4" "length (take 8 (drop 8 bs)) = 8"
    "length (take 8 (drop 16 bs)) = 8"
    using assms by (simp_all add: HEADER_SIZE_def)
  have "encode_header (decode_header bs) = take 4 bs @ take 4 (drop 4 bs) @ take 8 (drop 8 bs) @ take 8 (drop 16 bs)"
    using le_bytes_le_val [of "take 4 bs"] le_bytes_le_val [of "take 4 (drop 4 bs)"]
      le_bytes_le_val [of "take 8 (drop 8 bs)"] le_bytes_le_val [of "take 8 (drop 16 bs)"]
    unfolding l by (simp add: encode_header_def decode_header_def unat_of_le_val)
  also have "\<dots> = take 24 bs"
    using take_add [of 4 20 bs] take_add [of 4 16 "drop 4 bs"] take_add [of 8 8 "drop 8 bs"] by simp
  finally show ?thesis by (simp add: HEADER_SIZE_def)
qed

lemma lmdb_accept_record:
  assumes "length data < 2 ^ 32" "now < expiry" "length data \<le> cap"
  shows "lmdb_accept cap now (lmdb_record data expiry) = Some data"
proof -
  let ?h = "\<lparr>vh_magic = PHP_BACNET_CACHE_MAGIC, vh_length = length data, vh_expires = expiry,
             vh_checksum = php_bacnet_hash_bytes data\<rparr>"
  have "decode_header (lmdb_record data expiry) = ?h"
    unfolding lmdb_record_def
    by (rule decode_encode_header) (use assms(1) in \<open>simp_all add: PHP_BACNET_CACHE_MAGIC_def\<close>)
  moreover have "drop HEADER_SIZE (lmdb_record data expiry) = data" by (simp add: lmdb_record_def)
  moreover have "length (lmdb_record data expiry) = HEADER_SIZE + length data" by (simp add: lmdb_record_def)
  ultimately show ?thesis using assms by (simp add: lmdb_accept_def header_plausible_def)
qed

text \<open>Nothing else is accepted: not a byte of the header can differ.\<close>

lemma lmdb_accept_only:
  assumes "lmdb_accept cap now v = Some data"
  shows "\<exists>expiry. v = lmdb_record data expiry \<and> now < expiry \<and> length data \<le> cap"
proof -
  let ?h = "decode_header v"
  have d: "data = drop HEADER_SIZE v" "HEADER_SIZE \<le> length v" "vh_magic ?h = PHP_BACNET_CACHE_MAGIC"
    "vh_length ?h = length data" "now < vh_expires ?h" "length data \<le> cap"
    "vh_checksum ?h = php_bacnet_hash_bytes data"
    using assms by (auto simp: lmdb_accept_def header_plausible_def Let_def split: if_splits)
  have "v = take HEADER_SIZE v @ data" using d(1) by simp
  also have "take HEADER_SIZE v = encode_header ?h" using encode_decode_header [OF d(2)] by simp
  also have "?h = \<lparr>vh_magic = PHP_BACNET_CACHE_MAGIC, vh_length = length data, vh_expires = vh_expires ?h,
             vh_checksum = php_bacnet_hash_bytes data\<rparr>"
    using d(3,4,7) by (cases ?h) simp
  finally have "v = lmdb_record data (vh_expires ?h)" unfolding lmdb_record_def .
  then show ?thesis using d(5,6) by blast
qed

end
