(* ===== verification/Cache.thy ===== *)
theory Cache
  imports Ini Cache_L1 Cache_L2
begin

text \<open>
  The cache of src/bacnet_cache.c as the client uses it: options, both levels and the PHP
  backend.  What lies outside the program is the record cache_env of functions: opening shared
  memory and taking its lock, the LMDB library (its state has type 'e) and the PHP backend
  object (its state has type 'b).  Conversions of doubles that C leaves undefined are also
  taken from it.  Every reading of the wall clock takes the next value of a sequence.
\<close>

datatype l2_kind = L2_NONE | L2_LMDB | L2_CALLBACK

definition partition_names :: "string list" where
  "partition_names = [''state'', ''object'', ''object_list'', ''device'', ''ip'', ''negative'']"

definition PHP_BACNET_CACHE_NEGATIVE :: nat where "PHP_BACNET_CACHE_NEGATIVE = 5"

record php_bacnet_cache =
  c_enabled :: bool
  c_part_enabled :: "bool list"
  c_ttl :: "dbl list"
  c_max_entries :: "u32 list"
  c_namespace_name :: string
  c_shm_name :: string
  c_lmdb_path :: string
  c_l1_max_bytes :: nat
  c_l2_max_bytes :: nat
  c_lmdb_map_size :: nat
  c_coherence_interval_ms :: u32
  c_log_interval :: dbl
  c_negative_whois_ttl :: dbl
  c_negative_read_ttl :: dbl
  c_last_log_ms :: u64
  c_l2 :: l2_kind
  c_shm :: "string option"
  c_env :: bool
  c_backend_active :: bool
  c_in_callback :: bool
  c_last_coherence_ms :: "u64 list"
  c_generations :: "u64 list"
  c_stats :: cache_stats

text \<open>
  The functions outside.  lm_scan gives the records a cursor visits from a key on (MDB_SET_RANGE,
  then MDB_NEXT), None when it cannot be opened; lm_commit gives the state after a transaction
  from the states before and within it; cb_call is None when the call fails or throws.
\<close>

record ('e, 'b) cache_env =
  os_shm_open :: "string \<Rightarrow> bool"
  os_lock :: "string \<Rightarrow> bool"
  lm_open :: "string \<Rightarrow> nat \<Rightarrow> 'e \<Rightarrow> 'e option"
  lm_close :: "'e \<Rightarrow> 'e"
  lm_get :: "string \<Rightarrow> 'e \<Rightarrow> bytes option"
  lm_put :: "string \<Rightarrow> bytes \<Rightarrow> 'e \<Rightarrow> 'e option"
  lm_scan :: "string \<Rightarrow> 'e \<Rightarrow> (string \<times> bytes) list option"
  lm_del :: "string \<Rightarrow> 'e \<Rightarrow> 'e"
  lm_commit :: "'e \<Rightarrow> 'e \<Rightarrow> 'e"
  lm_entries :: "'e \<Rightarrow> u64 option"
  cb_call :: "string \<Rightarrow> zval list \<Rightarrow> 'b \<Rightarrow> zval option \<times> 'b"
  conv_u64 :: "dbl \<Rightarrow> u64"

record ('e, 'b) cache_world =
  w_cache :: php_bacnet_cache
  w_clock :: "nat \<Rightarrow> u64"
  w_reads :: nat
  w_shms :: "string \<Rightarrow> cache_shm option"
  w_lmdb :: 'e
  w_backend :: 'b
  w_warnings :: "string list"

definition upd_cache :: "(php_bacnet_cache \<Rightarrow> php_bacnet_cache) \<Rightarrow> ('e, 'b) cache_world \<Rightarrow> ('e, 'b) cache_world" where
  "upd_cache f w = w\<lparr>w_cache := f (w_cache w)\<rparr>"

definition upd_stats :: "(cache_stats \<Rightarrow> cache_stats) \<Rightarrow> ('e, 'b) cache_world \<Rightarrow> ('e, 'b) cache_world" where
  "upd_stats f = upd_cache (\<lambda>c. c\<lparr>c_stats := f (c_stats c)\<rparr>)"

definition php_bacnet_wall_ms :: "('e, 'b) cache_world \<Rightarrow> u64 \<times> ('e, 'b) cache_world" where
  "php_bacnet_wall_ms w = (w_clock w (w_reads w), w\<lparr>w_reads := Suc (w_reads w)\<rparr>)"

text \<open>(uint64_t) of a double.\<close>

fun u64_of_dbl :: "(dbl \<Rightarrow> u64) \<Rightarrow> dbl \<Rightarrow> u64" where
  "u64_of_dbl conv (Fin q) =
     (if -1 < q \<and> q < 18446744073709551616 then (if q < 0 then 0 else word_of_int \<lfloor>q\<rfloor>) else conv (Fin q))"
| "u64_of_dbl conv d = conv d"

definition php_bacnet_cache_warn :: "('e, 'b) cache_env \<Rightarrow> string \<Rightarrow> ('e, 'b) cache_world \<Rightarrow> ('e, 'b) cache_world" where
  "php_bacnet_cache_warn E message w =
    (let (now, w) = php_bacnet_wall_ms w;
         w = upd_stats (\<lambda>st. st\<lparr>cs_backend_errors := cs_backend_errors st + 1\<rparr>) w;
         c = w_cache w
     in if c_last_log_ms c = 0 \<or>
           now - c_last_log_ms c \<ge> u64_of_dbl (conv_u64 E) (c_log_interval c * Fin 1000)
        then upd_cache (\<lambda>c. c\<lparr>c_last_log_ms := now\<rparr>) (w\<lparr>w_warnings := w_warnings w @ [message]\<rparr>)
        else w)"

subsection \<open>Opening\<close>

text \<open>
  An existing table is used as it is; os_shm_open stands for the system calls and the check of
  magic number and version.
\<close>

definition php_bacnet_open_shm :: "('e, 'b) cache_env \<Rightarrow> ('e, 'b) cache_world \<Rightarrow> bool \<times> ('e, 'b) cache_world" where
  "php_bacnet_open_shm E w =
    (let n = c_shm_name (w_cache w)
     in if \<not> os_shm_open E n then (False, w)
        else (True, upd_cache (\<lambda>c. c\<lparr>c_shm := Some n\<rparr>)
               (w\<lparr>w_shms := (w_shms w)(n := Some (case w_shms w n of Some shm \<Rightarrow> shm | None \<Rightarrow> php_bacnet_shm_init))\<rparr>)))"

definition php_bacnet_open_lmdb :: "('e, 'b) cache_env \<Rightarrow> ('e, 'b) cache_world \<Rightarrow> bool \<times> ('e, 'b) cache_world" where
  "php_bacnet_open_lmdb E w =
    (case lm_open E (c_lmdb_path (w_cache w)) (c_lmdb_map_size (w_cache w)) (w_lmdb w) of
       None \<Rightarrow> (False, w)
     | Some e \<Rightarrow> (True, upd_cache (\<lambda>c. c\<lparr>c_env := True\<rparr>) (w\<lparr>w_lmdb := e\<rparr>)))"

subsection \<open>Keys\<close>

text \<open>snprintf into a buffer of the given size.\<close>

definition snprintf :: "nat \<Rightarrow> string \<Rightarrow> string" where
  "snprintf n s = take (n - 1) s"

definition PHP_BACNET_CACHE_VERSION :: nat where "PHP_BACNET_CACHE_VERSION = 2"

definition key_prefix :: "string \<Rightarrow> string \<Rightarrow> string" where
  "key_prefix ns backend = ''v'' @ show_nat PHP_BACNET_CACHE_VERSION @ ''|'' @ ns @ ''|'' @ backend @ ''|''"

definition partition_prefix :: "string \<Rightarrow> string \<Rightarrow> nat \<Rightarrow> string" where
  "partition_prefix ns backend p = key_prefix ns backend @ partition_names ! p @ ''|''"

definition php_bacnet_make_full_key :: "php_bacnet_cache \<Rightarrow> nat \<Rightarrow> string \<Rightarrow> string" where
  "php_bacnet_make_full_key c p key =
    (let backend = (case c_l2 c of L2_CALLBACK \<Rightarrow> ''callback'' | L2_LMDB \<Rightarrow> ''lmdb'' | L2_NONE \<Rightarrow> ''none'')
     in snprintf 512 (partition_prefix (c_namespace_name c) backend p @ key))"

subsection \<open>The mapped table\<close>

text \<open>A critical section on the mapped table, when it is mapped and its lock can be taken.\<close>

definition locked_shm :: "('e, 'b) cache_env \<Rightarrow> ('e, 'b) cache_world \<Rightarrow> (string \<times> cache_shm) option" where
  "locked_shm E w =
    (case c_shm (w_cache w) of
       None \<Rightarrow> None
     | Some n \<Rightarrow> if \<not> os_lock E n then None else (case w_shms w n of None \<Rightarrow> None | Some shm \<Rightarrow> Some (n, shm)))"

definition set_shm :: "string \<Rightarrow> cache_shm \<Rightarrow> cache_stats \<Rightarrow> ('e, 'b) cache_world \<Rightarrow> ('e, 'b) cache_world" where
  "set_shm n shm st w = upd_stats (\<lambda>_. st) (w\<lparr>w_shms := (w_shms w)(n := Some shm)\<rparr>)"

definition cache_shm_get :: "('e, 'b) cache_env \<Rightarrow> nat \<Rightarrow> string \<Rightarrow> nat \<Rightarrow> ('e, 'b) cache_world \<Rightarrow>
    bytes option \<times> ('e, 'b) cache_world" where
  "cache_shm_get E p full cap w =
    (case locked_shm E w of
       None \<Rightarrow> (None, w)
     | Some (n, shm) \<Rightarrow>
         (let (now, w) = php_bacnet_wall_ms w;
              (r, shm, st) = php_bacnet_shm_get p full cap now shm (c_stats (w_cache w))
          in (r, set_shm n shm st w)))"

definition cache_shm_put :: "('e, 'b) cache_env \<Rightarrow> nat \<Rightarrow> string \<Rightarrow> bytes \<Rightarrow> u64 \<Rightarrow> ('e, 'b) cache_world \<Rightarrow>
    ('e, 'b) cache_world" where
  "cache_shm_put E p full data expiry w =
    (case locked_shm E w of
       None \<Rightarrow> (if length data > CACHE_VALUE_MAX then upd_stats count_failure w else w)
     | Some (n, shm) \<Rightarrow>
         (let (shm, st) = php_bacnet_shm_put (c_max_entries (w_cache w) ! p) (c_l1_max_bytes (w_cache w)) p full data
                expiry shm (c_stats (w_cache w))
          in set_shm n shm st w))"

definition cache_shm_clear :: "('e, 'b) cache_env \<Rightarrow> int \<Rightarrow> ('e, 'b) cache_world \<Rightarrow> ('e, 'b) cache_world" where
  "cache_shm_clear E part w =
    (case locked_shm E w of
       None \<Rightarrow> w
     | Some (n, shm) \<Rightarrow> set_shm n (php_bacnet_shm_clear_partition part shm) (c_stats (w_cache w)) w)"

subsection \<open>The PHP backend\<close>

definition php_bacnet_callback_call :: "('e, 'b) cache_env \<Rightarrow> string \<Rightarrow> zval list \<Rightarrow> ('e, 'b) cache_world \<Rightarrow>
    zval option \<times> ('e, 'b) cache_world" where
  "php_bacnet_callback_call E method args w =
    (if \<not> c_backend_active (w_cache w) \<or> c_in_callback (w_cache w) then (None, w)
     else let (r, b) = cb_call E method args (w_backend w); w = w\<lparr>w_backend := b\<rparr>
          in case r of
               None \<Rightarrow> (None, php_bacnet_cache_warn E
                  ''PHP-Backend ist fehlgeschlagen; Netzwerkzugriff wird fortgesetzt'' w)
             | Some rv \<Rightarrow> (Some rv, w))"

definition php_bacnet_callback_check_generation :: "('e, 'b) cache_env \<Rightarrow> nat \<Rightarrow> ('e, 'b) cache_world \<Rightarrow>
    ('e, 'b) cache_world" where
  "php_bacnet_callback_check_generation E p w =
    (let (now, w) = php_bacnet_wall_ms w; c = w_cache w
     in if \<not> c_backend_active c \<or> c_in_callback c \<or>
           now - c_last_coherence_ms c ! p < ucast (c_coherence_interval_ms c) then w
        else
          let w = upd_cache (\<lambda>c. c\<lparr>c_last_coherence_ms := (c_last_coherence_ms c)[p := now]\<rparr>) w;
              (r, w) = php_bacnet_callback_call E ''getGeneration''
                 [ZString (c_namespace_name c), ZString (partition_names ! p)] w
          in case r of
               Some (ZLong g) \<Rightarrow>
                 (let generation = word_of_int g;
                      old = c_generations (w_cache w) ! p;
                      w = (if old \<noteq> 0 \<and> old \<noteq> generation
                           then upd_stats (\<lambda>st. st\<lparr>cs_invalidations := cs_invalidations st + 1\<rparr>)
                                  (cache_shm_clear E (int p) w)
                           else w)
                  in upd_cache (\<lambda>c. c\<lparr>c_generations := (c_generations c)[p := generation]\<rparr>) w)
             | _ \<Rightarrow> w)"

definition string_of_bytes :: "bytes \<Rightarrow> string" where
  "string_of_bytes bs = map (\<lambda>b. char_of (unat b)) bs"

definition bytes_of_string :: "string \<Rightarrow> bytes" where
  "bytes_of_string s = map (\<lambda>c. of_nat (of_char c)) s"

lemma bytes_of_string_of_bytes [simp]: "bytes_of_string (string_of_bytes bs) = bs"
proof -
  have "of_nat (of_char (char_of (unat b) :: char)) = b" for b :: u8
  proof -
    have "unat b < 256" using unsigned_less [of b, where ?'a = nat] by simp
    then show ?thesis by simp
  qed
  then show ?thesis by (simp add: bytes_of_string_def string_of_bytes_def comp_def)
qed

subsection \<open>LMDB\<close>

definition php_bacnet_lmdb_get :: "('e, 'b) cache_env \<Rightarrow> string \<Rightarrow> nat \<Rightarrow> ('e, 'b) cache_world \<Rightarrow>
    bytes option \<times> ('e, 'b) cache_world" where
  "php_bacnet_lmdb_get E full cap w =
    (if \<not> c_env (w_cache w) then (None, w)
     else case lm_get E full (w_lmdb w) of
            None \<Rightarrow> (None, w)
          | Some v \<Rightarrow>
              if header_plausible v
              then let (now, w) = php_bacnet_wall_ms w in (lmdb_accept cap now v, w)
              else (None, w))"

definition php_bacnet_lmdb_put :: "('e, 'b) cache_env \<Rightarrow> string \<Rightarrow> bytes \<Rightarrow> u64 \<Rightarrow> ('e, 'b) cache_world \<Rightarrow>
    ('e, 'b) cache_world" where
  "php_bacnet_lmdb_put E full data expiry w =
    (if \<not> c_env (w_cache w) \<or> length data > CACHE_VALUE_MAX then w
     else case lm_put E full (lmdb_record data expiry) (w_lmdb w) of
            None \<Rightarrow> php_bacnet_cache_warn E ''LMDB-Schreibvorgang fehlgeschlagen'' w
          | Some e \<Rightarrow> w\<lparr>w_lmdb := e\<rparr>)"

text \<open>The records a cursor visits while the key starts with the prefix.\<close>

definition is_prefix :: "string \<Rightarrow> string \<Rightarrow> bool" where
  "is_prefix p k \<longleftrightarrow> take (length p) k = p"

definition visited :: "string \<Rightarrow> (string \<times> bytes) list \<Rightarrow> (string \<times> bytes) list" where
  "visited prefix rs = takeWhile (\<lambda>r. is_prefix prefix (fst r)) rs"

text \<open>The header a loop of the pruning sees: zero bytes when the value is too short.\<close>

definition scan_header :: "bytes \<Rightarrow> cache_value_header" where
  "scan_header v = (if HEADER_SIZE \<le> length v then decode_header v
     else \<lparr>vh_magic = 0, vh_length = 0, vh_expires = 0, vh_checksum = 0\<rparr>)"

text \<open>The oldest record so far: its expiry time and key, the key empty when there is none.\<close>

definition note_oldest :: "string \<Rightarrow> u64 \<Rightarrow> u64 \<times> string \<Rightarrow> u64 \<times> string" where
  "note_oldest k expires oldest = (if expires < fst oldest \<and> length k < 512 then (expires, k) else oldest)"

fun prune_partition :: "('e, 'b) cache_env \<Rightarrow> (string \<times> bytes) list \<Rightarrow> u32 \<Rightarrow> u64 \<times> string \<Rightarrow>
    ('e, 'b) cache_world \<Rightarrow> u32 \<times> (u64 \<times> string) \<times> ('e, 'b) cache_world" where
  "prune_partition E [] count oldest w = (count, oldest, w)"
| "prune_partition E ((k, v) # rs) count oldest w =
     (let h = scan_header v;
          (expired, w) = (if vh_magic h \<noteq> PHP_BACNET_CACHE_MAGIC then (True, w)
                          else let (now, w) = php_bacnet_wall_ms w in (vh_expires h \<le> now, w))
      in if expired
         then prune_partition E rs count oldest
                (upd_stats (\<lambda>st. st\<lparr>cs_expirations := cs_expirations st + 1\<rparr>) (w\<lparr>w_lmdb := lm_del E k (w_lmdb w)\<rparr>))
         else prune_partition E rs (count + 1) (note_oldest k (vh_expires h) oldest) w)"

fun prune_total :: "(string \<times> bytes) list \<Rightarrow> nat \<Rightarrow> u64 \<times> string \<Rightarrow> nat \<times> u64 \<times> string" where
  "prune_total [] tot oldest = (tot, oldest)"
| "prune_total ((k, v) # rs) tot oldest =
     prune_total rs (tot + length v)
       (if vh_magic (scan_header v) = PHP_BACNET_CACHE_MAGIC
        then note_oldest k (vh_expires (scan_header v)) oldest else oldest)"

definition drop_victim :: "('e, 'b) cache_env \<Rightarrow> bool \<Rightarrow> string \<Rightarrow> ('e, 'b) cache_world \<Rightarrow> ('e, 'b) cache_world" where
  "drop_victim E over victim w =
    (if over \<and> victim \<noteq> [] then upd_stats count_eviction (w\<lparr>w_lmdb := lm_del E victim (w_lmdb w)\<rparr>) else w)"

definition php_bacnet_lmdb_prune :: "('e, 'b) cache_env \<Rightarrow> nat \<Rightarrow> ('e, 'b) cache_world \<Rightarrow> ('e, 'b) cache_world" where
  "php_bacnet_lmdb_prune E p w =
    (if \<not> c_env (w_cache w) then w
     else
       let ns = c_namespace_name (w_cache w);
           prefix = snprintf 320 (partition_prefix ns ''lmdb'' p);
           e0 = w_lmdb w
       in case lm_scan E prefix e0 of
            None \<Rightarrow> w
          | Some rs \<Rightarrow>
              (let (count, oldest, w) = prune_partition E (visited prefix rs) 0 (UINT64_MAX, []) w;
                   w = drop_victim E (count > c_max_entries (w_cache w) ! p) (snd oldest) w;
                   prefix = snprintf 320 (key_prefix ns ''lmdb'');
                   (total, oldest) = (case lm_scan E prefix (w_lmdb w) of
                      None \<Rightarrow> (0, (UINT64_MAX, []))
                    | Some rs \<Rightarrow> prune_total (visited prefix rs) 0 (UINT64_MAX, []));
                   w = drop_victim E (total > c_l2_max_bytes (w_cache w)) (snd oldest) w
               in w\<lparr>w_lmdb := lm_commit E e0 (w_lmdb w)\<rparr>))"

subsection \<open>Operations of the client\<close>

definition php_bacnet_cache_partition_enabled :: "php_bacnet_cache \<Rightarrow> nat \<Rightarrow> bool" where
  "php_bacnet_cache_partition_enabled c p \<longleftrightarrow>
     c_enabled c \<and> p < CACHE_PARTITION_COUNT \<and> c_part_enabled c ! p"

definition php_bacnet_cache_partition_ttl :: "php_bacnet_cache \<Rightarrow> nat \<Rightarrow> dbl" where
  "php_bacnet_cache_partition_ttl c p = (if p < CACHE_PARTITION_COUNT then c_ttl c ! p else Fin 0)"

definition count_hit :: "nat \<Rightarrow> cache_stats \<Rightarrow> cache_stats" where
  "count_hit p st = st\<lparr>cs_hits := cs_hits st + 1,
     cs_negative_hits := (if p = PHP_BACNET_CACHE_NEGATIVE then cs_negative_hits st + 1 else cs_negative_hits st)\<rparr>"

text \<open>The second level of a lookup; cap is the size of the caller's buffer.\<close>

definition l2_lookup :: "('e, 'b) cache_env \<Rightarrow> nat \<Rightarrow> string \<Rightarrow> string \<Rightarrow> nat \<Rightarrow> ('e, 'b) cache_world \<Rightarrow>
    bytes option \<times> ('e, 'b) cache_world" where
  "l2_lookup E p key full cap w =
    (case c_l2 (w_cache w) of
       L2_LMDB \<Rightarrow> php_bacnet_lmdb_get E full cap w
     | L2_CALLBACK \<Rightarrow>
         if c_backend_active (w_cache w)
         then let (r, w) = php_bacnet_callback_call E ''get''
                [ZString (c_namespace_name (w_cache w)), ZString (partition_names ! p), ZString key] w
              in (case r of Some (ZString s) \<Rightarrow> (if length s \<le> cap then Some (bytes_of_string s) else None)
                          | _ \<Rightarrow> None, w)
         else (None, w)
     | L2_NONE \<Rightarrow> (None, w))"

definition php_bacnet_cache_get :: "('e, 'b) cache_env \<Rightarrow> nat \<Rightarrow> string \<Rightarrow> nat \<Rightarrow> ('e, 'b) cache_world \<Rightarrow>
    bytes option \<times> ('e, 'b) cache_world" where
  "php_bacnet_cache_get E p key cap w =
    (if \<not> php_bacnet_cache_partition_enabled (w_cache w) p then (None, w)
     else
       let w = (if c_l2 (w_cache w) = L2_CALLBACK then php_bacnet_callback_check_generation E p w else w);
           full = php_bacnet_make_full_key (w_cache w) p key;
           (r, w) = cache_shm_get E p full cap w
       in case r of
            Some data \<Rightarrow> (Some data, upd_stats (count_hit p) w)
          | None \<Rightarrow>
              (let (r, w) = l2_lookup E p key full cap w
               in case r of
                    Some data \<Rightarrow>
                      (let (now, w) = php_bacnet_wall_ms w;
                           expiry = now + u64_of_dbl (conv_u64 E) (c_ttl (w_cache w) ! p * Fin 1000);
                           w = cache_shm_put E p full data expiry w
                       in (Some data, upd_stats (\<lambda>st. st\<lparr>cs_hits := cs_hits st + 1\<rparr>) w))
                  | None \<Rightarrow> (None, upd_stats (\<lambda>st. st\<lparr>cs_misses := cs_misses st + 1\<rparr>) w)))"

text \<open>bumpGeneration, after the backend has stored or cleared.\<close>

definition bump_generation :: "('e, 'b) cache_env \<Rightarrow> nat \<Rightarrow> ('e, 'b) cache_world \<Rightarrow> ('e, 'b) cache_world" where
  "bump_generation E p w =
    (let (r, w) = php_bacnet_callback_call E ''bumpGeneration''
           [ZString (c_namespace_name (w_cache w)), ZString (partition_names ! p)] w
     in case r of
          Some (ZLong g) \<Rightarrow> upd_cache (\<lambda>c. c\<lparr>c_generations := (c_generations c)[p := word_of_int g]\<rparr>) w
        | _ \<Rightarrow> w)"

definition php_bacnet_cache_put :: "('e, 'b) cache_env \<Rightarrow> nat \<Rightarrow> string \<Rightarrow> bytes \<Rightarrow> dbl \<Rightarrow> ('e, 'b) cache_world \<Rightarrow>
    ('e, 'b) cache_world" where
  "php_bacnet_cache_put E p key data ttl_seconds w =
    (if \<not> php_bacnet_cache_partition_enabled (w_cache w) p \<or> ttl_seconds \<le> Fin 0 then w
     else
       let full = php_bacnet_make_full_key (w_cache w) p key;
           (now, w) = php_bacnet_wall_ms w;
           expiry = now + u64_of_dbl (conv_u64 E) (ttl_seconds * Fin 1000);
           w = cache_shm_put E p full data expiry w;
           c = w_cache w;
           w = (if c_l2 c = L2_LMDB
                then php_bacnet_lmdb_prune E p (php_bacnet_lmdb_put E full data expiry w)
                else if c_l2 c = L2_CALLBACK \<and> c_backend_active c
                then let (_, w) = php_bacnet_callback_call E ''set''
                       [ZString (c_namespace_name c), ZString (partition_names ! p), ZString key,
                        ZString (string_of_bytes data), ZLong (sint expiry), ZLong (uint (c_max_entries c ! p))] w
                     in bump_generation E p w
                else w)
       in upd_stats (\<lambda>st. st\<lparr>cs_stores := cs_stores st + 1\<rparr>) w)"

subsection \<open>Clearing\<close>

fun clear_visited :: "('e, 'b) cache_env \<Rightarrow> (string \<times> bytes) list \<Rightarrow> 'e \<Rightarrow> 'e" where
  "clear_visited E [] e = e"
| "clear_visited E ((k, v) # rs) e = clear_visited E rs (lm_del E k e)"

definition clear_lmdb :: "('e, 'b) cache_env \<Rightarrow> int \<Rightarrow> ('e, 'b) cache_world \<Rightarrow> ('e, 'b) cache_world" where
  "clear_lmdb E part w =
    (if \<not> c_env (w_cache w) then w
     else
       let ns = c_namespace_name (w_cache w);
           prefix = snprintf 320 (if part < 0 then key_prefix ns ''lmdb'' else partition_prefix ns ''lmdb'' (nat part))
       in case lm_scan E prefix (w_lmdb w) of
            None \<Rightarrow> w
          | Some rs \<Rightarrow> w\<lparr>w_lmdb := lm_commit E (w_lmdb w) (clear_visited E (visited prefix rs) (w_lmdb w))\<rparr>)"

definition clear_backend :: "('e, 'b) cache_env \<Rightarrow> int \<Rightarrow> ('e, 'b) cache_world \<Rightarrow> ('e, 'b) cache_world" where
  "clear_backend E part w =
    (if \<not> (c_l2 (w_cache w) = L2_CALLBACK \<and> c_backend_active (w_cache w)) then w
     else
       let (_, w) = php_bacnet_callback_call E ''clear''
             [ZString (c_namespace_name (w_cache w)), if part < 0 then ZNull else ZString (partition_names ! nat part)] w;
           ps = (if part < 0 then [0..<CACHE_PARTITION_COUNT] else [nat part])
       in fold (bump_generation E) ps w)"

definition php_bacnet_cache_clear :: "('e, 'b) cache_env \<Rightarrow> int \<Rightarrow> ('e, 'b) cache_world \<Rightarrow> ('e, 'b) cache_world" where
  "php_bacnet_cache_clear E part w =
    clear_backend E part (clear_lmdb E part
      (upd_stats (\<lambda>st. st\<lparr>cs_invalidations := cs_invalidations st + 1\<rparr>) (cache_shm_clear E part w)))"

definition php_bacnet_cache_invalidate :: "('e, 'b) cache_env \<Rightarrow> nat \<Rightarrow> ('e, 'b) cache_world \<Rightarrow> ('e, 'b) cache_world" where
  "php_bacnet_cache_invalidate E p w = php_bacnet_cache_clear E (int p) w"

definition php_bacnet_cache_refresh :: "('e, 'b) cache_env \<Rightarrow> nat \<Rightarrow> ('e, 'b) cache_world \<Rightarrow> ('e, 'b) cache_world" where
  "php_bacnet_cache_refresh E p w =
    php_bacnet_cache_invalidate E p (upd_stats (\<lambda>st. st\<lparr>cs_refreshes := cs_refreshes st + 1\<rparr>) w)"

definition php_bacnet_cache_set_backend :: "('e, 'b) cache_env \<Rightarrow> 'b \<Rightarrow> ('e, 'b) cache_world \<Rightarrow> bool \<times> ('e, 'b) cache_world" where
  "php_bacnet_cache_set_backend E backend w =
    (True, php_bacnet_cache_clear E (-1)
      (upd_cache (\<lambda>c. c\<lparr>c_backend_active := True, c_l2 := L2_CALLBACK\<rparr>) (w\<lparr>w_backend := backend\<rparr>)))"

subsection \<open>Creation and destruction\<close>

definition hex_digit :: "nat \<Rightarrow> char" where
  "hex_digit d = (if d < 10 then char_of (48 + d) else char_of (87 + d))"

text \<open>The conversion %016llx.\<close>

definition show_hex16 :: "u64 \<Rightarrow> string" where
  "show_hex16 x = map (\<lambda>i. hex_digit (unat x div 16 ^ (15 - i) mod 16)) [0..<16]"

definition php_bacnet_hash_string :: "string \<Rightarrow> u64" where
  "php_bacnet_hash_string s = foldl fnv1a_step fnv1a_basis (bytes_of_string s)"

definition size_of_long :: "int \<Rightarrow> nat" where
  "size_of_long n = nat (n mod 2 ^ 64)"

definition cache_from_globals :: "bacnet_globals \<Rightarrow> string option \<Rightarrow> u16 \<Rightarrow> php_bacnet_cache" where
  "cache_from_globals g iface port =
    (let ns = ini_string (g_cache_namespace g);
         name = (if ns \<noteq> [] then snprintf 96 ns
                 else snprintf 96 ((case iface of Some i \<Rightarrow> i | None \<Rightarrow> ''auto'') @ '':'' @ show_nat (unat port)));
         shm = ini_string (g_cache_shm_name g)
     in \<lparr>c_enabled = g_cache_enabled g,
         c_part_enabled = [g_cache_state_enabled g, g_cache_object_enabled g, g_cache_object_list_enabled g,
           g_cache_device_enabled g, g_cache_ip_enabled g, g_cache_negative_enabled g],
         c_ttl = [g_cache_state_ttl g, g_cache_object_ttl g, g_cache_object_list_ttl g, g_cache_device_ttl g,
           g_cache_ip_ttl g, g_cache_negative_read_ttl g],
         c_max_entries = map word_of_int [g_cache_state_max_entries g, g_cache_object_max_entries g,
           g_cache_object_list_max_entries g, g_cache_device_max_entries g, g_cache_ip_max_entries g,
           g_cache_negative_max_entries g],
         c_namespace_name = name,
         c_shm_name = (if shm \<noteq> [] then snprintf 128 shm
           else snprintf 128 (''/php_bacnet_'' @ show_hex16 (php_bacnet_hash_string name) @ ''_v'' @
                              show_nat PHP_BACNET_CACHE_VERSION)),
         c_lmdb_path = snprintf 512 (ini_string (g_cache_lmdb_path g)),
         c_l1_max_bytes = size_of_long (g_cache_l1_max_bytes g),
         c_l2_max_bytes = size_of_long (g_cache_l2_max_bytes g),
         c_lmdb_map_size = size_of_long (g_cache_lmdb_map_size g),
         c_coherence_interval_ms = word_of_int (g_cache_coherence_interval_ms g),
         c_log_interval = g_cache_log_interval g,
         c_negative_whois_ttl = g_cache_negative_whois_ttl g,
         c_negative_read_ttl = g_cache_negative_read_ttl g,
         c_last_log_ms = 0,
         c_l2 = (case g_cache_l2_backend g of
                   None \<Rightarrow> L2_LMDB
                 | Some b \<Rightarrow> if cstr b = [] \<or> cstr b = ''none'' then L2_NONE
                             else if cstr b \<noteq> ''lmdb'' then L2_LMDB else L2_LMDB),
         c_shm = None, c_env = False, c_backend_active = False, c_in_callback = False,
         c_last_coherence_ms = replicate CACHE_PARTITION_COUNT 0,
         c_generations = replicate CACHE_PARTITION_COUNT 0,
         c_stats = empty_cache_stats\<rparr>)"

text \<open>The letters of the warnings that are two bytes in UTF-8.\<close>

definition o_umlaut :: string where "o_umlaut = [CHR 0xC3, CHR 0xB6]"
definition u_umlaut :: string where "u_umlaut = [CHR 0xC3, CHR 0xBC]"

definition open_or_warn :: "('e, 'b) cache_env \<Rightarrow> bool \<Rightarrow>
    (('e, 'b) cache_world \<Rightarrow> bool \<times> ('e, 'b) cache_world) \<Rightarrow> string \<Rightarrow> ('e, 'b) cache_world \<Rightarrow> ('e, 'b) cache_world" where
  "open_or_warn E wanted opn message w =
    (if wanted then let (ok, w) = opn w in if ok then w else php_bacnet_cache_warn E message w else w)"

text \<open>The state of the world is given; its cache is replaced by the new one.\<close>

definition php_bacnet_cache_create :: "('e, 'b) cache_env \<Rightarrow> bacnet_globals \<Rightarrow> string option \<Rightarrow> u16 \<Rightarrow>
    ('e, 'b) cache_world \<Rightarrow> ('e, 'b) cache_world" where
  "php_bacnet_cache_create E g iface port w =
    (let c = cache_from_globals g iface port;
         w = w\<lparr>w_cache := c\<rparr>;
         w = open_or_warn E (c_enabled c) (php_bacnet_open_shm E) (''Shared-Memory-L1 konnte nicht ge'' @ o_umlaut @ ''ffnet werden'') w
     in open_or_warn E (c_enabled c \<and> c_l2 c = L2_LMDB) (php_bacnet_open_lmdb E)
          (''LMDB-L2 ist nicht verf'' @ u_umlaut @ ''gbar; Shared-Memory-L1 bleibt aktiv'') w)"

definition php_bacnet_cache_destroy :: "('e, 'b) cache_env \<Rightarrow> ('e, 'b) cache_world \<Rightarrow> ('e, 'b) cache_world" where
  "php_bacnet_cache_destroy E w =
    upd_cache (\<lambda>c. c\<lparr>c_backend_active := False, c_env := False, c_shm := None\<rparr>)
      (if c_env (w_cache w) then w\<lparr>w_lmdb := lm_close E (w_lmdb w)\<rparr> else w)"

subsection \<open>Options\<close>

datatype cache_option_error =
    CacheKeyNotString
  | CacheInvalidBackend string
  | CacheNegativeTtl string
  | CacheUnknownOption string

text \<open>The state of the loop: the cache and whether the levels must be opened again.\<close>

record option_state =
  os_cache :: php_bacnet_cache
  os_reopen_shm :: bool
  os_reopen_lmdb :: bool

definition upd_opt :: "(php_bacnet_cache \<Rightarrow> php_bacnet_cache) \<Rightarrow> option_state \<Rightarrow> option_state" where
  "upd_opt f s = s\<lparr>os_cache := f (os_cache s)\<rparr>"

definition num_arg :: "zval \<Rightarrow> dbl option" where
  "num_arg v = (case v of ZLong n \<Rightarrow> Some (dbl_of_int n) | ZDouble d \<Rightarrow> Some d | _ \<Rightarrow> None)"

definition nonneg_arg :: "zval \<Rightarrow> bool" where
  "nonneg_arg v = (case num_arg v of Some d \<Rightarrow> Fin 0 \<le> d | None \<Rightarrow> False)"

text \<open>
  The named options, in order: None when the name or the type of the value does not match, so
  that the loop goes on to the options of the partitions.
\<close>

definition set_named_option :: "string \<Rightarrow> zval \<Rightarrow> option_state \<Rightarrow> option_state option" where
  "set_named_option k v s =
    (case v of
       ZBool b \<Rightarrow> if k = ''enabled'' then Some (upd_opt (\<lambda>c. c\<lparr>c_enabled := b\<rparr>) s) else None
     | ZString t \<Rightarrow>
         if k = ''namespace'' \<and> length t < 96
         then Some ((upd_opt (\<lambda>c. c\<lparr>c_namespace_name := snprintf 96 (cstr t)\<rparr>) s)\<lparr>os_reopen_shm := True\<rparr>)
         else if k = ''shm_name'' \<and> length t > 1 \<and> t ! 0 = CHR ''/'' \<and> length t < 128
         then Some ((upd_opt (\<lambda>c. c\<lparr>c_shm_name := snprintf 128 (cstr t)\<rparr>) s)\<lparr>os_reopen_shm := True\<rparr>)
         else if k = ''lmdb_path'' \<and> length t < 512
         then Some ((upd_opt (\<lambda>c. c\<lparr>c_lmdb_path := snprintf 512 (cstr t)\<rparr>) s)\<lparr>os_reopen_lmdb := True\<rparr>)
         else None
     | _ \<Rightarrow>
         (let n = (case v of ZLong n \<Rightarrow> n | _ \<Rightarrow> -1); d = zval_get_double v
          in if k = ''l1_max_bytes'' \<and> n > 0 then Some (upd_opt (\<lambda>c. c\<lparr>c_l1_max_bytes := nat n\<rparr>) s)
             else if k = ''l2_max_bytes'' \<and> n > 0 then Some (upd_opt (\<lambda>c. c\<lparr>c_l2_max_bytes := nat n\<rparr>) s)
             else if k = ''lmdb_map_size'' \<and> n \<ge> 1048576
             then Some ((upd_opt (\<lambda>c. c\<lparr>c_lmdb_map_size := nat n\<rparr>) s)\<lparr>os_reopen_lmdb := True\<rparr>)
             else if k = ''coherence_interval_ms'' \<and> n \<ge> 0
             then Some (upd_opt (\<lambda>c. c\<lparr>c_coherence_interval_ms := word_of_int n\<rparr>) s)
             else if k = ''log_interval'' \<and> nonneg_arg v then Some (upd_opt (\<lambda>c. c\<lparr>c_log_interval := d\<rparr>) s)
             else if k = ''negative_whois_ttl'' \<and> nonneg_arg v
             then Some (upd_opt (\<lambda>c. c\<lparr>c_negative_whois_ttl := d\<rparr>) s)
             else if k = ''negative_read_ttl'' \<and> nonneg_arg v
             then Some (upd_opt (\<lambda>c. c\<lparr>c_negative_read_ttl := d,
                    c_ttl := (c_ttl c)[PHP_BACNET_CACHE_NEGATIVE := d]\<rparr>) s)
             else None))"

fun set_partition_option :: "nat list \<Rightarrow> string \<Rightarrow> zval \<Rightarrow> option_state \<Rightarrow> cache_option_error + option_state" where
  "set_partition_option [] k v s = Inl (CacheUnknownOption k)"
| "set_partition_option (p # ps) k v s =
     (let name = partition_names ! p; b = (case v of ZBool b \<Rightarrow> Some b | _ \<Rightarrow> None)
      in if k = snprintf 64 (name @ ''_enabled'') \<and> b \<noteq> None
         then Inr (upd_opt (\<lambda>c. c\<lparr>c_part_enabled := (c_part_enabled c)[p := the b]\<rparr>) s)
         else if k = snprintf 64 (name @ ''_ttl'') \<and> num_arg v \<noteq> None
         then (if the (num_arg v) < Fin 0 then Inl (CacheNegativeTtl k)
               else Inr (upd_opt (\<lambda>c. c\<lparr>c_ttl := (c_ttl c)[p := the (num_arg v)]\<rparr>) s))
         else (case v of
                 ZLong n \<Rightarrow>
                   if k = snprintf 64 (name @ ''_max_entries'') \<and> n > 0
                   then Inr (upd_opt (\<lambda>c. c\<lparr>c_max_entries := (c_max_entries c)[p := word_of_int n]\<rparr>) s)
                   else set_partition_option ps k v s
               | _ \<Rightarrow> set_partition_option ps k v s))"

definition set_backend_option :: "string \<Rightarrow> option_state \<Rightarrow> cache_option_error + option_state" where
  "set_backend_option b s =
    (if b = ''lmdb'' then Inr (upd_opt (\<lambda>c. c\<lparr>c_l2 := L2_LMDB, c_backend_active := False\<rparr>) s)
     else if b = ''none'' then Inr (upd_opt (\<lambda>c. c\<lparr>c_l2 := L2_NONE, c_backend_active := False\<rparr>) s)
     else Inl (CacheInvalidBackend b))"

definition set_cache_option :: "zkey \<Rightarrow> zval \<Rightarrow> option_state \<Rightarrow> cache_option_error + option_state" where
  "set_cache_option key v s =
    (case key of
       KInt _ \<Rightarrow> Inl CacheKeyNotString
     | KStr name \<Rightarrow>
         (let k = cstr name
          in case set_named_option k v s of
               Some s \<Rightarrow> Inr s
             | None \<Rightarrow>
                 (case v of
                    ZString t \<Rightarrow> if k = ''l2_backend'' then set_backend_option (cstr t) s
                                 else set_partition_option [0..<CACHE_PARTITION_COUNT] k v s
                  | _ \<Rightarrow> set_partition_option [0..<CACHE_PARTITION_COUNT] k v s)))"

text \<open>The loop stops at the first error, with the options before it already stored.\<close>

fun set_cache_options_loop :: "(zkey \<times> zval) list \<Rightarrow> option_state \<Rightarrow> cache_option_error option \<times> option_state" where
  "set_cache_options_loop [] s = (None, s)"
| "set_cache_options_loop ((key, v) # rest) s =
     (case set_cache_option key v s of Inl err \<Rightarrow> (Some err, s) | Inr s \<Rightarrow> set_cache_options_loop rest s)"

definition reopen_shm :: "('e, 'b) cache_env \<Rightarrow> ('e, 'b) cache_world \<Rightarrow> ('e, 'b) cache_world" where
  "reopen_shm E w =
    (let w = upd_cache (\<lambda>c. c\<lparr>c_shm := None\<rparr>) w
     in open_or_warn E (c_enabled (w_cache w)) (php_bacnet_open_shm E)
          (''Shared-Memory-L1 konnte nicht neu ge'' @ o_umlaut @ ''ffnet werden'') w)"

definition reopen_lmdb :: "('e, 'b) cache_env \<Rightarrow> ('e, 'b) cache_world \<Rightarrow> ('e, 'b) cache_world" where
  "reopen_lmdb E w =
    (let w = (if c_env (w_cache w) then upd_cache (\<lambda>c. c\<lparr>c_env := False\<rparr>) (w\<lparr>w_lmdb := lm_close E (w_lmdb w)\<rparr>)
              else w)
     in open_or_warn E (c_enabled (w_cache w) \<and> c_l2 (w_cache w) = L2_LMDB) (php_bacnet_open_lmdb E)
          (''LMDB-L2 konnte nicht neu ge'' @ o_umlaut @ ''ffnet werden'') w)"

definition php_bacnet_cache_set_options :: "('e, 'b) cache_env \<Rightarrow> (zkey \<times> zval) list \<Rightarrow> ('e, 'b) cache_world \<Rightarrow>
    cache_option_error option \<times> ('e, 'b) cache_world" where
  "php_bacnet_cache_set_options E options w =
    (let was_enabled = c_enabled (w_cache w);
         (err, s) = set_cache_options_loop options \<lparr>os_cache = w_cache w, os_reopen_shm = False, os_reopen_lmdb = False\<rparr>;
         w = w\<lparr>w_cache := os_cache s\<rparr>;
         switched_on = (\<not> was_enabled \<and> c_enabled (w_cache w))
     in case err of
          Some e \<Rightarrow> (Some e, w)
        | None \<Rightarrow>
            (let w = (if os_reopen_shm s \<or> switched_on then reopen_shm E w else w);
                 w = (if os_reopen_lmdb s \<or> (switched_on \<and> c_l2 (w_cache w) = L2_LMDB) then reopen_lmdb E w else w)
             in (None, php_bacnet_cache_clear E (-1) w)))"

definition l2_name :: "l2_kind \<Rightarrow> string" where
  "l2_name l = (case l of L2_LMDB \<Rightarrow> ''lmdb'' | L2_CALLBACK \<Rightarrow> ''callback'' | L2_NONE \<Rightarrow> ''none'')"

definition partition_options :: "php_bacnet_cache \<Rightarrow> nat \<Rightarrow> (zkey \<times> zval) list" where
  "partition_options c p =
    (let name = partition_names ! p
     in [(KStr (snprintf 64 (name @ ''_enabled'')), ZBool (c_part_enabled c ! p)),
         (KStr (snprintf 64 (name @ ''_ttl'')), ZDouble (c_ttl c ! p)),
         (KStr (snprintf 64 (name @ ''_max_entries'')), ZLong (uint (c_max_entries c ! p)))])"

definition long_of_size :: "nat \<Rightarrow> int" where
  "long_of_size n = sint (of_nat n :: u64)"

definition php_bacnet_cache_get_options :: "php_bacnet_cache \<Rightarrow> zval" where
  "php_bacnet_cache_get_options c = ZArray
    ([(KStr ''enabled'', ZBool (c_enabled c)),
      (KStr ''l1_backend'', ZString ''shared_memory''),
      (KStr ''l2_backend'', ZString (l2_name (c_l2 c))),
      (KStr ''namespace'', ZString (c_namespace_name c)),
      (KStr ''shm_name'', ZString (c_shm_name c)),
      (KStr ''lmdb_path'', ZString (c_lmdb_path c)),
      (KStr ''l1_max_bytes'', ZLong (long_of_size (c_l1_max_bytes c))),
      (KStr ''l2_max_bytes'', ZLong (long_of_size (c_l2_max_bytes c))),
      (KStr ''lmdb_map_size'', ZLong (long_of_size (c_lmdb_map_size c))),
      (KStr ''coherence_interval_ms'', ZLong (uint (c_coherence_interval_ms c))),
      (KStr ''log_interval'', ZDouble (c_log_interval c)),
      (KStr ''negative_whois_ttl'', ZDouble (c_negative_whois_ttl c)),
      (KStr ''negative_read_ttl'', ZDouble (c_negative_read_ttl c))]
     @ concat (map (partition_options c) [0..<CACHE_PARTITION_COUNT]))"

subsection \<open>Statistics\<close>

definition long_of_u64 :: "u64 \<Rightarrow> zval" where
  "long_of_u64 x = ZLong (sint x)"

definition entry_row :: "cache_slot \<Rightarrow> zval" where
  "entry_row s = ZArray
    [(KStr ''partition'', ZString (partition_names ! sl_partition s)),
     (KStr ''key'', ZString (sl_key s)),
     (KStr ''bytes'', ZLong (int (length (sl_value s)))),
     (KStr ''expires_at_ms'', long_of_u64 (sl_expires s))]"

definition zlist :: "zval list \<Rightarrow> zval" where
  "zlist vs = ZArray (zip (map (\<lambda>i. KInt (int i)) [0..<length vs]) vs)"

definition php_bacnet_cache_get_stats :: "('e, 'b) cache_env \<Rightarrow> bool \<Rightarrow> bool \<Rightarrow> ('e, 'b) cache_world \<Rightarrow>
    zval \<times> ('e, 'b) cache_world" where
  "php_bacnet_cache_get_stats E include_entries reset w =
    (let c = w_cache w; st = c_stats c;
         used = (case locked_shm E w of None \<Rightarrow> [] | Some (_, shm) \<Rightarrow> filter sl_used (shm_slots shm))
     in (ZArray
       ([(KStr ''hits'', long_of_u64 (cs_hits st)), (KStr ''misses'', long_of_u64 (cs_misses st)),
         (KStr ''stores'', long_of_u64 (cs_stores st)), (KStr ''expirations'', long_of_u64 (cs_expirations st)),
         (KStr ''evictions'', long_of_u64 (cs_evictions st)),
         (KStr ''invalidations'', long_of_u64 (cs_invalidations st)),
         (KStr ''refreshes'', long_of_u64 (cs_refreshes st)),
         (KStr ''negative_hits'', long_of_u64 (cs_negative_hits st)),
         (KStr ''backend_errors'', long_of_u64 (cs_backend_errors st)),
         (KStr ''allocation_failures'', long_of_u64 (cs_allocation_failures st)),
         (KStr ''l1_available'', ZBool (c_shm c \<noteq> None)),
         (KStr ''l2_available'', ZBool (case c_l2 c of L2_CALLBACK \<Rightarrow> c_backend_active c
                                          | L2_LMDB \<Rightarrow> c_env c | L2_NONE \<Rightarrow> True)),
         (KStr ''l1_entries'', ZLong (int (length used))),
         (KStr ''l1_bytes'', ZLong (int (sum_list (map (\<lambda>s. length (sl_value s)) used)))),
         (KStr ''l2_entries'', if c_env c then (case lm_entries E (w_lmdb w) of
              Some n \<Rightarrow> long_of_u64 n | None \<Rightarrow> ZNull) else ZNull),
         (KStr ''l2_bytes'', ZNull)]
        @ (if include_entries then [(KStr ''entries'', zlist (map entry_row (take 128 used)))] else [])),
       if reset then upd_stats (\<lambda>_. empty_cache_stats) w else w))"

end
