(* ===== verification/Cache_Props.thy ===== *)
theory Cache_Props
  imports Cache Cache_L1_Props "HOL-Library.List_Lexorder" "HOL-Library.Char_ord"
begin

text \<open>
  Correctness of the cache as a whole: full keys are unambiguous, each lookup is counted once,
  and a stored value can be read back.
\<close>

subsection \<open>Full keys\<close>

lemma partition_names_nth:
  "p < CACHE_PARTITION_COUNT \<Longrightarrow> p = 0 \<or> p = 1 \<or> p = 2 \<or> p = 3 \<or> p = 4 \<or> p = 5"
  by (auto simp: CACHE_PARTITION_COUNT_def)

lemma partition_name_unique:
  assumes "p < CACHE_PARTITION_COUNT" "q < CACHE_PARTITION_COUNT"
    and "partition_names ! p @ ''|'' @ k = partition_names ! q @ ''|'' @ k'"
  shows "p = q \<and> k = k'"
  using partition_names_nth [OF assms(1)] partition_names_nth [OF assms(2)] assms(3)
  by (elim disjE) (simp_all add: partition_names_def)

text \<open>The key fits the buffer of the full key.\<close>

definition key_fits :: "php_bacnet_cache \<Rightarrow> nat \<Rightarrow> string \<Rightarrow> bool" where
  "key_fits c p key \<longleftrightarrow> length (partition_prefix (c_namespace_name c) (l2_name (c_l2 c)) p @ key) < 512"

lemma full_key:
  "key_fits c p key \<Longrightarrow>
   php_bacnet_make_full_key c p key = partition_prefix (c_namespace_name c) (l2_name (c_l2 c)) p @ key"
  by (simp add: key_fits_def php_bacnet_make_full_key_def snprintf_def Let_def l2_name_def split: l2_kind.splits)

text \<open>
  Within one configuration two entries have the same full key only when they are the same key
  of the same partition: the names of the partitions cannot run into the keys.
\<close>

theorem full_key_injective:
  assumes "p < CACHE_PARTITION_COUNT" "q < CACHE_PARTITION_COUNT" "key_fits c p k" "key_fits c q k'"
    and "php_bacnet_make_full_key c p k = php_bacnet_make_full_key c q k'"
  shows "p = q \<and> k = k'"
  using partition_name_unique [OF assms(1,2)] assms(5)
  unfolding full_key [OF assms(3)] full_key [OF assms(4)] by (simp add: partition_prefix_def)

definition demo_cache :: php_bacnet_cache where
  "demo_cache = cache_from_globals PHP_MINIT_bacnet (Some ''eth0'') 9"

lemma show_nat_9: "show_nat 9 = ''9''" and show_nat_2: "show_nat 2 = ''2''"
  by (simp_all add: show_nat.simps digit_char_def char_of_def) (simp_all add: bit_0)

lemma demo_cache_fields:
  "c_namespace_name demo_cache = ''eth0:9''" "c_l2 demo_cache = L2_LMDB" "c_enabled demo_cache"
  "c_part_enabled demo_cache = [False, True, True, True, True, False]"
  "c_max_entries demo_cache = [4096, 4096, 256, 256, 256, 1024]" "c_l1_max_bytes demo_cache = 16777216"
  "c_ttl demo_cache = [Fin 1, Fin 300, Fin 300, Fin 60, Fin 300, Fin 1]"
  "c_lmdb_path demo_cache = ''/var/cache/php-bacnet''" "c_l2_max_bytes demo_cache = 16777216"
  "c_lmdb_map_size demo_cache = 67108864" "c_log_interval demo_cache = Fin 60"
  "c_negative_whois_ttl demo_cache = Fin 2" "c_negative_read_ttl demo_cache = Fin 1"
  "\<not> c_backend_active demo_cache"
  by (simp_all add: size_of_long_def demo_cache_def cache_from_globals_def PHP_MINIT_bacnet_def bacnet_ini_defaults_def
      php_bacnet_init_globals_def ini_string_def cstr_def snprintf_def Let_def show_nat_9)

lemma full_key_injective_witness:
  "php_bacnet_make_full_key demo_cache 1 ''_list|x'' \<noteq> php_bacnet_make_full_key demo_cache 2 ''x''"
proof -
  have "key_fits demo_cache 1 ''_list|x''" "key_fits demo_cache 2 ''x''"
    by (simp_all add: key_fits_def partition_prefix_def key_prefix_def demo_cache_fields
      l2_name_def partition_names_def PHP_BACNET_CACHE_VERSION_def show_nat_2)
  then show ?thesis
    using full_key_injective [of 1 2 demo_cache "''_list|x''" "''x''"] by (auto simp: CACHE_PARTITION_COUNT_def)
qed

subsection \<open>Accounting\<close>

definition hit_miss :: "('e, 'b) cache_world \<Rightarrow> u64 \<times> u64" where
  "hit_miss w = (cs_hits (c_stats (w_cache w)), cs_misses (c_stats (w_cache w)))"

lemma count_fields [simp]:
  "cs_hits (count_eviction st) = cs_hits st" "cs_misses (count_eviction st) = cs_misses st"
  "cs_hits (count_failure st) = cs_hits st" "cs_misses (count_failure st) = cs_misses st"
  by (simp_all add: count_eviction_def count_failure_def)

lemma evict_loop_counts:
  "evict_loop m t pr ss st = (ok, ss', st') \<Longrightarrow> cs_hits st' = cs_hits st \<and> cs_misses st' = cs_misses st"
proof (induction m t pr ss st rule: evict_loop.induct)
  case (1 m t pr ss st)
  show ?case
    using 1 by (auto simp: evict_loop.simps [of m t pr ss st] split: if_splits option.splits)
qed

lemma shm_put_counts:
  "php_bacnet_shm_put mx mb p full data e shm st = (shm', st') \<Longrightarrow>
   cs_hits st' = cs_hits st \<and> cs_misses st' = cs_misses st"
  by (auto simp: php_bacnet_shm_put_def put_target_def Let_def split: if_splits option.splits prod.splits
      dest!: evict_loop_counts)

lemma shm_get_counts:
  "php_bacnet_shm_get p full cap now shm st = (r, shm', st') \<Longrightarrow>
   cs_hits st' = cs_hits st \<and> cs_misses st' = cs_misses st"
  by (auto simp: php_bacnet_shm_get_def Let_def split: if_splits option.splits)

lemma hit_miss_base [simp]:
  "hit_miss (snd (php_bacnet_wall_ms w)) = hit_miss w"
  "hit_miss (w\<lparr>w_reads := n\<rparr>) = hit_miss w"
  "hit_miss (w\<lparr>w_backend := b\<rparr>) = hit_miss w"
  "hit_miss (w\<lparr>w_lmdb := e\<rparr>) = hit_miss w"
  "hit_miss (w\<lparr>w_warnings := l\<rparr>) = hit_miss w"
  "hit_miss (w\<lparr>w_shms := s\<rparr>) = hit_miss w"
  by (simp_all add: hit_miss_def php_bacnet_wall_ms_def)

lemma hit_miss_upd [simp]:
  "(\<And>c. c_stats (f c) = c_stats c) \<Longrightarrow> hit_miss (upd_cache f w) = hit_miss w"
  by (simp add: hit_miss_def upd_cache_def)

lemma hit_miss_stats:
  "hit_miss (upd_stats f w) = (cs_hits (f (c_stats (w_cache w))), cs_misses (f (c_stats (w_cache w))))"
  by (simp add: hit_miss_def upd_stats_def upd_cache_def)

lemma hit_miss_stats_other:
  "(\<And>st. cs_hits (f st) = cs_hits st \<and> cs_misses (f st) = cs_misses st) \<Longrightarrow> hit_miss (upd_stats f w) = hit_miss w"
  by (simp add: hit_miss_stats) (simp add: hit_miss_def)

lemma hit_miss_warn [simp]: "hit_miss (php_bacnet_cache_warn E msg w) = hit_miss w"
  by (simp add: php_bacnet_cache_warn_def Let_def php_bacnet_wall_ms_def hit_miss_stats_other)

lemma hit_miss_shm_get: "cache_shm_get E p full cap w = (r, w') \<Longrightarrow> hit_miss w' = hit_miss w"
  by (auto simp: cache_shm_get_def Let_def php_bacnet_wall_ms_def set_shm_def hit_miss_stats
      dest!: shm_get_counts split: option.splits prod.splits) (simp_all add: hit_miss_def)

lemma hit_miss_shm_put [simp]: "hit_miss (cache_shm_put E p full data e w) = hit_miss w"
  by (auto simp: cache_shm_put_def Let_def set_shm_def hit_miss_stats
      dest!: shm_put_counts split: option.splits prod.splits) (simp_all add: hit_miss_def)

lemma hit_miss_shm_clear [simp]: "hit_miss (cache_shm_clear E part w) = hit_miss w"
  by (auto simp: cache_shm_clear_def set_shm_def hit_miss_stats split: option.splits) (simp add: hit_miss_def)

lemma hit_miss_callback: "php_bacnet_callback_call E m args w = (r, w') \<Longrightarrow> hit_miss w' = hit_miss w"
  by (auto simp: php_bacnet_callback_call_def Let_def split: if_splits option.splits prod.splits)

lemma hit_miss_generation [simp]: "hit_miss (php_bacnet_callback_check_generation E p w) = hit_miss w"
  by (auto simp: php_bacnet_callback_check_generation_def Let_def php_bacnet_wall_ms_def hit_miss_stats_other
      dest!: hit_miss_callback split: option.splits prod.splits zval.splits if_splits)

lemma hit_miss_l2: "l2_lookup E p key full cap w = (r, w') \<Longrightarrow> hit_miss w' = hit_miss w"
  by (auto simp: l2_lookup_def php_bacnet_lmdb_get_def Let_def php_bacnet_wall_ms_def
      dest!: hit_miss_callback split: l2_kind.splits if_splits option.splits prod.splits)

lemma lookup_counted:
  assumes g: "php_bacnet_cache_get E p key cap w = (r, w')"
  shows "if \<not> php_bacnet_cache_partition_enabled (w_cache w) p then r = None \<and> w' = w
    else hit_miss w' = (case r of
       Some _ \<Rightarrow> (cs_hits (c_stats (w_cache w)) + 1, cs_misses (c_stats (w_cache w)))
     | None \<Rightarrow> (cs_hits (c_stats (w_cache w)), cs_misses (c_stats (w_cache w)) + 1))"
proof -
  show ?thesis
  proof (cases "php_bacnet_cache_partition_enabled (w_cache w) p")
    case False
    then show ?thesis using g by (simp add: php_bacnet_cache_get_def)
  next
    case True
    define w1 where "w1 = (if c_l2 (w_cache w) = L2_CALLBACK then php_bacnet_callback_check_generation E p w else w)"
    define full where "full = php_bacnet_make_full_key (w_cache w1) p key"
    have 1: "hit_miss w1 = hit_miss w" by (simp add: w1_def)
    obtain r2 w2 where s: "cache_shm_get E p full cap w1 = (r2, w2)" by (cases "cache_shm_get E p full cap w1")
    have 2: "hit_miss w2 = hit_miss w" using hit_miss_shm_get [OF s] 1 by simp
    show ?thesis
    proof (cases r2)
      case (Some d)
      then have "r = Some d" "w' = upd_stats (count_hit p) w2"
        using g True s by (simp_all add: php_bacnet_cache_get_def w1_def [symmetric] full_def [symmetric] Let_def)
      then show ?thesis using True 2 by (simp add: hit_miss_stats count_hit_def) (simp add: hit_miss_def)
    next
      case None
      obtain r3 w3 where l: "l2_lookup E p key full cap w2 = (r3, w3)" by (cases "l2_lookup E p key full cap w2")
      have 3: "hit_miss w3 = hit_miss w" using hit_miss_l2 [OF l] 2 by simp
      show ?thesis
      proof (cases r3)
        case None2: None
        then have "r = None" "w' = upd_stats (\<lambda>st. st\<lparr>cs_misses := cs_misses st + 1\<rparr>) w3"
          using g True s l None
          by (simp_all add: php_bacnet_cache_get_def w1_def [symmetric] full_def [symmetric] Let_def)
        then show ?thesis using True 3 by (simp add: hit_miss_stats) (simp add: hit_miss_def)
      next
        case (Some d)
        then obtain w4 where "r = Some d" "w' = upd_stats (\<lambda>st. st\<lparr>cs_hits := cs_hits st + 1\<rparr>) w4" "hit_miss w4 = hit_miss w"
          using g True s l None 3
          by (auto simp: php_bacnet_cache_get_def w1_def [symmetric] full_def [symmetric] Let_def php_bacnet_wall_ms_def)
        then show ?thesis using True by (simp add: hit_miss_stats) (simp add: hit_miss_def)
      qed
    qed
  qed
qed

text \<open>
  Every lookup in an enabled partition is counted exactly once: as a hit when it gives a value,
  whichever level it came from, as a miss when it gives none; a lookup in a disabled partition
  gives nothing and changes nothing.
\<close>

theorem lookup_counted_once:
  "case php_bacnet_cache_get E p key cap w of (r, w') \<Rightarrow>
     (if \<not> php_bacnet_cache_partition_enabled (w_cache w) p then r = None \<and> w' = w
      else hit_miss w' = (case r of
         Some _ \<Rightarrow> (cs_hits (c_stats (w_cache w)) + 1, cs_misses (c_stats (w_cache w)))
       | None \<Rightarrow> (cs_hits (c_stats (w_cache w)), cs_misses (c_stats (w_cache w)) + 1)))"
  using lookup_counted [of E p key cap w] by (simp split: prod.split)

subsection \<open>What the second level leaves alone\<close>

text \<open>The part of the cache that lookups and insertions do not change.\<close>

definition settings :: "php_bacnet_cache \<Rightarrow> php_bacnet_cache" where
  "settings c = c\<lparr>c_stats := empty_cache_stats, c_last_log_ms := 0, c_generations := [], c_last_coherence_ms := []\<rparr>"

definition view :: "('e, 'b) cache_world \<Rightarrow> php_bacnet_cache \<times> (string \<Rightarrow> cache_shm option) \<times> (nat \<Rightarrow> u64)" where
  "view w = (settings (w_cache w), w_shms w, w_clock w)"

lemma settings_eqD:
  assumes "settings c = settings c'"
  shows "c_shm c = c_shm c'" "c_enabled c = c_enabled c'" "c_part_enabled c = c_part_enabled c'"
    "c_l2 c = c_l2 c'" "c_namespace_name c = c_namespace_name c'" "c_ttl c = c_ttl c'"
    "c_max_entries c = c_max_entries c'" "c_l1_max_bytes c = c_l1_max_bytes c'" "c_env c = c_env c'"
    "c_backend_active c = c_backend_active c'" "c_in_callback c = c_in_callback c'"
  using assms by (cases c, cases c', simp add: settings_def)+

lemma viewD:
  assumes "view w = view w'"
  shows "w_shms w = w_shms w'" "w_clock w = w_clock w'" "settings (w_cache w) = settings (w_cache w')"
  using assms by (simp_all add: view_def)

lemma view_locked: assumes "view w = view w'" shows "locked_shm E w = locked_shm E w'"
  unfolding locked_shm_def settings_eqD(1) [OF viewD(3) [OF assms]] viewD(1) [OF assms] ..

lemma view_enabled:
  "view w = view w' \<Longrightarrow> php_bacnet_cache_partition_enabled (w_cache w) p = php_bacnet_cache_partition_enabled (w_cache w') p"
  using viewD(3) [of w w'] settings_eqD [of "w_cache w" "w_cache w'"]
  by (simp add: php_bacnet_cache_partition_enabled_def)

lemma view_full_key:
  "view w = view w' \<Longrightarrow> php_bacnet_make_full_key (w_cache w) p key = php_bacnet_make_full_key (w_cache w') p key"
  using viewD(3) [of w w'] settings_eqD [of "w_cache w" "w_cache w'"]
  by (simp add: php_bacnet_make_full_key_def)

lemma view_base [simp]:
  "view (w\<lparr>w_reads := n\<rparr>) = view w"
  "view (w\<lparr>w_backend := b\<rparr>) = view w"
  "view (w\<lparr>w_lmdb := e\<rparr>) = view w"
  "view (w\<lparr>w_warnings := l\<rparr>) = view w"
  "view (upd_stats f w) = view w"
  "view (upd_cache (\<lambda>c. c\<lparr>c_last_log_ms := t\<rparr>) w) = view w"
  "view (upd_cache (\<lambda>c. c\<lparr>c_generations := g c\<rparr>) w) = view w"
  by (simp_all add: view_def upd_stats_def upd_cache_def settings_def)

lemma view_warn [simp]: "view (php_bacnet_cache_warn E msg w) = view w"
  by (simp add: php_bacnet_cache_warn_def Let_def php_bacnet_wall_ms_def)

lemma view_callback: "php_bacnet_callback_call E m args w = (r, w') \<Longrightarrow> view w' = view w"
  by (auto simp: php_bacnet_callback_call_def Let_def split: if_splits option.splits prod.splits)

lemma view_bump [simp]: "view (bump_generation E p w) = view w"
  by (auto simp: bump_generation_def Let_def dest!: view_callback split: prod.splits option.splits zval.splits)

lemma view_lmdb_put [simp]: "view (php_bacnet_lmdb_put E full data e w) = view w"
  by (simp add: php_bacnet_lmdb_put_def split: option.splits)

lemma view_prune_partition: "prune_partition E rs n o1 w = (n', o2, w') \<Longrightarrow> view w' = view w"
proof (induction rs arbitrary: n o1 w)
  case (Cons r rs)
  obtain k v where r: "r = (k, v)" by (cases r)
  show ?case
    using Cons.prems unfolding r
    by (auto simp: Let_def php_bacnet_wall_ms_def split: if_splits dest!: Cons.IH)
qed simp

lemma view_drop_victim [simp]: "view (drop_victim E over victim w) = view w"
  by (simp add: drop_victim_def)

lemma view_prune [simp]: "view (php_bacnet_lmdb_prune E p w) = view w"
  by (auto simp: php_bacnet_lmdb_prune_def Let_def split: option.splits prod.splits dest!: view_prune_partition)

text \<open>An insertion is the insertion into the table, as far as lookups in the table can tell.\<close>

lemma view_cache_put:
  assumes "php_bacnet_cache_partition_enabled (w_cache w) p" "\<not> ttl \<le> Fin 0"
  shows "view (php_bacnet_cache_put E p key data ttl w) =
    view (cache_shm_put E p (php_bacnet_make_full_key (w_cache w) p key) data
      (w_clock w (w_reads w) + u64_of_dbl (conv_u64 E) (ttl * Fin 1000)) (w\<lparr>w_reads := Suc (w_reads w)\<rparr>))"
  using assms
  by (auto simp: php_bacnet_cache_put_def php_bacnet_wall_ms_def Let_def split: prod.splits dest!: view_callback)

subsection \<open>Reading back through the levels\<close>

definition l1_ready :: "('e, 'b) cache_env \<Rightarrow> ('e, 'b) cache_world \<Rightarrow> bool" where
  "l1_ready E w \<longleftrightarrow> (\<exists>n shm. locked_shm E w = Some (n, shm) \<and> slots_wf (shm_slots shm) \<and> ticks_ok (shm_slots shm))"

lemma locked_set_shm: "locked_shm E w = Some (n, shm) \<Longrightarrow> locked_shm E (set_shm n shm' st w) = Some (n, shm')"
  by (auto simp: locked_shm_def set_shm_def upd_stats_def upd_cache_def split: option.splits if_splits)

lemma cache_shm_put_lookup:
  assumes "l1_ready E w" "storable (c_l1_max_bytes (w_cache w)) full data" "0 < c_max_entries (w_cache w) ! p"
  obtains n shm where "locked_shm E (cache_shm_put E p full data expiry w) = Some (n, shm)"
    "\<And>now. now < expiry \<Longrightarrow> l1_lookup p full now (shm_slots shm) = Some data"
proof -
  obtain n shm where l: "locked_shm E w = Some (n, shm)" "slots_wf (shm_slots shm)" "ticks_ok (shm_slots shm)"
    using assms(1) by (auto simp: l1_ready_def)
  obtain shm' st' where put: "php_bacnet_shm_put (c_max_entries (w_cache w) ! p) (c_l1_max_bytes (w_cache w)) p full
      data expiry shm (c_stats (w_cache w)) = (shm', st')" by fastforce
  have "l1_lookup p full now (shm_slots shm') = Some data" if "now < expiry" for now
    using shm_put_get_value [OF l(2,3) assms(2,3) that le_refl, where p = p and st = "c_stats (w_cache w)" and ?st2.0 = empty_cache_stats] put
    by (simp add: shm_get_result split: option.splits if_splits)
  moreover have "locked_shm E (cache_shm_put E p full data expiry w) = Some (n, shm')"
    using l(1) put locked_set_shm by (simp add: cache_shm_put_def Let_def)
  ultimately show ?thesis using that by blast
qed

lemma cache_shm_get_lookup:
  assumes "locked_shm E w = Some (n, shm)"
  shows "fst (cache_shm_get E p full cap w) =
    (case l1_lookup p full (w_clock w (w_reads w)) (shm_slots shm) of
       Some v \<Rightarrow> if length v \<le> cap then Some v else None | None \<Rightarrow> None)"
  using assms shm_get_result [of p full cap "w_clock w (w_reads w)" shm "c_stats (w_cache w)"]
  by (cases "php_bacnet_shm_get p full cap (w_clock w (w_reads w)) shm (c_stats (w_cache w))")
    (simp add: cache_shm_get_def php_bacnet_wall_ms_def Let_def)

lemma cache_get_l1:
  assumes "php_bacnet_cache_partition_enabled (w_cache w) p" "c_l2 (w_cache w) \<noteq> L2_CALLBACK"
    and "fst (cache_shm_get E p (php_bacnet_make_full_key (w_cache w) p key) cap w) = Some data"
  shows "fst (php_bacnet_cache_get E p key cap w) = Some data"
  using assms by (cases "cache_shm_get E p (php_bacnet_make_full_key (w_cache w) p key) cap w")
    (simp add: php_bacnet_cache_get_def)

lemma put_settings:
  assumes "php_bacnet_cache_partition_enabled (w_cache w) p" "\<not> ttl \<le> Fin 0"
  shows "settings (w_cache (php_bacnet_cache_put E p key data ttl w)) = settings (w_cache w)"
    and "w_clock (php_bacnet_cache_put E p key data ttl w) = w_clock w"
proof -
  have "settings (w_cache (cache_shm_put E p full data e (w\<lparr>w_reads := n\<rparr>))) = settings (w_cache w)"
    "w_clock (cache_shm_put E p full data e (w\<lparr>w_reads := n\<rparr>)) = w_clock w" for full e n
    by (auto simp: cache_shm_put_def set_shm_def upd_stats_def upd_cache_def settings_def Let_def
        split: option.splits prod.splits)
  then show "settings (w_cache (php_bacnet_cache_put E p key data ttl w)) = settings (w_cache w)"
    "w_clock (php_bacnet_cache_put E p key data ttl w) = w_clock w"
    using viewD(2,3) [OF view_cache_put [OF assms, of E key data]] by simp_all
qed

lemma put_then_get:
  assumes "php_bacnet_cache_partition_enabled (w_cache w) p" "c_l2 (w_cache w) \<noteq> L2_CALLBACK"
    and "\<not> ttl \<le> Fin 0" "l1_ready E w" "length data \<le> cap"
    and "storable (c_l1_max_bytes (w_cache w)) (php_bacnet_make_full_key (w_cache w) p key) data"
    and "0 < c_max_entries (w_cache w) ! p"
    and "\<forall>n. w_clock w n < w_clock w (w_reads w) + u64_of_dbl (conv_u64 E) (ttl * Fin 1000)"
  shows "fst (php_bacnet_cache_get E p key cap (php_bacnet_cache_put E p key data ttl w)) = Some data"
proof -
  let ?full = "php_bacnet_make_full_key (w_cache w) p key"
  let ?e = "w_clock w (w_reads w) + u64_of_dbl (conv_u64 E) (ttl * Fin 1000)"
  let ?w1 = "w\<lparr>w_reads := Suc (w_reads w)\<rparr>"
  let ?w2 = "cache_shm_put E p ?full data ?e ?w1"
  let ?w3 = "php_bacnet_cache_put E p key data ttl w"
  have v: "view ?w3 = view ?w2" by (rule view_cache_put [OF assms(1,3)])
  have "l1_ready E ?w1" using assms(4) by (simp add: l1_ready_def view_locked [OF view_base(1)])
  then obtain n shm where l: "locked_shm E ?w2 = Some (n, shm)"
    and lk: "\<And>now. now < ?e \<Longrightarrow> l1_lookup p ?full now (shm_slots shm) = Some data"
    using cache_shm_put_lookup [of E ?w1 ?full data p ?e] assms(6,7) by auto
  note c = settings_eqD(1-5) [OF put_settings(1) [OF assms(1,3), of E key data]]
  have full: "php_bacnet_make_full_key (w_cache ?w3) p key = ?full"
    by (simp add: php_bacnet_make_full_key_def c(4,5))
  have en: "php_bacnet_cache_partition_enabled (w_cache ?w3) p"
    using assms(1) by (simp add: php_bacnet_cache_partition_enabled_def c(2,3))
  have l3: "locked_shm E ?w3 = Some (n, shm)" using view_locked [OF v] l by simp
  have "w_clock ?w3 k < ?e" for k using assms(8) put_settings(2) [OF assms(1,3), of E key data] by simp
  then have "fst (cache_shm_get E p ?full cap ?w3) = Some data"
    using cache_shm_get_lookup [OF l3, of p ?full cap] lk assms(5) by simp
  then show ?thesis
    using cache_get_l1 [OF en, of E key cap data] assms(2) unfolding full c(4) by blast
qed

text \<open>C30.
  What is put into an enabled partition with a positive lifetime, and fits the table, is found
  by the next lookup of the same key before it expires, exactly as it was put, with or without
  LMDB behind the table and whatever LMDB does.
\<close>

theorem cache_put_get:
  assumes "php_bacnet_cache_partition_enabled (w_cache w) p" "c_l2 (w_cache w) \<noteq> L2_CALLBACK"
    and "\<not> ttl \<le> Fin 0" "l1_ready E w" "length data \<le> cap"
    and "storable (c_l1_max_bytes (w_cache w)) (php_bacnet_make_full_key (w_cache w) p key) data"
    and "0 < c_max_entries (w_cache w) ! p"
    and "\<forall>n. w_clock w n < w_clock w (w_reads w) + u64_of_dbl (conv_u64 E) (ttl * Fin 1000)"
  shows "fst (php_bacnet_cache_get E p key cap (php_bacnet_cache_put E p key data ttl w)) = Some data"
  by (rule put_then_get [OF assms])

text \<open>
  A concrete environment: an association list for LMDB, with an ordered cursor, and no backend.
\<close>

type_synonym list_store = "(string \<times> bytes) list"

definition list_env :: "(list_store, unit) cache_env" where
  "list_env = \<lparr>os_shm_open = \<lambda>_. True, os_lock = \<lambda>_. True, lm_open = \<lambda>_ _ e. Some e, lm_close = \<lambda>e. e,
     lm_get = \<lambda>k e. map_of e k, lm_put = \<lambda>k v e. Some ((k, v) # filter (\<lambda>r. fst r \<noteq> k) e),
     lm_scan = \<lambda>p e. Some (map (\<lambda>k. (k, the (map_of e k))) (sort (filter (\<lambda>k. p \<le> k) (remdups (map fst e))))),
     lm_del = \<lambda>k e. filter (\<lambda>r. fst r \<noteq> k) e, lm_commit = \<lambda>_ e. e, lm_entries = \<lambda>e. Some (of_nat (length e)),
     cb_call = \<lambda>_ _ b. (None, b), conv_u64 = \<lambda>_. 0\<rparr>"

definition demo_world :: "list_store \<Rightarrow> (list_store, unit) cache_world" where
  "demo_world e = \<lparr>w_cache = demo_cache\<lparr>c_shm := Some ''/s'', c_env := True\<rparr>, w_clock = \<lambda>_. 5, w_reads = 0,
     w_shms = (\<lambda>_. None)(''/s'' := Some php_bacnet_shm_init), w_lmdb = e, w_backend = (), w_warnings = []\<rparr>"

lemma demo_locked: "locked_shm list_env (demo_world e) = Some (''/s'', php_bacnet_shm_init)"
  by (simp add: locked_shm_def demo_world_def list_env_def)

lemma demo_ready: "l1_ready list_env (demo_world e)"
  using demo_locked init_wf init_ticks by (auto simp: l1_ready_def)

lemma demo_enabled: "php_bacnet_cache_partition_enabled (w_cache (demo_world e)) 3"
  by (simp add: demo_world_def php_bacnet_cache_partition_enabled_def demo_cache_fields CACHE_PARTITION_COUNT_def)

lemma demo_full_key: "php_bacnet_make_full_key (w_cache (demo_world e)) 3 ''7'' = ''v2|eth0:9|lmdb|device|7''"
  by (simp add: php_bacnet_make_full_key_def demo_world_def demo_cache_fields snprintf_def partition_prefix_def
      key_prefix_def partition_names_def PHP_BACNET_CACHE_VERSION_def show_nat_2)

lemma demo_storable:
  "storable (c_l1_max_bytes (w_cache (demo_world e))) ''v2|eth0:9|lmdb|device|7'' [1, 2, 3]"
  "0 < c_max_entries (w_cache (demo_world e)) ! 3"
  by (simp_all add: storable_def demo_world_def demo_cache_fields CACHE_VALUE_MAX_def CACHE_KEY_MAX_def)

lemma ttl_60: "u64_of_dbl conv (Fin 60 * Fin 1000) = 60000"
  by simp

lemma cache_put_get_witness:
  "fst (php_bacnet_cache_get list_env 3 ''7'' 16
     (php_bacnet_cache_put list_env 3 ''7'' [1, 2, 3] (Fin 60) (demo_world []))) = Some [1, 2, 3]"
proof (rule cache_put_get [OF demo_enabled _ _ demo_ready])
  show "\<forall>n. w_clock (demo_world []) n < w_clock (demo_world []) (w_reads (demo_world [])) +
      u64_of_dbl (conv_u64 list_env) (Fin 60 * Fin 1000)"
    unfolding ttl_60 by (simp add: demo_world_def)
qed (simp_all only: demo_full_key demo_storable, simp_all add: demo_world_def demo_cache_fields)

subsection \<open>Promotion\<close>

lemma shm_get_None_ticks:
  assumes "php_bacnet_shm_get p full cap now shm st = (None, shm', st')" "ticks_ok (shm_slots shm)"
  shows "ticks_ok (shm_slots shm')"
proof -
  have "shm_slots shm' = shm_slots shm \<or> (\<exists>i s. shm_slots shm' = (shm_slots shm)[i := s\<lparr>sl_used := False\<rparr>])"
    using assms(1) by (auto simp: php_bacnet_shm_get_def Let_def split: option.splits if_splits) blast
  moreover have "ticks_ok ((shm_slots shm)[i := s\<lparr>sl_used := False\<rparr>])" for i s
    using assms(2) set_update_subset_insert [of "shm_slots shm" i "s\<lparr>sl_used := False\<rparr>"]
    by (auto simp: ticks_ok_def list_all_iff)
  ultimately show ?thesis using assms(2) by auto
qed

text \<open>
  A hit in LMDB is copied into the table with a lifetime that starts anew: the table gives the
  value for the full lifetime of its partition from that moment on, however soon the record
  itself expires.  A value stored with a shorter lifetime is therefore served after it expired.
\<close>

theorem l2_hit_extends_lifetime:
  assumes "php_bacnet_cache_partition_enabled (w_cache w) p" "c_l2 (w_cache w) = L2_LMDB" "c_env (w_cache w)"
    and "locked_shm E w = Some (n, shm)" "slots_wf (shm_slots shm)" "ticks_ok (shm_slots shm)"
    and "full = php_bacnet_make_full_key (w_cache w) p key"
    and "l1_lookup p full (w_clock w (w_reads w)) (shm_slots shm) = None"
    and "lm_get E full (w_lmdb w) = Some (lmdb_record data expiry)"
    and "w_clock w (Suc (w_reads w)) < expiry" "length data \<le> cap"
    and "storable (c_l1_max_bytes (w_cache w)) full data" "0 < c_max_entries (w_cache w) ! p"
    and "php_bacnet_cache_get E p key cap w = (r, w')"
  shows "r = Some data \<and> (\<exists>m shm'. locked_shm E w' = Some (m, shm') \<and>
    (\<forall>now < w_clock w (Suc (Suc (w_reads w))) + u64_of_dbl (conv_u64 E) (c_ttl (w_cache w) ! p * Fin 1000).
       l1_lookup p full now (shm_slots shm') = Some data))"
proof -
  obtain shm1 st1 where g: "php_bacnet_shm_get p full cap (w_clock w (w_reads w)) shm (c_stats (w_cache w)) = (None, shm1, st1)"
    using shm_get_result [of p full cap "w_clock w (w_reads w)" shm "c_stats (w_cache w)"] assms(8)
    by (cases "php_bacnet_shm_get p full cap (w_clock w (w_reads w)) shm (c_stats (w_cache w))") simp
  define w1 where "w1 = set_shm n shm1 st1 (w\<lparr>w_reads := Suc (w_reads w)\<rparr>)"
  have s: "cache_shm_get E p full cap w = (None, w1)"
    using assms(4) g by (simp add: cache_shm_get_def php_bacnet_wall_ms_def w1_def)
  have w1: "w_clock w1 = w_clock w" "w_reads w1 = Suc (w_reads w)" "w_lmdb w1 = w_lmdb w"
    "settings (w_cache w1) = settings (w_cache w)"
    by (simp_all add: w1_def set_shm_def upd_stats_def upd_cache_def settings_def)
  have wk: "weaker (shm_slots shm) (shm_slots shm1)"
    using shm_get_weaker [of shm p full cap "w_clock w (w_reads w)" "c_stats (w_cache w)"] g by simp
  have "storable (length data) full data" using assms(12) by (simp add: storable_def)
  then have d32: "length data < 2 ^ 32" by (simp add: storable_def CACHE_VALUE_MAX_def)
  have pl: "header_plausible (lmdb_record data expiry)"
    using lmdb_accept_record [OF d32 assms(10) assms(11)] by (simp add: lmdb_accept_def Let_def split: if_splits)
  define w2 where "w2 = w1\<lparr>w_reads := Suc (Suc (w_reads w))\<rparr>"
  have l2: "l2_lookup E p key full cap w1 = (Some data, w2)"
    using assms(2,3,9) settings_eqD(4,9) [OF w1(4)] w1 pl lmdb_accept_record [OF d32 assms(10) assms(11)]
    by (simp add: l2_lookup_def php_bacnet_lmdb_get_def php_bacnet_wall_ms_def w2_def)
  let ?e = "w_clock w (Suc (Suc (w_reads w))) + u64_of_dbl (conv_u64 E) (c_ttl (w_cache w) ! p * Fin 1000)"
  let ?w3 = "w2\<lparr>w_reads := Suc (Suc (Suc (w_reads w)))\<rparr>"
  have r: "r = Some data" "w' = upd_stats (\<lambda>st. st\<lparr>cs_hits := cs_hits st + 1\<rparr>) (cache_shm_put E p full data ?e ?w3)"
    using assms(1,2,14) s l2 w1 settings_eqD(6) [OF w1(4)] unfolding assms(7)
    by (simp_all add: php_bacnet_cache_get_def php_bacnet_wall_ms_def w2_def Let_def)
  have l1: "locked_shm E ?w3 = Some (n, shm1)"
    using locked_set_shm [OF assms(4), of shm1 st1] view_locked [of ?w3 "set_shm n shm1 st1 w" E]
    by (simp add: w2_def w1_def set_shm_def view_def upd_stats_def upd_cache_def settings_def)
  have "l1_ready E ?w3"
    using l1 weaker_wf [OF assms(5) wk] shm_get_None_ticks [OF g assms(6)] by (auto simp: l1_ready_def)
  moreover have "c_l1_max_bytes (w_cache ?w3) = c_l1_max_bytes (w_cache w)"
      "c_max_entries (w_cache ?w3) = c_max_entries (w_cache w)"
    using settings_eqD(7,8) [OF w1(4)] by (simp_all add: w2_def)
  ultimately obtain m shm2 where "locked_shm E (cache_shm_put E p full data ?e ?w3) = Some (m, shm2)"
      "\<And>now. now < ?e \<Longrightarrow> l1_lookup p full now (shm_slots shm2) = Some data"
    using cache_shm_put_lookup [of E ?w3 full data p ?e] assms(12,13) by auto
  then show ?thesis unfolding r by (auto simp: view_locked [OF view_base(5)])
qed

lemma demo_lookup: "l1_lookup p k now (shm_slots php_bacnet_shm_init) = None"
  by (rule init_lookup)

lemma demo_instance:
  assumes "\<exists>m shm'. L m shm' \<and> (\<forall>now < (60005::u64). Q now shm')"
  shows "\<exists>shm'. Q 60004 shm'"
proof -
  have "(60004::u64) < 60005" by simp
  then show ?thesis using assms by blast
qed

lemma l2_hit_extends_lifetime_witness:
  "\<exists>shm' :: cache_shm. l1_lookup 3 ''v2|eth0:9|lmdb|device|7'' 60004 (shm_slots shm') = Some [1, 2, 3]"
proof -
  let ?w = "demo_world [(''v2|eth0:9|lmdb|device|7'', lmdb_record [1, 2, 3] 6)]"
  let ?g = "php_bacnet_cache_get list_env 3 ''7'' 16 ?w"
  have "fst ?g = Some [1, 2, 3] \<and> (\<exists>m shm'. locked_shm list_env (snd ?g) = Some (m, shm') \<and>
    (\<forall>now < w_clock ?w (Suc (Suc (w_reads ?w))) + u64_of_dbl (conv_u64 list_env) (c_ttl (w_cache ?w) ! 3 * Fin 1000).
       l1_lookup 3 ''v2|eth0:9|lmdb|device|7'' now (shm_slots shm') = Some [1, 2, 3]))"
  proof (rule l2_hit_extends_lifetime [OF demo_enabled _ _ demo_locked init_wf init_ticks demo_full_key [symmetric]
      demo_lookup _ _ _ demo_storable prod.collapse [symmetric]])
    show "lm_get list_env ''v2|eth0:9|lmdb|device|7'' (w_lmdb ?w) = Some (lmdb_record [1, 2, 3] 6)"
      by (simp add: demo_world_def list_env_def)
  qed (simp_all add: demo_world_def demo_cache_fields)
  moreover have "w_clock ?w k = 5" "c_ttl (w_cache ?w) ! 3 = Fin 60" for k
    by (simp_all add: demo_world_def demo_cache_fields)
  ultimately have "\<exists>m shm'. locked_shm list_env (snd ?g) = Some (m, shm') \<and> (\<forall>now < 60005.
       l1_lookup 3 ''v2|eth0:9|lmdb|device|7'' now (shm_slots shm') = Some [1, 2, 3])"
    by (simp only: ttl_60) simp
  then show ?thesis
    by (rule demo_instance [where L = "\<lambda>m shm'. locked_shm list_env (snd ?g) = Some (m, shm')"
      and Q = "\<lambda>now shm'. l1_lookup 3 ''v2|eth0:9|lmdb|device|7'' now (shm_slots shm') = Some [1, 2, 3]"])
qed

end
