(* ===== verification/Cache_Clear.thy ===== *)
theory Cache_Clear
  imports Cache_Props
begin

text \<open>
  Clearing.  LMDB enters through lmdb_ok: reads see writes and deletions, and a cursor visits
  the records from a key on in the byte order of the keys (mdb_get, mdb_del, MDB_SET_RANGE and
  MDB_NEXT of its documentation).  As the keys with a common prefix are contiguous in that
  order, the loop that stops at the first other key deletes all of them.
\<close>

subsection \<open>Ordered keys\<close>

definition lmdb_ok :: "('e, 'b) cache_env \<Rightarrow> bool" where
  "lmdb_ok E \<longleftrightarrow>
     (\<forall>k k' e. lm_get E k' (lm_del E k e) = (if k' = k then None else lm_get E k' e)) \<and>
     (\<forall>p e rs. lm_scan E p e = Some rs \<longrightarrow> sorted (map fst rs) \<and>
        (\<forall>k v. (k, v) \<in> set rs \<longleftrightarrow> p \<le> k \<and> lm_get E k e = Some v)) \<and>
     (\<forall>e e'. lm_commit E e e' = e')"

lemma string_le_Cons: "(c # s :: string) \<le> d # t \<longleftrightarrow> c < d \<or> (c = d \<and> s \<le> t)"
  by (auto simp: list_le_def list_less_def)

lemma string_le_Nil [simp]: "([] :: string) \<le> t"
  by (cases t) (auto simp: list_le_def list_less_def)

lemma string_le_Nil_right [simp]: "\<not> (c # s :: string) \<le> []"
  by (auto simp: list_le_def list_less_def)

lemma is_prefix_Cons: "is_prefix (c # p) (d # k) \<longleftrightarrow> c = d \<and> is_prefix p k"
  by (auto simp: is_prefix_def)

lemma is_prefix_le: "is_prefix p k \<Longrightarrow> p \<le> k"
proof (induction p arbitrary: k)
  case (Cons c p)
  then show ?case by (cases k) (auto simp: string_le_Cons is_prefix_Cons is_prefix_def [of _ "[]"])
qed simp

lemma is_prefix_between: "p \<le> k \<Longrightarrow> k \<le> k' \<Longrightarrow> is_prefix p k' \<Longrightarrow> is_prefix p k"
proof (induction p arbitrary: k k')
  case Nil
  then show ?case by (simp add: is_prefix_def)
next
  case (Cons c p)
  obtain d s where k: "k = d # s" using Cons.prems(1) by (cases k) auto
  obtain d' s' where k': "k' = d' # s'" using Cons.prems(2) k by (cases k') auto
  have d': "d' = c" "is_prefix p s'" using Cons.prems(3) by (auto simp: k' is_prefix_Cons)
  have le: "c < d \<or> c = d \<and> p \<le> s" "d < c \<or> d = c \<and> s \<le> s'"
    using Cons.prems(1,2) by (auto simp: k k' d' string_le_Cons)
  then have "d = c" "p \<le> s" "s \<le> s'" by auto
  then show ?case using Cons.IH [OF _ _ d'(2)] by (simp add: k is_prefix_Cons)
qed

lemma takeWhile_sorted:
  assumes "sorted xs" "\<And>x y. x \<in> set xs \<Longrightarrow> x \<le> y \<Longrightarrow> P y \<Longrightarrow> P x" "y \<in> set xs" "P y"
  shows "y \<in> set (takeWhile P xs)"
  using assms
proof (induction xs)
  case (Cons x xs)
  have "P x" using Cons.prems by (cases "y = x") auto
  moreover have "y = x \<or> y \<in> set (takeWhile P xs)"
  proof (cases "y = x")
    case False
    then show ?thesis using Cons.IH Cons.prems by auto
  qed simp
  ultimately show ?case by auto
qed simp

lemma visited_complete:
  assumes "lmdb_ok E" "lm_scan E p e = Some rs" "is_prefix p k" "lm_get E k e = Some v"
  shows "k \<in> set (map fst (visited p rs))"
proof -
  have rs: "sorted (map fst rs)" "\<And>k v. (k, v) \<in> set rs \<longleftrightarrow> p \<le> k \<and> lm_get E k e = Some v"
    using assms(1,2) unfolding lmdb_ok_def by blast+
  have "k \<in> set (map fst rs)" using rs(2) [of k v] assms(3,4) is_prefix_le by force
  moreover have "is_prefix p x" if "x \<in> set (map fst rs)" "x \<le> y" "is_prefix p y" for x y
    using rs(2) is_prefix_between that by auto
  ultimately have "k \<in> set (takeWhile (is_prefix p) (map fst rs))"
    using takeWhile_sorted [OF rs(1), of "is_prefix p" k] assms(3) by blast
  then show ?thesis by (simp add: visited_def takeWhile_map comp_def)
qed

lemma clear_visited_get:
  assumes "lmdb_ok E"
  shows "lm_get E k (clear_visited E rs e) = (if k \<in> set (map fst rs) then None else lm_get E k e)"
proof (induction rs arbitrary: e)
  case (Cons r rs)
  then show ?case using assms by (cases r) (auto simp: lmdb_ok_def)
qed simp

subsection \<open>Clearing a partition\<close>

definition clear_prefix :: "php_bacnet_cache \<Rightarrow> int \<Rightarrow> string" where
  "clear_prefix c part = (if part < 0 then key_prefix (c_namespace_name c) ''lmdb''
     else partition_prefix (c_namespace_name c) ''lmdb'' (nat part))"

lemma partition_name_length: "p < CACHE_PARTITION_COUNT \<Longrightarrow> length (partition_names ! p) \<le> 11"
  by (drule partition_names_nth) (elim disjE, simp_all add: partition_names_def)

lemma key_prefix_length: "length (key_prefix ns ''lmdb'') = length ns + 9"
  by (simp add: key_prefix_def PHP_BACNET_CACHE_VERSION_def show_nat_2)

lemma prefix_of_full_key:
  assumes "length (c_namespace_name c) < 96" "c_l2 c = L2_LMDB" "p < CACHE_PARTITION_COUNT"
    and "part < 0 \<or> part = int p"
  shows "snprintf 320 (clear_prefix c part) = clear_prefix c part"
    and "is_prefix (clear_prefix c part) (php_bacnet_make_full_key c p key)"
proof -
  let ?ns = "c_namespace_name c"
  have pl: "length (partition_prefix ?ns ''lmdb'' p) \<le> length ?ns + 21"
    using partition_name_length [OF assms(3)] by (simp add: partition_prefix_def key_prefix_length)
  have full: "php_bacnet_make_full_key c p key = take 511 (partition_prefix ?ns ''lmdb'' p @ key)"
    using assms(2) by (simp add: php_bacnet_make_full_key_def snprintf_def Let_def)
  show "snprintf 320 (clear_prefix c part) = clear_prefix c part"
    using assms(1,4) pl by (auto simp: clear_prefix_def snprintf_def key_prefix_length)
  show "is_prefix (clear_prefix c part) (php_bacnet_make_full_key c p key)"
  proof (cases "part < 0")
    case True
    have "length (key_prefix ?ns ''lmdb'') \<le> 511" using assms(1) by (simp add: key_prefix_length)
    then show ?thesis
      unfolding full is_prefix_def clear_prefix_def using True
      by (simp add: partition_prefix_def take_take min_def del: take_append) simp
  next
    case False
    have "length (partition_prefix ?ns ''lmdb'' p) \<le> 511" using assms(1) pl by simp
    then show ?thesis
      unfolding full is_prefix_def clear_prefix_def using False assms(4)
      by (auto simp: take_take min_def)
  qed
qed

lemma cache_clear_parts:
  assumes "c_l2 (w_cache w) \<noteq> L2_CALLBACK"
  shows "php_bacnet_cache_clear E part w = clear_lmdb E part
    (upd_stats (\<lambda>st. st\<lparr>cs_invalidations := cs_invalidations st + 1\<rparr>) (cache_shm_clear E part w))"
proof -
  have "settings (w_cache (cache_shm_clear E part w)) = settings (w_cache w)"
    by (auto simp: cache_shm_clear_def set_shm_def upd_stats_def upd_cache_def settings_def split: option.splits)
  then have "c_l2 (w_cache (cache_shm_clear E part w)) \<noteq> L2_CALLBACK"
    using assms settings_eqD(4) by metis
  moreover have "c_l2 (w_cache (clear_lmdb E part w')) = c_l2 (w_cache w')" for w'
    by (simp add: clear_lmdb_def Let_def split: option.split)
  moreover have "c_l2 (w_cache (upd_stats f w')) = c_l2 (w_cache w')" for f w'
    by (simp add: upd_stats_def upd_cache_def)
  ultimately show ?thesis
    unfolding php_bacnet_cache_clear_def clear_backend_def by metis
qed

text \<open>Nothing is stored in partition p, in either level.\<close>

definition absent :: "('e, 'b) cache_env \<Rightarrow> nat \<Rightarrow> ('e, 'b) cache_world \<Rightarrow> bool" where
  "absent E p w \<longleftrightarrow> c_l2 (w_cache w) \<noteq> L2_CALLBACK \<and>
     (\<forall>n shm s. locked_shm E w = Some (n, shm) \<longrightarrow> s \<in> set (shm_slots shm) \<longrightarrow> \<not> (sl_used s \<and> sl_partition s = p)) \<and>
     (\<forall>key. c_l2 (w_cache w) = L2_LMDB \<longrightarrow> c_env (w_cache w) \<longrightarrow>
        lm_get E (php_bacnet_make_full_key (w_cache w) p key) (w_lmdb w) = None)"

lemma absent_view: "view w' = view w \<Longrightarrow> w_lmdb w' = w_lmdb w \<Longrightarrow> absent E p w' = absent E p w"
  unfolding absent_def using view_locked [of w' w E] view_full_key [of w' w p] viewD(3) [of w' w]
    settings_eqD(4,9) [of "w_cache w'" "w_cache w"] by simp

lemma absent_slots: "\<forall>s \<in> set ss. \<not> (sl_used s \<and> sl_partition s = p) \<Longrightarrow> l1_lookup p full now ss = None"
proof -
  assume a: "\<forall>s \<in> set ss. \<not> (sl_used s \<and> sl_partition s = p)"
  have "find_slot (holds p full) i ss = None" for i
    using a by (induction ss arbitrary: i) (auto simp: holds_def)
  then show ?thesis by (simp add: l1_lookup_def)
qed

lemma shm_get_none_slots:
  assumes "php_bacnet_shm_get p full cap now shm st = (None, shm', st')"
  shows "\<forall>s \<in> set (shm_slots shm'). sl_used s \<longrightarrow> s \<in> set (shm_slots shm)"
proof -
  have "shm_slots shm' = shm_slots shm \<or> (\<exists>i s. shm_slots shm' = (shm_slots shm)[i := s\<lparr>sl_used := False\<rparr>])"
    using assms by (auto simp: php_bacnet_shm_get_def Let_def split: option.splits if_splits) blast
  moreover have "sl_used x \<longrightarrow> x \<in> set (shm_slots shm)" if "x \<in> set ((shm_slots shm)[i := s\<lparr>sl_used := False\<rparr>])" for i s x
    using set_update_subset_insert [of "shm_slots shm" i "s\<lparr>sl_used := False\<rparr>"] that by auto
  ultimately show ?thesis by auto
qed

lemma settings_set_shm: "settings (w_cache (set_shm n shm st w)) = settings (w_cache w)"
  by (simp add: set_shm_def upd_stats_def upd_cache_def settings_def)

lemma full_key_settings:
  "settings c' = settings c \<Longrightarrow> php_bacnet_make_full_key c' p key = php_bacnet_make_full_key c p key"
  using settings_eqD(4,5) [of c' c] by (simp add: php_bacnet_make_full_key_def)

text \<open>A step that keeps the settings and LMDB and uses no further slot keeps a partition empty.\<close>

lemma absent_fewer:
  assumes "absent E p w" "settings (w_cache w') = settings (w_cache w)"
    and "\<And>key. c_l2 (w_cache w) = L2_LMDB \<Longrightarrow> c_env (w_cache w) \<Longrightarrow>
        lm_get E (php_bacnet_make_full_key (w_cache w) p key) (w_lmdb w') = None"
    and "\<And>n shm. locked_shm E w' = Some (n, shm) \<Longrightarrow> \<exists>shm0. locked_shm E w = Some (n, shm0) \<and>
        (\<forall>s \<in> set (shm_slots shm). sl_used s \<longrightarrow> s \<in> set (shm_slots shm0))"
  shows "absent E p w'"
  using assms(1,3,4) settings_eqD(4,9) [OF assms(2)] full_key_settings [OF assms(2)]
  unfolding absent_def by (metis (no_types, lifting))

lemma cache_shm_get_none:
  assumes "cache_shm_get E q full cap w = (None, w')"
  shows "settings (w_cache w') = settings (w_cache w)" "w_lmdb w' = w_lmdb w"
    and "locked_shm E w' = Some (n, shm) \<Longrightarrow> \<exists>shm0. locked_shm E w = Some (n, shm0) \<and>
        (\<forall>s \<in> set (shm_slots shm). sl_used s \<longrightarrow> s \<in> set (shm_slots shm0))"
proof -
  show "settings (w_cache w') = settings (w_cache w)" "w_lmdb w' = w_lmdb w"
    using assms by (auto simp: cache_shm_get_def Let_def php_bacnet_wall_ms_def settings_set_shm split: option.splits prod.splits)
      (simp_all add: set_shm_def upd_stats_def upd_cache_def)
  show "\<exists>shm0. locked_shm E w = Some (n, shm0) \<and>
      (\<forall>s \<in> set (shm_slots shm). sl_used s \<longrightarrow> s \<in> set (shm_slots shm0))" if l: "locked_shm E w' = Some (n, shm)"
  proof (cases "locked_shm E w")
    case None
    then show ?thesis using assms l by (simp add: cache_shm_get_def)
  next
    case (Some x)
    obtain m shm0 where x: "x = (m, shm0)" by (cases x)
    obtain r shm1 st1 where g: "php_bacnet_shm_get q full cap (w_clock w (w_reads w)) shm0 (c_stats (w_cache w)) = (r, shm1, st1)"
      by (cases "php_bacnet_shm_get q full cap (w_clock w (w_reads w)) shm0 (c_stats (w_cache w))")
    have w': "r = None" "w' = set_shm m shm1 st1 (w\<lparr>w_reads := Suc (w_reads w)\<rparr>)"
      using assms Some x g by (simp_all add: cache_shm_get_def php_bacnet_wall_ms_def)
    have "locked_shm E (w\<lparr>w_reads := Suc (w_reads w)\<rparr>) = Some (m, shm0)"
      using Some x by (simp add: view_locked [OF view_base(1)])
    then have "(n, shm) = (m, shm1)" using locked_set_shm l w' by (metis option.inject)
    then show ?thesis using shm_get_none_slots g w' Some x by simp
  qed
qed

lemma lmdb_get_none: "lm_get E full (w_lmdb w) = None \<or> \<not> c_env (w_cache w) \<Longrightarrow> fst (php_bacnet_lmdb_get E full cap w) = None"
  by (auto simp: php_bacnet_lmdb_get_def)

lemma absent_get:
  assumes "absent E p w"
  shows "fst (php_bacnet_cache_get E p key cap w) = None"
proof -
  let ?full = "php_bacnet_make_full_key (w_cache w) p key"
  have nc: "c_l2 (w_cache w) \<noteq> L2_CALLBACK" using assms by (simp add: absent_def)
  have "fst (cache_shm_get E p ?full cap w) = None"
  proof (cases "locked_shm E w")
    case None
    then show ?thesis by (simp add: cache_shm_get_def)
  next
    case (Some x)
    obtain n shm where x: "x = (n, shm)" by (cases x)
    have "l1_lookup p ?full now (shm_slots shm) = None" for now
      using assms Some x absent_slots by (auto simp: absent_def)
    then show ?thesis using Some x by (simp add: cache_shm_get_lookup)
  qed
  then obtain w1 where g: "cache_shm_get E p ?full cap w = (None, w1)"
    by (cases "cache_shm_get E p ?full cap w") simp
  note s1 = cache_shm_get_none(1,2) [OF g]
  have "fst (l2_lookup E p key ?full cap w1) = None"
    using assms settings_eqD(4,9) [OF s1(1)] s1(2) nc
    by (cases "c_l2 (w_cache w)") (auto simp: l2_lookup_def absent_def intro!: lmdb_get_none)
  then show ?thesis
    using g nc by (cases "l2_lookup E p key ?full cap w1") (simp add: php_bacnet_cache_get_def Let_def)
qed

text \<open>A lookup that finds nothing leaves every empty partition empty.\<close>

lemma absent_kept_by_get:
  assumes "absent E p w" "php_bacnet_cache_get E q key cap w = (None, w')"
  shows "absent E p w'"
proof (cases "php_bacnet_cache_partition_enabled (w_cache w) q")
  case False
  then show ?thesis using assms by (simp add: php_bacnet_cache_get_def)
next
  case True
  let ?full = "php_bacnet_make_full_key (w_cache w) q key"
  have nc: "c_l2 (w_cache w) \<noteq> L2_CALLBACK" using assms by (simp add: absent_def)
  obtain r w1 where g: "cache_shm_get E q ?full cap w = (r, w1)" by (cases "cache_shm_get E q ?full cap w")
  obtain r2 w2 where l: "l2_lookup E q key ?full cap w1 = (r2, w2)" by (cases "l2_lookup E q key ?full cap w1")
  have r: "r = None" "r2 = None" "w' = upd_stats (\<lambda>st. st\<lparr>cs_misses := cs_misses st + 1\<rparr>) w2"
    using assms(2) True nc g l by (auto simp: php_bacnet_cache_get_def Let_def split: option.splits prod.splits)
  note k = cache_shm_get_none [OF g [unfolded r(1)]]
  have "absent E p w1"
    using assms(1) k by (intro absent_fewer [OF assms(1) k(1)]) (auto simp: absent_def)
  moreover have "view w2 = view w1" "w_lmdb w2 = w_lmdb w1"
    using l nc settings_eqD(4) [OF k(1)]
    by (auto simp: l2_lookup_def php_bacnet_lmdb_get_def php_bacnet_wall_ms_def split: l2_kind.splits option.splits if_splits)
  ultimately have "absent E p w2" using absent_view by blast
  then show ?thesis
    using absent_view [of w' w2 E p] by (simp add: r(3) upd_stats_def upd_cache_def view_def settings_def)
qed

text \<open>Where LMDB can be read, so that a clearing reaches it.\<close>

definition clearable :: "('e, 'b) cache_env \<Rightarrow> ('e, 'b) cache_world \<Rightarrow> bool" where
  "clearable E w \<longleftrightarrow> lmdb_ok E \<and> c_l2 (w_cache w) \<noteq> L2_CALLBACK \<and>
     length (c_namespace_name (w_cache w)) < 96 \<and> (\<forall>pre e. lm_scan E pre e \<noteq> None)"

lemma cache_clear_settings:
  assumes "c_l2 (w_cache w) \<noteq> L2_CALLBACK"
  shows "settings (w_cache (php_bacnet_cache_clear E part w)) = settings (w_cache w)"
    and "w_clock (php_bacnet_cache_clear E part w) = w_clock w"
  unfolding cache_clear_parts [OF assms]
  by (auto simp: clear_lmdb_def Let_def cache_shm_clear_def set_shm_def upd_stats_def upd_cache_def settings_def
      split: option.split)

lemma cache_clear_locked:
  assumes "c_l2 (w_cache w) \<noteq> L2_CALLBACK" "locked_shm E (php_bacnet_cache_clear E part w) = Some (n, shm)"
  shows "\<exists>shm0. locked_shm E w = Some (n, shm0) \<and> shm = php_bacnet_shm_clear_partition part shm0"
proof -
  define w1 where "w1 = upd_stats (\<lambda>st. st\<lparr>cs_invalidations := cs_invalidations st + 1\<rparr>) (cache_shm_clear E part w)"
  have "view (clear_lmdb E part w1) = view w1" by (simp add: clear_lmdb_def Let_def split: option.split)
  then have "locked_shm E (cache_shm_clear E part w) = Some (n, shm)"
    using assms(2) view_locked [of "clear_lmdb E part w1" w1 E]
    by (simp add: cache_clear_parts [OF assms(1)] w1_def view_locked [OF view_base(5)])
  then show ?thesis by (auto simp: cache_shm_clear_def locked_set_shm split: option.splits)
qed

lemma cache_clear_lmdb:
  assumes "lmdb_ok E" "c_l2 (w_cache w) \<noteq> L2_CALLBACK"
  shows "lm_get E k (w_lmdb (php_bacnet_cache_clear E part w)) =
    (if c_env (w_cache w) then
       (case lm_scan E (snprintf 320 (clear_prefix (w_cache w) part)) (w_lmdb w) of
          None \<Rightarrow> lm_get E k (w_lmdb w)
        | Some rs \<Rightarrow> if k \<in> set (map fst (visited (snprintf 320 (clear_prefix (w_cache w) part)) rs)) then None
                     else lm_get E k (w_lmdb w))
     else lm_get E k (w_lmdb w))"
proof -
  define w1 where "w1 = upd_stats (\<lambda>st. st\<lparr>cs_invalidations := cs_invalidations st + 1\<rparr>) (cache_shm_clear E part w)"
  have w1: "settings (w_cache w1) = settings (w_cache w)" "w_lmdb w1 = w_lmdb w"
    by (auto simp: w1_def cache_shm_clear_def set_shm_def upd_stats_def upd_cache_def settings_def split: option.splits)
  note e = settings_eqD(5,9) [OF w1(1)]
  have "lm_commit E x y = y" for x y using assms(1) by (simp add: lmdb_ok_def)
  then show ?thesis
    unfolding cache_clear_parts [OF assms(2)] w1_def [symmetric]
    using clear_visited_get [OF assms(1)] e w1(2)
    by (simp add: clear_lmdb_def clear_prefix_def Let_def split: option.split)
qed

lemma clear_partition_slots:
  "shm_slots (php_bacnet_shm_clear_partition part shm) =
   map (\<lambda>s. if sl_used s \<and> (part < 0 \<or> int (sl_partition s) = part) then s\<lparr>sl_used := False\<rparr> else s) (shm_slots shm)"
  by (simp add: php_bacnet_shm_clear_partition_def)

lemma absent_clear:
  assumes "lmdb_ok E" "p < CACHE_PARTITION_COUNT" "part < 0 \<or> part = int p"
    and "c_l2 (w_cache w) \<noteq> L2_CALLBACK" "length (c_namespace_name (w_cache w)) < 96"
    and "c_env (w_cache w) \<longrightarrow> lm_scan E (clear_prefix (w_cache w) part) (w_lmdb w) \<noteq> None"
  shows "absent E p (php_bacnet_cache_clear E part w)"
proof -
  let ?w = "php_bacnet_cache_clear E part w"
  note s = cache_clear_settings(1) [OF assms(4), of E part]
  note e = settings_eqD(4,9) [OF s] and fk = full_key_settings [OF s]
  have l2: "lm_get E (php_bacnet_make_full_key (w_cache w) p key) (w_lmdb ?w) = None"
    if "c_l2 (w_cache w) = L2_LMDB" "c_env (w_cache w)" for key
  proof -
    note pf = prefix_of_full_key [OF assms(5) that(1) assms(2,3)]
    have "lm_scan E (clear_prefix (w_cache w) part) (w_lmdb w) \<noteq> None" using assms(6) that(2) by simp
    then obtain rs where rs: "lm_scan E (clear_prefix (w_cache w) part) (w_lmdb w) = Some rs" by auto
    show ?thesis
      using that(2) rs visited_complete [OF assms(1) rs pf(2) [of key]]
      unfolding cache_clear_lmdb [OF assms(1,4)] pf(1)
      by (cases "lm_get E (php_bacnet_make_full_key (w_cache w) p key) (w_lmdb w)") auto
  qed
  have l1: "\<not> (sl_used s \<and> sl_partition s = p)" if lk: "locked_shm E ?w = Some (n, shm)" and sm: "s \<in> set (shm_slots shm)" for n shm s
  proof -
    obtain shm0 where shm: "shm = php_bacnet_shm_clear_partition part shm0"
      using cache_clear_locked [OF assms(4) lk] by blast
    then have "s \<in> (\<lambda>s. if sl_used s \<and> (part < 0 \<or> int (sl_partition s) = part) then s\<lparr>sl_used := False\<rparr> else s) ` set (shm_slots shm0)"
      using sm by (simp only: shm clear_partition_slots set_map)
    then obtain s0 where "s = (if sl_used s0 \<and> (part < 0 \<or> int (sl_partition s0) = part) then s0\<lparr>sl_used := False\<rparr> else s0)"
      by (rule imageE)
    then show ?thesis using assms(3) by (cases "sl_used s0") auto
  qed
  show ?thesis unfolding absent_def e fk using assms(4) l1 l2 by blast
qed

lemma absent_kept_by_clear:
  assumes "absent E p w" "lmdb_ok E"
  shows "absent E p (php_bacnet_cache_clear E part w)"
proof -
  have nc: "c_l2 (w_cache w) \<noteq> L2_CALLBACK" using assms(1) by (simp add: absent_def)
  show ?thesis
  proof (rule absent_fewer [OF assms(1) cache_clear_settings(1) [OF nc]])
    show "lm_get E (php_bacnet_make_full_key (w_cache w) p key) (w_lmdb (php_bacnet_cache_clear E part w)) = None"
      if "c_l2 (w_cache w) = L2_LMDB" "c_env (w_cache w)" for key
      using assms(1) that by (simp add: cache_clear_lmdb [OF assms(2) nc] absent_def split: option.split)
    show "\<exists>shm0. locked_shm E w = Some (n, shm0) \<and> (\<forall>s \<in> set (shm_slots shm). sl_used s \<longrightarrow> s \<in> set (shm_slots shm0))"
      if "locked_shm E (php_bacnet_cache_clear E part w) = Some (n, shm)" for n shm
      using cache_clear_locked [OF nc that] by (auto simp: clear_partition_slots split: if_splits)
  qed
qed

lemma clearable_kept:
  "clearable E w \<Longrightarrow> clearable E (php_bacnet_cache_clear E part w)"
  using cache_clear_settings(1) [of w E part] settings_eqD(4,5) [of "w_cache (php_bacnet_cache_clear E part w)" "w_cache w"]
  by (simp add: clearable_def)

lemma absent_invalidate:
  "clearable E w \<Longrightarrow> p < CACHE_PARTITION_COUNT \<Longrightarrow> absent E p (php_bacnet_cache_invalidate E p w)"
  unfolding php_bacnet_cache_invalidate_def by (rule absent_clear) (auto simp: clearable_def)

lemma absent_invalidate_all:
  assumes "clearable E w" "p \<in> set ps \<or> absent E p w" "p < CACHE_PARTITION_COUNT"
  shows "absent E p (fold (php_bacnet_cache_invalidate E) ps w)"
  using assms
proof (induction ps arbitrary: w)
  case (Cons q ps)
  have ok: "lmdb_ok E" "clearable E (php_bacnet_cache_invalidate E q w)"
    using Cons.prems(1) clearable_kept by (auto simp: clearable_def php_bacnet_cache_invalidate_def)
  have "p \<in> set ps \<or> absent E p (php_bacnet_cache_invalidate E q w)"
    using Cons.prems absent_invalidate [of E w p] absent_kept_by_clear [OF _ ok(1), of p w]
    by (auto simp: php_bacnet_cache_invalidate_def)
  then show ?case using Cons.IH [OF ok(2)] Cons.prems(3) by simp
qed simp

text \<open>C18.
  After a partition has been cleared, or all of them, no lookup in it finds anything: neither in
  the shared table nor in LMDB, whatever was stored, under any key and at any time.
\<close>

theorem clear_forgets:
  assumes "lmdb_ok E" "p < CACHE_PARTITION_COUNT" "part < 0 \<or> part = int p"
    and "c_l2 (w_cache w) \<noteq> L2_CALLBACK" "length (c_namespace_name (w_cache w)) < 96"
    and "c_env (w_cache w) \<longrightarrow> lm_scan E (clear_prefix (w_cache w) part) (w_lmdb w) \<noteq> None"
  shows "fst (php_bacnet_cache_get E p key cap (php_bacnet_cache_clear E part w)) = None"
  by (rule absent_get [OF absent_clear [OF assms]])

lemma list_env_ok: "lmdb_ok list_env"
proof -
  have map_of_filter: "map_of (filter (\<lambda>r. fst r \<noteq> k) e) k' = (if k' = k then None else map_of e k')"
    for e :: list_store and k k'
    by (induction e) auto
  show ?thesis
    unfolding lmdb_ok_def
  proof (intro conjI allI impI)
    fix p e rs assume s: "lm_scan list_env p e = Some rs"
    let ?ks = "sort (filter (\<lambda>k. p \<le> k) (remdups (map fst e)))"
    have rs: "rs = map (\<lambda>k. (k, the (map_of e k))) ?ks" using s by (simp add: list_env_def)
    show "sorted (map fst rs)" unfolding rs by (simp add: comp_def)
    show "(k, v) \<in> set rs \<longleftrightarrow> p \<le> k \<and> lm_get list_env k e = Some v" for k v
    proof -
      have "k \<in> fst ` set e \<longleftrightarrow> (\<exists>u. map_of e k = Some u)" by (metis domI domD dom_map_of_conv_image_fst)
      then show ?thesis unfolding rs by (auto simp: list_env_def)
    qed
  qed (simp_all add: list_env_def map_of_filter)
qed

lemma clear_forgets_witness:
  "fst (php_bacnet_cache_get list_env 3 ''7'' 16 (php_bacnet_cache_clear list_env 3
     (demo_world [(''v2|eth0:9|lmdb|device|7'', lmdb_record [1, 2, 3] 6)]))) = None"
  by (rule clear_forgets [OF list_env_ok])
     (simp_all add: CACHE_PARTITION_COUNT_def demo_world_def demo_cache_fields list_env_def)

end
