(* ===== verification/Cache_Options.thy ===== *)
theory Cache_Options
  imports Cache_Clear
begin


text \<open>Whatever the cache was, the option is accepted and changes it by f.\<close>

definition sets_by :: "(zkey \<times> zval) \<times> (php_bacnet_cache \<Rightarrow> php_bacnet_cache) \<Rightarrow> bool" where
  "sets_by o_f \<longleftrightarrow> (case o_f of (kv, f) \<Rightarrow>
     \<forall>s. \<exists>s'. set_cache_option (fst kv) (snd kv) s = Inr s' \<and> os_cache s' = f (os_cache s))"







lemma dbl_nonneg: "Fin 0 \<le> d \<Longrightarrow> nonneg_arg (ZDouble d)"
  by (simp add: nonneg_arg_def num_arg_def)



lemmas option_eval = sets_by_def set_cache_option_def set_named_option_def upd_opt_def snprintf_def
  partition_names_def cstr_id num_arg_def CACHE_PARTITION_COUNT_def upt_rec



lemma all_partitions: "[0..<CACHE_PARTITION_COUNT] = [0, 1, 2, 3, 4, 5]" and first_partitions: "[0..<5] = [0, 1, 2, 3, 4]"
  by (simp_all add: CACHE_PARTITION_COUNT_def upt_rec)













text \<open>The part of a cache the options decide: everything but the open levels and the counters.\<close>

definition choices :: "php_bacnet_cache \<Rightarrow> php_bacnet_cache" where
  "choices c = (settings c)\<lparr>c_shm := None, c_env := False, c_backend_active := False, c_in_callback := False\<rparr>"



text \<open>Warnings and the opening of the levels change the counters and the level only.\<close>

definition counted :: "cache_stats \<Rightarrow> u64 \<Rightarrow> php_bacnet_cache \<Rightarrow> php_bacnet_cache" where
  "counted st t c = c\<lparr>c_stats := st, c_last_log_ms := t\<rparr>"






lemma choices_counted [simp]:
  "choices (counted st t c) = choices c" "choices (c\<lparr>c_shm := x\<rparr>) = choices c" "choices (c\<lparr>c_env := b\<rparr>) = choices c"
  by (simp_all add: choices_def settings_def counted_def)



lemma counted_fields [simp]:
  "c_shm (counted st t c) = c_shm c" "c_env (counted st t c) = c_env c" "c_enabled (counted st t c) = c_enabled c"
  "c_shm_name (counted st t c) = c_shm_name c" "c_backend_active (counted st t c) = c_backend_active c"
  "c_l2 (counted st t c) = c_l2 c" "c_lmdb_path (counted st t c) = c_lmdb_path c"
  "c_lmdb_map_size (counted st t c) = c_lmdb_map_size c"
  by (simp_all add: counted_def)




text \<open>
  A call that fails is not undone: the settings before the failing one stay, but the levels are
  not opened again and nothing is cleared, so that the cache goes on with the table of its old
  name under the new namespace.
\<close>

lemma failed_options_stay:
  "php_bacnet_cache_set_options E
     [(KStr ''namespace'', ZString ''b''), (KStr ''shm_name'', ZString ''/x''), (KStr ''bogus'', ZNull)] w =
   (Some (CacheUnknownOption ''bogus''),
    w\<lparr>w_cache := (w_cache w)\<lparr>c_namespace_name := ''b'', c_shm_name := ''/x''\<rparr>\<rparr>)"
  by (simp add: php_bacnet_cache_set_options_def option_eval cstr_def all_partitions Let_def)

end
