(* ===== verification/Client.thy ===== *)
theory Client
  imports Cache Transport Helpers
begin

text \<open>
  The client operations of src/bacnet_classes.c: reading and writing a property of a remote
  device through the cache, discovery with Who-Is, change-of-value subscriptions, and the
  methods of Bacnet\\Client, Device and ObjectRef built on them.  The record net_env holds what
  lies outside: the encoders and decoders of bacnet-stack, the unsolicited handler and the
  cache environment.  An operation whose exchange has not ended with the rounds given is None.
\<close>

subsection \<open>State\<close>

datatype bacnet_exn =
    TimeoutException string
  | DeviceException string "(int \<times> int) option"
  | BacnetException string
  | PhpValueError string
  | PhpError string
  | HandlerException

record rp_data =
  rp_object_type :: u32
  rp_instance :: u32
  rp_property :: u32
  rp_array_index :: u32

record cov_request =
  cq_process_id :: u32
  cq_type :: u32
  cq_instance :: u32
  cq_cancel :: bool
  cq_lifetime :: u32
  cq_property :: u32
  cq_increment :: "dbl option"

record ('e, 'b, 'w) net_env =
  n_npdu :: "bytes \<Rightarrow> int \<times> bool"
  n_header :: "bacnet_address \<Rightarrow> bool \<Rightarrow> bytes option"
  n_iam :: "bytes \<Rightarrow> (u32 \<times> u32 \<times> u16) option"
  n_max_apdu :: nat
  n_max_npdu :: nat
  n_handler :: "'w handler"
  n_rp_encode :: "u8 \<Rightarrow> rp_data \<Rightarrow> bytes option"
  n_rp_ack :: "bytes \<Rightarrow> bytes option"
  n_wp_encode :: "u8 \<Rightarrow> rp_data \<Rightarrow> u8 \<Rightarrow> bytes \<Rightarrow> bytes option"
  n_app_encode :: "appdata \<Rightarrow> bytes option"
  n_app_decode :: "bytes \<Rightarrow> int \<times> appdata"
  n_error :: "bytes \<Rightarrow> int \<times> int"
  n_whois_encode :: "int \<Rightarrow> int \<Rightarrow> bytes option"
  n_cov_encode :: "u8 \<Rightarrow> cov_request \<Rightarrow> bytes option"
  n_char_init :: "string \<Rightarrow> string"
  n_whois_image :: "iam_entry list \<Rightarrow> bytes"
  n_whois_of_image :: "bytes \<Rightarrow> u32 \<times> iam_entry list"
  n_whois_size :: nat
  n_addr_image :: "bacnet_address \<Rightarrow> bytes"
  n_addr_of_image :: "bytes \<Rightarrow> bacnet_address"
  n_addr_size :: nat
  n_cache :: "('e, 'b) cache_env"

text \<open>The state of a client: php_bacnet_client with its cache, and the PDUs it has sent.\<close>

record ('e, 'b, 'w) client_state =
  k_initialized :: bool
  k_cache :: "('e, 'b) cache_world"
  k_next_invoke_id :: u8
  k_next_cov_process_id :: u32
  k_local :: "u32 option"
  k_timeout_ms :: int
  k_ctx :: 'w
  k_sent :: "(bacnet_address option \<times> bytes) list"

text \<open>The surroundings of one exchange: the clock when it starts and its rounds.\<close>

type_synonym exchange = "u64 \<times> io_round list"

type_synonym ('e, 'b, 'w, 'r) outcome = "((bacnet_exn + 'r) \<times> ('e, 'b, 'w) client_state) option"

definition with_cache :: "(('e, 'b) cache_world \<Rightarrow> ('e, 'b) cache_world) \<Rightarrow> ('e, 'b, 'w) client_state \<Rightarrow>
    ('e, 'b, 'w) client_state" where
  "with_cache f st = st\<lparr>k_cache := f (k_cache st)\<rparr>"

definition cache_lookup :: "('e, 'b, 'w) net_env \<Rightarrow> nat \<Rightarrow> string \<Rightarrow> nat \<Rightarrow> ('e, 'b, 'w) client_state \<Rightarrow>
    bytes option \<times> ('e, 'b, 'w) client_state" where
  "cache_lookup N p key cap st =
    (let (r, w) = php_bacnet_cache_get (n_cache N) p key cap (k_cache st) in (r, st\<lparr>k_cache := w\<rparr>))"

definition cache_store :: "('e, 'b, 'w) net_env \<Rightarrow> nat \<Rightarrow> string \<Rightarrow> bytes \<Rightarrow> dbl \<Rightarrow> ('e, 'b, 'w) client_state \<Rightarrow>
    ('e, 'b, 'w) client_state" where
  "cache_store N p key data ttl = with_cache (php_bacnet_cache_put (n_cache N) p key data ttl)"

definition sent_to :: "bacnet_address option \<Rightarrow> bytes option \<Rightarrow> (bacnet_address option \<times> bytes) list" where
  "sent_to dest pdu = (case pdu of None \<Rightarrow> [] | Some p \<Rightarrow> [(dest, p)])"

definition request_reply :: "('e, 'b, 'w) net_env \<Rightarrow> bacnet_address \<Rightarrow> bytes \<Rightarrow> u8 \<Rightarrow> u32 \<Rightarrow> exchange \<Rightarrow>
    ('e, 'b, 'w) client_state \<Rightarrow> (int \<times> bytes \<times> ('e, 'b, 'w) client_state) option" where
  "request_reply N dest request invoke timeout_ms ex st =
    (case php_bacnet_send_and_wait (n_npdu N) (n_max_apdu N) (n_max_npdu N) (n_handler N) (k_initialized st)
            (n_header N dest True) request invoke timeout_ms (fst ex) (k_ctx st) (snd ex) of
       None \<Rightarrow> None
     | Some (sent, status, resp, ctx) \<Rightarrow>
         Some (status, resp, st\<lparr>k_ctx := ctx, k_sent := k_sent st @ sent_to (Some dest) sent\<rparr>))"

subsection \<open>Reading a property\<close>

text \<open>The partition a property is cached in; CACHE_PARTITION_COUNT for none.  Numbers of the standard.\<close>

definition CACHE_STATE :: nat where "CACHE_STATE = 0"
definition CACHE_OBJECT :: nat where "CACHE_OBJECT = 1"
definition CACHE_OBJECT_LIST :: nat where "CACHE_OBJECT_LIST = 2"
definition CACHE_DEVICE :: nat where "CACHE_DEVICE = 3"
definition CACHE_IP :: nat where "CACHE_IP = 4"

definition PROP_PRESENT_VALUE :: u32 where "PROP_PRESENT_VALUE = 85"
definition PROP_OBJECT_LIST :: u32 where "PROP_OBJECT_LIST = 76"
definition PROP_LOG_BUFFER :: u32 where "PROP_LOG_BUFFER = 131"
definition PROP_WEEKLY_SCHEDULE :: u32 where "PROP_WEEKLY_SCHEDULE = 123"
definition BACNET_ARRAY_ALL :: u32 where "BACNET_ARRAY_ALL = 0xFFFFFFFF"

text \<open>
  State: present value, status flags, event state, out of service, reliability, priority array,
  record counts.  Not cached: log buffer, schedules, recipient list, event parameters.
\<close>

definition read_partition :: "u32 \<Rightarrow> nat" where
  "read_partition prop =
    (if prop \<in> {PROP_PRESENT_VALUE, 111, 36, 81, 103, 87, 141, 145} then CACHE_STATE
     else if prop = PROP_OBJECT_LIST then CACHE_OBJECT_LIST
     else if prop \<in> {PROP_LOG_BUFFER, PROP_WEEKLY_SCHEDULE, 38, 102, 83} then CACHE_PARTITION_COUNT
     else if prop \<in> {75, 77, 79, 28, 117, 74, 110, 17, 1, 72, 37, 78, 132, 104} then CACHE_OBJECT
     else CACHE_PARTITION_COUNT)"

definition bar_separated :: "string \<Rightarrow> u16 \<Rightarrow> u32 list \<Rightarrow> string" where
  "bar_separated ip port ns =
    ip @ '':'' @ show_nat (unat port) @ concat (map (\<lambda>n. ''|'' @ show_nat (unat n)) ns)"

definition read_cache_key :: "bacnet_address \<Rightarrow> rp_data \<Rightarrow> string" where
  "read_cache_key dest rp =
    (let (ip, port) = php_bacnet_address_to_ipport dest 16
     in snprintf 192 (bar_separated ip port
          [rp_object_type rp, rp_instance rp, rp_property rp, rp_array_index rp]))"

definition read_negative_key :: "bacnet_address \<Rightarrow> rp_data \<Rightarrow> string" where
  "read_negative_key dest rp = snprintf 208 (''read|'' @ read_cache_key dest rp)"

definition negative_marker :: bytes where "negative_marker = [1]"

definition show_int :: "int \<Rightarrow> string" where
  "show_int n = (if n < 0 then CHR ''-'' # show_nat (nat (- n)) else show_nat (nat n))"

definition device_error :: "('e, 'b, 'w) net_env \<Rightarrow> string \<Rightarrow> string \<Rightarrow> bytes \<Rightarrow> bacnet_exn" where
  "device_error N malformed what resp =
    (if length resp < 3 then DeviceException malformed None
     else let (ec, code) = n_error N (drop 1 resp)
          in DeviceException (what @ '': class='' @ show_int ec @ '' code='' @ show_int code) (Some (ec, code)))"

definition refused :: "string \<Rightarrow> bytes \<Rightarrow> int \<Rightarrow> bacnet_exn" where
  "refused during resp status =
    (let reason = (if length resp > 2 then resp ! 2 else 0)
     in DeviceException (''BACnet '' @ (if status = uint PDU_TYPE_REJECT then ''Reject'' else ''Abort'') @
          '' PDU'' @ during @ '' (reason '' @ show_nat (unat reason) @ '')'') None)"

definition timed_out :: "string \<Rightarrow> u32 \<Rightarrow> bacnet_exn" where
  "timed_out what timeout_ms =
     TimeoutException (what @ '' timed out after '' @ show_nat (unat timeout_ms) @ '' ms'')"

text \<open>The lookups before anything is sent: the exception or the cached value, if there is one.\<close>

definition read_from_cache :: "('e, 'b, 'w) net_env \<Rightarrow> bacnet_address \<Rightarrow> rp_data \<Rightarrow> bool \<Rightarrow> ('e, 'b, 'w) client_state \<Rightarrow>
    (bacnet_exn + zval) option \<times> ('e, 'b, 'w) client_state" where
  "read_from_cache N dest rp refresh st =
    (let partition = read_partition (rp_property rp)
     in if refresh then
          (None, with_cache (\<lambda>w. php_bacnet_cache_refresh (n_cache N) PHP_BACNET_CACHE_NEGATIVE
             (if partition < CACHE_PARTITION_COUNT then php_bacnet_cache_refresh (n_cache N) partition w else w)) st)
        else
          let (marker, st) = cache_lookup N PHP_BACNET_CACHE_NEGATIVE (read_negative_key dest rp) 1 st
          in if marker \<noteq> None
             then (Some (Inl (TimeoutException ''ReadProperty timed out (negative cache)'')), st)
             else if partition < CACHE_PARTITION_COUNT
             then let (cached, st) = cache_lookup N partition (read_cache_key dest rp) (n_max_apdu N) st
                  in (case cached of
                        Some data \<Rightarrow> Some (Inr (bacapp_values_to_zval (n_app_decode N) data))
                      | None \<Rightarrow> None, st)
             else (None, st))"

text \<open>What becomes of the answer.\<close>

definition read_answer :: "('e, 'b, 'w) net_env \<Rightarrow> bacnet_address \<Rightarrow> rp_data \<Rightarrow> u32 \<Rightarrow> int \<Rightarrow> bytes \<Rightarrow>
    ('e, 'b, 'w) client_state \<Rightarrow> (bacnet_exn + zval) \<times> ('e, 'b, 'w) client_state" where
  "read_answer N dest rp timeout_ms status resp st =
    (let partition = read_partition (rp_property rp)
     in if status = -2 then (Inl HandlerException, st)
        else if status = -1 then
          (Inl (timed_out ''ReadProperty'' timeout_ms),
           cache_store N PHP_BACNET_CACHE_NEGATIVE (read_negative_key dest rp) negative_marker
             (php_bacnet_cache_partition_ttl (w_cache (k_cache st)) PHP_BACNET_CACHE_NEGATIVE) st)
        else if status = uint PDU_TYPE_ERROR then
          (Inl (device_error N ''BACnet error PDU (malformed)'' ''BACnet error'' resp), st)
        else if status = uint PDU_TYPE_REJECT \<or> status = uint PDU_TYPE_ABORT then (Inl (refused [] resp status), st)
        else if length resp < 4 then (Inl (BacnetException ''Malformed ReadProperty-ACK (too short)''), st)
        else case n_rp_ack N (drop 3 resp) of
               None \<Rightarrow> (Inl (BacnetException ''Failed to decode ReadProperty-ACK''), st)
             | Some data \<Rightarrow>
                 (Inr (bacapp_values_to_zval (n_app_decode N) data),
                  if partition < CACHE_PARTITION_COUNT
                  then cache_store N partition (read_cache_key dest rp) data
                         (php_bacnet_cache_partition_ttl (w_cache (k_cache st)) partition) st
                  else st))"

definition php_bacnet_exec_read_property ::
    "('e, 'b, 'w) net_env \<Rightarrow> bacnet_address \<Rightarrow> rp_data \<Rightarrow> u32 \<Rightarrow> bool \<Rightarrow> exchange \<Rightarrow>
     ('e, 'b, 'w) client_state \<Rightarrow> ('e, 'b, 'w, zval) outcome" where
  "php_bacnet_exec_read_property N dest rp timeout_ms refresh ex st =
    (let (early, st) = read_from_cache N dest rp refresh st
     in case early of
          Some r \<Rightarrow> Some (r, st)
        | None \<Rightarrow>
            (let invoke_id = k_next_invoke_id st; st = st\<lparr>k_next_invoke_id := invoke_id + 1\<rparr>
             in case n_rp_encode N invoke_id rp of
                  None \<Rightarrow> Some (Inl (BacnetException ''Failed to encode ReadProperty APDU''), st)
                | Some request \<Rightarrow>
                    (case request_reply N dest request invoke_id timeout_ms ex st of
                       None \<Rightarrow> None
                     | Some (status, resp, st) \<Rightarrow> Some (read_answer N dest rp timeout_ms status resp st))))"

subsection \<open>Writing a property\<close>

definition invalidate_written :: "('e, 'b, 'w) net_env \<Rightarrow> ('e, 'b, 'w) client_state \<Rightarrow> ('e, 'b, 'w) client_state" where
  "invalidate_written N =
    with_cache (\<lambda>w. fold (php_bacnet_cache_invalidate (n_cache N))
      [CACHE_STATE, CACHE_OBJECT, CACHE_OBJECT_LIST, PHP_BACNET_CACHE_NEGATIVE] w)"

definition write_answer :: "('e, 'b, 'w) net_env \<Rightarrow> u32 \<Rightarrow> int \<Rightarrow> bytes \<Rightarrow> ('e, 'b, 'w) client_state \<Rightarrow>
    (bacnet_exn + unit) \<times> ('e, 'b, 'w) client_state" where
  "write_answer N timeout_ms status resp st =
    (if status = -2 then (Inl HandlerException, st)
     else if status = -1 then (Inl (timed_out ''WriteProperty'' timeout_ms), st)
     else if status = uint PDU_TYPE_ERROR then
       (Inl (device_error N ''BACnet write error (malformed)'' ''BACnet write error'' resp), st)
     else if status = uint PDU_TYPE_REJECT \<or> status = uint PDU_TYPE_ABORT then (Inl (refused '' during write'' resp status), st)
     else (Inr (), invalidate_written N st))"

definition php_bacnet_exec_write_property ::
    "('e, 'b, 'w) net_env \<Rightarrow> bacnet_address \<Rightarrow> rp_data \<Rightarrow> u8 \<Rightarrow> appdata \<Rightarrow> u32 \<Rightarrow> exchange \<Rightarrow>
     ('e, 'b, 'w) client_state \<Rightarrow> ('e, 'b, 'w, unit) outcome" where
  "php_bacnet_exec_write_property N dest wp priority val timeout_ms ex st =
    (case n_app_encode N val of
       None \<Rightarrow> Some (Inl (BacnetException ''Failed to encode WriteProperty application data''), st)
     | Some data \<Rightarrow>
         (let invoke_id = k_next_invoke_id st; st = st\<lparr>k_next_invoke_id := invoke_id + 1\<rparr>
          in case n_wp_encode N invoke_id wp priority data of
               None \<Rightarrow> Some (Inl (BacnetException ''Failed to encode WriteProperty APDU''), st)
             | Some request \<Rightarrow>
                 (case request_reply N dest request invoke_id timeout_ms ex st of
                    None \<Rightarrow> None
                  | Some (status, resp, st) \<Rightarrow> Some (write_answer N timeout_ms status resp st))))"

subsection \<open>Discovery\<close>

record device =
  dv_device_id :: u32
  dv_max_apdu :: u16
  dv_vendor_id :: u16
  dv_address :: bacnet_address

definition route_key :: "u32 \<Rightarrow> string" where
  "route_key device_id = snprintf 48 (''device|'' @ show_nat (unat device_id))"

fun php_bacnet_whois_result :: "('e, 'b, 'w) net_env \<Rightarrow> iam_entry list \<Rightarrow> ('e, 'b, 'w) client_state \<Rightarrow>
    device list \<times> ('e, 'b, 'w) client_state" where
  "php_bacnet_whois_result N [] st = ([], st)"
| "php_bacnet_whois_result N (e # es) st =
     (let st = cache_store N CACHE_IP (route_key (e_device_id e)) (n_addr_image N (e_address e))
                 (php_bacnet_cache_partition_ttl (w_cache (k_cache st)) CACHE_IP) st;
          (ds, st) = php_bacnet_whois_result N es st
      in (\<lparr>dv_device_id = e_device_id e, dv_max_apdu = e_max_apdu e, dv_vendor_id = e_vendor_id e,
           dv_address = e_address e\<rparr> # ds, st))"

definition php_bacnet_device_refresh_route :: "('e, 'b, 'w) net_env \<Rightarrow> device \<Rightarrow> ('e, 'b, 'w) client_state \<Rightarrow>
    device \<times> ('e, 'b, 'w) client_state" where
  "php_bacnet_device_refresh_route N d st =
    (let (r, st) = cache_lookup N CACHE_IP (route_key (dv_device_id d)) (n_addr_size N) st
     in (case r of
           Some buf \<Rightarrow> if length buf = n_addr_size N then d\<lparr>dv_address := n_addr_of_image N buf\<rparr> else d
         | None \<Rightarrow> d, st))"

text \<open>The limits of a Who-Is, as int32_t.\<close>

definition whois_range :: "int option \<Rightarrow> int option \<Rightarrow> int \<times> int" where
  "whois_range low high =
    (let lo = (case low of None \<Rightarrow> 0 | Some l \<Rightarrow> sint (word_of_int l :: u32));
         hi = (case high of None \<Rightarrow> BACNET_MAX_INSTANCE | Some h \<Rightarrow> sint (word_of_int h :: u32))
     in (if lo < 0 then 0 else lo, if hi > BACNET_MAX_INSTANCE then BACNET_MAX_INSTANCE else hi))"

definition discovery_key :: "int \<times> int \<Rightarrow> string" where
  "discovery_key r = snprintf 64 (''whois|'' @ show_int (fst r) @ ''|'' @ show_int (snd r))"

definition empty_key :: "int \<times> int \<Rightarrow> string" where
  "empty_key r = snprintf 80 (''empty|'' @ discovery_key r)"

definition timeout_arg :: "('e, 'b, 'w) client_state \<Rightarrow> int option \<Rightarrow> u32" where
  "timeout_arg st timeout_ms = word_of_int (case timeout_ms of None \<Rightarrow> k_timeout_ms st | Some t \<Rightarrow> t)"

definition whois_from_cache :: "('e, 'b, 'w) net_env \<Rightarrow> int \<times> int \<Rightarrow> bool \<Rightarrow> ('e, 'b, 'w) client_state \<Rightarrow>
    device list option \<times> ('e, 'b, 'w) client_state" where
  "whois_from_cache N limits refresh st =
    (if refresh then
       (None, with_cache (\<lambda>w. php_bacnet_cache_refresh (n_cache N) PHP_BACNET_CACHE_NEGATIVE
                (php_bacnet_cache_refresh (n_cache N) CACHE_DEVICE w)) st)
     else
       let (r, st) = cache_lookup N CACHE_DEVICE (discovery_key limits) (n_whois_size N) st
       in case (case r of
                  Some buf \<Rightarrow>
                    (let (count, entries) = n_whois_of_image N buf
                     in if length buf \<ge> 4 \<and> unat count \<le> PHP_BACNET_MAX_COLLECTED_DEVICES
                        then Some (take (unat count) entries) else None)
                | None \<Rightarrow> None) of
            Some entries \<Rightarrow>
              (let (ds, st) = php_bacnet_whois_result N entries st in (Some ds, st))
          | None \<Rightarrow>
              (let (marker, st) = cache_lookup N PHP_BACNET_CACHE_NEGATIVE (empty_key limits) 1 st
               in (if marker \<noteq> None then Some [] else None, st)))"

text \<open>
  The data link of a broadcast: whatever port the client is bound to, it goes to the standard
  port.  broadcast_addr, encode_broadcast and send_mpdu stand for bip_get_broadcast_addr (address
  and port), bvlc_encode_original_broadcast and bip_send_mpdu; the callers ignore the result.
\<close>

definition php_bacnet_send_standard_broadcast :: "(u32 \<times> u16) option \<Rightarrow> (bytes \<Rightarrow> int \<times> bytes) \<Rightarrow>
    (u32 \<times> u16 \<Rightarrow> bytes \<Rightarrow> int) \<Rightarrow> bytes option \<Rightarrow> int" where
  "php_bacnet_send_standard_broadcast broadcast_addr encode_broadcast send_mpdu npdu =
    (case (npdu, broadcast_addr) of
       (Some n, Some (address, port)) \<Rightarrow>
         (let (mpdu_len, mpdu) = encode_broadcast n
          in if mpdu_len \<le> 0 then -1
             else send_mpdu (address, word_of_int PHP_BACNET_DEFAULT_PORT) (take (nat (mpdu_len mod 65536)) mpdu))
     | _ \<Rightarrow> -1)"

definition broadcast_collect :: "('e, 'b, 'w) net_env \<Rightarrow> bytes \<Rightarrow> u32 \<Rightarrow> exchange \<Rightarrow> ('e, 'b, 'w) client_state \<Rightarrow>
    (int \<times> iam_entry list \<times> ('e, 'b, 'w) client_state) option" where
  "broadcast_collect N request timeout_ms ex st =
    (case php_bacnet_broadcast_and_collect (n_npdu N) (n_iam N) (n_max_apdu N) (n_max_npdu N) (n_handler N)
            (k_initialized st) (k_local st) (n_header N \<lparr>mac = [], net = 0xFFFF\<rparr> False) request timeout_ms
            (fst ex) (k_ctx st) (snd ex) of
       None \<Rightarrow> None
     | Some (sent, count, entries, ctx) \<Rightarrow>
         Some (count, entries, st\<lparr>k_ctx := ctx, k_sent := k_sent st @ sent_to None sent\<rparr>))"

definition whois_store :: "('e, 'b, 'w) net_env \<Rightarrow> int \<times> int \<Rightarrow> int \<Rightarrow> iam_entry list \<Rightarrow> ('e, 'b, 'w) client_state \<Rightarrow>
    ('e, 'b, 'w) client_state" where
  "whois_store N limits count entries st =
    (if count > 0
     then cache_store N CACHE_DEVICE (discovery_key limits) (n_whois_image N entries)
            (php_bacnet_cache_partition_ttl (w_cache (k_cache st)) CACHE_DEVICE) st
     else cache_store N PHP_BACNET_CACHE_NEGATIVE (empty_key limits) negative_marker
            (c_negative_whois_ttl (w_cache (k_cache st))) st)"

text \<open>The end of whoIs: the result is stored and turned into devices, -1 entries being none.\<close>

definition whois_finish :: "('e, 'b, 'w) net_env \<Rightarrow> int \<times> int \<Rightarrow> int \<Rightarrow> iam_entry list \<Rightarrow> ('e, 'b, 'w) client_state \<Rightarrow>
    device list \<times> ('e, 'b, 'w) client_state" where
  "whois_finish N limits count entries st =
    php_bacnet_whois_result N (take (nat count) entries) (whois_store N limits count entries st)"

text \<open>
  Bacnet\\Client::whoIs: an empty first answer is followed by one repetition; an exception of
  the handler (count -1) is not looked at before the result is stored.
\<close>

definition Client_whoIs :: "('e, 'b, 'w) net_env \<Rightarrow> int option \<Rightarrow> int option \<Rightarrow> int option \<Rightarrow> bool \<Rightarrow> exchange \<Rightarrow>
    exchange \<Rightarrow> ('e, 'b, 'w) client_state \<Rightarrow> ('e, 'b, 'w, device list) outcome" where
  "Client_whoIs N low high timeout_ms refresh ex1 ex2 st =
    (let limits = whois_range low high; tms = timeout_arg st timeout_ms;
         (early, st) = whois_from_cache N limits refresh st
     in case early of
          Some ds \<Rightarrow> Some (Inr ds, st)
        | None \<Rightarrow>
            (case n_whois_encode N (fst limits) (snd limits) of
               None \<Rightarrow> Some (Inl (BacnetException ''Failed to encode Who-Is APDU''), st)
             | Some request \<Rightarrow>
                 (case broadcast_collect N request tms ex1 st of
                    None \<Rightarrow> None
                  | Some (count, entries, st) \<Rightarrow>
                      (case (if count = 0 then broadcast_collect N request tms ex2 st else Some (count, entries, st)) of
                         None \<Rightarrow> None
                       | Some (count, entries, st) \<Rightarrow>
                           (let (ds, st) = whois_finish N limits count entries st
                            in Some (if count = -1 then Inl HandlerException else Inr ds, st))))))"

text \<open>Bacnet\\MixedServer::whoIs leaves at an exception before anything is stored.\<close>

definition MixedServer_whoIs :: "('e, 'b, 'w) net_env \<Rightarrow> int option \<Rightarrow> int option \<Rightarrow> int option \<Rightarrow> bool \<Rightarrow> exchange \<Rightarrow>
    exchange \<Rightarrow> ('e, 'b, 'w) client_state \<Rightarrow> ('e, 'b, 'w, device list) outcome" where
  "MixedServer_whoIs N low high timeout_ms refresh ex1 ex2 st =
    (let limits = whois_range low high; tms = timeout_arg st timeout_ms;
         (early, st) = whois_from_cache N limits refresh st
     in case early of
          Some ds \<Rightarrow> Some (Inr ds, st)
        | None \<Rightarrow>
            (case n_whois_encode N (fst limits) (snd limits) of
               None \<Rightarrow> Some (Inl (BacnetException ''Failed to encode Who-Is APDU''), st)
             | Some request \<Rightarrow>
                 (case broadcast_collect N request tms ex1 st of
                    None \<Rightarrow> None
                  | Some (count, entries, st) \<Rightarrow>
                      if count = -1 then Some (Inl HandlerException, st)
                      else
                        (case (if count = 0 then broadcast_collect N request tms ex2 st else Some (count, entries, st)) of
                           None \<Rightarrow> None
                         | Some (count, entries, st) \<Rightarrow>
                             if count = -1 then Some (Inl HandlerException, st)
                             else let (ds, st) = whois_finish N limits count entries st in Some (Inr ds, st)))))"

subsection \<open>Subscriptions\<close>

text \<open>The process id: the next one of the client when none is given or the given one is 0 modulo 2^32.\<close>

definition cov_process_id :: "int option \<Rightarrow> ('e, 'b, 'w) client_state \<Rightarrow> u32 \<times> ('e, 'b, 'w) client_state" where
  "cov_process_id process_id st =
    (let (pid, st) = (case process_id of
           None \<Rightarrow> (k_next_cov_process_id st, st\<lparr>k_next_cov_process_id := k_next_cov_process_id st + 1\<rparr>)
         | Some n \<Rightarrow> (word_of_int n, st))
     in if pid = 0 then (k_next_cov_process_id st, st\<lparr>k_next_cov_process_id := k_next_cov_process_id st + 1\<rparr>)
        else (pid, st))"

definition cov_exchange :: "('e, 'b, 'w) net_env \<Rightarrow> device \<Rightarrow> cov_request \<Rightarrow> exchange \<Rightarrow> ('e, 'b, 'w) client_state \<Rightarrow>
    (bool \<times> ('e, 'b, 'w) client_state) option" where
  "cov_exchange N d data ex st =
    (let invoke = ucast (cq_process_id data AND 0xFF)
     in case n_cov_encode N invoke data of
          None \<Rightarrow> Some (False, st)
        | Some request \<Rightarrow>
            map_option (\<lambda>(status, resp, st). (status = 0, st))
              (request_reply N (dv_address d) request invoke (word_of_int (k_timeout_ms st)) ex st))"

text \<open>The client_zval of a device: not an object, an object without transport, or a transport.\<close>

datatype owner = NoObject | NoTransport | HasTransport

definition php_bacnet_transport_from_owner :: "owner \<Rightarrow> bool" where
  "php_bacnet_transport_from_owner ow \<longleftrightarrow> ow = HasTransport"

definition Device_subscribeCOV ::
    "('e, 'b, 'w) net_env \<Rightarrow> owner \<Rightarrow> u32 \<Rightarrow> int \<Rightarrow> u32 \<Rightarrow> int \<Rightarrow> dbl option \<Rightarrow> int option \<Rightarrow> exchange \<Rightarrow> device \<Rightarrow>
     ('e, 'b, 'w) client_state \<Rightarrow> ((bacnet_exn + u32) \<times> device \<times> ('e, 'b, 'w) client_state) option" where
  "Device_subscribeCOV N ow ot inst prop lifetime increment process_id ex d st =
    (if inst < 0 \<or> inst > BACNET_MAX_INSTANCE \<or> lifetime < 1 \<or> lifetime > 86400 \<or>
        (case process_id of None \<Rightarrow> False | Some n \<Rightarrow> n < 1)
     then Some (Inl (PhpValueError ''Invalid COV subscription parameters''), d, st)
     else if \<not> php_bacnet_transport_from_owner ow
     then Some (Inl (BacnetException ''Device has no associated client''), d, st)
     else
       let (d, st) = php_bacnet_device_refresh_route N d st;
           (pid, st) = cov_process_id process_id st;
           data = \<lparr>cq_process_id = pid, cq_type = ot, cq_instance = word_of_int inst, cq_cancel = False,
                   cq_lifetime = word_of_int lifetime, cq_property = prop,
                   cq_increment = map_option float_of_dbl increment\<rparr>
       in map_option (\<lambda>(ok, st).
            (if ok then Inr pid else Inl (TimeoutException ''SubscribeCOVProperty failed''), d, st))
            (cov_exchange N d data ex st))"

definition Device_unsubscribeCOV ::
    "('e, 'b, 'w) net_env \<Rightarrow> owner \<Rightarrow> u32 \<Rightarrow> int \<Rightarrow> u32 \<Rightarrow> int \<Rightarrow> exchange \<Rightarrow> device \<Rightarrow> ('e, 'b, 'w) client_state \<Rightarrow>
     ((bacnet_exn + unit) \<times> device \<times> ('e, 'b, 'w) client_state) option" where
  "Device_unsubscribeCOV N ow ot inst prop process_id ex d st =
    (if inst < 0 \<or> inst > BACNET_MAX_INSTANCE \<or> process_id < 1
     then Some (Inl (PhpValueError ''Invalid COV cancellation parameters''), d, st)
     else if \<not> php_bacnet_transport_from_owner ow
     then Some (Inl (BacnetException ''Device has no associated client''), d, st)
     else
       let (d, st) = php_bacnet_device_refresh_route N d st;
           data = \<lparr>cq_process_id = word_of_int process_id, cq_type = ot, cq_instance = word_of_int inst,
                   cq_cancel = True, cq_lifetime = 0, cq_property = prop, cq_increment = None\<rparr>
       in map_option (\<lambda>(ok, st).
            (if ok then Inr () else Inl (TimeoutException ''SubscribeCOVProperty cancellation failed''), d, st))
            (cov_exchange N d data ex st))"

subsection \<open>Methods of Device and ObjectRef\<close>

definition owner_error :: "owner \<Rightarrow> bacnet_exn option" where
  "owner_error ow =
    (if ow = NoObject then Some (BacnetException ''Device has no associated client'')
     else if \<not> php_bacnet_transport_from_owner ow then Some (BacnetException ''BACnet client not initialized'')
     else None)"

definition array_index_arg :: "int option \<Rightarrow> u32" where
  "array_index_arg i = (case i of None \<Rightarrow> BACNET_ARRAY_ALL | Some n \<Rightarrow> word_of_int n)"

definition priority_arg :: "int \<Rightarrow> u8" where
  "priority_arg priority = word_of_int (if priority < 1 then 1 else if priority > 16 then 16 else priority)"

definition read_via ::
    "('e, 'b, 'w) net_env \<Rightarrow> owner \<Rightarrow> rp_data \<Rightarrow> bool \<Rightarrow> exchange \<Rightarrow> device \<Rightarrow> ('e, 'b, 'w) client_state \<Rightarrow>
     ((bacnet_exn + zval) \<times> device \<times> ('e, 'b, 'w) client_state) option" where
  "read_via N ow rp refresh ex d st =
    (case owner_error ow of
       Some err \<Rightarrow> Some (Inl err, d, st)
     | None \<Rightarrow>
         (let (d, st) = php_bacnet_device_refresh_route N d st
          in map_option (\<lambda>(r, st). (r, d, st))
               (php_bacnet_exec_read_property N (dv_address d) rp (word_of_int (k_timeout_ms st)) refresh ex st)))"

definition write_via ::
    "('e, 'b, 'w) net_env \<Rightarrow> owner \<Rightarrow> rp_data \<Rightarrow> u8 \<Rightarrow> appdata \<Rightarrow> exchange \<Rightarrow> device \<Rightarrow> ('e, 'b, 'w) client_state \<Rightarrow>
     ((bacnet_exn + unit) \<times> device \<times> ('e, 'b, 'w) client_state) option" where
  "write_via N ow wp priority val ex d st =
    (case owner_error ow of
       Some err \<Rightarrow> Some (Inl err, d, st)
     | None \<Rightarrow>
         (let (d, st) = php_bacnet_device_refresh_route N d st
          in map_option (\<lambda>(r, st). (r, d, st))
               (php_bacnet_exec_write_property N (dv_address d) wp priority val (word_of_int (k_timeout_ms st)) ex st)))"

definition Device_readProperty where
  "Device_readProperty N ow ot inst prop array_index refresh ex d st =
    read_via N ow \<lparr>rp_object_type = ot, rp_instance = word_of_int inst, rp_property = prop,
      rp_array_index = array_index_arg array_index\<rparr> refresh ex d st"

definition Device_writeProperty where
  "Device_writeProperty N ow ot inst prop val priority array_index ex d st =
    write_via N ow \<lparr>rp_object_type = ot, rp_instance = word_of_int inst, rp_property = prop,
      rp_array_index = array_index_arg array_index\<rparr> (priority_arg priority) val ex d st"

definition Device_getAddress :: "('e, 'b, 'w) net_env \<Rightarrow> owner \<Rightarrow> device \<Rightarrow> ('e, 'b, 'w) client_state \<Rightarrow>
    string \<times> device \<times> ('e, 'b, 'w) client_state" where
  "Device_getAddress N ow d st =
    (let (d, st) = (if php_bacnet_transport_from_owner ow then php_bacnet_device_refresh_route N d st else (d, st));
         (ip, port) = php_bacnet_address_to_ipport (dv_address d) 32
     in (snprintf 64 (ip @ '':'' @ show_nat (unat port)), d, st))"

text \<open>An ObjectRef; the device is absent before its constructor has run.\<close>

record objectref =
  or_type :: u32
  or_instance :: u32

definition ObjectRef_construct :: "u32 \<Rightarrow> int \<Rightarrow> bacnet_exn + objectref" where
  "ObjectRef_construct ot inst =
    (if inst < 0 \<or> inst > BACNET_MAX_INSTANCE
     then Inl (BacnetException (''Invalid BACnet object instance '' @ show_int inst))
     else Inr \<lparr>or_type = ot, or_instance = word_of_int inst\<rparr>)"

definition objectref_data :: "objectref \<Rightarrow> u32 \<Rightarrow> u32 \<Rightarrow> rp_data" where
  "objectref_data ref prop array_index =
    \<lparr>rp_object_type = or_type ref, rp_instance = or_instance ref, rp_property = prop, rp_array_index = array_index\<rparr>"

definition ObjectRef_readProperty where
  "ObjectRef_readProperty N ow ref prop array_index refresh ex d st =
    read_via N ow (objectref_data ref prop (array_index_arg array_index)) refresh ex d st"

definition ObjectRef_writeProperty where
  "ObjectRef_writeProperty N ow ref prop val priority array_index ex d st =
    write_via N ow (objectref_data ref prop (array_index_arg array_index)) (priority_arg priority) val ex d st"

definition ObjectRef_writeActive where
  "ObjectRef_writeActive N ow ref ex d st =
    write_via N ow (objectref_data ref PROP_PRESENT_VALUE BACNET_ARRAY_ALL) 16 (AppEnumerated 1) ex d st"

definition ObjectRef_writeInactive where
  "ObjectRef_writeInactive N ow ref ex d st =
    write_via N ow (objectref_data ref PROP_PRESENT_VALUE BACNET_ARRAY_ALL) 16 (AppEnumerated 0) ex d st"

text \<open>The transport is looked up, with the refresh of the route, before the value is converted.\<close>

definition ObjectRef_writePresentValue ::
    "('e, 'b, 'w) net_env \<Rightarrow> owner \<Rightarrow> objectref \<Rightarrow> zval \<Rightarrow> exchange \<Rightarrow> device \<Rightarrow> ('e, 'b, 'w) client_state \<Rightarrow>
     ((bacnet_exn + unit) \<times> device \<times> ('e, 'b, 'w) client_state) option" where
  "ObjectRef_writePresentValue N ow ref v ex d st =
    (case owner_error ow of
       Some err \<Rightarrow> Some (Inl err, d, st)
     | None \<Rightarrow>
         (let (d, st) = php_bacnet_device_refresh_route N d st
          in case writePresentValue_data (n_char_init N) (or_type ref) v of
               None \<Rightarrow> Some (Inl (BacnetException ''writePresentValue: unsupported value type''), d, st)
             | Some a \<Rightarrow>
                 map_option (\<lambda>(r, st). (r, d, st))
                   (php_bacnet_exec_write_property N (dv_address d)
                      (objectref_data ref PROP_PRESENT_VALUE BACNET_ARRAY_ALL) 16 a
                      (word_of_int (k_timeout_ms st)) ex st)))"

text \<open>A TrendLogRecord: timestamp null, the value, status flags 0.\<close>

definition trend_log_record :: "zval \<Rightarrow> (string \<times> zval) list" where
  "trend_log_record v = [(''timestamp'', ZNull), (''value'', v), (''statusFlags'', ZLong 0)]"

definition trend_log_records :: "zval \<Rightarrow> (string \<times> zval) list list" where
  "trend_log_records raw =
    (case raw of ZArray xs \<Rightarrow> map (\<lambda>x. trend_log_record (snd x)) xs | ZNull \<Rightarrow> [] | _ \<Rightarrow> [trend_log_record raw])"

definition ObjectRef_readTrendLog where
  "ObjectRef_readTrendLog N ow ref ex d st =
    map_option (\<lambda>(r, d, st). (case r of Inl err \<Rightarrow> Inl err | Inr raw \<Rightarrow> Inr (trend_log_records raw), d, st))
      (read_via N ow (objectref_data ref PROP_LOG_BUFFER BACNET_ARRAY_ALL) False ex d st)"

text \<open>A WeeklySchedule is its seven arrays, Monday first; what is read is thrown away.\<close>

definition ObjectRef_readWeeklySchedule where
  "ObjectRef_readWeeklySchedule N ow ref ex d st =
    map_option (\<lambda>(r, d, st). (case r of Inl err \<Rightarrow> Inl err | Inr raw \<Rightarrow> Inr (replicate 7 (ZArray [])), d, st))
      (read_via N ow (objectref_data ref PROP_WEEKLY_SCHEDULE BACNET_ARRAY_ALL) False ex d st)"

definition ObjectRef_writeWeeklySchedule :: "zval list \<Rightarrow> bacnet_exn" where
  "ObjectRef_writeWeeklySchedule schedule =
     BacnetException ''writeWeeklySchedule: BACnet sequence encoding not yet implemented''"

definition WeeklySchedule_construct :: "zval list \<Rightarrow> zval list" where
  "WeeklySchedule_construct days = take 7 (days @ replicate 7 (ZArray []))"

definition WeeklySchedule_getDay :: "zval list \<Rightarrow> int \<Rightarrow> bacnet_exn + zval" where
  "WeeklySchedule_getDay days weekday =
    (if weekday < 1 \<or> weekday > 7
     then Inl (BacnetException (''weekday must be 1 (Mon) to 7 (Sun), got '' @ show_int weekday))
     else Inr (days ! nat (weekday - 1)))"

subsection \<open>The cache methods of Client and MixedServer\<close>

definition with_client_cache :: "bool \<Rightarrow> (('e, 'b, 'w) client_state \<Rightarrow> (bacnet_exn + 'r) \<times> ('e, 'b, 'w) client_state) \<Rightarrow>
    ('e, 'b, 'w) client_state \<Rightarrow> (bacnet_exn + 'r) \<times> ('e, 'b, 'w) client_state" where
  "with_client_cache has_client f st =
    (if \<not> has_client then (Inl (BacnetException ''BACnet client not initialized''), st) else f st)"

definition cache_error_text :: "cache_option_error \<Rightarrow> string" where
  "cache_error_text e =
    (case e of
       CacheKeyNotString \<Rightarrow> ''Cache-Optionen m'' @ u_umlaut @ ''ssen String-Schl'' @ u_umlaut @ ''ssel verwenden''
     | CacheInvalidBackend b \<Rightarrow> ''Ung'' @ u_umlaut @ ''ltiges L2-Backend: '' @ b
     | CacheNegativeTtl k \<Rightarrow> k @ '' darf nicht negativ sein''
     | CacheUnknownOption k \<Rightarrow> ''Unbekannte oder ung'' @ u_umlaut @ ''ltige Cache-Option: '' @ k)"

definition php_bacnet_cache_method_set_options where
  "php_bacnet_cache_method_set_options N has_client options =
    with_client_cache has_client (\<lambda>st.
      (let (err, w) = php_bacnet_cache_set_options (n_cache N) options (k_cache st)
       in (case err of None \<Rightarrow> Inr () | Some e \<Rightarrow> Inl (PhpValueError (cache_error_text e)), st\<lparr>k_cache := w\<rparr>)))"

definition php_bacnet_cache_method_get_options where
  "php_bacnet_cache_method_get_options has_client =
    with_client_cache has_client (\<lambda>st. (Inr (php_bacnet_cache_get_options (w_cache (k_cache st))), st))"

definition php_bacnet_cache_method_get_stats where
  "php_bacnet_cache_method_get_stats N has_client incl rst =
    with_client_cache has_client (\<lambda>st.
      (let (r, w) = php_bacnet_cache_get_stats (n_cache N) incl rst (k_cache st) in (Inr r, st\<lparr>k_cache := w\<rparr>)))"

fun partition_index :: "nat \<Rightarrow> string list \<Rightarrow> string \<Rightarrow> nat option" where
  "partition_index i [] name = None"
| "partition_index i (n # ns) name = (if name = n then Some i else partition_index (Suc i) ns name)"

definition php_bacnet_cache_method_clear where
  "php_bacnet_cache_method_clear N has_client name =
    with_client_cache has_client (\<lambda>st.
      (case name of
         None \<Rightarrow> (Inr (), with_cache (php_bacnet_cache_clear (n_cache N) (-1)) st)
       | Some nm \<Rightarrow>
           (case partition_index 0 partition_names (cstr nm) of
              None \<Rightarrow> (Inl (PhpValueError (''Unbekannte Cache-Partition: '' @ cstr nm)), st)
            | Some p \<Rightarrow> (Inr (), with_cache (php_bacnet_cache_clear (n_cache N) (int p)) st))))"

definition php_bacnet_cache_method_set_backend where
  "php_bacnet_cache_method_set_backend N has_client backend =
    with_client_cache has_client (\<lambda>st. (Inr (), with_cache (\<lambda>w. snd (php_bacnet_cache_set_backend (n_cache N) backend w)) st))"

subsection \<open>Creating a client\<close>

text \<open>bip_init gives whether the data link could be opened.\<close>

definition php_bacnet_client_create :: "(string option \<Rightarrow> u16 \<Rightarrow> bool) \<Rightarrow> string option \<Rightarrow> u16 \<Rightarrow> string + string \<times> u16" where
  "php_bacnet_client_create bip_init iface port =
    (let real_iface = (case iface of
           Some i \<Rightarrow> if cstr i \<noteq> [] \<and> cstr i \<noteq> ''0.0.0.0'' then Some (cstr i) else None | None \<Rightarrow> None);
         name = (case real_iface of Some i \<Rightarrow> i | None \<Rightarrow> ''(auto)'');
         p = (if port \<noteq> 0 then port else word_of_int PHP_BACNET_DEFAULT_PORT)
     in if \<not> bip_init real_iface p
        then Inl (''bip_init failed on interface '' @ CHR 0x27 # name @ CHR 0x27 # '' port '' @ show_nat (unat p))
        else Inr (name, p))"

definition Client_construct :: "(string option \<Rightarrow> u16 \<Rightarrow> bool) \<Rightarrow> string option \<Rightarrow> int option \<Rightarrow> bacnet_globals \<Rightarrow>
    (bacnet_exn + string \<times> u16) \<times> bacnet_globals" where
  "Client_construct bip_init iface port g =
    (if g_client_initialized g then (Inl (PhpError (''Only one Bacnet'' @ CHR 0x5C # ''Client may exist per PHP process '' @
        ''(bacnet-stack uses a process-global UDP socket)'')), g)
     else
       let i = (case iface of Some s \<Rightarrow> if s \<noteq> [] then Some s else None | None \<Rightarrow> None);
           p = word_of_int (case port of None \<Rightarrow> g_default_port g | Some n \<Rightarrow> n)
       in case php_bacnet_client_create bip_init i p of
            Inl msg \<Rightarrow> (Inl (BacnetException (''Failed to initialize BACnet client: '' @ msg)), g)
          | Inr c \<Rightarrow> (Inr c, g\<lparr>g_client_initialized := True\<rparr>))"

definition php_bacnet_client_free_object :: "bool \<Rightarrow> bacnet_globals \<Rightarrow> bacnet_globals" where
  "php_bacnet_client_free_object has_client g = (if has_client then g\<lparr>g_client_initialized := False\<rparr> else g)"

end
