(* ===== verification/Client_Props.thy ===== *)
theory Client_Props
  imports Client Cache_Clear
begin

text \<open>
  Correctness of the client: reads and the cache, writes and the cache, discovery, and the value
  a present value is written as.
\<close>

subsection \<open>A concrete client\<close>

text \<open>
  An environment and a client for the witnesses: a toy encoding, no negative caching (the
  default), and an unsolicited handler that always fails.
\<close>

definition demo_codec :: "'w handler \<Rightarrow> (list_store, unit, 'w) net_env" where
  "demo_codec handler = \<lparr>n_npdu = (\<lambda>pdu. (2, False)), n_header = (\<lambda>dest expecting. Some [1, 4]), n_iam = (\<lambda>r. None),
     n_max_apdu = 1476, n_max_npdu = 30, n_handler = handler,
     n_rp_encode = (\<lambda>invoke rp. Some [0, 5, invoke, 12]), n_rp_ack = (\<lambda>r. Some r),
     n_wp_encode = (\<lambda>invoke wp priority data. Some ([0, 5, invoke, 15] @ data)), n_app_encode = (\<lambda>a. Some [0]),
     n_app_decode = (\<lambda>data. (1, AppUnsigned (ucast (data ! 0)))), n_error = (\<lambda>r. (2, 32)),
     n_whois_encode = (\<lambda>low high. Some [0x10, 8]), n_cov_encode = (\<lambda>invoke data. Some [0, 5, invoke, 28]),
     n_char_init = (\<lambda>s. s), n_whois_image = (\<lambda>es. [of_nat (length es)]), n_whois_of_image = (\<lambda>b. (0, [])),
     n_whois_size = 4, n_addr_image = mac, n_addr_of_image = (\<lambda>b. \<lparr>mac = b, net = 0\<rparr>), n_addr_size = 7,
     n_cache = list_env\<rparr>"

definition demo_net :: "(list_store, unit, nat) net_env" where
  "demo_net = demo_codec (\<lambda>w source pdu. (False, Suc w))"

definition demo_client :: "(list_store, unit, nat) client_state" where
  "demo_client = \<lparr>k_initialized = True, k_cache = demo_world [], k_next_invoke_id = 1, k_next_cov_process_id = 1,
     k_local = None, k_timeout_ms = 3000, k_ctx = 0, k_sent = []\<rparr>"

definition demo_dest :: bacnet_address where "demo_dest = \<lparr>mac = [], net = 0\<rparr>"

definition demo_rp :: rp_data where
  "demo_rp = \<lparr>rp_object_type = 0, rp_instance = 5, rp_property = 77, rp_array_index = 0\<rparr>"

lemma demo_net_fields [simp]:
  "n_max_apdu demo_net = 1476" "n_max_npdu demo_net = 30" "n_cache demo_net = list_env" "n_rp_ack demo_net = (\<lambda>r. Some r)"
  "n_rp_encode demo_net = (\<lambda>invoke rp. Some [0, 5, invoke, 12])" "n_header demo_net = (\<lambda>dest expecting. Some [1, 4])"
  "n_app_decode demo_net = (\<lambda>data. (1, AppUnsigned (ucast (data ! 0))))" "n_npdu demo_net = (\<lambda>pdu. (2, False))"
  "n_iam demo_net = (\<lambda>r. None)" "n_handler demo_net = (\<lambda>w source pdu. (False, Suc w))"
  "n_whois_encode demo_net = (\<lambda>low high. Some [0x10, 8])" "n_whois_size demo_net = 4"
  by (simp_all add: demo_net_def demo_codec_def)

lemma demo_client_fields [simp]:
  "k_initialized demo_client" "k_cache demo_client = demo_world []" "k_next_invoke_id demo_client = 1"
  "k_sent demo_client = []" "k_ctx demo_client = 0" "k_local demo_client = None" "k_timeout_ms demo_client = 3000"
  by (simp_all add: demo_client_def)

lemma show_nat_small: "show_nat 0 = ''0''" "show_nat 5 = ''5''" "show_nat 77 = ''77''"
  by (simp_all add: show_nat.simps digit_char_def char_of_def) (simp_all add: bit_0)

lemma demo_rp_key: "read_cache_key demo_dest demo_rp = ''0.0.0.0:0|0|5|77|0''"
  by (simp add: read_cache_key_def demo_dest_def demo_rp_def php_bacnet_address_to_ipport_def
      snprintf_trunc_def bar_separated_def snprintf_def show_nat_small)

lemma demo_rp_full_key:
  "php_bacnet_make_full_key (w_cache (demo_world e)) 1 ''0.0.0.0:0|0|5|77|0'' = ''v2|eth0:9|lmdb|object|0.0.0.0:0|0|5|77|0''"
  by (simp add: php_bacnet_make_full_key_def demo_world_def demo_cache_fields snprintf_def partition_prefix_def
      key_prefix_def partition_names_def PHP_BACNET_CACHE_VERSION_def show_nat_2)

lemma demo_partition: "read_partition (rp_property demo_rp) = 1"
  by (simp add: read_partition_def demo_rp_def PROP_PRESENT_VALUE_def PROP_OBJECT_LIST_def PROP_LOG_BUFFER_def
      PROP_WEEKLY_SCHEDULE_def CACHE_OBJECT_def)

lemma demo_world_options:
  "php_bacnet_cache_partition_enabled (w_cache (demo_world e)) 1"
  "\<not> php_bacnet_cache_partition_enabled (w_cache (demo_world e)) PHP_BACNET_CACHE_NEGATIVE"
  "php_bacnet_cache_partition_ttl (w_cache (demo_world e)) 1 = Fin 300"
  "c_l2 (w_cache (demo_world e)) \<noteq> L2_CALLBACK" "c_max_entries (w_cache (demo_world e)) ! 1 = 4096"
  "c_l1_max_bytes (w_cache (demo_world e)) = 16777216" "length (c_namespace_name (w_cache (demo_world e))) < 96"
  by (simp_all add: demo_world_def php_bacnet_cache_partition_enabled_def php_bacnet_cache_partition_ttl_def
      demo_cache_fields CACHE_PARTITION_COUNT_def PHP_BACNET_CACHE_NEGATIVE_def)

lemma demo_clearable: "clearable list_env (demo_world e)"
  using demo_world_options [of e] list_env_ok by (simp add: clearable_def list_env_def)

subsection \<open>Reads\<close>

lemma device_error_exn: "\<exists>msg code. device_error N malformed what resp = DeviceException msg code"
  by (auto simp: device_error_def Let_def split: prod.split)

text \<open>C29.
  A property that has just been read over the network and is cached is read again without the
  network until the entry expires: the second read gives the value the first one gave, sends
  nothing, and uses up no invoke id.
\<close>

theorem second_read_from_cache:
  assumes "4 \<le> length resp" "n_rp_ack N (drop 3 resp) = Some data"
    and "p = read_partition (rp_property rp)" "p < CACHE_PARTITION_COUNT"
    and "w = k_cache st" "php_bacnet_cache_partition_enabled (w_cache w) p"
    and "\<not> php_bacnet_cache_partition_enabled (w_cache w) PHP_BACNET_CACHE_NEGATIVE"
    and "ttl = php_bacnet_cache_partition_ttl (w_cache w) p" "\<not> ttl \<le> Fin 0"
    and "c_l2 (w_cache w) \<noteq> L2_CALLBACK" "l1_ready (n_cache N) w" "length data \<le> n_max_apdu N"
    and "storable (c_l1_max_bytes (w_cache w)) (php_bacnet_make_full_key (w_cache w) p (read_cache_key dest rp)) data"
    and "0 < c_max_entries (w_cache w) ! p"
    and "\<forall>n. w_clock w n < w_clock w (w_reads w) + u64_of_dbl (conv_u64 (n_cache N)) (ttl * Fin 1000)"
    and "read_answer N dest rp timeout_ms 0 resp st = (r, st1)"
  shows "\<exists>st2. r = Inr (bacapp_values_to_zval (n_app_decode N) data) \<and>
    php_bacnet_exec_read_property N dest rp timeout_ms2 False ex st1 = Some (r, st2) \<and>
    k_sent st2 = k_sent st1 \<and> k_next_invoke_id st2 = k_next_invoke_id st1 \<and> k_ctx st2 = k_ctx st1"
proof -
  let ?w1 = "php_bacnet_cache_put (n_cache N) p (read_cache_key dest rp) data ttl w"
  have np: "uint PDU_TYPE_ERROR \<noteq> 0" "uint PDU_TYPE_REJECT \<noteq> 0" "uint PDU_TYPE_ABORT \<noteq> 0"
    by (simp_all add: pdu_defs)
  have a: "r = Inr (bacapp_values_to_zval (n_app_decode N) data)" "st1 = st\<lparr>k_cache := ?w1\<rparr>"
    using assms(16) np assms(1,2,4)
    by (auto simp: read_answer_def assms(3) [symmetric] assms(5) [symmetric] assms(8) [symmetric] Let_def
        cache_store_def with_cache_def)
  note s = put_settings(1) [OF assms(6,9), of "n_cache N" "read_cache_key dest rp" data]
  have neg: "\<not> php_bacnet_cache_partition_enabled (w_cache ?w1) PHP_BACNET_CACHE_NEGATIVE"
    using assms(7) settings_eqD(2,3) [OF s] by (simp add: php_bacnet_cache_partition_enabled_def)
  obtain w2 where g: "php_bacnet_cache_get (n_cache N) p (read_cache_key dest rp) (n_max_apdu N) ?w1 = (Some data, w2)"
    using put_then_get [OF assms(6,10,9,11-15)] by (metis prod.collapse)
  have "read_from_cache N dest rp False st1 =
      (Some (Inr (bacapp_values_to_zval (n_app_decode N) data)), st1\<lparr>k_cache := w2\<rparr>)"
    using neg g assms(4)
    by (simp add: read_from_cache_def cache_lookup_def a(2) assms(3) [symmetric] php_bacnet_cache_get_def Let_def)
  then show ?thesis using a(1) by (simp add: php_bacnet_exec_read_property_def)
qed

lemma ttl_300: "u64_of_dbl conv (Fin 300 * Fin 1000) = 300000"
  by simp

lemma second_read_from_cache_witness:
  "\<exists>st2. php_bacnet_exec_read_property demo_net demo_dest demo_rp 3000 False (0, [])
      (snd (read_answer demo_net demo_dest demo_rp 3000 0 [0x30, 1, 12, 7] demo_client)) = Some (Inr (ZLong 7), st2) \<and>
    k_sent st2 = []"
proof -
  let ?ra = "read_answer demo_net demo_dest demo_rp 3000 0 [0x30, 1, 12, 7] demo_client"
  have v: "bacapp_values_to_zval (n_app_decode demo_net) [7] = ZLong 7"
    by (simp add: bacapp_values_to_zval_def bacapp_decode_loop.simps)
  have "\<exists>st2. fst ?ra = Inr (bacapp_values_to_zval (n_app_decode demo_net) [7]) \<and>
      php_bacnet_exec_read_property demo_net demo_dest demo_rp 3000 False (0, []) (snd ?ra) = Some (fst ?ra, st2) \<and>
      k_sent st2 = k_sent (snd ?ra) \<and> k_next_invoke_id st2 = k_next_invoke_id (snd ?ra) \<and> k_ctx st2 = k_ctx (snd ?ra)"
  proof (rule second_read_from_cache [OF _ _ demo_partition [symmetric] _ refl _ _ refl _ _ _ _ _ _ _ prod.collapse [symmetric]])
    show "\<forall>n. w_clock (k_cache demo_client) n < w_clock (k_cache demo_client) (w_reads (k_cache demo_client)) +
        u64_of_dbl (conv_u64 (n_cache demo_net)) (php_bacnet_cache_partition_ttl (w_cache (k_cache demo_client)) 1 * Fin 1000)"
      unfolding demo_client_fields demo_world_options ttl_300 by (simp add: demo_world_def)
  qed (simp_all add: demo_world_options demo_world_options [unfolded One_nat_def] demo_ready demo_rp_key
      demo_rp_full_key [unfolded One_nat_def] storable_def CACHE_VALUE_MAX_def CACHE_KEY_MAX_def CACHE_PARTITION_COUNT_def)
  moreover have "k_sent (snd ?ra) = []"
    by (simp add: read_answer_def Let_def cache_store_def with_cache_def pdu_defs)
  ultimately show ?thesis unfolding v by auto
qed

subsection \<open>Writes\<close>

lemma invalidate_written_cache:
  "invalidate_written N st = st\<lparr>k_cache := fold (php_bacnet_cache_invalidate (n_cache N))
     [CACHE_STATE, CACHE_OBJECT, CACHE_OBJECT_LIST, PHP_BACNET_CACHE_NEGATIVE] (k_cache st)\<rparr>"
  by (simp add: invalidate_written_def with_cache_def)

lemma read_partition_cases:
  "read_partition pr \<in> {CACHE_STATE, CACHE_OBJECT, CACHE_OBJECT_LIST} \<or> read_partition pr = CACHE_PARTITION_COUNT"
  by (simp add: read_partition_def)

text \<open>C3.
  A read after an acknowledged write asks the device, whatever was cached before, under any
  property: the first thing it does is to send its request, and it gives no value without that.
\<close>

theorem write_then_read_asks_device:
  assumes "write_answer N timeout_ms status resp st = (Inr (), st1)" "clearable (n_cache N) (k_cache st)"
    and "k_initialized st1" "n_rp_encode N (k_next_invoke_id st1) rp = Some request"
    and "n_header N dest True = Some h" "length h + length request \<le> n_max_apdu N + n_max_npdu N"
    and "php_bacnet_exec_read_property N dest rp timeout_ms2 False ex st1 = Some (r, st2)"
  shows "k_sent st2 = k_sent st1 @ [(Some dest, h @ request)]"
proof -
  let ?p = "read_partition (rp_property rp)"
  have st1: "st1 = invalidate_written N st"
    using assms(1) by (auto simp: write_answer_def device_error_def Let_def refused_def split: if_splits prod.splits)
  have ab: "absent (n_cache N) p (k_cache st1)" if "p \<in> {CACHE_STATE, CACHE_OBJECT, CACHE_OBJECT_LIST, PHP_BACNET_CACHE_NEGATIVE}" for p
    unfolding st1 invalidate_written_cache
    using absent_invalidate_all [OF assms(2), of p "[CACHE_STATE, CACHE_OBJECT, CACHE_OBJECT_LIST, PHP_BACNET_CACHE_NEGATIVE]"] that
    by (auto simp: CACHE_STATE_def CACHE_OBJECT_def CACHE_OBJECT_LIST_def PHP_BACNET_CACHE_NEGATIVE_def CACHE_PARTITION_COUNT_def)
  let ?neg = "php_bacnet_cache_get (n_cache N) PHP_BACNET_CACHE_NEGATIVE (read_negative_key dest rp) 1 (k_cache st1)"
  obtain w2 where n: "?neg = (None, w2)"
    using absent_get [OF ab, of PHP_BACNET_CACHE_NEGATIVE "read_negative_key dest rp" 1] by (cases ?neg) simp
  have "fst (php_bacnet_cache_get (n_cache N) ?p (read_cache_key dest rp) (n_max_apdu N) w2) = None"
    if "?p < CACHE_PARTITION_COUNT"
  proof -
    have "absent (n_cache N) ?p (k_cache st1)" using ab read_partition_cases [of "rp_property rp"] that by auto
    then show ?thesis using absent_get absent_kept_by_get [OF _ n] by blast
  qed
  then have fn: "fst (read_from_cache N dest rp False st1) = None"
    using n by (cases "php_bacnet_cache_get (n_cache N) ?p (read_cache_key dest rp) (n_max_apdu N) w2")
      (auto simp: read_from_cache_def cache_lookup_def Let_def)
  have "\<exists>w. snd (read_from_cache N dest rp False st1) = st1\<lparr>k_cache := w\<rparr>"
    by (auto simp: read_from_cache_def cache_lookup_def Let_def split: prod.split) 
  then obtain w3 where f: "read_from_cache N dest rp False st1 = (None, st1\<lparr>k_cache := w3\<rparr>)"
    using fn by (metis prod.collapse)
  have sent: "k_sent st3 = k_sent st1 @ [(Some dest, h @ request)]"
    if "request_reply N dest request inv t ex s = Some (status, resp, st3)" "k_sent s = k_sent st1" "k_initialized s" for inv t s status resp st3
    using that assms(5,6)
    by (auto simp: request_reply_def php_bacnet_send_and_wait_def sent_to_def split: option.splits prod.splits)
  have ra: "k_sent (snd (read_answer N dest rp t status resp s)) = k_sent s" for t status resp s
    by (simp add: read_answer_def Let_def cache_store_def with_cache_def split: option.split)
  let ?s = "st1\<lparr>k_cache := w3, k_next_invoke_id := k_next_invoke_id st1 + 1\<rparr>"
  obtain status resp s3 where q: "request_reply N dest request (k_next_invoke_id st1) timeout_ms2 ex ?s = Some (status, resp, s3)"
    and e: "read_answer N dest rp timeout_ms2 status resp s3 = (r, st2)"
    using assms(4,7) f by (auto simp: php_bacnet_exec_read_property_def Let_def split: option.splits prod.splits)
  show ?thesis using sent [OF q] ra [of timeout_ms2 status resp s3] assms(3) e by simp
qed

lemma write_then_read_asks_device_witness:
  "\<exists>r st2. php_bacnet_exec_read_property demo_net demo_dest demo_rp 3000 False (0, [\<lparr>io_clock = 5000, io_clock2 = 5000, io_source = demo_dest, io_pdu = []\<rparr>])
      (snd (write_answer demo_net 3000 0 [] demo_client)) = Some (r, st2) \<and> k_sent st2 = [(Some demo_dest, [1, 4, 0, 5, 1, 12])]"
proof -
  let ?st1 = "invalidate_written demo_net demo_client"
  let ?ex = "(0, [\<lparr>io_clock = 5000, io_clock2 = 5000, io_source = demo_dest, io_pdu = []\<rparr>]) :: exchange"
  have wa: "write_answer demo_net 3000 0 [] demo_client = (Inr (), ?st1)"
    by (simp add: write_answer_def pdu_defs)
  have st1: "k_initialized ?st1" "k_next_invoke_id ?st1 = 1" "k_sent ?st1 = []"
    by (simp_all add: invalidate_written_cache)
  have rr: "request_reply demo_net demo_dest request inv 3000 ?ex s \<noteq> None" for request inv s
    by (simp add: request_reply_def php_bacnet_send_and_wait_def split: option.split)
  have "php_bacnet_exec_read_property demo_net demo_dest demo_rp 3000 False ?ex ?st1 \<noteq> None"
    by (simp add: php_bacnet_exec_read_property_def Let_def rr del: not_None_eq split: option.split prod.split)
  then obtain r st2 where e: "php_bacnet_exec_read_property demo_net demo_dest demo_rp 3000 False ?ex ?st1 = Some (r, st2)"
    by auto
  have "k_sent st2 = k_sent ?st1 @ [(Some demo_dest, [1, 4] @ [0, 5, k_next_invoke_id ?st1, 12])]"
    by (rule write_then_read_asks_device [OF wa _ st1(1) _ _ _ e]) (simp_all add: demo_clearable)
  then show ?thesis using e st1 by (simp add: wa)
qed

subsection \<open>Discovery\<close>

text \<open>
  A Who-Is that an exception of the unsolicited handler has cut short: Client::whoIs notes the
  range as empty in the negative cache, although nothing is known of it, while
  MixedServer::whoIs leaves the cache as it was; both raise the exception.
\<close>

theorem whois_exception_noted_as_empty:
  assumes "whois_from_cache N (whois_range low high) refresh st = (None, st0)"
    and "n_whois_encode N (fst (whois_range low high)) (snd (whois_range low high)) = Some request"
    and "broadcast_collect N request (timeout_arg st timeout_ms) ex1 st0 = Some (-1, es, st1)"
  shows "MixedServer_whoIs N low high timeout_ms refresh ex1 ex2 st = Some (Inl HandlerException, st1) \<and>
    Client_whoIs N low high timeout_ms refresh ex1 ex2 st =
      Some (Inl HandlerException,
        cache_store N PHP_BACNET_CACHE_NEGATIVE (empty_key (whois_range low high)) negative_marker
          (c_negative_whois_ttl (w_cache (k_cache st1))) st1)"
  using assms
  by (simp add: Client_whoIs_def MixedServer_whoIs_def whois_finish_def whois_store_def Let_def)

lemma whois_exception_noted_as_empty_witness:
  "\<exists>st1. Client_whoIs demo_net None None None True (0, [\<lparr>io_clock = 0, io_clock2 = 0, io_source = demo_dest, io_pdu = [1, 4, 0, 5, 9, 1]\<rparr>]) (0, []) demo_client =
     Some (Inl HandlerException, cache_store demo_net PHP_BACNET_CACHE_NEGATIVE (empty_key (whois_range None None)) negative_marker
       (c_negative_whois_ttl (w_cache (k_cache st1))) st1)"
proof -
  let ?ex = "(0, [\<lparr>io_clock = 0, io_clock2 = 0, io_source = demo_dest, io_pdu = [1, 4, 0, 5, 9, 1]\<rparr>]) :: exchange"
  obtain st0 where w: "whois_from_cache demo_net (whois_range None None) True demo_client = (None, st0)"
    "k_initialized st0" "k_local st0 = None" "k_ctx st0 = 0" "k_sent st0 = []"
    by (simp add: whois_from_cache_def with_cache_def)
  have c: "classify_iam (\<lambda>pdu. (2, False)) (\<lambda>r. None) None demo_dest [1, 4, 0, 5, 9, 1] = CUnsolicited"
    by (simp add: classify_iam_def apdu_at_def apdu_len_def pdu_defs)
  have "timeout_arg demo_client None = 3000" by (simp add: timeout_arg_def)
  then obtain st1 where b: "broadcast_collect demo_net [0x10, 8] (timeout_arg demo_client None) ?ex st0 = Some (-1, [], st1)"
    using w by (simp add: broadcast_collect_def php_bacnet_broadcast_and_collect_def PHP_BACNET_MAX_COLLECTED_DEVICES_def c)
  show ?thesis
    using whois_exception_noted_as_empty [OF w(1) _ b, of "(0, [])"] by auto
qed

subsection \<open>Present values\<close>

text \<open>
  writePresentValue with a negative integer on an analog object does not write that number: the
  32-bit pattern is read as an unsigned number, so that n is written as 2^32 + n in single
  precision, while a non-negative integer is written as itself in single precision.
\<close>

theorem present_value_of_negative:
  assumes "ot = OBJECT_ANALOG_INPUT \<or> ot = OBJECT_ANALOG_OUTPUT \<or> ot = OBJECT_ANALOG_VALUE"
    and "- (2 ^ 31) \<le> n" "n < 2 ^ 63"
  shows "writePresentValue_data ci ot (ZLong n) =
    Some (AppReal (Fin (round_prec 24 (of_int (if n < 0 then 2 ^ 32 + n else n)))))"
proof -
  have neq: "\<not> (ot = OBJECT_BINARY_INPUT \<or> ot = OBJECT_BINARY_OUTPUT \<or> ot = OBJECT_BINARY_VALUE)"
    using assms(1) by (auto simp: object_type_defs)
  have pos: "uint (word_of_int n :: u64) = n" if "0 \<le> n"
    using that assms(3) by (simp add: uint_word_of_int)
  have "n mod 2 ^ 32 = 2 ^ 32 + n" if "n < 0"
  proof -
    have "n mod 2 ^ 32 = (2 ^ 32 + n) mod 2 ^ 32" by (rule mod_add_self1 [symmetric])
    also have "\<dots> = 2 ^ 32 + n" using that assms(2) by (intro mod_pos_pos_trivial) simp_all
    finally show ?thesis .
  qed
  note m = this
  have neg: "uint (ucast (word_of_int n :: u32) :: u64) = 2 ^ 32 + n" if "n < 0"
  proof -
    have "uint (ucast x :: u64) = uint x" for x :: u32 by (rule uint_up_ucast) (simp add: is_up)
    moreover have "uint (word_of_int n :: u32) = n mod 2 ^ 32" by (simp add: uint_word_of_int)
    ultimately show ?thesis using m [OF that] by (simp only:)
  qed
  have fl: "float_of_u64 w = Fin (round_prec 24 (of_int (uint w)))" for w
    by (simp only: float_of_u64_def uint_nat of_int_of_nat_eq)
  have ana: "coerce_present_value ot (AppUnsigned w) = AppReal (float_of_u64 w)"
    "coerce_present_value ot (AppSigned x) = AppReal (float_of_u64 (ucast x))" for w x
    using neq assms(1) by (simp_all only: coerce_present_value_def appdata.case union_unsigned.simps if_False if_True)
  have "writePresentValue_data ci ot (ZLong n) =
      Some (AppReal (float_of_u64 (if n < 0 then ucast (word_of_int n :: u32) else word_of_int n)))"
    by (cases "n < 0") (simp_all only: writePresentValue_data_def zval_to_bacapp_value_def zval.case not_le [symmetric]
      option.map ana if_True if_False not_not not_True_eq_False not_False_eq_True)
  moreover have "uint (if n < 0 then ucast (word_of_int n :: u32) else word_of_int n :: u64) = (if n < 0 then 2 ^ 32 + n else n)"
  proof (cases "n < 0")
    case True
    then show ?thesis using neg by (simp only: if_True)
  next
    case False
    then show ?thesis using pos by (simp only: if_False linorder_not_less [symmetric] not_False_eq_True)
  qed
  ultimately show ?thesis by (simp only: fl)
qed

lemma present_value_of_negative_witness:
  "writePresentValue_data (\<lambda>s. s) OBJECT_ANALOG_VALUE (ZLong (-1)) =
    Some (AppReal (Fin (round_prec 24 4294967295)))"
  using present_value_of_negative [of OBJECT_ANALOG_VALUE "-1" "\<lambda>s. s"] by simp

text \<open>C37.
  A PHP value comes back as it was from the conversion to application data and back exactly when
  it has an exact image there (wire_value): null, booleans, integers from -2^31 up to 2^63 - 1,
  numbers of single precision, strings without NUL that fit, bit strings with clear unused bytes,
  dates and times with fields in range, and object identifiers.  Every other value comes back
  changed or is refused: a double of more than 24 significant bits or one that overflows or
  underflows a float, a smaller or larger integer, a string that is cut.  The hypotheses are the
  documented behaviour of characterstring_init_ansi, which keeps a string of at most cap bytes
  and never holds a longer one, and the size of the array in the object of a bit string.
\<close>

theorem value_round_trip:
  assumes "\<forall>s. length s \<le> cap \<longrightarrow> char_init s = s" and "\<forall>s. length (char_init s) \<le> cap"
    and "\<And>bs. z = ZBitString bs \<Longrightarrow> length (bit_bytes bs) = PHP_BACNET_BITSTRING_MAX_BYTES"
  shows "map_option bacapp_value_to_zval (zval_to_bacapp_value char_init z) = Some z \<longleftrightarrow> wire_value cap z"
proof (cases z)
  case (ZLong n)
  then show ?thesis using long_round_trip [of char_init n] by simp
next
  case (ZDouble d)
  then show ?thesis using float_of_dbl_fixed [of d] by (simp add: zval_to_bacapp_value_def del: float_of_dbl.simps)
next
  case (ZString s)
  then show ?thesis using string_round_trip [OF assms(1,2), of s] by (simp add: zval_to_bacapp_value_def)
next
  case (ZBitString bs)
  then show ?thesis using bitstring_round_trip [OF assms(3)] by (simp add: zval_to_bacapp_value_def)
next
  case (ZDate d)
  then show ?thesis using date_round_trip [of d cap] by (simp add: zval_to_bacapp_value_def del: wire_value.simps)
next
  case (ZTime t)
  then show ?thesis using time_round_trip [of t cap] by (simp add: zval_to_bacapp_value_def del: wire_value.simps)
next
  case (ZOid oid)
  then show ?thesis using oid_round_trip [of oid cap] by (simp add: zval_to_bacapp_value_def del: wire_value.simps)
next
  case (ZValue v)
  then show ?thesis by (cases v) (simp_all add: zval_to_bacapp_value_def)
qed (simp_all add: zval_to_bacapp_value_def)

text \<open>
  With a capacity of 100 bytes: -5 and 1.5 survive, 2^-200 (which becomes 0) and -2^31 - 1 do
  not.
\<close>

lemma value_round_trip_witness:
  "map_option bacapp_value_to_zval (zval_to_bacapp_value (take 100) (ZLong (-5))) = Some (ZLong (-5)) \<and>
   map_option bacapp_value_to_zval (zval_to_bacapp_value (take 100) (ZDouble (Fin (3 / 2)))) = Some (ZDouble (Fin (3 / 2))) \<and>
   map_option bacapp_value_to_zval (zval_to_bacapp_value (take 100) (ZDouble (Fin (1 / 2 ^ 200)))) \<noteq> Some (ZDouble (Fin (1 / 2 ^ 200))) \<and>
   map_option bacapp_value_to_zval (zval_to_bacapp_value (take 100) (ZLong (-2147483649))) \<noteq> Some (ZLong (-2147483649))"
proof -
  note r = value_round_trip [of 100 "take 100"]
  have "single_precision (3 / 2)"
    unfolding single_precision_def by (intro exI [of _ 3] exI [of _ "-1"]) (simp add: power_int_minus)
  moreover have "float_of_dbl (Fin (1 / 2 ^ 200)) = Fin 0"
    using power_int_strict_increasing [of "-200" "-150" "2::rat"]
    by (intro float_underflow) (simp_all add: power_int_minus field_simps)
  then have "\<not> single_precision (1 / 2 ^ 200)" using single_precision_kept by force
  ultimately have "wire_value 100 (ZDouble (Fin (3 / 2)))" "\<not> wire_value 100 (ZDouble (Fin (1 / 2 ^ 200)))"
    unfolding wire_value.simps dbl.inject by blast+
  moreover have "wire_value 100 (ZLong (-5))" "\<not> wire_value 100 (ZLong (-2147483649))" by simp_all
  ultimately show ?thesis by (intro conjI; subst r) (simp_all only: length_take take_all zval.distinct, simp_all)
qed

end
