(* ===== verification/Cov.thy ===== *)
theory Cov
  imports Transport Helpers
begin

text \<open>
  Sending an APDU and receiving change-of-value notifications (src/bacnet_classes.c): the event
  array handed to the PHP handler, the acknowledgement of a confirmed notification, the
  unsolicited handler of a client and Client::poll.  link_env holds the routines of
  bacnet-stack the code calls: bacnet_npdu_decode, the encoder of the network header, the data
  link (whether a packet was sent; None is the broadcast address), the decoder of notifications
  (its length and the values) and encode_simple_ack.  php_world is the state outside: the PHP
  program, reached only through its handlers, and the APDUs handed to the data link.
\<close>

subsection \<open>Sending\<close>

record cov_data =
  cv_process_id :: u32
  cv_device_id :: u32
  cv_type :: u32
  cv_instance :: u32
  cv_time_remaining :: u32
  cv_values :: "(u32 \<times> u32 \<times> appdata) list"

record link_env =
  p_npdu :: "bytes \<Rightarrow> int \<times> bool"
  p_header :: "bacnet_address \<Rightarrow> bool \<Rightarrow> bytes option"
  p_max_apdu :: nat
  p_max_npdu :: nat
  p_transmit :: "bacnet_address option \<Rightarrow> bytes \<Rightarrow> bool"
  p_cov_decode :: "bytes \<Rightarrow> int \<times> cov_data"
  p_simple_ack :: "u8 \<Rightarrow> u8 \<Rightarrow> bytes option"

record 'p php_world =
  y_user :: 'p
  y_sent :: "(bacnet_address \<times> bytes) list"

text \<open>
  A destination without MAC address is the local broadcast.  y_sent takes down the APDUs that
  reach the data link, with their destination, whether it sends them or not.
\<close>

definition php_bacnet_server_send_apdu ::
    "'l link_env_scheme \<Rightarrow> bacnet_address \<Rightarrow> bytes \<Rightarrow> ('p, 'z) php_world_scheme \<Rightarrow>
     bool \<times> ('p, 'z) php_world_scheme" where
  "php_bacnet_server_send_apdu L dest apdu st =
    (case p_header L dest False of
       None \<Rightarrow> (False, st)
     | Some h \<Rightarrow>
         if length h + length apdu > p_max_apdu L + p_max_npdu L then (False, st)
         else (p_transmit L (if mac dest = [] then None else Some dest) (h @ apdu),
               st\<lparr>y_sent := y_sent st @ [(dest, apdu)]\<rparr>))"

definition send_apdu where
  "send_apdu L dest apdu st = snd (php_bacnet_server_send_apdu L dest apdu st)"

text \<open>The pattern of the code for an encoder that may fail: nothing is sent then.\<close>

definition send_encoded where
  "send_encoded L dest apdu st = (case apdu of None \<Rightarrow> st | Some a \<Rightarrow> send_apdu L dest a st)"

subsection \<open>Notifications\<close>

definition indexed :: "zval list \<Rightarrow> zval" where
  "indexed vs = ZArray (zip (map (\<lambda>i. KInt (int i)) [0..<length vs]) vs)"

definition cov_property :: "u32 \<times> u32 \<times> appdata \<Rightarrow> zval" where
  "cov_property pv = (case pv of (prop, array_index, val) \<Rightarrow>
     ZArray [(KStr ''property'', ZLong (uint prop)), (KStr ''arrayIndex'', ZLong (uint array_index)),
             (KStr ''value'', bacapp_value_to_zval val)])"

definition cov_event :: "cov_data \<Rightarrow> zval" where
  "cov_event d = ZArray
    [(KStr ''subscriberProcessId'', ZLong (uint (cv_process_id d))),
     (KStr ''deviceId'', ZLong (uint (cv_device_id d))),
     (KStr ''objectType'', ZLong (uint (cv_type d))),
     (KStr ''instance'', ZLong (uint (cv_instance d))),
     (KStr ''timeRemaining'', ZLong (uint (cv_time_remaining d))),
     (KStr ''properties'', indexed (map cov_property (cv_values d)))]"

text \<open>A PHP handler of notifications; False when it left an exception.\<close>

type_synonym 'p cov_handler = "'p \<Rightarrow> zval \<Rightarrow> bool \<times> 'p"

text \<open>
  The event handed to the handler, if any; then the dispatch, with whether no exception is
  pending afterwards.
\<close>

definition cov_decoded :: "'l link_env_scheme \<Rightarrow> bytes \<Rightarrow> nat \<Rightarrow> bool \<Rightarrow> cov_data option" where
  "cov_decoded L apdu al confirmed =
    (if al < (if confirmed then 5 else 3) then None
     else let offset = (if confirmed then 4 else 2);
              (n, data) = p_cov_decode L (take (al - offset) (drop offset apdu))
          in if n \<le> 0 then None else Some data)"

definition php_bacnet_cov_dispatch ::
    "'l link_env_scheme \<Rightarrow> 'p cov_handler option \<Rightarrow> bytes \<Rightarrow> nat \<Rightarrow> bool \<Rightarrow> ('p, 'z) php_world_scheme \<Rightarrow>
     bool \<times> ('p, 'z) php_world_scheme" where
  "php_bacnet_cov_dispatch L handler apdu al confirmed st =
    (case handler of
       None \<Rightarrow> (True, st)
     | Some h \<Rightarrow>
         (case cov_decoded L apdu al confirmed of
            None \<Rightarrow> (True, st)
          | Some data \<Rightarrow>
              (let (ok, u) = h (y_user st) (cov_event data) in (ok, st\<lparr>y_user := u\<rparr>))))"

text \<open>Whether an APDU is a notification, and of which kind; al is its length.\<close>

definition cov_kind :: "bytes \<Rightarrow> nat \<Rightarrow> bool option" where
  "cov_kind apdu al =
    (if apdu ! 0 AND 0xF0 = PDU_TYPE_UNCONFIRMED_SERVICE_REQUEST \<and> apdu ! 1 = SERVICE_UNCONFIRMED_COV_NOTIFICATION
     then Some False
     else if apdu ! 0 AND 0xF0 = PDU_TYPE_CONFIRMED_SERVICE_REQUEST \<and> al \<ge> 5 \<and>
             apdu ! 3 = SERVICE_CONFIRMED_COV_NOTIFICATION
     then Some True else None)"

text \<open>A notification is dispatched; a confirmed one is acknowledged whatever came of it.\<close>

definition cov_receive ::
    "'l link_env_scheme \<Rightarrow> 'p cov_handler option \<Rightarrow> bacnet_address \<Rightarrow> bytes \<Rightarrow> nat \<Rightarrow> bool \<Rightarrow>
     ('p, 'z) php_world_scheme \<Rightarrow> bool \<times> ('p, 'z) php_world_scheme" where
  "cov_receive L handler source apdu al confirmed st =
    (let (ok, st) = php_bacnet_cov_dispatch L handler apdu al confirmed st
     in (ok, if confirmed
             then send_encoded L source (p_simple_ack L (apdu ! 2) SERVICE_CONFIRMED_COV_NOTIFICATION) st
             else st))"

text \<open>The unsolicited handler of a client, for packets that arrive while it waits for an answer.\<close>

definition php_bacnet_cov_handle_unsolicited ::
    "'l link_env_scheme \<Rightarrow> 'p cov_handler option \<Rightarrow> ('p, 'z) php_world_scheme handler" where
  "php_bacnet_cov_handle_unsolicited L handler st source pdu =
    (let (offset, network_layer_message) = p_npdu L pdu
     in if offset < 0 \<or> network_layer_message \<or> offset mod 65536 + 2 > int (length pdu) then (True, st)
        else
          let apdu = apdu_at offset pdu; al = apdu_len offset pdu
          in case cov_kind apdu al of
               None \<Rightarrow> (True, st)
             | Some confirmed \<Rightarrow> cov_receive L handler source apdu al confirmed st)"

text \<open>Client::poll: one receive; the packet (empty for none) is what bip_receive returned.\<close>

definition Client_poll ::
    "'l link_env_scheme \<Rightarrow> bool \<Rightarrow> 'p cov_handler option \<Rightarrow> bacnet_address \<times> bytes \<Rightarrow> ('p, 'z) php_world_scheme \<Rightarrow>
     (string + bool) \<times> ('p, 'z) php_world_scheme" where
  "Client_poll L has_client handler rx st =
    (if \<not> has_client then (Inl ''BACnet client not initialized'', st)
     else
       let (source, pdu) = rx
       in if pdu = [] then (Inr True, st)
          else
            let (offset, network_layer_message) = p_npdu L pdu
            in if offset < 0 \<or> network_layer_message \<or> offset mod 65536 + 2 > int (length pdu) then (Inr True, st)
               else
                 let apdu = apdu_at offset pdu; al = apdu_len offset pdu
                 in case cov_kind apdu al of
                      None \<Rightarrow> (Inr True, st)
                    | Some confirmed \<Rightarrow>
                        (let (ok, st) = cov_receive L handler source apdu al confirmed st in (Inr ok, st)))"

subsection \<open>Registering the handler\<close>

text \<open>
  The three fields cov_handler_set, cov_handler_zv and cov_fcc: not set, set to a callable, or
  set although the callable it names has been released.  callable tells what zend_is_callable
  makes of a value.
\<close>

datatype 'h handler_slot = Unset | Live 'h | Released

definition live_handler :: "'h handler_slot \<Rightarrow> 'h option" where
  "live_handler s = (case s of Live h \<Rightarrow> Some h | _ \<Rightarrow> None)"

definition php_bacnet_cov_set_handler ::
    "bool \<Rightarrow> (zval \<Rightarrow> string + 'h) \<Rightarrow> zval \<Rightarrow> 'h handler_slot \<Rightarrow> string option \<times> 'h handler_slot" where
  "php_bacnet_cov_set_handler has_client callable handler s =
    (if \<not> has_client then (Some ''BACnet client not initialized'', s)
     else
       let s = (if s \<noteq> Unset then Released else s)
       in case callable handler of
            Inl err \<Rightarrow> (Some (''onCovNotification: not callable: '' @ err), s)
          | Inr h \<Rightarrow> (None, Live h))"

text \<open>
  Only the registration of a handler connects a Client to the dispatch above; before it, packets
  that arrive during a wait are dropped, confirmed notifications unacknowledged.
\<close>

definition client_handler :: "'l link_env_scheme \<Rightarrow> 'p cov_handler handler_slot \<Rightarrow> ('p, 'z) php_world_scheme handler" where
  "client_handler L s = php_bacnet_dispatch_unsolicited
     (case s of Unset \<Rightarrow> None | _ \<Rightarrow> Some (php_bacnet_cov_handle_unsolicited L (live_handler s)))"

subsection \<open>What a notification does\<close>

lemma send_apdu_user [simp]: "y_user (send_apdu L dest apdu st) = y_user st"
  by (simp add: send_apdu_def php_bacnet_server_send_apdu_def split: option.split)

lemma send_encoded_user [simp]: "y_user (send_encoded L dest apdu st) = y_user st"
  by (simp add: send_encoded_def split: option.split)

lemma send_apdu_sent:
  "y_sent (send_apdu L dest apdu st) = y_sent st \<or> y_sent (send_apdu L dest apdu st) = y_sent st @ [(dest, apdu)]"
  by (simp add: send_apdu_def php_bacnet_server_send_apdu_def split: option.split)

definition deliverable :: "'l link_env_scheme \<Rightarrow> bacnet_address \<Rightarrow> bytes \<Rightarrow> bool" where
  "deliverable L dest apdu \<longleftrightarrow>
     (\<exists>h. p_header L dest False = Some h \<and> length h + length apdu \<le> p_max_apdu L + p_max_npdu L)"

lemma send_apdu_deliverable:
  "deliverable L dest apdu \<Longrightarrow> send_apdu L dest apdu st = st\<lparr>y_sent := y_sent st @ [(dest, apdu)]\<rparr>"
  by (auto simp: deliverable_def send_apdu_def php_bacnet_server_send_apdu_def)

lemma send_encoded_deliverable:
  "apdu = Some a \<Longrightarrow> deliverable L dest a \<Longrightarrow>
   send_encoded L dest apdu st = st\<lparr>y_sent := y_sent st @ [(dest, a)]\<rparr>"
  by (simp add: send_encoded_def send_apdu_deliverable)

lemma dispatch_sent [simp]: "y_sent (snd (php_bacnet_cov_dispatch L handler apdu al confirmed st)) = y_sent st"
  by (simp add: php_bacnet_cov_dispatch_def split: option.split prod.split)

end
