(* ===== verification/Server.thy ===== *)
theory Server
  imports Cov Security_Dedup Client
begin

text \<open>
  Bacnet\\Server of src/bacnet_classes.c: the object and its configuration, the local objects
  and the object list, I-Am, and the resolution of a property for ReadProperty and
  ReadPropertyMultiple.  server_env adds to link_env what the server calls of bacnet-stack.  The
  PHP handlers act on the state y_user of the PHP program; a handler that calls methods of its
  own server is outside the model.  v_exn tells whether a PHP exception is pending.
\<close>

subsection \<open>State\<close>

record wp_data =
  wp_ref :: rp_data
  wp_data :: bytes

type_synonym bac_error = "nat \<times> nat"

record server_env = link_env +
  p_app_encode :: "appdata \<Rightarrow> int \<times> bytes"
  p_app_decode :: "bytes \<Rightarrow> int \<times> appdata"
  p_char_init :: "string \<Rightarrow> string"
  p_error :: "u8 \<Rightarrow> u8 \<Rightarrow> bac_error \<Rightarrow> bytes option"
  p_reject :: "u8 \<Rightarrow> nat \<Rightarrow> bytes option"
  p_abort :: "u8 \<Rightarrow> nat \<Rightarrow> bool \<Rightarrow> bytes"
  p_iam :: "u32 \<Rightarrow> nat \<Rightarrow> nat \<Rightarrow> u16 \<Rightarrow> bytes option"
  p_whois :: "bytes \<Rightarrow> int \<times> int \<times> int"
  p_rp_decode :: "bytes \<Rightarrow> int \<times> rp_data"
  p_rp_ack :: "u8 \<Rightarrow> rp_data \<Rightarrow> bytes \<Rightarrow> bytes option"
  p_wp_decode :: "bytes \<Rightarrow> int \<times> wp_data"
  p_rpm_init :: "u8 \<Rightarrow> bytes"
  p_rpm_object :: "bytes \<Rightarrow> int \<times> u32 \<times> u32"
  p_rpm_object_end :: "bytes \<Rightarrow> int"
  p_rpm_property :: "bytes \<Rightarrow> int \<times> u32 \<times> u32"
  p_rpm_ack_object_begin :: "u32 \<Rightarrow> u32 \<Rightarrow> bytes"
  p_rpm_ack_object_end :: bytes
  p_rpm_ack_property :: "u32 \<Rightarrow> u32 \<Rightarrow> bytes"
  p_rpm_ack_value :: "bytes \<Rightarrow> bytes"
  p_rpm_ack_error :: "bac_error \<Rightarrow> bytes"
  p_bits_init :: bitstring
  p_set_bit :: "bitstring \<Rightarrow> u8 \<Rightarrow> bitstring"
  p_protocol_version :: int
  p_protocol_revision :: int
  p_stale_pointer :: bool

text \<open>What calling a PHP handler can come to.\<close>

datatype 'a call_outcome = Returned 'a | Raised | CallFailed

type_synonym 'p read_handler = "'p \<Rightarrow> php_oid \<Rightarrow> zval \<Rightarrow> zval \<Rightarrow> zval call_outcome \<times> 'p"
type_synonym 'p write_handler = "'p \<Rightarrow> php_oid \<Rightarrow> zval \<Rightarrow> zval \<Rightarrow> zval \<Rightarrow> unit call_outcome \<times> 'p"

record 'p server = "'p php_world" +
  v_initialized :: bool
  v_device_id :: u32
  v_vendor_id :: u16
  v_auto_iam :: bool
  v_read_handler :: "'p read_handler option"
  v_write_handler :: "'p write_handler option"
  v_cov_handler :: "'p cov_handler handler_slot"
  v_local_objects :: "u64 list option"
  v_has_security :: bool
  v_security :: security
  v_object_name :: string
  v_vendor_name :: string
  v_model_name :: string
  v_description :: string
  v_firmware_revision :: string
  v_application_software_version :: string
  v_queue :: pdu_queue
  v_clock :: "nat \<Rightarrow> dbl"
  v_reads :: nat
  v_exn :: bool

text \<open>The security operations with the clock reading they take.\<close>

definition server_now :: "'p server \<Rightarrow> dbl" where
  "server_now srv = v_clock srv (v_reads srv)"

definition with_security :: "(dbl \<Rightarrow> security \<Rightarrow> security) \<Rightarrow> 'p server \<Rightarrow> 'p server" where
  "with_security f srv = srv\<lparr>v_security := f (server_now srv) (v_security srv), v_reads := Suc (v_reads srv)\<rparr>"

definition ask_security :: "(dbl \<Rightarrow> security \<Rightarrow> bool \<times> security) \<Rightarrow> 'p server \<Rightarrow> bool \<times> 'p server" where
  "ask_security f srv =
    (let (r, s) = f (server_now srv) (v_security srv)
     in (r, srv\<lparr>v_security := s, v_reads := Suc (v_reads srv)\<rparr>))"

definition security_error_text :: "value_error \<Rightarrow> string" where
  "security_error_text e =
    (case e of
       ErrNotPositive \<Rightarrow> ''Security rates, bursts, windows and limits must be positive''
     | ErrCidr item key \<Rightarrow> ''Invalid IPv4 CIDR '' @ CHR 0x27 # item @ CHR 0x27 # '' in '' @ key
     | ErrKeyNotString \<Rightarrow> ''Security option keys must be strings''
     | ErrEnabledNotBool \<Rightarrow> ''enabled must be bool''
     | ErrNetworksNotArray key \<Rightarrow> key @ '' must be an array of IPv4 CIDRs''
     | ErrNetworksNotStrings key \<Rightarrow> key @ '' must contain only strings''
     | ErrNotNumeric key \<Rightarrow> key @ '' must be int or float''
     | ErrUnknownOption key \<Rightarrow> ''Unknown security option '' @ CHR 0x27 # key @ [CHR 0x27])"

subsection \<open>Construction\<close>

definition PHP_BACNET_VERSION :: string where "PHP_BACNET_VERSION = ''0.1.4''"

text \<open>
  The constructor: bip_init tells whether the data link could be opened, the globals whether the
  process has a socket.  A failed client leaves the security state it has created.
\<close>

definition Server_construct ::
    "(string option \<Rightarrow> u16 \<Rightarrow> bool) \<Rightarrow> int \<Rightarrow> string option \<Rightarrow> int option \<Rightarrow> bacnet_globals \<Rightarrow> 'p server \<Rightarrow>
     (bacnet_exn + unit) \<times> bacnet_globals \<times> 'p server" where
  "Server_construct bip_init device_id iface port g srv =
    (if device_id < 0 \<or> device_id > BACNET_MAX_INSTANCE
     then (Inl (BacnetException (''Invalid BACnet device ID '' @ show_int device_id)), g, srv)
     else if g_client_initialized g
     then (Inl (PhpError ''Only one BACnet socket (Client or Server) may exist per PHP process''), g, srv)
     else case php_bacnet_security_create g (server_now srv) of
       Inl err \<Rightarrow> (Inl (PhpValueError (security_error_text err)), g, srv)
     | Inr s \<Rightarrow>
         (let srv = srv\<lparr>v_has_security := True, v_security := s, v_reads := Suc (v_reads srv)\<rparr>;
              i = (case iface of Some x \<Rightarrow> if x \<noteq> [] \<and> cstr x \<noteq> ''0.0.0.0'' then Some x else None | None \<Rightarrow> None);
              p = word_of_int (case port of None \<Rightarrow> PHP_BACNET_DEFAULT_PORT | Some n \<Rightarrow> n)
          in case php_bacnet_client_create bip_init i p of
               Inl msg \<Rightarrow> (Inl (BacnetException (snprintf 256 (''BACnet Server init failed: '' @ msg))), g, srv)
             | Inr _ \<Rightarrow>
                 (Inr (), g\<lparr>g_client_initialized := True\<rparr>,
                  srv\<lparr>v_initialized := True, v_local_objects := Some [], v_device_id := word_of_int device_id,
                      v_object_name := ''php-bacnet Device '' @ show_int device_id,
                      v_vendor_name := ''Unassigned'', v_model_name := ''php-bacnet Server'',
                      v_description := ''php-bacnet server'', v_firmware_revision := PHP_BACNET_VERSION,
                      v_application_software_version := PHP_BACNET_VERSION, v_auto_iam := True,
                      v_queue := empty_queue\<rparr>)))"

definition php_bacnet_server_create_object ::
    "'p \<Rightarrow> security \<Rightarrow> (nat \<Rightarrow> dbl) \<Rightarrow> 'p server" where
  "php_bacnet_server_create_object user garbage clock =
    \<lparr>y_user = user, y_sent = [], v_initialized = False, v_device_id = 0, v_vendor_id = 0, v_auto_iam = True,
     v_read_handler = None, v_write_handler = None, v_cov_handler = Unset, v_local_objects = None,
     v_has_security = False, v_security = garbage, v_object_name = [], v_vendor_name = [],
     v_model_name = [], v_description = [], v_firmware_revision = [], v_application_software_version = [],
     v_queue = empty_queue, v_clock = clock, v_reads = 0, v_exn = False\<rparr>"

definition php_bacnet_server_free_object :: "'p server \<Rightarrow> bacnet_globals \<Rightarrow> 'p server \<times> bacnet_globals" where
  "php_bacnet_server_free_object srv g =
    (srv\<lparr>v_initialized := False, v_local_objects := None, v_has_security := False, v_read_handler := None,
         v_write_handler := None, v_cov_handler := (if v_initialized srv then Unset else v_cov_handler srv)\<rparr>,
     if v_initialized srv then g\<lparr>g_client_initialized := False\<rparr> else g)"

subsection \<open>Configuration\<close>

definition object_key :: "u32 \<Rightarrow> u32 \<Rightarrow> u64" where
  "object_key type inst = push_bit 22 (ucast type) OR ucast inst"

definition Server_addLocalObject :: "php_oid \<Rightarrow> 'p server \<Rightarrow> 'p server" where
  "Server_addLocalObject oid srv =
    (case v_local_objects srv of
       None \<Rightarrow> srv
     | Some keys \<Rightarrow>
         if oid_type oid = OBJECT_DEVICE \<and> oid_instance oid = v_device_id srv then srv
         else let key = object_key (oid_type oid) (oid_instance oid)
              in if key \<in> set keys then srv else srv\<lparr>v_local_objects := Some (keys @ [key])\<rparr>)"

definition Server_removeLocalObject :: "php_oid \<Rightarrow> 'p server \<Rightarrow> 'p server" where
  "Server_removeLocalObject oid srv =
    (case v_local_objects srv of
       None \<Rightarrow> srv
     | Some keys \<Rightarrow>
         srv\<lparr>v_local_objects := Some (filter (\<lambda>k. k \<noteq> object_key (oid_type oid) (oid_instance oid)) keys)\<rparr>)"

definition Server_onReadProperty ::
    "(zval \<Rightarrow> string + 'p read_handler) \<Rightarrow> zval \<Rightarrow> 'p server \<Rightarrow> (bacnet_exn + unit) \<times> 'p server" where
  "Server_onReadProperty callable handler srv =
    (case callable handler of
       Inl err \<Rightarrow> (Inl (BacnetException (''onReadProperty: not callable: '' @ err)), srv\<lparr>v_read_handler := None\<rparr>)
     | Inr h \<Rightarrow> (Inr (), srv\<lparr>v_read_handler := Some h\<rparr>))"

definition Server_onWriteProperty ::
    "(zval \<Rightarrow> string + 'p write_handler) \<Rightarrow> zval \<Rightarrow> 'p server \<Rightarrow> (bacnet_exn + unit) \<times> 'p server" where
  "Server_onWriteProperty callable handler srv =
    (case callable handler of
       Inl err \<Rightarrow> (Inl (BacnetException (''onWriteProperty: not callable: '' @ err)), srv\<lparr>v_write_handler := None\<rparr>)
     | Inr h \<Rightarrow> (Inr (), srv\<lparr>v_write_handler := Some h\<rparr>))"

definition Server_setAutoIAm :: "bool \<Rightarrow> 'p server \<Rightarrow> 'p server" where
  "Server_setAutoIAm enabled srv = srv\<lparr>v_auto_iam := enabled\<rparr>"

definition device_info_keys :: "string list" where
  "device_info_keys = [''vendorId'', ''vendorName'', ''modelName'', ''objectName'', ''description'',
    ''firmwareRevision'', ''applicationSoftwareVersion'']"

fun unknown_info_key :: "(zkey \<times> zval) list \<Rightarrow> string option" where
  "unknown_info_key [] = None"
| "unknown_info_key ((KInt n, v) # kvs) = Some ''numeric''"
| "unknown_info_key ((KStr k, v) # kvs) =
     (if k \<in> set device_info_keys then unknown_info_key kvs else Some (cstr k))"

text \<open>A string of the array: the value under the key, when it is a string.\<close>

definition info_string :: "(zkey \<times> zval) list \<Rightarrow> string \<Rightarrow> string option" where
  "info_string info k = (case map_of info (KStr k) of Some (ZString s) \<Rightarrow> Some s | _ \<Rightarrow> None)"

fun bad_optional :: "(zkey \<times> zval) list \<Rightarrow> string list \<Rightarrow> string option" where
  "bad_optional info [] = None"
| "bad_optional info (k # ks) =
     (if map_of info (KStr k) \<noteq> None \<and> (info_string info k = None \<or> info_string info k = Some [])
      then Some k else bad_optional info ks)"

definition info_or :: "(zkey \<times> zval) list \<Rightarrow> string \<Rightarrow> string \<Rightarrow> string" where
  "info_or info k old = (case info_string info k of Some s \<Rightarrow> s | None \<Rightarrow> old)"

definition Server_setDeviceInfo :: "(zkey \<times> zval) list \<Rightarrow> 'p server \<Rightarrow> (bacnet_exn + unit) \<times> 'p server" where
  "Server_setDeviceInfo info srv =
    (case unknown_info_key info of
       Some k \<Rightarrow> (Inl (PhpValueError (''setDeviceInfo(): unknown key '' @ CHR 0x27 # k @ [CHR 0x27])), srv)
     | None \<Rightarrow>
         (case (map_of info (KStr ''vendorId''), info_string info ''vendorName'', info_string info ''modelName'') of
            (Some (ZLong n), Some vendor, Some model) \<Rightarrow>
              if n < 1 \<or> n > 65535
              then (Inl (PhpValueError ''setDeviceInfo(): vendorId must be a registered BACnet vendor ID (1..65535)''), srv)
              else if vendor = [] \<or> model = []
              then (Inl (PhpValueError ''setDeviceInfo(): vendorName and modelName must not be empty''), srv)
              else (case bad_optional info
                        [''objectName'', ''description'', ''firmwareRevision'', ''applicationSoftwareVersion''] of
                      Some k \<Rightarrow> (Inl (PhpValueError (''setDeviceInfo(): '' @ k @ '' must be a non-empty string'')), srv)
                    | None \<Rightarrow>
                        (Inr (), srv\<lparr>v_vendor_id := word_of_int n, v_vendor_name := vendor, v_model_name := model,
                           v_object_name := info_or info ''objectName'' (v_object_name srv),
                           v_description := info_or info ''description'' (v_description srv),
                           v_firmware_revision := info_or info ''firmwareRevision'' (v_firmware_revision srv),
                           v_application_software_version :=
                             info_or info ''applicationSoftwareVersion'' (v_application_software_version srv)\<rparr>))
          | _ \<Rightarrow> (Inl (PhpValueError ''setDeviceInfo(): vendorId, vendorName and modelName are required''), srv)))"

definition with_server_security :: "('p server \<Rightarrow> (bacnet_exn + 'r) \<times> 'p server) \<Rightarrow> 'p server \<Rightarrow>
    (bacnet_exn + 'r) \<times> 'p server" where
  "with_server_security f srv =
    (if \<not> v_has_security srv then (Inl (BacnetException ''Server not initialized''), srv) else f srv)"

definition Server_setSecurityOptions :: "(zkey \<times> zval) list \<Rightarrow> 'p server \<Rightarrow> (bacnet_exn + unit) \<times> 'p server" where
  "Server_setSecurityOptions options = with_server_security (\<lambda>srv.
    (case php_bacnet_security_configure options (server_now srv) (v_security srv) of
       (Inl err, s) \<Rightarrow> (Inl (PhpValueError (security_error_text err)), srv\<lparr>v_security := s, v_reads := Suc (v_reads srv)\<rparr>)
     | (Inr _, s) \<Rightarrow> (Inr (), srv\<lparr>v_security := s, v_reads := Suc (v_reads srv)\<rparr>)))"

definition Server_getSecurityOptions :: "'p server \<Rightarrow> (bacnet_exn + zval) \<times> 'p server" where
  "Server_getSecurityOptions = with_server_security (\<lambda>srv.
    (Inr (php_bacnet_security_options_to_array (v_security srv)), srv))"

definition Server_getSecurityStats :: "bool \<Rightarrow> bool \<Rightarrow> 'p server \<Rightarrow> (bacnet_exn + zval) \<times> 'p server" where
  "Server_getSecurityStats include_sources reset = with_server_security (\<lambda>srv.
    (let (r, s) = php_bacnet_security_stats_to_array include_sources reset (server_now srv) (v_security srv)
     in (Inr r, srv\<lparr>v_security := s, v_reads := Suc (v_reads srv)\<rparr>)))"

definition MixedServer_getPendingPduCount :: "'p server \<Rightarrow> int" where
  "MixedServer_getPendingPduCount srv = (if v_initialized srv then uint (pending_count (v_queue srv)) else 0)"

subsection \<open>I-Am\<close>

definition SEGMENTATION_NONE :: nat where "SEGMENTATION_NONE = 3"

definition local_broadcast :: bacnet_address where "local_broadcast = \<lparr>mac = [], net = 0\<rparr>"

definition php_bacnet_server_send_iam :: "server_env \<Rightarrow> 'p server \<Rightarrow> bool \<times> 'p server" where
  "php_bacnet_server_send_iam L srv =
    (case p_iam L (v_device_id srv) 480 SEGMENTATION_NONE (v_vendor_id srv) of
       None \<Rightarrow> (False, srv)
     | Some apdu \<Rightarrow> php_bacnet_server_send_apdu L local_broadcast apdu srv)"

definition Server_announce :: "server_env \<Rightarrow> 'p server \<Rightarrow> (bacnet_exn + unit) \<times> 'p server" where
  "Server_announce L srv =
    (let (ok, srv) = php_bacnet_server_send_iam L srv
     in (if ok then Inr () else Inl (BacnetException ''Unable to send BACnet I-Am''), srv))"

subsection \<open>The object list\<close>

definition php_bacnet_server_is_own_device :: "'p server \<Rightarrow> u64 \<Rightarrow> bool" where
  "php_bacnet_server_is_own_device srv key \<longleftrightarrow> key = object_key OBJECT_DEVICE (v_device_id srv)"

definition local_keys :: "'p server \<Rightarrow> u64 list" where
  "local_keys srv = (case v_local_objects srv of None \<Rightarrow> [] | Some keys \<Rightarrow> keys)"

definition php_bacnet_server_object_list_count :: "'p server \<Rightarrow> u32" where
  "php_bacnet_server_object_list_count srv =
    foldl (\<lambda>count key. if \<not> php_bacnet_server_is_own_device srv key then count + 1 else count) 1 (local_keys srv)"

fun object_list_search :: "'p server \<Rightarrow> u32 \<Rightarrow> u32 \<Rightarrow> u64 list \<Rightarrow> (u32 \<times> u32) option" where
  "object_list_search srv index current [] = None"
| "object_list_search srv index current (key # keys) =
     (if php_bacnet_server_is_own_device srv key then object_list_search srv index current keys
      else if current + 1 = index
      then Some (ucast (drop_bit 22 key), ucast (key AND word_of_int BACNET_MAX_INSTANCE))
      else object_list_search srv index (current + 1) keys)"

definition php_bacnet_server_object_list_item :: "'p server \<Rightarrow> u32 \<Rightarrow> (u32 \<times> u32) option" where
  "php_bacnet_server_object_list_item srv index =
    (if index = 1 then Some (OBJECT_DEVICE, v_device_id srv)
     else object_list_search srv index 1 (local_keys srv))"

text \<open>
  The loop over the indices; written is what has been written.  The encoder has written an item
  before its size is looked at.
\<close>

fun encode_items :: "server_env \<Rightarrow> nat \<Rightarrow> 'p server \<Rightarrow> u32 list \<Rightarrow> bytes \<Rightarrow> int \<times> bytes" where
  "encode_items L buffer_size srv [] written = (int (length written), written)"
| "encode_items L buffer_size srv (i # is) written =
     (case php_bacnet_server_object_list_item srv i of
        None \<Rightarrow> (-1, written)
      | Some (ty, inst) \<Rightarrow>
          (let (encoded, out) = p_app_encode L (AppObjectId ty inst)
           in if encoded \<le> 0 \<or> int (length written) + encoded > int buffer_size then (-1, written)
              else encode_items L buffer_size srv is (written @ take (nat encoded) out)))"

definition php_bacnet_server_encode_object_list :: "server_env \<Rightarrow> 'p server \<Rightarrow> u32 \<Rightarrow> int \<times> bytes" where
  "php_bacnet_server_encode_object_list L srv array_index =
    (let count = php_bacnet_server_object_list_count srv
     in if array_index = 0 then p_app_encode L (AppUnsigned (ucast count))
        else if array_index \<noteq> BACNET_ARRAY_ALL
        then (case php_bacnet_server_object_list_item srv array_index of
                None \<Rightarrow> (-1, [])
              | Some (ty, inst) \<Rightarrow> p_app_encode L (AppObjectId ty inst))
        else encode_items L (p_max_apdu L) srv (map of_nat [1..<Suc (unat count)]) [])"

subsection \<open>Properties of the device\<close>

text \<open>The cases of enum Bacnet\\Property with their backing integers, and Property::tryFrom.\<close>

definition property_enum :: "(string \<times> u32) list" where
  "property_enum =
    [(''OBJECT_IDENTIFIER'', 75), (''APDU_SEGMENT_TIMEOUT'', 10), (''APDU_TIMEOUT'', 11),
     (''APPLICATION_SOFTWARE_VERSION'', 12), (''OBJECT_NAME'', 77), (''OBJECT_TYPE'', 79),
     (''DESCRIPTION'', 28), (''DEVICE_ADDRESS_BINDING'', 30), (''FIRMWARE_REVISION'', 44),
     (''OBJECT_LIST'', 76), (''LOCAL_DATE'', 56), (''LOCAL_TIME'', 57), (''MAX_APDU_LENGTH_ACCEPTED'', 62),
     (''MODEL_NAME'', 70), (''NUMBER_OF_APDU_RETRIES'', 73), (''PRESENT_VALUE'', 85), (''STATUS_FLAGS'', 111),
     (''EVENT_STATE'', 36), (''OUT_OF_SERVICE'', 81), (''UNITS'', 117), (''PRIORITY_ARRAY'', 87),
     (''RELINQUISH_DEFAULT'', 104), (''NUMBER_OF_STATES'', 74), (''STATE_TEXT'', 110),
     (''NOTIFICATION_CLASS'', 17), (''ACK_REQUIRED'', 1), (''NOTIFY_TYPE'', 72), (''EVENT_TYPE'', 37),
     (''EVENT_PARAMETERS'', 83), (''OBJECT_PROPERTY_REFERENCE'', 78), (''RECIPIENT_LIST'', 102),
     (''WEEKLY_SCHEDULE'', 123), (''EXCEPTION_SCHEDULE'', 38), (''SCHEDULE_DEFAULT'', 174),
     (''EFFECTIVE_PERIOD'', 32), (''LOG_BUFFER'', 131), (''LOG_DEVICE_OBJECT_PROPERTY'', 132),
     (''RECORD_COUNT'', 141), (''TOTAL_RECORD_COUNT'', 145), (''RELIABILITY'', 103),
     (''PROTOCOL_OBJECT_TYPES_SUPPORTED'', 96), (''PROTOCOL_SERVICES_SUPPORTED'', 97),
     (''PROTOCOL_VERSION'', 98), (''SYSTEM_STATUS'', 112), (''SEGMENTATION_SUPPORTED'', 107),
     (''VENDOR_IDENTIFIER'', 120), (''VENDOR_NAME'', 121), (''PROTOCOL_REVISION'', 139),
     (''DATABASE_REVISION'', 155), (''ACTIVE_COV_SUBSCRIPTIONS'', 152), (''MAX_SEGMENTS_ACCEPTED'', 167)]"

definition property_try_from :: "u32 \<Rightarrow> zval option" where
  "property_try_from prop =
    map_option (\<lambda>(n, v). ZEnum n (uint v)) (find (\<lambda>(n, v). v = prop) property_enum)"

definition PROP_OBJECT_IDENTIFIER :: u32 where "PROP_OBJECT_IDENTIFIER = 75"
definition PROP_OBJECT_TYPE :: u32 where "PROP_OBJECT_TYPE = 79"
definition PROP_OBJECT_NAME :: u32 where "PROP_OBJECT_NAME = 77"
definition PROP_DESCRIPTION :: u32 where "PROP_DESCRIPTION = 28"
definition PROP_APDU_SEGMENT_TIMEOUT :: u32 where "PROP_APDU_SEGMENT_TIMEOUT = 10"
definition PROP_APDU_TIMEOUT :: u32 where "PROP_APDU_TIMEOUT = 11"
definition PROP_APPLICATION_SOFTWARE_VERSION :: u32 where "PROP_APPLICATION_SOFTWARE_VERSION = 12"
definition PROP_FIRMWARE_REVISION :: u32 where "PROP_FIRMWARE_REVISION = 44"
definition PROP_MAX_APDU_LENGTH_ACCEPTED :: u32 where "PROP_MAX_APDU_LENGTH_ACCEPTED = 62"
definition PROP_NUMBER_OF_APDU_RETRIES :: u32 where "PROP_NUMBER_OF_APDU_RETRIES = 73"
definition PROP_MODEL_NAME :: u32 where "PROP_MODEL_NAME = 70"
definition PROP_PROTOCOL_VERSION :: u32 where "PROP_PROTOCOL_VERSION = 98"
definition PROP_PROTOCOL_REVISION :: u32 where "PROP_PROTOCOL_REVISION = 139"
definition PROP_PROTOCOL_SERVICES_SUPPORTED :: u32 where "PROP_PROTOCOL_SERVICES_SUPPORTED = 97"
definition PROP_PROTOCOL_OBJECT_TYPES_SUPPORTED :: u32 where "PROP_PROTOCOL_OBJECT_TYPES_SUPPORTED = 96"
definition PROP_SYSTEM_STATUS :: u32 where "PROP_SYSTEM_STATUS = 112"
definition PROP_VENDOR_IDENTIFIER :: u32 where "PROP_VENDOR_IDENTIFIER = 120"
definition PROP_SEGMENTATION_SUPPORTED :: u32 where "PROP_SEGMENTATION_SUPPORTED = 107"
definition PROP_MAX_SEGMENTS_ACCEPTED :: u32 where "PROP_MAX_SEGMENTS_ACCEPTED = 167"
definition PROP_VENDOR_NAME :: u32 where "PROP_VENDOR_NAME = 121"
definition PROP_ALL :: u32 where "PROP_ALL = 8"

lemmas prop_defs =
  PROP_OBJECT_IDENTIFIER_def PROP_OBJECT_TYPE_def PROP_OBJECT_NAME_def PROP_DESCRIPTION_def
  PROP_APDU_SEGMENT_TIMEOUT_def PROP_APDU_TIMEOUT_def PROP_APPLICATION_SOFTWARE_VERSION_def
  PROP_FIRMWARE_REVISION_def PROP_MAX_APDU_LENGTH_ACCEPTED_def PROP_NUMBER_OF_APDU_RETRIES_def
  PROP_MODEL_NAME_def PROP_PROTOCOL_VERSION_def PROP_PROTOCOL_REVISION_def
  PROP_PROTOCOL_SERVICES_SUPPORTED_def PROP_PROTOCOL_OBJECT_TYPES_SUPPORTED_def
  PROP_SYSTEM_STATUS_def PROP_VENDOR_IDENTIFIER_def PROP_SEGMENTATION_SUPPORTED_def
  PROP_MAX_SEGMENTS_ACCEPTED_def PROP_VENDOR_NAME_def PROP_ALL_def PROP_OBJECT_LIST_def
  PROP_PRESENT_VALUE_def

definition services_supported :: "server_env \<Rightarrow> bitstring" where
  "services_supported L =
    fold (\<lambda>s b. p_set_bit L b s)
      [SERVICE_CONFIRMED_READ_PROPERTY, SERVICE_CONFIRMED_READ_PROP_MULTIPLE, SERVICE_CONFIRMED_WRITE_PROPERTY]
      (p_bits_init L)"

text \<open>The type of a key is cut to 8 bits.\<close>

definition object_types_supported :: "server_env \<Rightarrow> 'p server \<Rightarrow> bitstring" where
  "object_types_supported L srv =
    foldl (\<lambda>b key. p_set_bit L b (ucast (drop_bit 22 key)))
      (p_set_bit L (p_bits_init L) (ucast OBJECT_DEVICE)) (local_keys srv)"

definition device_property :: "server_env \<Rightarrow> 'p server \<Rightarrow> u32 \<Rightarrow> zval option" where
  "device_property L srv prop =
    (if prop = PROP_OBJECT_IDENTIFIER then Some (ZOid (php_bacnet_oid_from_c OBJECT_DEVICE (v_device_id srv)))
     else if prop = PROP_OBJECT_TYPE then Some (ZLong (uint OBJECT_DEVICE))
     else if prop = PROP_OBJECT_NAME then Some (ZString (v_object_name srv))
     else if prop = PROP_DESCRIPTION then Some (ZString (v_description srv))
     else if prop = PROP_APDU_SEGMENT_TIMEOUT then Some (ZLong 2000)
     else if prop = PROP_APDU_TIMEOUT then Some (ZLong 3000)
     else if prop = PROP_APPLICATION_SOFTWARE_VERSION then Some (ZString (v_application_software_version srv))
     else if prop = PROP_FIRMWARE_REVISION then Some (ZString (v_firmware_revision srv))
     else if prop = PROP_MAX_APDU_LENGTH_ACCEPTED then Some (ZLong 480)
     else if prop = PROP_NUMBER_OF_APDU_RETRIES then Some (ZLong 3)
     else if prop = PROP_MODEL_NAME then Some (ZString (v_model_name srv))
     else if prop = PROP_PROTOCOL_VERSION then Some (ZLong (p_protocol_version L))
     else if prop = PROP_PROTOCOL_REVISION then Some (ZLong (p_protocol_revision L))
     else if prop = PROP_PROTOCOL_SERVICES_SUPPORTED
     then Some (ZBitString (php_bacnet_bitstring_new (services_supported L)))
     else if prop = PROP_PROTOCOL_OBJECT_TYPES_SUPPORTED
     then Some (ZBitString (php_bacnet_bitstring_new (object_types_supported L srv)))
     else if prop = PROP_SYSTEM_STATUS then Some (ZLong 0)
     else if prop = PROP_VENDOR_IDENTIFIER then Some (ZLong (uint (v_vendor_id srv)))
     else if prop = PROP_SEGMENTATION_SUPPORTED then Some (ZLong (int SEGMENTATION_NONE))
     else if prop = PROP_MAX_SEGMENTS_ACCEPTED then Some (ZLong 0)
     else if prop = PROP_VENDOR_NAME then Some (ZString (v_vendor_name srv))
     else None)"

definition is_this_device :: "'p server \<Rightarrow> u32 \<Rightarrow> u32 \<Rightarrow> bool" where
  "is_this_device srv type inst \<longleftrightarrow> type = OBJECT_DEVICE \<and> inst = v_device_id srv"

definition php_bacnet_server_default_device_property ::
    "server_env \<Rightarrow> 'p server \<Rightarrow> u32 \<Rightarrow> u32 \<Rightarrow> u32 \<Rightarrow> zval option" where
  "php_bacnet_server_default_device_property L srv type inst prop =
    (if \<not> is_this_device srv type inst then None else device_property L srv prop)"

definition php_bacnet_server_is_managed_device_property :: "'p server \<Rightarrow> u32 \<Rightarrow> u32 \<Rightarrow> u32 \<Rightarrow> bool" where
  "php_bacnet_server_is_managed_device_property srv type inst prop \<longleftrightarrow>
     is_this_device srv type inst \<and> (prop = PROP_OBJECT_LIST \<or> prop = PROP_PROTOCOL_OBJECT_TYPES_SUPPORTED)"

subsection \<open>Resolving a property\<close>

definition ERROR_CLASS_OBJECT :: nat where "ERROR_CLASS_OBJECT = 1"
definition ERROR_CLASS_PROPERTY :: nat where "ERROR_CLASS_PROPERTY = 2"
definition ERROR_CODE_UNKNOWN_OBJECT :: nat where "ERROR_CODE_UNKNOWN_OBJECT = 31"
definition ERROR_CODE_UNKNOWN_PROPERTY :: nat where "ERROR_CODE_UNKNOWN_PROPERTY = 32"
definition ERROR_CODE_INVALID_ARRAY_INDEX :: nat where "ERROR_CODE_INVALID_ARRAY_INDEX = 42"
definition ERROR_CODE_DATATYPE_NOT_SUPPORTED :: nat where "ERROR_CODE_DATATYPE_NOT_SUPPORTED = 47"

definition unknown_object :: bac_error where
  "unknown_object = (ERROR_CLASS_OBJECT, ERROR_CODE_UNKNOWN_OBJECT)"

definition unknown_property :: bac_error where
  "unknown_property = (ERROR_CLASS_PROPERTY, ERROR_CODE_UNKNOWN_PROPERTY)"

definition array_index_zval :: "u32 \<Rightarrow> zval" where
  "array_index_zval array_index =
    (if array_index = BACNET_ARRAY_ALL then ZNull else ZLong (uint array_index))"

definition property_arg :: "u32 \<Rightarrow> zval" where
  "property_arg prop = (case property_try_from prop of Some z \<Rightarrow> z | None \<Rightarrow> ZLong (uint prop))"

text \<open>
  Once an exception is pending PHP runs nothing more: tryFrom and the handler are not called.
\<close>

definition php_bacnet_server_resolve_property ::
    "server_env \<Rightarrow> u32 \<Rightarrow> u32 \<Rightarrow> u32 \<Rightarrow> u32 \<Rightarrow> 'p server \<Rightarrow> (bac_error + zval) \<times> 'p server" where
  "php_bacnet_server_resolve_property L type inst prop array_index srv =
    (if \<not> is_this_device srv type inst \<and> object_key type inst \<notin> set (local_keys srv)
     then (Inl unknown_object, srv)
     else
       let (r, srv) =
         (case v_read_handler srv of
            None \<Rightarrow> (Returned ZNull, srv)
          | Some h \<Rightarrow>
              if php_bacnet_server_is_managed_device_property srv type inst prop then (Returned ZNull, srv)
              else if v_exn srv then (Raised, srv)
              else let (r, u) = h (y_user srv) (php_bacnet_oid_from_c type inst) (property_arg prop)
                                  (array_index_zval array_index)
                   in (r, srv\<lparr>y_user := u, v_exn := (r = Raised)\<rparr>))
       in (case r of
             Returned ZNull \<Rightarrow>
               (case php_bacnet_server_default_device_property L srv type inst prop of
                  Some z \<Rightarrow> Inr z
                | None \<Rightarrow> Inl unknown_property)
           | Returned z \<Rightarrow> Inr z
           | _ \<Rightarrow> Inl unknown_property, srv))"

end
