(* ===== verification/Server_Poll.thy ===== *)
theory Server_Poll
  imports Server
begin

text \<open>
  Server::poll of src/bacnet_classes.c: one packet, from the queue of a MixedServer or the
  socket, checked by the protection layer and answered: notifications, Who-Is, ReadProperty,
  ReadPropertyMultiple, WriteProperty, Reject.  Also the handler through which a MixedServer
  sets aside the packets that arrive while it waits for an answer.
\<close>

subsection \<open>The value of a property\<close>

text \<open>
  What both read services do with one property: the encoded value or the error.  A PHP value
  that cannot be encoded is an error; so is an object list item that does not exist.
\<close>

definition property_value ::
    "server_env \<Rightarrow> u32 \<Rightarrow> u32 \<Rightarrow> u32 \<Rightarrow> u32 \<Rightarrow> 'p server \<Rightarrow> (bac_error + bytes) \<times> 'p server" where
  "property_value L type inst prop array_index srv =
    (if php_bacnet_server_is_managed_device_property srv type inst prop \<and> prop = PROP_OBJECT_LIST
     then (let (n, out) = php_bacnet_server_encode_object_list L srv array_index
           in (if n < 0 then Inl (ERROR_CLASS_PROPERTY, ERROR_CODE_INVALID_ARRAY_INDEX)
               else Inr (take (nat n) out), srv))
     else
       let (r, srv) = php_bacnet_server_resolve_property L type inst prop array_index srv
       in (case r of
             Inl err \<Rightarrow> Inl err
           | Inr z \<Rightarrow>
               (case zval_to_bacapp_value (p_char_init L) z of
                  None \<Rightarrow> Inl (ERROR_CLASS_PROPERTY, ERROR_CODE_DATATYPE_NOT_SUPPORTED)
                | Some a \<Rightarrow>
                    (let (n, out) = p_app_encode L a
                     in if n \<le> 0 then Inl (ERROR_CLASS_PROPERTY, ERROR_CODE_DATATYPE_NOT_SUPPORTED)
                        else Inr (take (nat n) out))), srv))"

definition malformed_request :: "bacnet_address \<Rightarrow> 'p server \<Rightarrow> 'p server" where
  "malformed_request source = with_security (php_bacnet_security_malformed source)"

definition send_error :: "server_env \<Rightarrow> bacnet_address \<Rightarrow> u8 \<Rightarrow> u8 \<Rightarrow> bac_error \<Rightarrow> 'p server \<Rightarrow> 'p server" where
  "send_error L source invoke_id service err = send_encoded L source (p_error L invoke_id service err)"

subsection \<open>ReadProperty\<close>

definition serve_read_property :: "server_env \<Rightarrow> bacnet_address \<Rightarrow> u8 \<Rightarrow> bytes \<Rightarrow> 'p server \<Rightarrow> 'p server" where
  "serve_read_property L source invoke_id request srv =
    (let (n, rp) = p_rp_decode L request
     in if n < 0 then malformed_request source srv
        else
          let (r, srv) = property_value L (rp_object_type rp) (rp_instance rp) (rp_property rp)
                           (rp_array_index rp) srv
          in case r of
               Inl err \<Rightarrow>
                 if v_exn srv then srv
                 else send_error L source invoke_id SERVICE_CONFIRMED_READ_PROPERTY err srv
             | Inr data \<Rightarrow> send_encoded L source (p_rp_ack L invoke_id rp data) srv)"

subsection \<open>ReadPropertyMultiple\<close>

definition php_bacnet_server_device_all_properties :: "u32 list" where
  "php_bacnet_server_device_all_properties =
    [PROP_OBJECT_IDENTIFIER, PROP_OBJECT_NAME, PROP_OBJECT_TYPE, PROP_DESCRIPTION, PROP_SYSTEM_STATUS,
     PROP_VENDOR_NAME, PROP_VENDOR_IDENTIFIER, PROP_MODEL_NAME, PROP_FIRMWARE_REVISION,
     PROP_APPLICATION_SOFTWARE_VERSION, PROP_PROTOCOL_VERSION, PROP_PROTOCOL_REVISION,
     PROP_SEGMENTATION_SUPPORTED, PROP_PROTOCOL_SERVICES_SUPPORTED, PROP_PROTOCOL_OBJECT_TYPES_SUPPORTED,
     PROP_OBJECT_LIST, PROP_APDU_TIMEOUT, PROP_NUMBER_OF_APDU_RETRIES, PROP_MAX_APDU_LENGTH_ACCEPTED,
     PROP_APDU_SEGMENT_TIMEOUT, PROP_MAX_SEGMENTS_ACCEPTED]"

definition php_bacnet_server_object_all_properties :: "u32 list" where
  "php_bacnet_server_object_all_properties =
    [PROP_OBJECT_IDENTIFIER, PROP_OBJECT_NAME, PROP_OBJECT_TYPE, PROP_DESCRIPTION, PROP_PRESENT_VALUE]"

definition requested_properties :: "'p server \<Rightarrow> u32 \<Rightarrow> u32 \<Rightarrow> u32 \<Rightarrow> u32 list" where
  "requested_properties srv type inst prop =
    (if prop = PROP_ALL then
       (if is_this_device srv type inst then php_bacnet_server_device_all_properties
        else php_bacnet_server_object_all_properties)
     else [prop])"

text \<open>The values of some properties of one object after the acknowledgement so far: None when they do not fit.\<close>

fun rpm_values ::
    "server_env \<Rightarrow> u32 \<Rightarrow> u32 \<Rightarrow> u32 \<Rightarrow> u32 list \<Rightarrow> bytes \<Rightarrow> 'p server \<Rightarrow> bytes option \<times> 'p server" where
  "rpm_values L type inst array_index [] ack srv = (Some ack, srv)"
| "rpm_values L type inst array_index (prop # props) ack srv =
     (let (r, srv) = property_value L type inst prop array_index srv;
          item = p_rpm_ack_property L prop array_index @
                 (case r of Inr data \<Rightarrow> p_rpm_ack_value L data | Inl err \<Rightarrow> p_rpm_ack_error L err)
      in if length ack + length item > p_max_apdu L then (None, srv)
         else rpm_values L type inst array_index props (ack @ item) srv)"

text \<open>How the properties of an object end: a decoding error, too long, the end mark, no end mark.\<close>

datatype rpm_end = RpmMalformed | RpmAborted | RpmClosed bytes bytes | RpmOpen bytes

function rpm_properties ::
    "server_env \<Rightarrow> u32 \<Rightarrow> u32 \<Rightarrow> bytes \<Rightarrow> bytes \<Rightarrow> 'p server \<Rightarrow> rpm_end \<times> 'p server" where
  "rpm_properties L type inst request ack srv =
    (if request = [] then (RpmOpen ack, srv)
     else
       let end_len = p_rpm_object_end L request
       in if end_len > 0 then
            (if length ack + length (p_rpm_ack_object_end L) > p_max_apdu L then RpmAborted
             else RpmClosed (drop (nat end_len) request) (ack @ p_rpm_ack_object_end L), srv)
          else
            let (len, prop, array_index) = p_rpm_property L request
            in if len \<le> 0 then (RpmMalformed, srv)
               else
                 let (r, srv) = rpm_values L type inst array_index (requested_properties srv type inst prop) ack srv
                 in case r of
                      None \<Rightarrow> (RpmAborted, srv)
                    | Some ack \<Rightarrow> rpm_properties L type inst (drop (nat len) request) ack srv)"
  by pat_completeness auto
termination
  by (relation "measure (\<lambda>(L, type, inst, request, ack, srv). length request)") auto

declare rpm_properties.simps [simp del]

lemma rpm_properties_shorter:
  "rpm_properties L type inst request ack srv = (RpmClosed request' ack', srv') \<Longrightarrow>
   length request' < length request"
proof (induction L type inst request ack srv rule: rpm_properties.induct)
  case (1 L type inst request ack srv)
  obtain len pr ai where p: "p_rpm_property L request = (len, pr, ai)"
    by (cases "p_rpm_property L request") auto
  obtain r s where v: "rpm_values L type inst ai (requested_properties srv type inst pr) ack srv = (r, s)"
    by (cases "rpm_values L type inst ai (requested_properties srv type inst pr) ack srv")
  have u: "rpm_properties L type inst request ack srv = (RpmClosed request' ack', srv')"
    by (rule "1.prems")
  show ?case
  proof (cases "request = [] \<or> p_rpm_object_end L request > 0")
    case True
    then show ?thesis using u
      by (auto simp: rpm_properties.simps [of L type inst request] split: if_splits)
  next
    case False
    then have len: "len > 0" and "\<exists>a. r = Some a"
      using u by (auto simp: rpm_properties.simps [of L type inst request] p v split: if_splits option.splits)
    then obtain a where r: "r = Some a" by blast
    have "rpm_properties L type inst (drop (nat len) request) a s = (RpmClosed request' ack', srv')"
      using u False len by (simp add: rpm_properties.simps [of L type inst request] p v r)
    then have "length request' < length (drop (nat len) request)"
      using "1.IH" [OF _ refl _ refl p [symmetric] refl _ refl v [symmetric] r] False len by simp
    then show ?thesis by simp
  qed
qed

text \<open>The whole request: None for a malformed one, otherwise the acknowledgement, if it fits.\<close>

function rpm_objects ::
    "server_env \<Rightarrow> bytes \<Rightarrow> bytes \<Rightarrow> 'p server \<Rightarrow> bytes option option \<times> 'p server" where
  "rpm_objects L request ack srv =
    (if request = [] then (Some (Some ack), srv)
     else
       let (len, type, inst) = p_rpm_object L request
       in if len \<le> 0 then (None, srv)
          else
            let begun = p_rpm_ack_object_begin L type inst
            in if length ack + length begun > p_max_apdu L then (Some None, srv)
               else
                 (case rpm_properties L type inst (drop (nat len) request) (ack @ begun) srv of
                    (RpmMalformed, srv) \<Rightarrow> (None, srv)
                  | (RpmAborted, srv) \<Rightarrow> (Some None, srv)
                  | (RpmOpen ack, srv) \<Rightarrow> (None, srv)
                  | (RpmClosed request ack, srv) \<Rightarrow> rpm_objects L request ack srv))"
  by pat_completeness auto
termination
  apply (relation "measure (\<lambda>(L, request, ack, srv). length request)")
   apply simp
  apply simp
  subgoal premises prems
    using prems(1,5) rpm_properties_shorter [OF prems(8) [symmetric, unfolded prems(9)]] by simp
  done

declare rpm_objects.simps [simp del]

definition ABORT_REASON_SEGMENTATION_NOT_SUPPORTED :: nat where "ABORT_REASON_SEGMENTATION_NOT_SUPPORTED = 4"

definition serve_read_property_multiple :: "server_env \<Rightarrow> bacnet_address \<Rightarrow> u8 \<Rightarrow> bytes \<Rightarrow> 'p server \<Rightarrow> 'p server" where
  "serve_read_property_multiple L source invoke_id request srv =
    (case rpm_objects L request (p_rpm_init L invoke_id) srv of
       (None, srv) \<Rightarrow> malformed_request source srv
     | (Some None, srv) \<Rightarrow>
         send_apdu L source (p_abort L invoke_id ABORT_REASON_SEGMENTATION_NOT_SUPPORTED True) srv
     | (Some (Some ack), srv) \<Rightarrow> if length ack > 3 then send_apdu L source ack srv else srv)"

subsection \<open>WriteProperty\<close>

text \<open>
  The property handed to the write handler.  For a number without a case tryFrom gives null and
  the code looks at the pointer part of that value, which null leaves as it was in memory
  (p_stale_pointer: not zero): the handler then gets null instead of the number.
\<close>

definition write_property_arg :: "server_env \<Rightarrow> u32 \<Rightarrow> zval" where
  "write_property_arg L prop =
    (case property_try_from prop of
       Some z \<Rightarrow> z
     | None \<Rightarrow> if p_stale_pointer L then ZNull else ZLong (uint prop))"

definition write_ack :: "u8 \<Rightarrow> bytes" where
  "write_ack invoke_id = [PDU_TYPE_SIMPLE_ACK, invoke_id, SERVICE_CONFIRMED_WRITE_PROPERTY]"

definition written_value :: "server_env \<Rightarrow> bytes \<Rightarrow> zval" where
  "written_value L data = (if data = [] then ZNull else bacapp_values_to_zval (p_app_decode L) data)"

definition call_write_handler :: "server_env \<Rightarrow> 'p write_handler \<Rightarrow> wp_data \<Rightarrow> 'p server \<Rightarrow> unit call_outcome \<times> 'p server" where
  "call_write_handler L h wp srv =
    (let rp = wp_ref wp;
         (r, u) = h (y_user srv) (php_bacnet_oid_from_c (rp_object_type rp) (rp_instance rp))
                    (write_property_arg L (rp_property rp)) (written_value L (wp_data wp))
                    (array_index_zval (rp_array_index rp))
     in (r, srv\<lparr>y_user := u, v_exn := (r = Raised)\<rparr>))"

definition serve_write_property ::
    "server_env \<Rightarrow> bacnet_address \<Rightarrow> u8 \<Rightarrow> bytes \<Rightarrow> bytes \<Rightarrow> 'p server \<Rightarrow> 'p server" where
  "serve_write_property L source invoke_id apdu request srv =
    (let (n, wp) = p_wp_decode L request
     in if n < 0 then malformed_request source srv
        else
          let (duplicate, srv) = ask_security (php_bacnet_security_is_duplicate_write source apdu) srv
          in if duplicate then send_apdu L source (write_ack invoke_id) srv
             else
               case (if object_key (rp_object_type (wp_ref wp)) (rp_instance (wp_ref wp)) \<in> set (local_keys srv)
                     then v_write_handler srv else None) of
                 None \<Rightarrow> send_error L source invoke_id SERVICE_CONFIRMED_WRITE_PROPERTY unknown_object srv
               | Some h \<Rightarrow>
                   (let (r, srv) = call_write_handler L h wp srv
                    in case r of
                         Returned _ \<Rightarrow>
                           send_apdu L source (write_ack invoke_id)
                             (with_security (php_bacnet_security_record_write source apdu) srv)
                       | _ \<Rightarrow> srv))"

subsection \<open>Who-Is\<close>

text \<open>Limits below zero are absent; the own id is compared as int32_t.\<close>

definition whois_matches :: "u32 \<Rightarrow> int \<Rightarrow> int \<Rightarrow> bool" where
  "whois_matches device_id low high \<longleftrightarrow>
     (low < 0 \<or> sint device_id \<ge> low) \<and> (high < 0 \<or> sint device_id \<le> high)"

definition serve_who_is :: "server_env \<Rightarrow> bacnet_address \<Rightarrow> bytes \<Rightarrow> 'p server \<Rightarrow> 'p server" where
  "serve_who_is L source request srv =
    (let (n, low, high) = (if request \<noteq> [] then p_whois L request else (0, -1, -1))
     in if n < 0 then malformed_request source srv
        else if whois_matches (v_device_id srv) low high then snd (php_bacnet_server_send_iam L srv)
        else srv)"

subsection \<open>The poll\<close>

definition REJECT_REASON_UNRECOGNIZED_SERVICE :: nat where "REJECT_REASON_UNRECOGNIZED_SERVICE = 9"

definition serve_confirmed :: "server_env \<Rightarrow> bacnet_address \<Rightarrow> bytes \<Rightarrow> 'p server \<Rightarrow> 'p server" where
  "serve_confirmed L source apdu srv =
    (let invoke_id = apdu ! 2; service = apdu ! 3; request = drop 4 apdu
     in if service = SERVICE_CONFIRMED_READ_PROPERTY then serve_read_property L source invoke_id request srv
        else if service = SERVICE_CONFIRMED_READ_PROP_MULTIPLE
        then serve_read_property_multiple L source invoke_id request srv
        else if service = SERVICE_CONFIRMED_WRITE_PROPERTY
        then serve_write_property L source invoke_id apdu request srv
        else send_encoded L source (p_reject L invoke_id REJECT_REASON_UNRECOGNIZED_SERVICE) srv)"

text \<open>What is done with an APDU of at least two bytes.\<close>

definition serve_apdu :: "server_env \<Rightarrow> bacnet_address \<Rightarrow> bytes \<Rightarrow> 'p server \<Rightarrow> 'p server" where
  "serve_apdu L source apdu srv =
    (case cov_kind apdu (length apdu) of
       Some confirmed \<Rightarrow>
         (let (ok, srv) = cov_receive L (live_handler (v_cov_handler srv)) source apdu (length apdu) confirmed srv
          in srv\<lparr>v_exn := \<not> ok\<rparr>)
     | None \<Rightarrow>
         let pdu_type = apdu ! 0 AND 0xF0
         in if pdu_type = PDU_TYPE_UNCONFIRMED_SERVICE_REQUEST
            then (if apdu ! 1 = SERVICE_UNCONFIRMED_WHO_IS \<and> v_auto_iam srv
                  then serve_who_is L source (drop 2 apdu) srv else srv)
            else if pdu_type = PDU_TYPE_CONFIRMED_SERVICE_REQUEST
            then (if length apdu < 4 then srv else serve_confirmed L source apdu srv)
            else srv)"

definition serve_pdu :: "server_env \<Rightarrow> bacnet_address \<Rightarrow> bytes \<Rightarrow> 'p server \<Rightarrow> 'p server" where
  "serve_pdu L source pdu srv =
    (let (npdu_len, network_layer_message) = p_npdu L pdu;
         apdu = take (apdu_len npdu_len pdu) (apdu_at npdu_len pdu)
     in if npdu_len < 0 \<or> network_layer_message then malformed_request source srv
        else if apdu_len npdu_len pdu < 2 then malformed_request source srv
        else serve_apdu L source apdu srv)"

text \<open>The look of the protection layer at a packet that arrives.\<close>

definition check_incoming :: "server_env \<Rightarrow> bacnet_address \<Rightarrow> bytes \<Rightarrow> 'p server \<Rightarrow> bool \<times> 'p server" where
  "check_incoming L source pdu = ask_security (\<lambda>now s.
     let (ok, kind, s) = php_bacnet_security_accept (p_npdu L) source pdu now s in (ok, s))"

text \<open>
  Server::poll.  rx is what bip_receive would return, looked at when the queue is empty.  The
  result tells whether a PHP exception is left pending.
\<close>

definition Server_poll :: "server_env \<Rightarrow> bacnet_address \<times> bytes \<Rightarrow> 'p server \<Rightarrow> (bacnet_exn + unit) \<times> 'p server" where
  "Server_poll L rx srv =
    (if \<not> v_initialized srv then (Inl (BacnetException ''Server not initialized''), srv)
     else
       let srv = srv\<lparr>v_exn := False\<rparr>;
           (accepted, source, pdu, srv) =
             (case php_bacnet_client_pop_pdu (v_queue srv) of
                Some ((source, pdu), q) \<Rightarrow> (pdu \<noteq> [], source, pdu, srv\<lparr>v_queue := q\<rparr>)
              | None \<Rightarrow>
                  (let (source, pdu) = rx
                   in if pdu = [] then (False, source, pdu, srv)
                      else let (ok, srv) = check_incoming L source pdu srv in (ok, source, pdu, srv)));
           srv = (if accepted then serve_pdu L source pdu srv else srv)
       in (if v_exn srv then Inl HandlerException else Inr (), srv))"

text \<open>
  The unsolicited handler of a MixedServer: what passes the protection layer is queued for the
  next poll, or counted as an overflow.
\<close>

definition php_bacnet_mixed_queue_unsolicited :: "server_env \<Rightarrow> 'p server handler" where
  "php_bacnet_mixed_queue_unsolicited L srv source pdu =
    (let (ok, srv) = check_incoming L source pdu srv
     in if \<not> ok then (True, srv)
        else
          let (taken, q) = php_bacnet_client_queue_pdu (p_max_apdu L + p_max_npdu L) source pdu (v_queue srv);
              srv = srv\<lparr>v_queue := q\<rparr>
          in (True, if taken then srv else with_security php_bacnet_security_queue_overflow srv))"

text \<open>
  The client side of a MixedServer, as its constructor leaves it: its own answers to a Who-Is are
  ignored, and packets that are not the awaited answer go to the handler above, whose context is
  the server itself.
\<close>

definition mixed_client :: "('e, 'b) cache_world \<Rightarrow> u8 \<Rightarrow> u32 \<Rightarrow> int \<Rightarrow> 'p server \<Rightarrow> ('e, 'b, 'p server) client_state" where
  "mixed_client w invoke_id process_id timeout_ms srv =
    \<lparr>k_initialized = v_initialized srv, k_cache = w, k_next_invoke_id = invoke_id, k_next_cov_process_id = process_id,
     k_local = Some (v_device_id srv), k_timeout_ms = timeout_ms, k_ctx = srv, k_sent = []\<rparr>"

definition mixed_net :: "server_env \<Rightarrow> ('e, 'b, 'p server) net_env \<Rightarrow> ('e, 'b, 'p server) net_env" where
  "mixed_net L N = N\<lparr>n_npdu := p_npdu L, n_handler := php_bacnet_mixed_queue_unsolicited L\<rparr>"

end
