(* ===== verification/Server_Demo.thy ===== *)
theory Server_Demo
  imports Server_Poll Security_Props
begin

text \<open>
  A concrete environment and a concrete server, on which the witnesses of the server theorems
  evaluate: a toy encoding (an object reference is its instance, one byte per number), an analog
  input 5 on device 9, handlers that count their calls.
\<close>

definition demo_ref :: "bytes \<Rightarrow> int \<times> rp_data" where
  "demo_ref r = (if length r < 2 then (-1, \<lparr>rp_object_type = 0, rp_instance = 0, rp_property = 0, rp_array_index = 0\<rparr>)
     else (2, \<lparr>rp_object_type = (if r ! 0 = 9 then OBJECT_DEVICE else OBJECT_ANALOG_INPUT), rp_instance = ucast (r ! 0),
               rp_property = ucast (r ! 1), rp_array_index = BACNET_ARRAY_ALL\<rparr>))"

fun demo_encode :: "appdata \<Rightarrow> int \<times> bytes" where
  "demo_encode (AppUnsigned n) = (2, [0x21, ucast n])"
| "demo_encode (AppObjectId t i) = (3, [0xC4, ucast t, ucast i])"
| "demo_encode (AppBoolean b) = (1, [if b then 0x11 else 0x10])"
| "demo_encode _ = (1, [0])"

definition demo_cov :: cov_data where
  "demo_cov = \<lparr>cv_process_id = 1, cv_device_id = 7, cv_type = 0, cv_instance = 5, cv_time_remaining = 60,
     cv_values = [(85, BACNET_ARRAY_ALL, AppUnsigned 3)]\<rparr>"

definition demo_link :: server_env where
  "demo_link = \<lparr>p_npdu = demo_npdu, p_header = (\<lambda>dest expecting. Some [1, 0]), p_max_apdu = 1476, p_max_npdu = 30,
     p_transmit = (\<lambda>dest pdu. True), p_cov_decode = (\<lambda>r. (int (length r), demo_cov)),
     p_simple_ack = (\<lambda>invoke service. Some [0x20, invoke, service]),
     p_app_encode = demo_encode, p_app_decode = (\<lambda>data. (1, AppUnsigned (ucast (data ! 0)))), p_char_init = (\<lambda>s. s),
     p_error = (\<lambda>invoke service err. Some [0x50, invoke, service, of_nat (fst err), of_nat (snd err)]),
     p_reject = (\<lambda>invoke reason. Some [0x60, invoke, of_nat reason]),
     p_abort = (\<lambda>invoke reason server. [0x71, invoke, of_nat reason]),
     p_iam = (\<lambda>device max_apdu segmentation vendor. Some [0x10, 0, ucast device, ucast vendor]),
     p_whois = (\<lambda>r. if length r < 2 then (-1, -1, -1) else (2, uint (r ! 0), uint (r ! 1))),
     p_rp_decode = demo_ref, p_rp_ack = (\<lambda>invoke rp data. Some ([0x30, invoke, 12] @ data)),
     p_wp_decode = (\<lambda>r. let (n, rp) = demo_ref r in (n, \<lparr>wp_ref = rp, wp_data = drop 2 r\<rparr>)),
     p_rpm_init = (\<lambda>invoke. [0x30, invoke, 14]),
     p_rpm_object = (\<lambda>r. (1, if r ! 0 = 9 then OBJECT_DEVICE else OBJECT_ANALOG_INPUT, ucast (r ! 0))),
     p_rpm_object_end = (\<lambda>r. if r ! 0 = 255 then 1 else 0),
     p_rpm_property = (\<lambda>r. (1, ucast (r ! 0), BACNET_ARRAY_ALL)),
     p_rpm_ack_object_begin = (\<lambda>ty inst. [0x0C, ucast inst]), p_rpm_ack_object_end = [0x1F],
     p_rpm_ack_property = (\<lambda>pr ai. [0x29, ucast pr]), p_rpm_ack_value = (\<lambda>data. [0x4E] @ data @ [0x4F]),
     p_rpm_ack_error = (\<lambda>err. [0x5E, of_nat (snd err), 0x5F]),
     p_bits_init = \<lparr>bits_used = 0, bit_bytes = replicate 15 0\<rparr>, p_set_bit = (\<lambda>b n. b), p_protocol_version = 1,
     p_protocol_revision = 14, p_stale_pointer = False\<rparr>"

definition demo_reader :: "nat read_handler" where
  "demo_reader calls oid prop ai = (Returned (if prop = ZEnum ''PRESENT_VALUE'' 85 then ZLong 7 else ZNull), Suc calls)"

definition demo_writer :: "nat write_handler" where
  "demo_writer calls oid prop val ai = (Returned (), Suc calls)"

definition demo_server :: "nat server" where
  "demo_server = (php_bacnet_server_create_object 0 demo_security (\<lambda>k. Fin 1))
     \<lparr>v_initialized := True, v_device_id := 9, v_has_security := True, v_local_objects := Some [5],
      v_read_handler := Some demo_reader, v_write_handler := Some demo_writer,
      v_cov_handler := Live (\<lambda>calls event. (False, Suc calls))\<rparr>"

lemma demo_link_fields [simp]:
  "p_npdu demo_link = demo_npdu" "p_header demo_link = (\<lambda>dest expecting. Some [1, 0])" "p_max_apdu demo_link = 1476"
  "p_max_npdu demo_link = 30" "p_app_encode demo_link = demo_encode" "p_rp_decode demo_link = demo_ref"
  "p_wp_decode demo_link = (\<lambda>r. let (n, rp) = demo_ref r in (n, \<lparr>wp_ref = rp, wp_data = drop 2 r\<rparr>))"
  "p_simple_ack demo_link = (\<lambda>invoke service. Some [0x20, invoke, service])"
  "p_rpm_init demo_link = (\<lambda>invoke. [0x30, invoke, 14])"
  "p_iam demo_link = (\<lambda>device max_apdu segmentation vendor. Some [0x10, 0, ucast device, ucast vendor])"
  "p_whois demo_link = (\<lambda>r. if length r < 2 then (-1, -1, -1) else (2, uint (r ! 0), uint (r ! 1)))"
  "p_cov_decode demo_link = (\<lambda>r. (int (length r), demo_cov))"
  "p_error demo_link = (\<lambda>invoke service err. Some [0x50, invoke, service, of_nat (fst err), of_nat (snd err)])"
  "p_rp_ack demo_link = (\<lambda>invoke rp data. Some ([0x30, invoke, 12] @ data))"
  "p_app_decode demo_link = (\<lambda>data. (1, AppUnsigned (ucast (data ! 0))))" "p_stale_pointer demo_link = False"
  "p_reject demo_link = (\<lambda>invoke reason. Some [0x60, invoke, of_nat reason])"
  "p_rpm_object demo_link = (\<lambda>r. (1, if r ! 0 = 9 then OBJECT_DEVICE else OBJECT_ANALOG_INPUT, ucast (r ! 0)))"
  "p_rpm_object_end demo_link = (\<lambda>r. if r ! 0 = 255 then 1 else 0)"
  "p_rpm_property demo_link = (\<lambda>r. (1, ucast (r ! 0), BACNET_ARRAY_ALL))"
  "p_rpm_ack_object_begin demo_link = (\<lambda>ty inst. [0x0C, ucast inst])" "p_rpm_ack_object_end demo_link = [0x1F]"
  "p_rpm_ack_property demo_link = (\<lambda>pr ai. [0x29, ucast pr])"
  "p_rpm_ack_value demo_link = (\<lambda>data. [0x4E] @ data @ [0x4F])" "p_char_init demo_link = (\<lambda>s. s)"
  by (simp_all add: demo_link_def)

lemma demo_server_fields [simp]:
  "y_user demo_server = 0" "y_sent demo_server = []" "v_initialized demo_server" "v_device_id demo_server = 9"
  "v_local_objects demo_server = Some [5]" "v_read_handler demo_server = Some demo_reader"
  "v_write_handler demo_server = Some demo_writer" "v_security demo_server = demo_security"
  "v_clock demo_server = (\<lambda>k. Fin 1)" "v_reads demo_server = 0" "v_auto_iam demo_server"
  "v_queue demo_server = empty_queue" "\<not> v_exn demo_server" "local_keys demo_server = [5]"
  "v_cov_handler demo_server = Live (\<lambda>calls event. (False, Suc calls))" "v_vendor_id demo_server = 0"
  by (simp_all add: demo_server_def php_bacnet_server_create_object_def local_keys_def)

lemma demo_deliverable [simp]: "deliverable demo_link dest apdu \<longleftrightarrow> length apdu \<le> 1504"
  by (simp add: deliverable_def)

lemma demo_key [simp]: "object_key OBJECT_ANALOG_INPUT 5 = 5"
  by (simp add: object_key_def OBJECT_ANALOG_INPUT_def)

end
