(* ===== verification/Server_Frame.thy ===== *)
theory Server_Frame
  imports Server_Poll
begin

text \<open>
  What serving a packet leaves alone: the configuration of the server, its local objects and its
  queue; and that at most one APDU is sent.
\<close>

subsection \<open>What the operations leave alone\<close>

lemma with_security_frame [simp]:
  "y_sent (with_security f srv) = y_sent srv" "y_user (with_security f srv) = y_user srv"
  "v_exn (with_security f srv) = v_exn srv" "v_queue (with_security f srv) = v_queue srv"
  "v_local_objects (with_security f srv) = v_local_objects srv"
  "v_write_handler (with_security f srv) = v_write_handler srv"
  "v_clock (with_security f srv) = v_clock srv"
  by (simp_all add: with_security_def)

lemma ask_security_frame:
  assumes "ask_security f srv = (r, srv')"
  shows "y_sent srv' = y_sent srv" "y_user srv' = y_user srv" "v_exn srv' = v_exn srv"
    "v_queue srv' = v_queue srv" "v_local_objects srv' = v_local_objects srv"
    "v_write_handler srv' = v_write_handler srv" "v_clock srv' = v_clock srv" "v_device_id srv' = v_device_id srv"
    "v_initialized srv' = v_initialized srv" "v_reads srv' = Suc (v_reads srv)"
    "f (v_clock srv (v_reads srv)) (v_security srv) = (r, v_security srv')"
  using assms by (auto simp: ask_security_def server_now_def split: prod.splits)

lemma malformed_frame [simp]:
  "y_sent (malformed_request source srv) = y_sent srv" "y_user (malformed_request source srv) = y_user srv"
  "v_exn (malformed_request source srv) = v_exn srv"
  by (simp_all add: malformed_request_def)

text \<open>
  What serving a packet changes: the state of the PHP program, what was sent, the protection
  layer and the clock, the pending exception.  quiet is the same with nothing sent.
\<close>

definition kept :: "'p server \<Rightarrow> 'p server \<Rightarrow> bool" where
  "kept srv srv' \<longleftrightarrow> srv' = srv\<lparr>y_user := y_user srv', y_sent := y_sent srv', v_security := v_security srv',
     v_reads := v_reads srv', v_exn := v_exn srv'\<rparr>"

definition quiet :: "'p server \<Rightarrow> 'p server \<Rightarrow> bool" where
  "quiet srv srv' \<longleftrightarrow> kept srv srv' \<and> y_sent srv' = y_sent srv"

lemma kept_refl [simp]: "kept srv srv"
  by (simp add: kept_def)

lemma kept_trans: "kept a b \<Longrightarrow> kept b c \<Longrightarrow> kept a c"
  by (cases a, cases b, cases c) (simp add: kept_def)

lemma kept_update [simp]:
  "kept srv (s\<lparr>y_user := u\<rparr>) = kept srv s" "kept srv (s\<lparr>y_sent := out\<rparr>) = kept srv s"
  "kept srv (s\<lparr>v_security := sec\<rparr>) = kept srv s" "kept srv (s\<lparr>v_reads := n\<rparr>) = kept srv s"
  "kept srv (s\<lparr>v_exn := x\<rparr>) = kept srv s"
  by (cases srv, cases s, simp add: kept_def)+

lemma keptD:
  assumes "kept srv srv'"
  shows "v_initialized srv' = v_initialized srv" "v_queue srv' = v_queue srv"
    "v_local_objects srv' = v_local_objects srv" "v_device_id srv' = v_device_id srv"
    "v_has_security srv' = v_has_security srv"
  using arg_cong [of _ _ v_has_security, OF assms [unfolded kept_def]] arg_cong [of _ _ v_initialized, OF assms [unfolded kept_def]] arg_cong [of _ _ v_queue, OF assms [unfolded kept_def]]
    arg_cong [of _ _ v_local_objects, OF assms [unfolded kept_def]] arg_cong [of _ _ v_device_id, OF assms [unfolded kept_def]]
  by simp_all

lemma quiet_refl [simp]: "quiet srv srv"
  by (simp add: quiet_def)

lemma quiet_trans: "quiet a b \<Longrightarrow> quiet b c \<Longrightarrow> quiet a c"
  using kept_trans unfolding quiet_def by metis

lemma quiet_update [simp]:
  "quiet srv (s\<lparr>y_user := u\<rparr>) = quiet srv s" "quiet srv (s\<lparr>v_security := sec\<rparr>) = quiet srv s"
  "quiet srv (s\<lparr>v_reads := n\<rparr>) = quiet srv s" "quiet srv (s\<lparr>v_exn := x\<rparr>) = quiet srv s"
  by (simp_all add: quiet_def)

lemma quietD: "quiet srv srv' \<Longrightarrow> y_sent srv' = y_sent srv"
  by (simp add: quiet_def)

lemma quiet_security [simp]: "quiet srv (with_security f s) = quiet srv s"
  by (simp add: with_security_def)

lemma quiet_malformed [simp]: "quiet srv (malformed_request source s) = quiet srv s"
  by (simp add: malformed_request_def)

lemma quiet_ask: "ask_security f srv = (r, srv') \<Longrightarrow> quiet srv srv'"
  by (auto simp: ask_security_def split: prod.splits)

text \<open>A PHP handler may have been called; nothing else has happened.\<close>

definition called :: "'p server \<Rightarrow> 'p server \<Rightarrow> bool" where
  "called srv srv' \<longleftrightarrow> srv' = srv\<lparr>y_user := y_user srv', v_exn := v_exn srv'\<rparr>"

lemma called_refl [simp]: "called srv srv"
  by (simp add: called_def)

lemma called_trans: "called a b \<Longrightarrow> called b c \<Longrightarrow> called a c"
  by (cases a, cases b, cases c) (simp add: called_def)

lemma called_update [simp]:
  "called srv (s\<lparr>y_user := u\<rparr>) = called srv s" "called srv (s\<lparr>v_exn := x\<rparr>) = called srv s"
  by (cases srv, cases s, simp add: called_def)+

lemma called_quiet: "called srv srv' \<Longrightarrow> quiet srv srv'"
  by (cases srv, cases srv') (simp add: called_def quiet_def kept_def)

lemma calledD:
  assumes "called srv srv'"
  shows "v_security srv' = v_security srv" "v_reads srv' = v_reads srv" "v_clock srv' = v_clock srv"
  using assms by (cases srv, cases srv', simp add: called_def)+

lemma resolve_called: "php_bacnet_server_resolve_property L type inst pr ai srv = (r, srv') \<Longrightarrow> called srv srv'"
  by (auto simp: php_bacnet_server_resolve_property_def Let_def split: if_splits option.splits prod.splits)

lemma property_value_called: "property_value L type inst pr ai srv = (r, srv') \<Longrightarrow> called srv srv'"
  by (auto simp: property_value_def Let_def dest: resolve_called split: if_splits prod.splits)

lemma rpm_values_called: "rpm_values L type inst ai prs ack srv = (r, srv') \<Longrightarrow> called srv srv'"
proof (induction prs arbitrary: ack srv)
  case (Cons pr prs)
  obtain x s where p: "property_value L type inst pr ai srv = (x, s)"
    by (cases "property_value L type inst pr ai srv")
  show ?case using Cons called_trans [OF property_value_called [OF p]] property_value_called [OF p]
    by (auto simp: p Let_def split: if_splits)
qed simp

lemma rpm_properties_called:
  "rpm_properties L type inst request ack srv = (r, srv') \<Longrightarrow> called srv srv'"
proof (induction L type inst request ack srv rule: rpm_properties.induct)
  case (1 L type inst request ack srv)
  obtain len pr ai where p: "p_rpm_property L request = (len, pr, ai)"
    by (cases "p_rpm_property L request") auto
  obtain x s where v: "rpm_values L type inst ai (requested_properties srv type inst pr) ack srv = (x, s)"
    by (cases "rpm_values L type inst ai (requested_properties srv type inst pr) ack srv")
  show ?case
  proof (cases "request = [] \<or> p_rpm_object_end L request > 0 \<or> len \<le> 0 \<or> x = None")
    case True
    then show ?thesis using "1.prems" rpm_values_called [OF v]
      by (auto simp: rpm_properties.simps [of L type inst request] Let_def p v split: if_splits)
  next
    case False
    then obtain a where a: "x = Some a" by blast
    have "rpm_properties L type inst (drop (nat len) request) a s = (r, srv')"
      using "1.prems" False by (simp add: rpm_properties.simps [of L type inst request] p v a)
    then show ?thesis
      using "1.IH" [OF _ refl _ refl p [symmetric] refl _ refl v [symmetric] a] False
        called_trans [OF rpm_values_called [OF v]] by simp
  qed
qed

lemma rpm_objects_called: "rpm_objects L request ack srv = (r, srv') \<Longrightarrow> called srv srv'"
proof (induction L request ack srv rule: rpm_objects.induct)
  case (1 L request ack srv)
  obtain len ty inst where p: "p_rpm_object L request = (len, ty, inst)"
    by (cases "p_rpm_object L request") auto
  let ?b = "p_rpm_ack_object_begin L ty inst"
  obtain x s where v: "rpm_properties L ty inst (drop (nat len) request) (ack @ ?b) srv = (x, s)"
    by (cases "rpm_properties L ty inst (drop (nat len) request) (ack @ ?b) srv")
  show ?case
  proof (cases "request = [] \<or> len \<le> 0 \<or> length ack + length ?b > p_max_apdu L \<or> (\<nexists>q a. x = RpmClosed q a)")
    case True
    then show ?thesis using "1.prems" rpm_properties_called [OF v]
      by (cases x) (auto simp: rpm_objects.simps [of L request] p v Let_def split: if_splits)
  next
    case False
    then obtain q a where x: "x = RpmClosed q a" by blast
    have "rpm_objects L q a s = (r, srv')"
      using "1.prems" False by (simp add: rpm_objects.simps [of L request] p v x)
    then show ?thesis
      using "1.IH" [OF _ refl p [symmetric] refl _ refl _ v [symmetric] x] False
        called_trans [OF rpm_properties_called [OF v]] by simp
  qed
qed

lemma call_write_called: "call_write_handler L h wp srv = (r, srv') \<Longrightarrow> called srv srv'"
  by (auto simp: call_write_handler_def Let_def split: prod.splits)

lemma dispatch_called [simp]: "called srv (snd (php_bacnet_cov_dispatch L handler apdu al confirmed srv))"
  by (simp add: php_bacnet_cov_dispatch_def split: option.split prod.split)

lemmas property_value_quiet = property_value_called [THEN called_quiet]
lemmas rpm_objects_quiet = rpm_objects_called [THEN called_quiet]
lemmas call_write_quiet = call_write_called [THEN called_quiet]
lemmas dispatch_quiet [simp] = dispatch_called [THEN called_quiet]

subsection \<open>At most one answer\<close>

definition answers :: "bacnet_address \<Rightarrow> 'p server \<Rightarrow> 'p server \<Rightarrow> bool" where
  "answers source srv srv' \<longleftrightarrow> kept srv srv' \<and> (y_sent srv' = y_sent srv \<or> (\<exists>a. y_sent srv' = y_sent srv @ [(source, a)]))"

lemma send_apdu_kept [simp]: "kept srv (send_apdu L dest apdu s) = kept srv s"
  by (simp add: send_apdu_def php_bacnet_server_send_apdu_def split: option.split)

lemma answers_send [intro]: "quiet srv s \<Longrightarrow> answers source srv (send_apdu L source apdu s)"
  using send_apdu_sent [of L source apdu s] by (auto simp: answers_def quiet_def)

lemma answers_encoded [intro]: "quiet srv s \<Longrightarrow> answers source srv (send_encoded L source apdu s)"
  using answers_send [of srv s source L] by (cases apdu) (auto simp: send_encoded_def answers_def quiet_def)

lemma answers_none [intro]: "quiet srv s \<Longrightarrow> answers source srv s"
  by (simp add: answers_def quiet_def)

lemma answers_malformed [intro]: "quiet srv s \<Longrightarrow> answers source srv (malformed_request dest s)"
  by (rule answers_none) simp

lemma answers_read: "answers source srv (serve_read_property L source invoke_id request srv)"
  by (auto simp: serve_read_property_def send_error_def Let_def dest: property_value_quiet
      split: prod.split sum.split)

lemma answers_read_multiple: "answers source srv (serve_read_property_multiple L source invoke_id request srv)"
  by (auto simp: serve_read_property_multiple_def dest: rpm_objects_quiet split: prod.split option.split)

lemma answers_quiet_trans: "quiet srv s \<Longrightarrow> answers source s s' \<Longrightarrow> answers source srv s'"
  unfolding answers_def quiet_def using kept_trans by metis

lemma answers_write: "answers source srv (serve_write_property L source invoke_id apdu request srv)"
proof -
  obtain n wp where p: "p_wp_decode L request = (n, wp)" by (cases "p_wp_decode L request")
  obtain d s where d: "ask_security (php_bacnet_security_is_duplicate_write source apdu) srv = (d, s)"
    by (cases "ask_security (php_bacnet_security_is_duplicate_write source apdu) srv")
  have "answers source s (serve_write_property L source invoke_id apdu request srv)" if "\<not> n < 0"
    using that by (auto simp: serve_write_property_def p d send_error_def Let_def dest!: call_write_quiet
      split: option.split prod.split call_outcome.split)
  then show ?thesis
    using answers_quiet_trans [OF quiet_ask [OF d]] by (cases "n < 0") (auto simp: serve_write_property_def p)
qed

lemma answers_confirmed: "answers source srv (serve_confirmed L source apdu srv)"
  by (auto simp: serve_confirmed_def Let_def answers_read answers_read_multiple answers_write)

lemma answers_cov:
  "cov_receive L h source apdu al confirmed srv = (ok, srv') \<Longrightarrow> answers source srv (srv'\<lparr>v_exn := b\<rparr>)"
proof -
  assume a: "cov_receive L h source apdu al confirmed srv = (ok, srv')"
  obtain r s where d: "php_bacnet_cov_dispatch L h apdu al confirmed srv = (r, s)"
    by (cases "php_bacnet_cov_dispatch L h apdu al confirmed srv")
  then have "quiet srv s" using dispatch_quiet [of srv L h apdu al confirmed] by simp
  then have "answers source srv srv'"
    using a d by (auto simp: cov_receive_def split: if_splits)
  then show ?thesis by (simp add: answers_def)
qed

definition replies :: "bacnet_address \<Rightarrow> 'p server \<Rightarrow> 'p server \<Rightarrow> bool" where
  "replies source srv srv' \<longleftrightarrow> answers source srv srv' \<or> answers local_broadcast srv srv'"

lemma answers_iam: "answers local_broadcast srv (snd (php_bacnet_server_send_iam L srv))"
  using answers_send [of srv srv local_broadcast L] 
  by (auto simp: php_bacnet_server_send_iam_def send_apdu_def split: option.split)

lemma replies_who_is: "replies source srv (serve_who_is L source request srv)"
  using answers_iam [of srv L] answers_malformed [of srv srv source]
  by (auto simp: serve_who_is_def replies_def Let_def answers_none split: prod.split)

lemma replies_apdu: "replies source srv (serve_apdu L source apdu srv)"
proof (cases "cov_kind apdu (length apdu)")
  case None
  show ?thesis
  proof (cases "apdu ! 0 AND 0xF0 = PDU_TYPE_UNCONFIRMED_SERVICE_REQUEST \<and> apdu ! 1 = SERVICE_UNCONFIRMED_WHO_IS \<and> v_auto_iam srv")
    case True
    then show ?thesis using None replies_who_is by (auto simp: serve_apdu_def)
  next
    case False
    then have "serve_apdu L source apdu srv = srv \<or> serve_apdu L source apdu srv = serve_confirmed L source apdu srv"
      using None by (auto simp: serve_apdu_def Let_def)
    then show ?thesis using answers_confirmed [of source srv L apdu] answers_none [of srv srv source]
      by (auto simp: replies_def)
  qed
next
  case (Some confirmed)
  then show ?thesis
    using answers_cov [of L _ source apdu "length apdu" confirmed srv]
    by (auto simp: serve_apdu_def replies_def split: prod.split)
qed

lemma replies_pdu: "replies source srv (serve_pdu L source pdu srv)"
  using replies_apdu by (auto simp: serve_pdu_def replies_def Let_def split: prod.split)

lemma kept_pdu: "kept srv (serve_pdu L source pdu srv)"
  using replies_pdu [of source srv L pdu] by (auto simp: replies_def answers_def)

end
