(* ===== verification/Server_Props.thy ===== *)
theory Server_Props
  imports Server_Demo Server_Frame
begin

text \<open>
  Correctness of the server: the answers of a poll, the two read services, writes and their
  repetition, Who-Is, notifications, the queue of a MixedServer, and the configuration.
\<close>

subsection \<open>One answer per poll\<close>

text \<open>C19.
  A poll answers at most once: it hands at most one APDU to the data link, and that one goes to
  the source of the packet it took (the head of the queue, or what was received) or to the local
  broadcast address.
\<close>

theorem poll_answers_once:
  "\<exists>out. y_sent (snd (Server_poll L rx srv)) = y_sent srv @ out \<and> length out \<le> 1 \<and>
     set (map fst out) \<subseteq> {local_broadcast,
       case php_bacnet_client_pop_pdu (v_queue srv) of Some (p, q) \<Rightarrow> fst p | None \<Rightarrow> fst rx}"
proof -
  have r: "\<exists>out. y_sent (serve_pdu L source pdu s) = y_sent srv @ out \<and> length out \<le> Suc 0 \<and>
     fst ` set out \<subseteq> {local_broadcast, source}"
    if "y_sent s = y_sent srv" for s source pdu
    using replies_pdu [of source s L pdu] that by (auto simp: replies_def answers_def)
  show ?thesis
  proof (cases "v_initialized srv")
    case True
    show ?thesis
    proof (cases "php_bacnet_client_pop_pdu (v_queue srv)")
      case (Some x)
      obtain source pdu q where "x = ((source, pdu), q)" by (cases x) auto
      then show ?thesis using True Some r [of "srv\<lparr>v_exn := False, v_queue := q\<rparr>" source pdu]
        by (simp add: Server_poll_def Let_def)
    next
      case None
      obtain source pdu where rx: "rx = (source, pdu)" by (cases rx)
      show ?thesis
        using True None
        by (auto simp: Server_poll_def Let_def rx check_incoming_def dest!: ask_security_frame(1) intro!: r split: prod.split)
    qed
  qed (simp add: Server_poll_def)
qed

subsection \<open>Repeated writes\<close>

text \<open>A write request that reaches its handler, and the handler returns.\<close>

definition handled_write :: "server_env \<Rightarrow> bacnet_address \<Rightarrow> bytes \<Rightarrow> bytes \<Rightarrow> 'p write_handler \<Rightarrow> wp_data \<Rightarrow> 'p server \<Rightarrow> bool" where
  "handled_write L source apdu request h wp srv \<longleftrightarrow>
     0 \<le> fst (p_wp_decode L request) \<and> snd (p_wp_decode L request) = wp \<and>
     object_key (rp_object_type (wp_ref wp)) (rp_instance (wp_ref wp)) \<in> set (local_keys srv) \<and>
     v_write_handler srv = Some h \<and> fst (call_write_handler L h wp srv) = Returned () \<and>
     \<not> fst (php_bacnet_security_is_duplicate_write source apdu (server_now srv) (v_security srv))"

lemma local_keys_cong: "v_local_objects s = v_local_objects srv \<Longrightarrow> local_keys s = local_keys srv"
  by (simp add: local_keys_def)

text \<open>What such a request does: the handler, the record of the write, the acknowledgement.\<close>

lemma serve_handled_write:
  assumes "handled_write L source apdu request h wp srv" "o_enabled (sec_options (v_security srv))"
  shows "serve_write_property L source invoke_id apdu request srv =
    send_apdu L source (write_ack invoke_id)
      (with_security (php_bacnet_security_record_write source apdu)
        (snd (call_write_handler L h wp (srv\<lparr>v_reads := Suc (v_reads srv)\<rparr>))))"
proof -
  have "php_bacnet_security_is_duplicate_write source apdu (server_now srv) (v_security srv) = (False, v_security srv)"
    using assms by (auto simp: handled_write_def php_bacnet_security_is_duplicate_write_def Let_def split: if_splits)
  then have d: "ask_security (php_bacnet_security_is_duplicate_write source apdu) srv =
      (False, srv\<lparr>v_reads := Suc (v_reads srv)\<rparr>)"
    by (simp add: ask_security_def)
  have "fst (call_write_handler L h wp (srv\<lparr>v_reads := Suc (v_reads srv)\<rparr>)) = Returned ()"
    using assms(1) by (simp add: handled_write_def call_write_handler_def Let_def split: prod.splits)
  then obtain s where c: "call_write_handler L h wp (srv\<lparr>v_reads := Suc (v_reads srv)\<rparr>) = (Returned (), s)"
    by (cases "call_write_handler L h wp (srv\<lparr>v_reads := Suc (v_reads srv)\<rparr>)") simp
  obtain n where n: "p_wp_decode L request = (n, wp)" "0 \<le> n"
    using assms(1) by (cases "p_wp_decode L request") (simp add: handled_write_def)
  show ?thesis
    using assms(1) n by (simp add: serve_write_property_def d c handled_write_def local_keys_def)
qed

lemma recorded_is_duplicate:
  assumes "o_enabled (sec_options s)" "length (sec_duplicates s) = SECURITY_DUPLICATES"
    and "later < now + o_duplicate_window (sec_options s)"
  shows "fst (php_bacnet_security_is_duplicate_write source apdu later
    (php_bacnet_security_record_write source apdu now s))"
proof -
  let ?i = "unat (sec_duplicate_cursor s) mod SECURITY_DUPLICATES"
  let ?d = "\<lparr>dup_ip = php_bacnet_security_source_ip source,
    dup_hash = php_bacnet_security_hash_write (php_bacnet_security_source_ip source) apdu,
    dup_expires = now + o_duplicate_window (sec_options s), dup_used = True\<rparr>"
  have "?d \<in> set ((sec_duplicates s)[?i := ?d])"
    using assms(2) capacity_pos by (intro set_update_memI) simp
  then show ?thesis
    using assms(1,3)
    by (auto simp: php_bacnet_security_is_duplicate_write_def php_bacnet_security_record_write_def
        Let_def list_ex_iff intro!: bexI [of _ ?d])
qed

text \<open>C6.
  A write that was executed is not executed again when the same request comes once more within
  the duplicate window: the handler is not called, the state of the PHP program stays what the
  first call made of it, and the repetition is acknowledged all the same.
\<close>

theorem repeated_write_acknowledged:
  assumes "handled_write L source apdu request h wp srv"
    and "o_enabled (sec_options (v_security srv))"
    and "length (sec_duplicates (v_security srv)) = SECURITY_DUPLICATES"
    and "v_clock srv (v_reads srv + 2) < v_clock srv (v_reads srv + 1) + o_duplicate_window (sec_options (v_security srv))"
    and "deliverable L source (write_ack invoke_id)"
    and "srv1 = serve_write_property L source invoke_id apdu request srv"
    and "srv2 = serve_write_property L source invoke_id apdu request srv1"
  shows "y_user srv1 = y_user (snd (call_write_handler L h wp srv)) \<and> y_user srv2 = y_user srv1 \<and>
    y_sent srv1 = y_sent srv @ [(source, write_ack invoke_id)] \<and>
    y_sent srv2 = y_sent srv1 @ [(source, write_ack invoke_id)]"
proof -
  let ?s0 = "snd (call_write_handler L h wp (srv\<lparr>v_reads := Suc (v_reads srv)\<rparr>))"
  have s0: "v_security ?s0 = v_security srv" "v_clock ?s0 = v_clock srv" "v_reads ?s0 = Suc (v_reads srv)"
    "y_sent ?s0 = y_sent srv" "y_user ?s0 = y_user (snd (call_write_handler L h wp srv))"
    by (simp_all add: call_write_handler_def Let_def split: prod.split)
  let ?s = "with_security (php_bacnet_security_record_write source apdu) ?s0"
  have srv1: "srv1 = ?s\<lparr>y_sent := y_sent srv @ [(source, write_ack invoke_id)]\<rparr>"
    using send_apdu_deliverable [OF assms(5), of ?s] s0
    by (simp add: assms(6) serve_handled_write [OF assms(1,2)])
  have "fst (php_bacnet_security_is_duplicate_write source apdu (server_now srv1) (v_security srv1))"
    using recorded_is_duplicate [OF assms(2,3,4), of source apdu] s0
    by (simp add: srv1 with_security_def server_now_def)
  then obtain srv1' where d: "ask_security (php_bacnet_security_is_duplicate_write source apdu) srv1 = (True, srv1')"
    by (cases "ask_security (php_bacnet_security_is_duplicate_write source apdu) srv1")
       (auto simp: ask_security_def split: prod.splits)
  obtain n where n: "p_wp_decode L request = (n, wp)" "0 \<le> n"
    using assms(1) by (cases "p_wp_decode L request") (simp add: handled_write_def)
  have "srv2 = srv1'\<lparr>y_sent := y_sent srv1' @ [(source, write_ack invoke_id)]\<rparr>"
    using n send_apdu_deliverable [OF assms(5)] by (simp add: assms(7) serve_write_property_def d)
  then show ?thesis using ask_security_frame(1,2) [OF d] srv1 s0 by simp
qed

definition demo_write_apdu :: bytes where "demo_write_apdu = [0, 5, 1, 15, 5, 85, 3]"

definition demo_wp :: wp_data where
  "demo_wp = \<lparr>wp_ref = \<lparr>rp_object_type = OBJECT_ANALOG_INPUT, rp_instance = 5, rp_property = 85,
     rp_array_index = BACNET_ARRAY_ALL\<rparr>, wp_data = [3]\<rparr>"

lemma demo_handled:
  "handled_write demo_link demo_source demo_write_apdu [5, 85, 3] demo_writer demo_wp demo_server"
  by (simp add: handled_write_def demo_ref_def demo_wp_def call_write_handler_def demo_writer_def
      php_bacnet_security_is_duplicate_write_def demo_fields empty_duplicate_def list_ex_iff)

lemma repeated_write_acknowledged_witness:
  "y_user (serve_write_property demo_link demo_source 1 demo_write_apdu [5, 85, 3]
     (serve_write_property demo_link demo_source 1 demo_write_apdu [5, 85, 3] demo_server)) = 1"
  using repeated_write_acknowledged [OF demo_handled _ _ _ _ refl refl, of 1]
  by (simp add: demo_fields demo_options_fields write_ack_def call_write_handler_def demo_writer_def dbl_simps)

subsection \<open>Reading\<close>

text \<open>C35.
  What a property resolves to, on every branch.  An object that is neither the device nor a local
  object gives unknown-object and calls nothing.  Of the device, the object list and the
  supported object types are answered by the server itself: the PHP handler is not called, and
  the answer is the built-in value, unknown-property without one.  For every other property of
  a known object the handler is called once, with the object, the property and the index, unless
  an exception is already pending, which gives unknown-property: its value is the answer, null
  stands for the built-in value of the device (unknown-property where there is none), and a
  failed or raising call gives unknown-property.  Without a handler the answer is the built-in
  value or unknown-property.  PHP null never becomes a value, and nothing but the state behind
  the handler and the pending exception changes.
\<close>

theorem resolve_explained:
  "case php_bacnet_server_resolve_property L type inst pr ai srv of (r, srv') \<Rightarrow>
    let device = is_this_device srv type inst;
        known = device \<or> object_key type inst \<in> set (local_keys srv);
        managed = device \<and> pr \<in> {PROP_OBJECT_LIST, PROP_PROTOCOL_OBJECT_TYPES_SUPPORTED};
        builtin = (case if device then device_property L srv pr else None of
                     Some z \<Rightarrow> Inr z | None \<Rightarrow> Inl unknown_property);
        call = (\<lambda>h. h (y_user srv) (php_bacnet_oid_from_c type inst) (property_arg pr) (array_index_zval ai))
    in r \<noteq> Inr ZNull \<and> (r = Inl unknown_object \<longleftrightarrow> \<not> known) \<and>
       (if \<not> known then srv' = srv
        else case v_read_handler srv of
          None \<Rightarrow> r = builtin \<and> srv' = srv
        | Some h \<Rightarrow>
            if managed then r = builtin \<and> srv' = srv
            else if v_exn srv then r = Inl unknown_property \<and> srv' = srv
            else srv' = srv\<lparr>y_user := snd (call h), v_exn := (fst (call h) = Raised)\<rparr> \<and>
              r = (case fst (call h) of
                     Returned z \<Rightarrow> if z = ZNull then builtin else Inr z
                   | _ \<Rightarrow> Inl unknown_property)) \<and>
       (device \<and> pr = PROP_PROTOCOL_OBJECT_TYPES_SUPPORTED \<longrightarrow>
          r = Inr (ZBitString (php_bacnet_bitstring_new (object_types_supported L srv))))"
proof -
  have d: "device_property L srv' p \<noteq> Some ZNull" for p srv'
    by (simp add: device_property_def)
  have u: "device_property L (srv\<lparr>y_user := x, v_exn := b\<rparr>) pr = device_property L srv pr" for x b
    by (simp add: device_property_def object_types_supported_def local_keys_def)
  have k: "is_this_device (srv\<lparr>y_user := x, v_exn := b\<rparr>) type inst = is_this_device srv type inst" for x b
    by (simp add: is_this_device_def)
  have ne: "unknown_property \<noteq> unknown_object"
    by (simp add: unknown_property_def unknown_object_def ERROR_CLASS_OBJECT_def ERROR_CLASS_PROPERTY_def)
  have t: "device_property L srv PROP_PROTOCOL_OBJECT_TYPES_SUPPORTED =
      Some (ZBitString (php_bacnet_bitstring_new (object_types_supported L srv)))"
    by (simp add: device_property_def prop_defs)
  note m = php_bacnet_server_is_managed_device_property_def
  show ?thesis
  proof (cases "is_this_device srv type inst \<or> object_key type inst \<in> set (local_keys srv)")
    case False
    then show ?thesis
      by (simp add: php_bacnet_server_resolve_property_def split: option.split)
  next
    case known: True
    then have ka: "(\<not> is_this_device srv type inst \<and> object_key type inst \<notin> set (local_keys srv)) = False" by blast
    show ?thesis
    proof (cases "v_read_handler srv")
      case None
      then show ?thesis
        using known d [of srv pr] ne t unfolding php_bacnet_server_resolve_property_def ka
        by (auto simp: php_bacnet_server_default_device_property_def split: option.split)
    next
      case (Some h)
      obtain c x where c: "h (y_user srv) (php_bacnet_oid_from_c type inst) (property_arg pr) (array_index_zval ai) = (c, x)"
        by (cases "h (y_user srv) (php_bacnet_oid_from_c type inst) (property_arg pr) (array_index_zval ai)")
      show ?thesis
        using known Some c d [of srv pr] ne t unfolding php_bacnet_server_resolve_property_def ka
        by (cases c; auto simp: php_bacnet_server_default_device_property_def m u k
            split: option.split zval.split)
    qed
  qed
qed

text \<open>The server of the examples has a handler; its supported object types are its own.\<close>

lemma resolve_explained_witness:
  "fst (php_bacnet_server_resolve_property demo_link OBJECT_DEVICE 9 PROP_PROTOCOL_OBJECT_TYPES_SUPPORTED
     BACNET_ARRAY_ALL demo_server) =
   Inr (ZBitString (php_bacnet_bitstring_new (object_types_supported demo_link demo_server)))"
  using resolve_explained [where L = demo_link and type = OBJECT_DEVICE and inst = 9 and
      pr = PROP_PROTOCOL_OBJECT_TYPES_SUPPORTED and ai = BACNET_ARRAY_ALL and srv = demo_server]
  by (simp add: is_this_device_def case_prod_beta Let_def) metis

text \<open>The acknowledgement never outgrows the buffer.\<close>

lemma rpm_values_fit:
  "rpm_values L type inst ai prs ack srv = (Some ack', srv') \<Longrightarrow> length ack \<le> p_max_apdu L \<Longrightarrow>
   length ack' \<le> p_max_apdu L"
proof (induction prs arbitrary: ack srv)
  case (Cons pr prs)
  then show ?case by (auto simp: Let_def split: prod.splits if_splits)
qed simp

lemma rpm_properties_fit:
  "rpm_properties L type inst request ack srv = (RpmClosed request' ack', srv') \<Longrightarrow>
   length ack' \<le> p_max_apdu L"
proof (induction L type inst request ack srv rule: rpm_properties.induct)
  case (1 L type inst request ack srv)
  obtain len pr ai where p: "p_rpm_property L request = (len, pr, ai)"
    by (cases "p_rpm_property L request") auto
  obtain x s where v: "rpm_values L type inst ai (requested_properties srv type inst pr) ack srv = (x, s)"
    by (cases "rpm_values L type inst ai (requested_properties srv type inst pr) ack srv")
  show ?case
  proof (cases "request = [] \<or> p_rpm_object_end L request > 0 \<or> len \<le> 0 \<or> x = None")
    case True
    then show ?thesis using "1.prems"
      by (auto simp: rpm_properties.simps [of L type inst request] Let_def p v split: if_splits)
  next
    case False
    then obtain a where a: "x = Some a" by blast
    have "rpm_properties L type inst (drop (nat len) request) a s = (RpmClosed request' ack', srv')"
      using "1.prems" False by (simp add: rpm_properties.simps [of L type inst request] p v a)
    then show ?thesis
      using "1.IH" [OF _ refl _ refl p [symmetric] refl _ refl v [symmetric] a] False by simp
  qed
qed

text \<open>C20.
  A ReadPropertyMultiple is acknowledged with at most MAX_APDU bytes: whatever the request asks
  for, an acknowledgement that would be longer is given up, at the object, the property or the
  end mark that does not fit.
\<close>

theorem rpm_ack_fits:
  assumes "rpm_objects L request ack srv = (Some (Some ack'), srv')" and "length ack \<le> p_max_apdu L"
  shows "length ack' \<le> p_max_apdu L"
  using assms
proof (induction L request ack srv rule: rpm_objects.induct)
  case (1 L request ack srv)
  obtain len ty inst where p: "p_rpm_object L request = (len, ty, inst)"
    by (cases "p_rpm_object L request") auto
  let ?b = "p_rpm_ack_object_begin L ty inst"
  obtain x s where v: "rpm_properties L ty inst (drop (nat len) request) (ack @ ?b) srv = (x, s)"
    by (cases "rpm_properties L ty inst (drop (nat len) request) (ack @ ?b) srv")
  show ?case
  proof (cases "request = [] \<or> len \<le> 0 \<or> length ack + length ?b > p_max_apdu L \<or> (\<nexists>q a. x = RpmClosed q a)")
    case True
    then show ?thesis using "1.prems"
      by (cases x) (auto simp: rpm_objects.simps [of L request] p v Let_def split: if_splits)
  next
    case False
    then obtain q a where x: "x = RpmClosed q a" by blast
    have "rpm_objects L q a s = (Some (Some ack'), srv')"
      using "1.prems" False by (simp add: rpm_objects.simps [of L request] p v x)
    then show ?thesis
      using "1.IH" [OF _ refl p [symmetric] refl _ refl _ v [symmetric] x] False
        rpm_properties_fit [OF v [unfolded x]] by simp
  qed
qed

lemma rpm_ack_fits_witness:
  "\<exists>ack' srv'. rpm_objects demo_link [5, 85, 255] [0x30, 1, 14] demo_server = (Some (Some ack'), srv') \<and>
     length ack' \<le> 1476"
proof -
  have "\<exists>ack' srv'. rpm_objects demo_link [5, 85, 255] [0x30, 1, 14] demo_server = (Some (Some ack'), srv')"
    by (simp add: rpm_objects.simps rpm_properties.simps property_value_def php_bacnet_server_resolve_property_def
        php_bacnet_server_is_managed_device_property_def is_this_device_def OBJECT_DEVICE_def
        requested_properties_def PROP_ALL_def demo_reader_def property_arg_def property_try_from_def
        property_enum_def zval_to_bacapp_value_def object_key_def OBJECT_ANALOG_INPUT_def)
  then show ?thesis using rpm_ack_fits [of demo_link] by fastforce
qed

subsection \<open>Who-Is and notifications\<close>

text \<open>
  A Who-Is that can be decoded is answered by one broadcast I-Am of the device exactly if the
  device number lies within the limits it gives (no limit where a negative number stands), and
  by nothing otherwise; it changes nothing else.
\<close>

theorem who_is_answered:
  assumes "apdu ! 0 = PDU_TYPE_UNCONFIRMED_SERVICE_REQUEST" "apdu ! 1 = SERVICE_UNCONFIRMED_WHO_IS"
    and "v_auto_iam srv" "uint (v_device_id srv) \<le> BACNET_MAX_INSTANCE"
    and "(if length apdu \<le> 2 then (0, -1, -1) else p_whois L (drop 2 apdu)) = (n, low, high)" "0 \<le> n"
    and "p_iam L (v_device_id srv) 480 3 (v_vendor_id srv) = Some iam" "deliverable L local_broadcast iam"
  shows "serve_apdu L source apdu srv =
    (if (low < 0 \<or> low \<le> uint (v_device_id srv)) \<and> (high < 0 \<or> uint (v_device_id srv) \<le> high)
     then srv\<lparr>y_sent := y_sent srv @ [(local_broadcast, iam)]\<rparr> else srv)"
proof -
  have k: "cov_kind apdu (length apdu) = None"
    using assms(1,2) by (simp add: cov_kind_def pdu_defs service_defs)
  have sint: "sint (v_device_id srv) = uint (v_device_id srv)"
    unfolding sint_uint
    by (rule signed_take_bit_int_eq_self) (use assms(4) in \<open>simp_all add: BACNET_MAX_INSTANCE_def order_trans [OF _ uint_nonnegative]\<close>)
  have r: "(if drop 2 apdu \<noteq> [] then p_whois L (drop 2 apdu) else (0, -1, -1)) = (n, low, high)"
    using assms(5) by (simp split: if_splits)
  have "snd (php_bacnet_server_send_iam L srv) = srv\<lparr>y_sent := y_sent srv @ [(local_broadcast, iam)]\<rparr>"
    using assms(7) send_apdu_deliverable [OF assms(8), of srv]
    by (simp add: php_bacnet_server_send_iam_def SEGMENTATION_NONE_def send_apdu_def)
  moreover have "serve_apdu L source apdu srv = serve_who_is L source (drop 2 apdu) srv"
    using assms(1,2,3) by (simp add: serve_apdu_def k pdu_defs)
  ultimately show ?thesis
    unfolding serve_who_is_def r using assms(6) by (simp add: whois_matches_def sint)
qed

lemma who_is_answered_witness:
  "y_sent (serve_apdu demo_link demo_source [0x10, 8, 1, 9] demo_server) = [(local_broadcast, [0x10, 0, 9, 0])] \<and>
   serve_apdu demo_link demo_source [0x10, 8, 10, 20] demo_server = demo_server"
  using who_is_answered [of "[0x10, 8, 1, 9]" demo_server demo_link 2 1 9 "[0x10, 0, 9, 0]" demo_source]
    who_is_answered [of "[0x10, 8, 10, 20]" demo_server demo_link 2 10 20 "[0x10, 0, 9, 0]" demo_source]
  by (simp add: pdu_defs service_defs BACNET_MAX_INSTANCE_def)

text \<open>
  A confirmed change-of-value notification that reaches a waiting client is acknowledged to its
  sender with its invoke id, whatever comes of it: no handler, values that cannot be decoded, a
  handler that fails.  The handler gets the event when there is one and the values can be
  decoded, and is not called otherwise.
\<close>

theorem confirmed_cov_acknowledged:
  assumes "p_npdu L pdu = (int nl, False)" "nl + 5 \<le> length pdu" "length pdu < 65536"
    and "pdu ! nl AND 0xF0 = PDU_TYPE_CONFIRMED_SERVICE_REQUEST" "pdu ! (nl + 3) = SERVICE_CONFIRMED_COV_NOTIFICATION"
    and "p_simple_ack L (pdu ! (nl + 2)) SERVICE_CONFIRMED_COV_NOTIFICATION = Some ack" "deliverable L source ack"
  shows "php_bacnet_cov_handle_unsolicited L handler (srv :: 'p server) source pdu =
    (case (handler, p_cov_decode L (drop (nl + 4) pdu)) of
       (Some h, n, data) \<Rightarrow>
         if 0 < n then (fst (h (y_user srv) (cov_event data)),
              srv\<lparr>y_user := snd (h (y_user srv) (cov_event data)), y_sent := y_sent srv @ [(source, ack)]\<rparr>)
         else (True, srv\<lparr>y_sent := y_sent srv @ [(source, ack)]\<rparr>)
     | _ \<Rightarrow> (True, srv\<lparr>y_sent := y_sent srv @ [(source, ack)]\<rparr>))"
proof -
  let ?a = "drop nl pdu"
  have al: "apdu_len (int nl) pdu = length pdu - nl" "apdu_at (int nl) pdu = ?a"
    using assms(2,3) by (simp_all add: apdu_len_def apdu_at_def nat_diff_distrib' of_nat_diff)
  have "?a ! 0 AND 0xF0 = PDU_TYPE_CONFIRMED_SERVICE_REQUEST" "?a ! 3 = SERVICE_CONFIRMED_COV_NOTIFICATION"
    "?a ! 2 = pdu ! (nl + 2)"
    using assms(2,4,5) by simp_all
  then have k: "cov_kind ?a (length pdu - nl) = Some True" and inv: "?a ! 2 = pdu ! (nl + 2)"
    using assms(2) by (simp_all add: cov_kind_def pdu_defs)
  have dd: "cov_decoded L ?a (length pdu - nl) True =
      (case p_cov_decode L (drop (nl + 4) pdu) of (n, data) \<Rightarrow> if n \<le> 0 then None else Some data)"
  proof -
    have "\<not> length pdu - nl < 5" using assms(2) by linarith
    then show ?thesis by (simp add: cov_decoded_def add.commute)
  qed
  obtain n data where cd: "p_cov_decode L (drop (nl + 4) pdu) = (n, data)"
    by (cases "p_cov_decode L (drop (nl + 4) pdu)")
  have off: "\<not> (int nl < 0 \<or> False \<or> int nl mod 65536 + 2 > int (length pdu))"
    using assms(2,3) by simp
  show ?thesis
    unfolding php_bacnet_cov_handle_unsolicited_def assms(1) prod.case if_not_P [OF off] al Let_def k
      option.case cov_receive_def php_bacnet_cov_dispatch_def dd cd inv
    using send_encoded_deliverable [OF assms(6,7)]
    by (cases handler) (auto split: prod.split)
qed

lemma confirmed_cov_acknowledged_witness:
  "y_sent (snd (php_bacnet_cov_handle_unsolicited demo_link (Some (\<lambda>calls event. (False, Suc calls))) demo_server
     demo_source [1, 4, 0, 5, 77, 1, 8])) = [(demo_source, [0x20, 77, 1])]"
  by (subst confirmed_cov_acknowledged [of _ _ 2 "[0x20, 77, 1]"])
     (simp_all add: demo_npdu_def pdu_defs service_defs)

subsection \<open>The queue of a MixedServer\<close>

definition poll_result :: "'p server \<Rightarrow> (bacnet_exn + unit) \<times> 'p server" where
  "poll_result srv = (if v_exn srv then Inl HandlerException else Inr (), srv)"

lemma check_incoming_exn:
  "check_incoming L source pdu (srv\<lparr>v_exn := b\<rparr>) =
   (fst (check_incoming L source pdu srv), (snd (check_incoming L source pdu srv))\<lparr>v_exn := b\<rparr>)"
  by (simp add: check_incoming_def ask_security_def server_now_def split: prod.split)

lemma poll_received:
  assumes "v_initialized srv" "php_bacnet_client_pop_pdu (v_queue srv) = None" "pdu \<noteq> []"
    and "check_incoming L source pdu srv = (ok, s)"
  shows "Server_poll L (source, pdu) srv =
    poll_result (if ok then serve_pdu L source pdu (s\<lparr>v_exn := False\<rparr>) else s\<lparr>v_exn := False\<rparr>)"
  using assms(1-3) check_incoming_exn [of L source pdu False srv]
  by (simp add: Server_poll_def assms(4) Let_def poll_result_def)

lemma poll_queued:
  assumes "v_initialized srv" "php_bacnet_client_pop_pdu (v_queue srv) = Some ((source, pdu), q)" "pdu \<noteq> []"
  shows "Server_poll L rx srv = poll_result (serve_pdu L source pdu (srv\<lparr>v_exn := False, v_queue := q\<rparr>))"
  using assms by (simp add: Server_poll_def Let_def poll_result_def)

text \<open>C15.
  A packet that arrives while a MixedServer waits for an answer is served by its next poll as a
  poll would have served it at once: the protection layer looks at it when it arrives and not
  again; what it refuses is not queued.  Both polls apply serve_pdu to the same packet and to
  states that differ only in the queue, which is empty in both.
\<close>

theorem set_aside_served_later:
  assumes "v_initialized srv" "queue_wf (v_queue srv)" "queue_contents (v_queue srv) = []"
    and "pdu \<noteq> []" "length pdu \<le> p_max_apdu L + p_max_npdu L"
    and "php_bacnet_mixed_queue_unsolicited L srv source pdu = (ok, waiting)"
  shows "ok \<and> (\<exists>accepted s q. queue_contents q = [] \<and>
    Server_poll L (source, pdu) srv =
      poll_result (if accepted then serve_pdu L source pdu (s\<lparr>v_exn := False\<rparr>) else s\<lparr>v_exn := False\<rparr>) \<and>
    (if accepted
     then Server_poll L rx waiting = poll_result (serve_pdu L source pdu (s\<lparr>v_exn := False, v_queue := q\<rparr>))
     else waiting = s) \<and> queue_contents (v_queue s) = [])"
proof -
  obtain a s where c: "check_incoming L source pdu srv = (a, s)" by (cases "check_incoming L source pdu srv")
  have q: "v_queue s = v_queue srv" "v_initialized s"
    using ask_security_frame(4,9) [of _ srv a s] c assms(1) by (auto simp: check_incoming_def)
  have none: "php_bacnet_client_pop_pdu (v_queue srv) = None" using pq.deq_none [OF assms(2)] assms(3) by blast
  note direct = poll_received [OF assms(1) none assms(4) c]
  show ?thesis
  proof (cases a)
    case False
    then have "ok \<and> waiting = s"
      using assms(6) c by (simp add: php_bacnet_mixed_queue_unsolicited_def)
    then show ?thesis using direct False q assms(3) by (auto simp: q intro!: exI [of _ False] exI [of _ s] exI [of _ "v_queue srv"])
  next
    case True
    let ?n = "p_max_apdu L + p_max_npdu L"
    have adm: "pdu_ok ?n (source, pdu)" using assms(4,5) by (simp add: pdu_ok_def)
    obtain t q1 where e: "php_bacnet_client_queue_pdu ?n source pdu (v_queue srv) = (t, q1)"
      by (cases "php_bacnet_client_queue_pdu ?n source pdu (v_queue srv)")
    then have t: "t" "queue_wf q1" "queue_contents q1 = [(source, pdu)]"
      using pq.enq_taken [OF assms(2) adm] assms(3) by (auto simp: PHP_BACNET_PENDING_PDU_CAPACITY_def)
    then obtain x q2 where p: "php_bacnet_client_pop_pdu q1 = Some (x, q2)"
      using pq.deq_none [OF t(2)] by (cases "php_bacnet_client_pop_pdu q1") auto
    then have x: "x = (source, pdu)" "queue_contents q2 = []" using pq.deq_some [OF t(2)] t(3) by auto
    have w: "ok" "waiting = s\<lparr>v_queue := q1\<rparr>"
      using assms(6) c True e t(1) q
      by (simp_all add: php_bacnet_mixed_queue_unsolicited_def)
    have "Server_poll L rx waiting = poll_result (serve_pdu L source pdu (s\<lparr>v_exn := False, v_queue := q2\<rparr>))"
      using poll_queued [of waiting source pdu q2 L rx] assms(4) p x q w by simp
    then show ?thesis
      using direct True x w q assms(3)
      by (auto intro!: exI [of _ True] exI [of _ s] exI [of _ q2])
  qed
qed

lemma set_aside_served_later_witness:
  "fst (php_bacnet_mixed_queue_unsolicited demo_link demo_server demo_source demo_who_is)"
  using set_aside_served_later [OF _ _ _ _ _ prod.collapse [symmetric], of demo_server demo_who_is demo_link demo_source]
  by (simp add: empty_queue_wf demo_who_is_def)

subsection \<open>Every request is answered\<close>

text \<open>What the encoders and the data link promise: answers of at most MAX_APDU bytes fit.\<close>

definition link_ok :: "server_env \<Rightarrow> bacnet_address \<Rightarrow> bool" where
  "link_ok L source \<longleftrightarrow> 3 \<le> p_max_apdu L \<and>
     (\<exists>h. p_header L source False = Some h \<and> length h \<le> p_max_npdu L) \<and>
     (\<forall>invoke service err. \<exists>a. p_error L invoke service err = Some a \<and> length a \<le> p_max_apdu L) \<and>
     (\<forall>invoke reason. \<exists>a. p_reject L invoke reason = Some a \<and> length a \<le> p_max_apdu L) \<and>
     (\<forall>invoke reason server. length (p_abort L invoke reason server) \<le> p_max_apdu L)"

lemma link_delivers: "link_ok L source \<Longrightarrow> length a \<le> p_max_apdu L \<Longrightarrow> deliverable L source a"
  by (auto simp: link_ok_def deliverable_def)

definition answered :: "bacnet_address \<Rightarrow> 'p server \<Rightarrow> 'p server \<Rightarrow> bool" where
  "answered source srv srv' \<longleftrightarrow> (\<exists>a. y_sent srv' = y_sent srv @ [(source, a)])"

lemma answered_send: "deliverable L source a \<Longrightarrow> y_sent s = y_sent srv \<Longrightarrow> answered source srv (send_apdu L source a s)"
  by (simp add: answered_def send_apdu_deliverable)

lemma answered_error:
  assumes "link_ok L source" "y_sent s = y_sent srv"
  shows "answered source srv (send_error L source invoke service err s)"
proof -
  obtain a where "p_error L invoke service err = Some a" "length a \<le> p_max_apdu L"
    using assms(1) unfolding link_ok_def by blast
  then show ?thesis
    using answered_send [OF link_delivers [OF assms(1)] assms(2)] by (simp add: send_error_def send_encoded_def)
qed

text \<open>The handlers end: they return or raise an exception.\<close>

definition calls_end :: "'p server \<Rightarrow> bool" where
  "calls_end srv \<longleftrightarrow> (\<forall>h u oid pr val ai. v_write_handler srv = Some h \<longrightarrow> fst (h u oid pr val ai) \<noteq> CallFailed)"

text \<open>C21.
  A confirmed request is answered: for a ReadProperty or WriteProperty that can be decoded, and
  for a service the server does not know, exactly one APDU goes back to the client, a value, an
  acknowledgement, an error or a reject, unless a PHP handler left an exception, which poll
  raises instead.
\<close>

theorem confirmed_request_answered:
  assumes "link_ok L source" "calls_end srv" "\<not> v_exn srv"
    and "apdu ! 3 \<noteq> SERVICE_CONFIRMED_READ_PROP_MULTIPLE"
    and "apdu ! 3 = SERVICE_CONFIRMED_READ_PROPERTY \<Longrightarrow>
      p_rp_decode L (drop 4 apdu) = (n, rp) \<and> 0 \<le> n \<and>
      (\<forall>data. fst (property_value L (rp_object_type rp) (rp_instance rp) (rp_property rp) (rp_array_index rp) srv) = Inr data \<longrightarrow>
         (\<exists>a. p_rp_ack L (apdu ! 2) rp data = Some a \<and> length a \<le> p_max_apdu L))"
    and "apdu ! 3 = SERVICE_CONFIRMED_WRITE_PROPERTY \<Longrightarrow> 0 \<le> fst (p_wp_decode L (drop 4 apdu))"
  shows "v_exn (serve_confirmed L source apdu srv) \<or> answered source srv (serve_confirmed L source apdu srv)"
proof -
  let ?inv = "apdu ! 2"
  consider "apdu ! 3 = SERVICE_CONFIRMED_READ_PROPERTY" | "apdu ! 3 = SERVICE_CONFIRMED_WRITE_PROPERTY"
    | "apdu ! 3 \<notin> {SERVICE_CONFIRMED_READ_PROPERTY, SERVICE_CONFIRMED_READ_PROP_MULTIPLE, SERVICE_CONFIRMED_WRITE_PROPERTY}"
    using assms(4) by blast
  then show ?thesis
  proof cases
    case 1
    have d: "p_rp_decode L (drop 4 apdu) = (n, rp)" "0 \<le> n" using 1 assms(5) by simp_all
    obtain r s where v: "property_value L (rp_object_type rp) (rp_instance rp) (rp_property rp) (rp_array_index rp) srv = (r, s)"
      by (cases "property_value L (rp_object_type rp) (rp_instance rp) (rp_property rp) (rp_array_index rp) srv")
    note s = quietD [OF property_value_quiet [OF v]]
    show ?thesis
    proof (cases r)
      case (Inl err)
      then show ?thesis
        using 1 d v answered_error [OF assms(1) s]
        by (cases "v_exn s") (simp_all add: serve_confirmed_def serve_read_property_def)
    next
      case (Inr data)
      obtain a where a: "p_rp_ack L ?inv rp data = Some a" "length a \<le> p_max_apdu L"
        using 1 assms(5) v Inr by auto
      then show ?thesis
        using 1 d v Inr answered_send [OF link_delivers [OF assms(1) a(2)] s]
        by (simp add: serve_confirmed_def serve_read_property_def send_encoded_def)
    qed
  next
    case 2
    have sv: "SERVICE_CONFIRMED_WRITE_PROPERTY \<notin> {SERVICE_CONFIRMED_READ_PROPERTY, SERVICE_CONFIRMED_READ_PROP_MULTIPLE}"
      by (simp add: service_defs)
    have e: "serve_confirmed L source apdu srv = serve_write_property L source ?inv apdu (drop 4 apdu) srv"
      using 2 sv by (simp add: serve_confirmed_def)
    have wa: "deliverable L source (write_ack ?inv)"
      using assms(1) by (intro link_delivers) (auto simp: write_ack_def link_ok_def)
    obtain n wp where d: "p_wp_decode L (drop 4 apdu) = (n, wp)" by (cases "p_wp_decode L (drop 4 apdu)")
    obtain b s where q: "ask_security (php_bacnet_security_is_duplicate_write source apdu) srv = (b, s)"
      by (cases "ask_security (php_bacnet_security_is_duplicate_write source apdu) srv")
    note s = ask_security_frame(1) [OF q] and w = ask_security_frame(6) [OF q]
    show ?thesis
    proof (cases "b \<or> \<not> object_key (rp_object_type (wp_ref wp)) (rp_instance (wp_ref wp)) \<in> set (local_keys s) \<or>
        v_write_handler s = None")
      case True
      then show ?thesis
        using 2 assms(6) d q answered_send [OF wa s] answered_error [OF assms(1) s, of ?inv SERVICE_CONFIRMED_WRITE_PROPERTY unknown_object]
        unfolding e by (auto simp: serve_write_property_def)
    next
      case False
      then obtain h where h: "v_write_handler s = Some h" by blast
      obtain c t where c: "call_write_handler L h wp s = (c, t)" by (cases "call_write_handler L h wp s")
      have "c \<noteq> CallFailed" "c = Raised \<Longrightarrow> v_exn t"
        using c assms(2) h w unfolding calls_end_def
        by (auto simp: call_write_handler_def Let_def split: prod.splits) (metis fst_conv)
      then show ?thesis
        using 2 assms(6) d q c h False quietD [OF call_write_quiet [OF c]] s
          answered_send [OF wa, of "with_security (php_bacnet_security_record_write source apdu) t" srv]
        unfolding e by (cases c) (auto simp: serve_write_property_def)
    qed
  next
    case 3
    obtain a where a: "p_reject L ?inv REJECT_REASON_UNRECOGNIZED_SERVICE = Some a" "length a \<le> p_max_apdu L"
      using assms(1) unfolding link_ok_def by blast
    then show ?thesis
      using 3 answered_send [OF link_delivers [OF assms(1) a(2)] refl, of srv]
      by (simp add: serve_confirmed_def send_encoded_def)
  qed
qed

lemma demo_link_ok: "link_ok demo_link source"
  by (simp add: link_ok_def demo_link_def)

lemma confirmed_request_answered_witness:
  "(v_exn (serve_confirmed demo_link demo_source demo_write_apdu demo_server) \<or>
    answered demo_source demo_server (serve_confirmed demo_link demo_source demo_write_apdu demo_server)) \<and>
   (v_exn (serve_confirmed demo_link demo_source [0, 5, 1, 12, 5, 85] demo_server) \<or>
    answered demo_source demo_server (serve_confirmed demo_link demo_source [0, 5, 1, 12, 5, 85] demo_server))"
proof
  let ?rp = "snd (demo_ref [5, 85])"
  have v: "fst (property_value demo_link (rp_object_type ?rp) (rp_instance ?rp) (rp_property ?rp) (rp_array_index ?rp) demo_server) =
      Inr [0x21, 7]"
    by (simp add: property_value_def php_bacnet_server_resolve_property_def demo_ref_def
        php_bacnet_server_is_managed_device_property_def is_this_device_def OBJECT_DEVICE_def OBJECT_ANALOG_INPUT_def
        demo_reader_def property_arg_def property_try_from_def property_enum_def zval_to_bacapp_value_def object_key_def)
  show "v_exn (serve_confirmed demo_link demo_source demo_write_apdu demo_server) \<or>
    answered demo_source demo_server (serve_confirmed demo_link demo_source demo_write_apdu demo_server)"
    by (rule confirmed_request_answered [OF demo_link_ok])
       (simp_all add: calls_end_def demo_writer_def demo_write_apdu_def service_defs demo_ref_def)
  have "p_rp_decode demo_link [5, 85] = (2, ?rp)" by (simp add: demo_ref_def)
  then show "v_exn (serve_confirmed demo_link demo_source [0, 5, 1, 12, 5, 85] demo_server) \<or>
    answered demo_source demo_server (serve_confirmed demo_link demo_source [0, 5, 1, 12, 5, 85] demo_server)"
    using v by (intro confirmed_request_answered [OF demo_link_ok, where n = 2 and rp = ?rp])
       (simp_all add: calls_end_def demo_writer_def service_defs)
qed

subsection \<open>Configuration\<close>

text \<open>
  setDeviceInfo stores everything or nothing.  It is refused, without any change, exactly when a
  key is unknown or numeric, the vendor id is not an integer from 1 to 65535, the vendor or model
  name is missing or empty, or an optional entry is not a non-empty string; otherwise the vendor
  id is kept without loss and each text given replaces the old one.
\<close>

theorem device_info_atomic:
  "case Server_setDeviceInfo info srv of
     (Inl err, srv') \<Rightarrow> srv' = srv \<and> (\<exists>msg. err = PhpValueError msg)
   | (Inr _, srv') \<Rightarrow>
       unknown_info_key info = None \<and>
       map_of info (KStr ''vendorId'') = Some (ZLong (uint (v_vendor_id srv'))) \<and> 1 \<le> uint (v_vendor_id srv') \<and>
       info_string info ''vendorName'' = Some (v_vendor_name srv') \<and> v_vendor_name srv' \<noteq> [] \<and>
       info_string info ''modelName'' = Some (v_model_name srv') \<and> v_model_name srv' \<noteq> [] \<and>
       v_object_name srv' = info_or info ''objectName'' (v_object_name srv) \<and>
       v_description srv' = info_or info ''description'' (v_description srv) \<and>
       v_firmware_revision srv' = info_or info ''firmwareRevision'' (v_firmware_revision srv) \<and>
       v_application_software_version srv' =
         info_or info ''applicationSoftwareVersion'' (v_application_software_version srv) \<and>
       v_device_id srv' = v_device_id srv \<and> v_local_objects srv' = v_local_objects srv \<and>
       v_initialized srv' = v_initialized srv \<and> v_has_security srv' = v_has_security srv \<and> v_queue srv' = v_queue srv \<and>
       v_security srv' = v_security srv \<and> v_reads srv' = v_reads srv \<and> v_clock srv' = v_clock srv"
proof -
  have w: "uint (word_of_int n :: u16) = n" if "\<not> (n < 1 \<or> n > 65535)" for n
    using that by (simp add: uint_word_of_int)
  show ?thesis
    unfolding Server_setDeviceInfo_def
    by (auto split: option.split zval.split simp: w)
qed

end
