(* ===== verification/Server_Objects.thy ===== *)
theory Server_Objects
  imports Server_Demo
begin

text \<open>
  The local objects of a server and the object list it reports.  The specification is a list of
  pairs of type and instance in the order of addition; the code keeps a table of packed keys and
  counts through it.
\<close>

subsection \<open>Keys\<close>

definition valid_instance :: "u32 \<Rightarrow> bool" where
  "valid_instance inst \<longleftrightarrow> uint inst \<le> BACNET_MAX_INSTANCE"

lemma valid_instance_bits: "valid_instance inst \<Longrightarrow> 22 \<le> n \<Longrightarrow> \<not> bit inst n"
proof
  assume v: "valid_instance inst" "22 \<le> n" "bit inst n"
  have "take_bit 22 (uint inst) = uint inst"
    using v(1) by (simp add: take_bit_int_eq_self valid_instance_def BACNET_MAX_INSTANCE_def)
  then have "\<not> bit (uint inst) n"
    using v(2) by (metis bit_take_bit_iff leD)
  then show False using v(3) bit_imp_le_length [OF v(3)] by (simp add: bit_uint_iff)
qed

lemma key_type: "valid_instance inst \<Longrightarrow> ucast (drop_bit 22 (object_key type inst)) = type"
  by (rule bit_word_eqI)
     (auto simp: object_key_def bit_simps valid_instance_bits)

lemma key_instance:
  assumes "valid_instance inst"
  shows "ucast (object_key type inst AND word_of_int BACNET_MAX_INSTANCE) = inst"
proof (rule bit_word_eqI)
  fix n assume n: "n < LENGTH(32)"
  have m: "word_of_int BACNET_MAX_INSTANCE = (mask 22 :: u64)"
    by (simp add: BACNET_MAX_INSTANCE_def mask_numeral)
  show "bit (ucast (object_key type inst AND word_of_int BACNET_MAX_INSTANCE) :: u32) n = bit inst n"
    using n valid_instance_bits [OF assms, of n] unfolding m
    by (cases "22 \<le> n") (auto simp: object_key_def bit_simps)
qed

lemma object_key_inj:
  assumes "valid_instance i" "valid_instance j"
  shows "object_key s i = object_key t j \<longleftrightarrow> s = t \<and> i = j"
  using key_type [OF assms(1), of s] key_type [OF assms(2), of t]
    key_instance [OF assms(1), of s] key_instance [OF assms(2), of t] by metis

subsection \<open>The specification\<close>

datatype object_op = AddObject php_oid | RemoveObject php_oid

fun run_object_op :: "object_op \<Rightarrow> 'p server \<Rightarrow> 'p server" where
  "run_object_op (AddObject oid) srv = Server_addLocalObject oid srv"
| "run_object_op (RemoveObject oid) srv = Server_removeLocalObject oid srv"

fun spec_object_op :: "u32 \<Rightarrow> object_op \<Rightarrow> (u32 \<times> u32) list \<Rightarrow> (u32 \<times> u32) list" where
  "spec_object_op dev (AddObject oid) os =
     (if (oid_type oid, oid_instance oid) = (OBJECT_DEVICE, dev) \<or> (oid_type oid, oid_instance oid) \<in> set os
      then os else os @ [(oid_type oid, oid_instance oid)])"
| "spec_object_op dev (RemoveObject oid) os = filter (\<lambda>x. x \<noteq> (oid_type oid, oid_instance oid)) os"

fun op_oid :: "object_op \<Rightarrow> php_oid" where
  "op_oid (AddObject oid) = oid"
| "op_oid (RemoveObject oid) = oid"

definition key_of :: "u32 \<times> u32 \<Rightarrow> u64" where
  "key_of x = object_key (fst x) (snd x)"

definition represents :: "'p server \<Rightarrow> (u32 \<times> u32) list \<Rightarrow> bool" where
  "represents srv os \<longleftrightarrow> v_local_objects srv = Some (map key_of os) \<and> valid_instance (v_device_id srv) \<and>
     (\<forall>x \<in> set os. valid_instance (snd x)) \<and> distinct os \<and> (OBJECT_DEVICE, v_device_id srv) \<notin> set os"

lemma key_of_inj: "valid_instance (snd x) \<Longrightarrow> valid_instance (snd y) \<Longrightarrow> key_of x = key_of y \<longleftrightarrow> x = y"
  using object_key_inj [of "snd x" "snd y" "fst x" "fst y"] by (auto simp: key_of_def prod_eq_iff)

lemma represents_op:
  assumes r: "represents srv os" and v: "valid_instance (oid_instance (op_oid op))"
  shows "represents (run_object_op op srv) (spec_object_op (v_device_id srv) op os) \<and>
    v_device_id (run_object_op op srv) = v_device_id srv"
proof -
  have vs: "valid_instance (snd x)" if "x \<in> set os" for x using r that by (auto simp: represents_def)
  have m: "key_of x \<in> set (map key_of os) \<longleftrightarrow> x \<in> set os" if "valid_instance (snd x)" for x
  proof -
    have "x \<in> set os" if "key_of x = key_of y" "y \<in> set os" for y
      using key_of_inj [of x y] that \<open>valid_instance (snd x)\<close> vs by auto
    then show ?thesis by auto
  qed
  show ?thesis
  proof (cases op)
    case (AddObject oid)
    let ?x = "(oid_type oid, oid_instance oid)"
    have vx: "valid_instance (snd ?x)" using v AddObject by simp
    show ?thesis
      using r vx m [OF vx] unfolding AddObject
      by (auto simp: represents_def Server_addLocalObject_def key_of_def Let_def)
  next
    case (RemoveObject oid)
    let ?x = "(oid_type oid, oid_instance oid)"
    have vx: "valid_instance (snd ?x)" using v RemoveObject by simp
    have "filter (\<lambda>k. k \<noteq> key_of ?x) (map key_of os) = map key_of (filter (\<lambda>y. y \<noteq> ?x) os)"
      unfolding filter_map comp_def using key_of_inj [OF vs vx]
      by (intro arg_cong [where f = "map key_of"] filter_cong) auto
    then show ?thesis
      using r unfolding RemoveObject
      by (simp add: represents_def Server_removeLocalObject_def key_of_def)
  qed
qed

lemma represents_ops:
  assumes "represents srv os" "\<forall>op \<in> set ops. valid_instance (oid_instance (op_oid op))"
  shows "represents (fold run_object_op ops srv) (fold (spec_object_op (v_device_id srv)) ops os) \<and>
    v_device_id (fold run_object_op ops srv) = v_device_id srv"
  using assms
proof (induction ops arbitrary: srv os)
  case (Cons op ops)
  then have r: "represents (run_object_op op srv) (spec_object_op (v_device_id srv) op os)"
    "v_device_id (run_object_op op srv) = v_device_id srv"
    using represents_op [of srv os op] by auto
  show ?case using Cons.IH [OF r(1)] Cons.prems(2) r(2) by simp
qed simp

lemma spec_length: "length (fold (spec_object_op dev) ops os) \<le> length ops + length os"
proof (induction ops arbitrary: os)
  case (Cons op ops)
  have "length (spec_object_op dev op os) \<le> Suc (length os)"
    by (cases op) (auto intro: le_SucI)
  then show ?case using Cons [of "spec_object_op dev op os"] by simp
qed simp

subsection \<open>Counting through the table\<close>

lemma own_device_iff:
  assumes "represents srv os" "valid_instance (snd x)"
  shows "php_bacnet_server_is_own_device srv (key_of x) \<longleftrightarrow> x = (OBJECT_DEVICE, v_device_id srv)"
  using key_of_inj [OF assms(2), of "(OBJECT_DEVICE, v_device_id srv)"] assms(1)
  by (simp add: php_bacnet_server_is_own_device_def represents_def key_of_def)

lemma count_others:
  assumes "\<forall>k \<in> set keys. \<not> php_bacnet_server_is_own_device srv k"
  shows "foldl (\<lambda>count key. if \<not> php_bacnet_server_is_own_device srv key then count + 1 else count) c keys
    = c + of_nat (length keys)"
  using assms by (induction keys arbitrary: c) (simp_all add: add.assoc)

lemma search_others:
  assumes "\<forall>x \<in> set os. valid_instance (snd x) \<and> \<not> php_bacnet_server_is_own_device srv (key_of x)"
    and "unat current + length os < 2 ^ 32"
  shows "object_list_search srv index current (map key_of os) =
    (if unat current < unat index \<and> unat index \<le> unat current + length os
     then Some (os ! (unat index - unat current - 1)) else None)"
  using assms
proof (induction os arbitrary: current)
  case (Cons x os)
  have c: "unat (current + 1) = Suc (unat current)"
    using Cons.prems(2) by (simp add: unat_word_ariths)
  have eq: "current + 1 = index \<longleftrightarrow> unat index = Suc (unat current)"
    using c by (metis word_unat_eq_iff)
  have d: "Some (ucast (drop_bit 22 (key_of x)), ucast (key_of x AND word_of_int BACNET_MAX_INSTANCE)) = Some x"
    using Cons.prems(1) by (simp add: key_of_def key_type key_instance)
  have ih: "object_list_search srv index (current + 1) (map key_of os) =
    (if Suc (unat current) < unat index \<and> unat index \<le> Suc (unat current) + length os
     then Some (os ! (unat index - Suc (unat current) - 1)) else None)"
    using Cons.IH [of "current + 1"] Cons.prems c by simp
  show ?case
  proof (cases "current + 1 = index")
    case True
    then show ?thesis using Cons.prems(1) d eq by simp
  next
    case False
    then have "unat index \<noteq> Suc (unat current)" using eq by simp
    then show ?thesis
      using Cons.prems(1) False ih
      by (auto simp: nth_Cons' Suc_diff_Suc)
  qed
qed simp

text \<open>C16.
  The object list a server reports is its device followed by the local objects in the order in
  which they were added, each once, without those removed since and without the device itself,
  whatever objects were added and removed: the count is the length of that list, index i gives
  its i-th element, and every other index gives none.
\<close>

theorem object_list_complete:
  assumes "v_local_objects srv = Some []" "valid_instance (v_device_id srv)"
    and "\<forall>op \<in> set ops. valid_instance (oid_instance (op_oid op))" "length ops < 2 ^ 32 - 2"
    and "os = (OBJECT_DEVICE, v_device_id srv) # fold (spec_object_op (v_device_id srv)) ops []"
    and "srv' = fold run_object_op ops srv"
  shows "php_bacnet_server_object_list_count srv' = of_nat (length os) \<and>
    php_bacnet_server_object_list_item srv' index =
      (if 1 \<le> unat index \<and> unat index \<le> length os then Some (os ! (unat index - 1)) else None)"
proof -
  let ?s = "fold (spec_object_op (v_device_id srv)) ops []"
  have "represents srv []" using assms(1,2) by (simp add: represents_def)
  then have r: "represents srv' ?s" "v_device_id srv' = v_device_id srv"
    using represents_ops [OF _ assms(3)] by (auto simp: assms(6))
  have o: "\<forall>x \<in> set ?s. valid_instance (snd x) \<and> \<not> php_bacnet_server_is_own_device srv' (key_of x)"
    using r(1) own_device_iff [OF r(1)] by (auto simp: represents_def)
  have keys: "local_keys srv' = map key_of ?s" using r(1) by (simp add: represents_def local_keys_def)
  have len: "length ?s < 2 ^ 32 - 2" using spec_length [of "v_device_id srv" ops "[]"] assms(4) by simp
  have c: "php_bacnet_server_object_list_count srv' = of_nat (length os)"
    unfolding php_bacnet_server_object_list_count_def keys
    using o by (subst count_others) (auto simp: assms(5))
  have one: "unat (1 :: u32) = 1" by simp
  have s: "object_list_search srv' index 1 (map key_of ?s) =
    (if 1 < unat index \<and> unat index \<le> 1 + length ?s then Some (?s ! (unat index - 1 - 1)) else None)"
    using search_others [OF o, of 1 index] len unfolding one by simp
  have "index = 1 \<longleftrightarrow> unat index = 1" using word_unat_eq_iff [of index 1] by simp
  then show ?thesis
    using c s r(2) unfolding php_bacnet_server_object_list_item_def keys
    by (auto simp: assms(5) nth_Cons')
qed

lemma object_list_complete_witness:
  "php_bacnet_server_object_list_count (fold run_object_op
     [AddObject (php_bacnet_oid_from_c 0 5), AddObject (php_bacnet_oid_from_c 3 1), AddObject (php_bacnet_oid_from_c 8 9),
      RemoveObject (php_bacnet_oid_from_c 0 5)] (demo_server\<lparr>v_local_objects := Some []\<rparr>)) = 2"
  using object_list_complete [of "demo_server\<lparr>v_local_objects := Some []\<rparr>"
    "[AddObject (php_bacnet_oid_from_c 0 5), AddObject (php_bacnet_oid_from_c 3 1), AddObject (php_bacnet_oid_from_c 8 9),
      RemoveObject (php_bacnet_oid_from_c 0 5)]", OF _ _ _ _ refl refl]
  by (simp add: valid_instance_def BACNET_MAX_INSTANCE_def php_bacnet_oid_from_c_def OBJECT_DEVICE_def)

end
