(* ===== verification/Mixed.thy ===== *)
theory Mixed
  imports Client_Props Server_Props "HOL-Library.Sublist"
begin

text \<open>
  A MixedServer: the client and the server on one socket.  While a client operation waits for
  its answer, every other packet goes to php_bacnet_mixed_queue_unsolicited; the polls that
  follow take the packets from the queue.  The locale packet_sink states what the client
  operations need of an unsolicited handler to keep a relation between the states of its
  context; the handler of the MixedServer is shown to be one.
\<close>

subsection \<open>What the cache leaves alone\<close>

lemma cache_lookup_keeps: "cache_lookup N p key cap st = (r, st') \<Longrightarrow> k_ctx st' = k_ctx st"
  by (auto simp: cache_lookup_def split: prod.splits)

lemma cache_store_keeps [simp]: "k_ctx (cache_store N p key data ttl st) = k_ctx st"
  by (simp add: cache_store_def with_cache_def)

lemma with_cache_keeps [simp]: "k_ctx (with_cache f st) = k_ctx st"
  by (simp add: with_cache_def)

lemma read_from_cache_keeps:
  "read_from_cache N dest rp refresh st = (early, st') \<Longrightarrow> k_ctx st' = k_ctx st \<and> early \<noteq> Some (Inl HandlerException)"
  by (auto simp: read_from_cache_def Let_def dest!: cache_lookup_keeps split: if_splits prod.splits option.splits)

lemma read_answer_keeps:
  "read_answer N dest rp timeout_ms status resp st = (r, st') \<Longrightarrow>
   k_ctx st' = k_ctx st \<and> (r = Inl HandlerException \<longrightarrow> status = -2)"
  by (auto simp: read_answer_def Let_def device_error_def refused_def timed_out_def split: if_splits option.splits prod.splits)

lemma write_answer_keeps:
  "write_answer N timeout_ms status resp st = (r, st') \<Longrightarrow>
   k_ctx st' = k_ctx st \<and> (r = Inl HandlerException \<longrightarrow> status = -2)"
  by (auto simp: write_answer_def invalidate_written_def device_error_def refused_def timed_out_def
      split: if_splits prod.splits)

lemma whois_result_keeps: "php_bacnet_whois_result N es st = (ds, st') \<Longrightarrow> k_ctx st' = k_ctx st"
  by (induction es arbitrary: st ds) (auto simp: Let_def split: prod.splits)

lemma whois_from_cache_keeps:
  "whois_from_cache N limits refresh st = (early, st') \<Longrightarrow> k_ctx st' = k_ctx st"
  by (auto simp: whois_from_cache_def Let_def dest!: cache_lookup_keeps whois_result_keeps
      split: if_splits prod.splits option.splits)

lemma whois_finish_keeps: "whois_finish N limits count es st = (ds, st') \<Longrightarrow> k_ctx st' = k_ctx st"
  by (auto simp: whois_finish_def whois_store_def dest!: whois_result_keeps split: if_splits)

subsection \<open>Handlers that only take packets in\<close>

definition packets :: "io_round list \<Rightarrow> (bacnet_address \<times> bytes) list" where
  "packets rounds = map (\<lambda>r. (io_source r, io_pdu r)) rounds"

lemma packets_simps [simp]:
  "packets [] = []" "packets (r # rs) = (io_source r, io_pdu r) # packets rs"
  "packets (rs @ ts) = packets rs @ packets ts"
  by (simp_all add: packets_def)

lemma unsolicited_packets: "subseq (unsolicited_of cl rs) (packets rs)"
  by (induction rs) (auto simp: unsolicited_of_def)

locale packet_sink =
  fixes handler :: "'w handler"
    and took :: "'w \<Rightarrow> (bacnet_address \<times> bytes) list \<Rightarrow> 'w \<Rightarrow> bool"
  assumes took_none: "took w [] w"
    and took_one: "handler w source pdu = (ok, w') \<Longrightarrow> ok \<and> took w [(source, pdu)] w'"
    and took_trans: "took w ps w' \<Longrightarrow> took w' qs w'' \<Longrightarrow> took w (ps @ qs) w''"
    and took_more: "took w ps w' \<Longrightarrow> subseq ps qs \<Longrightarrow> took w qs w'"
begin

lemma took_nothing: "took w ps w"
  using took_more [OF took_none] by simp

lemma took_next: "handler w source pdu = (ok, w1) \<Longrightarrow> took w1 ps w' \<Longrightarrow> took w ((source, pdu) # ps) w'"
  using took_trans [of w "[(source, pdu)]" w1 ps w'] took_one by simp

lemma took_later: "took w ps w' \<Longrightarrow> took w (p # ps) w'"
  by (erule took_more) auto

lemma dispatched: "dispatch_all handler w ps = (ok, w') \<Longrightarrow> ok \<and> took w ps w'"
proof (induction ps arbitrary: w)
  case (Cons p ps)
  obtain source pdu where p: "p = (source, pdu)" by (cases p)
  obtain ok1 w1 where h: "handler w source pdu = (ok1, w1)" by (cases "handler w source pdu")
  then have "dispatch_all handler w1 ps = (ok, w')" using Cons.prems took_one [OF h] by (simp add: p)
  then show ?case using Cons.IH took_next [OF h] by (auto simp: p)
qed (auto simp: took_none)

lemma waited:
  assumes "wait_loop npdu max_apdu handler invoke deadline w rounds = Some (rc, out, w')"
  shows "rc \<noteq> -2" and "took w (packets rounds) w'"
proof -
  let ?cl = "classify_answer npdu max_apdu invoke"
  obtain seen r rest where s: "rounds = seen @ r # rest" "wait_outcome ?cl handler deadline w seen r rc out w'"
    using wait_loop_outcome [OF assms] by blast
  have d: "dispatch_all handler w (unsolicited_of ?cl seen) = (True, w')"
    using s(2) dispatched [of w _ False w'] by (auto simp: wait_outcome_def)
  have "rc = -1 \<or> ?cl (io_pdu r) = Answer rc out"
    using s(2) dispatched [of w _ False w'] by (auto simp: wait_outcome_def)
  moreover have "0 \<le> rc" if "?cl (io_pdu r) = Answer rc out"
    using that by (auto simp: classify_answer_def Let_def split: if_splits prod.splits)
  ultimately show "rc \<noteq> -2" by auto
  have "subseq (unsolicited_of ?cl seen) (packets rounds)"
    using unsolicited_packets [of ?cl seen] by (simp add: s(1) subseq_order.order_trans [OF _ subseq_rev_drop_many])
  then show "took w (packets rounds) w'" using dispatched [OF d] took_more by blast
qed

lemma collected:
  assumes "collect_loop npdu iam handler self deadline es w rounds = Some (ok, es', w')"
  shows "ok \<and> took w (packets rounds) w'"
  using assms
proof (induction rounds arbitrary: es w)
  case (Cons r rs)
  note ih = conjunct1 [OF Cons.IH] conjunct2 [OF Cons.IH]
  show ?case
  proof (cases "classify_iam npdu iam self (io_source r) (io_pdu r)")
    case CUnsolicited
    obtain ok1 w1 where h: "handler w (io_source r) (io_pdu r) = (ok1, w1)" by (cases "handler w (io_source r) (io_pdu r)")
    then show ?thesis
      using Cons.prems ih CUnsolicited took_one [OF h] took_next [OF h] took_nothing by (auto split: if_splits)
  qed (use Cons.prems took_later took_nothing in \<open>auto split: if_splits dest: ih\<close>)
qed simp

lemma replied:
  assumes "request_reply N dest request invoke timeout_ms ex st = Some (status, resp, st')" and "n_handler N = handler"
  shows "status \<noteq> -2 \<and> took (k_ctx st) (packets (snd ex)) (k_ctx st')"
  using assms waited took_nothing
  by (auto simp: request_reply_def php_bacnet_send_and_wait_def split: option.splits if_splits prod.splits)

lemma broadcast:
  assumes "broadcast_collect N request timeout_ms ex st = Some (count, entries, st')" and "n_handler N = handler"
  shows "count \<noteq> -1 \<and> took (k_ctx st) (packets (snd ex)) (k_ctx st')"
  using assms collected took_nothing
  by (fastforce simp: broadcast_collect_def php_bacnet_broadcast_and_collect_def split: option.splits if_splits prod.splits)

lemma read_took:
  assumes "php_bacnet_exec_read_property N dest rp timeout_ms refresh ex st = Some (r, st')" and "n_handler N = handler"
  shows "r \<noteq> Inl HandlerException \<and> took (k_ctx st) (packets (snd ex)) (k_ctx st')"
proof -
  obtain early st1 where c: "read_from_cache N dest rp refresh st = (early, st1)"
    by (cases "read_from_cache N dest rp refresh st")
  note e = read_from_cache_keeps [OF c]
  show ?thesis
  proof (cases "early = None \<and> (\<exists>request. n_rp_encode N (k_next_invoke_id st1) rp = Some request)")
    case False
    then show ?thesis using assms(1) e took_nothing
      by (auto simp: php_bacnet_exec_read_property_def c Let_def split: option.splits)
  next
    case True
    then obtain request status resp st2 where
      "request_reply N dest request (k_next_invoke_id st1) timeout_ms ex (st1\<lparr>k_next_invoke_id := k_next_invoke_id st1 + 1\<rparr>)
         = Some (status, resp, st2)"
      and r: "read_answer N dest rp timeout_ms status resp st2 = (r, st')"
      using assms(1) by (auto simp: php_bacnet_exec_read_property_def c Let_def split: option.splits)
    from replied [OF this(1) assms(2)] have "status \<noteq> -2" "took (k_ctx st) (packets (snd ex)) (k_ctx st2)"
      using e by auto
    then show ?thesis using read_answer_keeps [OF r] by auto
  qed
qed

lemma write_took:
  assumes "php_bacnet_exec_write_property N dest wp priority val timeout_ms ex st = Some (r, st')" and "n_handler N = handler"
  shows "r \<noteq> Inl HandlerException \<and> took (k_ctx st) (packets (snd ex)) (k_ctx st')"
proof (cases "\<exists>data request. n_app_encode N val = Some data \<and> n_wp_encode N (k_next_invoke_id st) wp priority data = Some request")
  case False
  then show ?thesis using assms(1) took_nothing
    by (auto simp: php_bacnet_exec_write_property_def Let_def split: option.splits)
next
  case True
  then obtain request status resp st2 where
    "request_reply N dest request (k_next_invoke_id st) timeout_ms ex (st\<lparr>k_next_invoke_id := k_next_invoke_id st + 1\<rparr>)
       = Some (status, resp, st2)"
    and r: "write_answer N timeout_ms status resp st2 = (r, st')"
    using assms(1) by (auto simp: php_bacnet_exec_write_property_def Let_def split: option.splits)
  from replied [OF this(1) assms(2)] show ?thesis using write_answer_keeps [OF r] by auto
qed

lemma whois_took:
  assumes "MixedServer_whoIs N low high timeout_ms refresh ex1 ex2 st = Some (r, st')" and "n_handler N = handler"
  shows "r \<noteq> Inl HandlerException \<and> took (k_ctx st) (packets (snd ex1) @ packets (snd ex2)) (k_ctx st')"
proof -
  obtain early st1 where c: "whois_from_cache N (whois_range low high) refresh st = (early, st1)"
    by (cases "whois_from_cache N (whois_range low high) refresh st")
  note e = whois_from_cache_keeps [OF c]
  let ?w = "n_whois_encode N (fst (whois_range low high)) (snd (whois_range low high))"
  show ?thesis
  proof (cases "early = None \<and> ?w \<noteq> None")
    case False
    then show ?thesis using assms(1) e took_nothing
      by (auto simp: MixedServer_whoIs_def c Let_def split: option.splits)
  next
    case True
    then obtain request count es st2 where w: "?w = Some request"
      and b: "broadcast_collect N request (timeout_arg st timeout_ms) ex1 st1 = Some (count, es, st2)"
      using assms(1) by (auto simp: MixedServer_whoIs_def c Let_def split: option.splits)
    have t1: "count \<noteq> -1" "took (k_ctx st) (packets (snd ex1)) (k_ctx st2)"
      using broadcast [OF b assms(2)] e by auto
    then obtain count' es' st3 where
      b2: "(if count = 0 then broadcast_collect N request (timeout_arg st timeout_ms) ex2 st2 else Some (count, es, st2))
         = Some (count', es', st3)"
      using assms(1) True w b by (auto simp: MixedServer_whoIs_def c Let_def split: option.splits)
    have t2: "count' \<noteq> -1" "took (k_ctx st2) (packets (snd ex2)) (k_ctx st3)"
      using b2 t1(1) broadcast [of N request "timeout_arg st timeout_ms" ex2 st2] assms(2) took_nothing
      by (auto split: if_splits)
    obtain ds where "whois_finish N (whois_range low high) count' es' st3 = (ds, st')" "r = Inr ds"
      using assms(1) True w b t1(1) t2(1) b2
      by (auto simp: MixedServer_whoIs_def c Let_def split: option.splits if_splits prod.splits)
    then show ?thesis using took_trans [OF t1(2) t2(2)] whois_finish_keeps by fastforce
  qed
qed

end

subsection \<open>The handler of a MixedServer\<close>

text \<open>
  Packets taken in: some of them, in order, at the end of the queue; nothing else changes but
  the protection layer and the clock.
\<close>

definition set_aside :: "'p server \<Rightarrow> (bacnet_address \<times> bytes) list \<Rightarrow> 'p server \<Rightarrow> bool" where
  "set_aside srv ps srv' \<longleftrightarrow>
     srv' = srv\<lparr>v_queue := v_queue srv', v_security := v_security srv', v_reads := v_reads srv'\<rparr> \<and>
     (queue_wf (v_queue srv) \<longrightarrow> queue_wf (v_queue srv') \<and>
       (\<exists>taken. subseq taken ps \<and> (\<forall>p \<in> set taken. snd p \<noteq> []) \<and>
          queue_contents (v_queue srv') = queue_contents (v_queue srv) @ taken))"

lemma set_aside_trans: "set_aside a ps b \<Longrightarrow> set_aside b qs c \<Longrightarrow> set_aside a (ps @ qs) c"
proof -
  assume ab: "set_aside a ps b" and bc: "set_aside b qs c"
  have "c = a\<lparr>v_queue := v_queue c, v_security := v_security c, v_reads := v_reads c\<rparr>"
    using ab bc by (cases a, cases b, cases c) (simp add: set_aside_def)
  moreover have "queue_wf (v_queue c) \<and> (\<exists>taken. subseq taken (ps @ qs) \<and> (\<forall>p \<in> set taken. snd p \<noteq> []) \<and>
      queue_contents (v_queue c) = queue_contents (v_queue a) @ taken)" if "queue_wf (v_queue a)"
  proof -
    obtain t u where t: "subseq t ps" "\<forall>p \<in> set t. snd p \<noteq> []" "queue_contents (v_queue b) = queue_contents (v_queue a) @ t"
      "queue_wf (v_queue b)" "subseq u qs" "\<forall>p \<in> set u. snd p \<noteq> []" "queue_contents (v_queue c) = queue_contents (v_queue b) @ u"
      "queue_wf (v_queue c)" using ab bc \<open>queue_wf (v_queue a)\<close> unfolding set_aside_def by blast
    then show ?thesis using list_emb_append_mono [OF t(1) t(5)] by (intro conjI exI [of _ "t @ u"]) auto
  qed
  ultimately show ?thesis unfolding set_aside_def by blast
qed

lemma enqueued:
  assumes "php_bacnet_client_queue_pdu n source pdu q = (taken, q')" and "queue_wf q"
  shows "queue_wf q' \<and> queue_contents q' = queue_contents q @ (if taken then [(source, pdu)] else []) \<and> (taken \<longrightarrow> pdu \<noteq> [])"
proof (cases "pdu_ok n (source, pdu) \<and> length (queue_contents q) < PHP_BACNET_PENDING_PDU_CAPACITY")
  case True
  then show ?thesis using pq.enq_taken [OF assms(2), of n "(source, pdu)"] assms(1) by (auto simp: pdu_ok_def)
next
  case False
  then show ?thesis using pq.enq_refused [OF assms(2) False] assms by auto
qed

lemma mixed_handler_sets_aside:
  assumes "php_bacnet_mixed_queue_unsolicited L srv source pdu = (ok, srv')"
  shows "ok \<and> set_aside srv [(source, pdu)] srv'"
proof -
  obtain a s where c: "check_incoming L source pdu srv = (a, s)" by (cases "check_incoming L source pdu srv")
  then obtain sec n where s: "s = srv\<lparr>v_security := sec, v_reads := n\<rparr>"
    by (auto simp: check_incoming_def ask_security_def split: prod.splits)
  obtain t q where e: "php_bacnet_client_queue_pdu (p_max_apdu L + p_max_npdu L) source pdu (v_queue srv) = (t, q)"
    by (cases "php_bacnet_client_queue_pdu (p_max_apdu L + p_max_npdu L) source pdu (v_queue srv)")
  show ?thesis
    using assms enqueued [OF e]
    by (auto simp: php_bacnet_mixed_queue_unsolicited_def c s e set_aside_def with_security_def Let_def split: if_splits)
qed

interpretation mixed: packet_sink "php_bacnet_mixed_queue_unsolicited L" set_aside for L
proof unfold_locales
  show "set_aside w [] w" for w :: "'a server" by (simp add: set_aside_def)
  show "set_aside w ps w' \<Longrightarrow> subseq ps qs \<Longrightarrow> set_aside w qs w'" for w w' :: "'a server" and ps qs
    unfolding set_aside_def using subseq_order.order_trans by blast
qed (use mixed_handler_sets_aside set_aside_trans in blast)+

subsection \<open>Client operations of a MixedServer\<close>

datatype mixed_call =
    CallRead bacnet_address rp_data u32 bool exchange
  | CallWrite bacnet_address rp_data u8 appdata u32 exchange
  | CallWhoIs "int option" "int option" "int option" bool exchange exchange

text \<open>Whether the call raised the exception of a handler, and the state it leaves.\<close>

fun run_mixed_call :: "('e, 'b, 'w) net_env \<Rightarrow> mixed_call \<Rightarrow> ('e, 'b, 'w) client_state \<Rightarrow>
    (bool \<times> ('e, 'b, 'w) client_state) option" where
  "run_mixed_call N (CallRead dest rp timeout_ms refresh ex) st =
     map_option (\<lambda>(r, st). (r = Inl HandlerException, st)) (php_bacnet_exec_read_property N dest rp timeout_ms refresh ex st)"
| "run_mixed_call N (CallWrite dest wp priority val timeout_ms ex) st =
     map_option (\<lambda>(r, st). (r = Inl HandlerException, st)) (php_bacnet_exec_write_property N dest wp priority val timeout_ms ex st)"
| "run_mixed_call N (CallWhoIs low high timeout_ms refresh ex1 ex2) st =
     map_option (\<lambda>(r, st). (r = Inl HandlerException, st)) (MixedServer_whoIs N low high timeout_ms refresh ex1 ex2 st)"

fun call_packets :: "mixed_call \<Rightarrow> (bacnet_address \<times> bytes) list" where
  "call_packets (CallRead dest rp timeout_ms refresh ex) = packets (snd ex)"
| "call_packets (CallWrite dest wp priority val timeout_ms ex) = packets (snd ex)"
| "call_packets (CallWhoIs low high timeout_ms refresh ex1 ex2) = packets (snd ex1) @ packets (snd ex2)"

lemma mixed_call_set_aside:
  assumes "run_mixed_call (mixed_net L N) c st = Some (raised, st')"
  shows "\<not> raised \<and> set_aside (k_ctx st) (call_packets c) (k_ctx st')"
proof -
  have h: "n_handler (mixed_net L N) = php_bacnet_mixed_queue_unsolicited L" by (simp add: mixed_net_def)
  show ?thesis
    using assms by (cases c) (auto dest!: mixed.read_took [OF _ h] mixed.write_took [OF _ h] mixed.whois_took [OF _ h])
qed

text \<open>C2.
  While a MixedServer reads, writes or discovers, the packets of others are only taken in: some
  of the packets received, in their order, are added to the end of its queue of at most 32; no
  PHP handler runs, nothing is answered, no configuration or object of the server changes, and
  the call does not end with an exception of the server side.
\<close>

theorem mixed_calls_only_set_aside:
  assumes "run_mixed_call (mixed_net L N) c st = Some (raised, st')" and "queue_wf (v_queue (k_ctx st))"
  shows "\<not> raised \<and>
    k_ctx st' = (k_ctx st)\<lparr>v_queue := v_queue (k_ctx st'), v_security := v_security (k_ctx st'), v_reads := v_reads (k_ctx st')\<rparr> \<and>
    queue_wf (v_queue (k_ctx st')) \<and> length (queue_contents (v_queue (k_ctx st'))) \<le> PHP_BACNET_PENDING_PDU_CAPACITY \<and>
    (\<exists>taken. subseq taken (call_packets c) \<and> (\<forall>p \<in> set taken. snd p \<noteq> []) \<and>
       queue_contents (v_queue (k_ctx st')) = queue_contents (v_queue (k_ctx st)) @ taken)"
  using mixed_call_set_aside [OF assms(1)] assms(2) by (auto simp: set_aside_def queue_wf_def)

definition mixed_demo :: "(list_store, unit, nat server) client_state" where
  "mixed_demo = mixed_client (demo_world []) 1 1 3000 demo_server"

definition demo_call :: mixed_call where
  "demo_call = CallWrite demo_dest demo_rp 16 (AppUnsigned 7) 3000
     (0, [\<lparr>io_clock = 1, io_clock2 = 1, io_source = demo_source, io_pdu = demo_who_is\<rparr>,
          \<lparr>io_clock = 3001, io_clock2 = 3001, io_source = demo_source, io_pdu = []\<rparr>])"

lemma request_returns:
  assumes "\<exists>r \<in> set (snd ex). \<not> io_clock r < fst ex + ucast timeout_ms"
  shows "request_reply N dest request invoke timeout_ms ex st \<noteq> None"
  using wait_loop_returns [OF assms, of "n_npdu N" "n_max_apdu N" "n_handler N" invoke "k_ctx st"]
  by (auto simp: request_reply_def php_bacnet_send_and_wait_def split: option.splits)

lemma write_returns:
  assumes "\<exists>r \<in> set (snd ex). \<not> io_clock r < fst ex + ucast timeout_ms"
  shows "php_bacnet_exec_write_property N dest wp priority val timeout_ms ex st \<noteq> None"
proof (cases "n_app_encode N val")
  case (Some data)
  show ?thesis
  proof (cases "n_wp_encode N (k_next_invoke_id st) wp priority data")
    case (Some request)
    then show ?thesis
      using \<open>n_app_encode N val = Some data\<close>
        request_returns [OF assms, of N dest request "k_next_invoke_id st" "st\<lparr>k_next_invoke_id := k_next_invoke_id st + 1\<rparr>"]
      by (auto simp: php_bacnet_exec_write_property_def Let_def)
  qed (simp add: php_bacnet_exec_write_property_def Let_def Some)
qed (simp add: php_bacnet_exec_write_property_def)

lemma demo_call_returns: "run_mixed_call N demo_call st \<noteq> None"
  using write_returns [of "(0, [\<lparr>io_clock = 1, io_clock2 = 1, io_source = demo_source, io_pdu = demo_who_is\<rparr>,
          \<lparr>io_clock = 3001, io_clock2 = 3001, io_source = demo_source, io_pdu = []\<rparr>])" 3000 N demo_dest demo_rp 16
          "AppUnsigned 7" st]
  by (simp add: demo_call_def)

lemma mixed_calls_only_set_aside_witness:
  "\<exists>st' taken. run_mixed_call (mixed_net demo_link (demo_codec undefined)) demo_call mixed_demo = Some (False, st') \<and>
     subseq taken [(demo_source, demo_who_is), (demo_source, [])] \<and> queue_contents (v_queue (k_ctx st')) = taken"
proof -
  obtain raised st' where r: "run_mixed_call (mixed_net demo_link (demo_codec undefined)) demo_call mixed_demo = Some (raised, st')"
    using demo_call_returns [of "mixed_net demo_link (demo_codec undefined)" mixed_demo] by auto
  have q: "queue_wf (v_queue (k_ctx mixed_demo))" "queue_contents (v_queue (k_ctx mixed_demo)) = []"
    by (simp_all add: mixed_demo_def mixed_client_def empty_queue_wf)
  show ?thesis using mixed_calls_only_set_aside [OF r q(1)] r q(2) by (auto simp: demo_call_def packets_def)
qed

subsection \<open>The polls that follow\<close>

text \<open>Serving the packet at the head of the queue.\<close>

definition serve_next :: "server_env \<Rightarrow> 'p server \<Rightarrow> bacnet_address \<times> bytes \<Rightarrow> 'p server" where
  "serve_next L srv p = serve_pdu L (fst p) (snd p) (srv\<lparr>v_exn := False, v_queue := snd (the (php_bacnet_client_pop_pdu (v_queue srv)))\<rparr>)"

lemma poll_takes_head:
  assumes "v_initialized srv" "queue_wf (v_queue srv)" "queue_contents (v_queue srv) = p # ps" "snd p \<noteq> []"
  shows "snd (Server_poll L rx srv) = serve_next L srv p" and "v_initialized (serve_next L srv p)"
    and "queue_wf (v_queue (serve_next L srv p))" and "queue_contents (v_queue (serve_next L srv p)) = ps"
proof -
  obtain x q where pop: "php_bacnet_client_pop_pdu (v_queue srv) = Some (x, q)"
    using pq.deq_none [OF assms(2)] assms(3) by (cases "php_bacnet_client_pop_pdu (v_queue srv)") auto
  have q: "queue_wf q" "x = p" "queue_contents q = ps" using pq.deq_some [OF assms(2) pop] assms(3) by auto
  let ?s = "srv\<lparr>v_exn := False, v_queue := q\<rparr>"
  have n: "serve_next L srv p = serve_pdu L (fst p) (snd p) ?s" using pop q(2) by (simp add: serve_next_def)
  show "snd (Server_poll L rx srv) = serve_next L srv p"
    using poll_queued [OF assms(1), of "fst p" "snd p" q] pop q(2) assms(4) n by (simp add: poll_result_def)
  note k = keptD [OF kept_pdu [of ?s L "fst p" "snd p"]]
  show "v_initialized (serve_next L srv p)" "queue_wf (v_queue (serve_next L srv p))"
    "queue_contents (v_queue (serve_next L srv p)) = ps"
    using k q assms(1) by (simp_all add: n)
qed

text \<open>C22.
  What was set aside is served: as many polls as there are packets in the queue serve exactly
  these packets, in the order in which they arrived, whatever arrives on the socket meanwhile,
  and leave the queue empty.
\<close>

theorem queue_served_in_order:
  assumes "v_initialized srv" "queue_wf (v_queue srv)" "\<forall>p \<in> set (queue_contents (v_queue srv)). snd p \<noteq> []"
    and "length rxs = length (queue_contents (v_queue srv))"
  shows "foldl (\<lambda>s rx. snd (Server_poll L rx s)) srv rxs = foldl (serve_next L) srv (queue_contents (v_queue srv)) \<and>
    queue_contents (v_queue (foldl (\<lambda>s rx. snd (Server_poll L rx s)) srv rxs)) = []"
  using assms
proof (induction rxs arbitrary: srv)
  case (Cons rx rxs)
  then obtain p ps where c: "queue_contents (v_queue srv) = p # ps" by (cases "queue_contents (v_queue srv)") auto
  note h = poll_takes_head [OF Cons.prems(1,2) c, of L]
  have "snd p \<noteq> []" using Cons.prems(3) c by simp
  note h = h(1) [OF this] h(2-4) [OF this]
  have "\<forall>p \<in> set (queue_contents (v_queue (serve_next L srv p))). snd p \<noteq> []"
    "length rxs = length (queue_contents (v_queue (serve_next L srv p)))" using Cons.prems(3,4) c h(4) by simp_all
  note i = Cons.IH [OF h(2,3) this]
  note ih = conjunct1 [OF i] conjunct2 [OF i]
  show ?case using ih(2) by (simp add: h(1) c ih(1) h(4))
qed (simp del: length_queue_contents)

lemma queue_served_in_order_witness:
  "queue_contents (v_queue (snd (Server_poll demo_link (demo_source, [1, 2])
     (demo_server\<lparr>v_queue := snd (php_bacnet_client_queue_pdu 1506 demo_source demo_who_is empty_queue)\<rparr>)))) = []"
proof -
  let ?q = "snd (php_bacnet_client_queue_pdu 1506 demo_source demo_who_is empty_queue)"
  have q: "queue_wf ?q \<and> queue_contents ?q = [(demo_source, demo_who_is)]"
    using pq.enq_taken [OF empty_queue_wf(1), of 1506 "(demo_source, demo_who_is)"]
    by (simp add: empty_queue_wf pdu_ok_def demo_who_is_def PHP_BACNET_PENDING_PDU_CAPACITY_def)
  let ?s = "demo_server\<lparr>v_queue := ?q\<rparr>"
  have "length [(demo_source, [1, 2])] = length (queue_contents (v_queue ?s))" "\<forall>p \<in> set (queue_contents (v_queue ?s)). snd p \<noteq> []"
    using q by (simp_all add: demo_who_is_def del: length_queue_contents)
  from conjunct2 [OF queue_served_in_order [OF _ _ this(2,1), of demo_link]] show ?thesis
    using q by simp
qed

end
