(* ===== verification/Server_Reach.thy ===== *)
theory Server_Reach
  imports Mixed Server_Objects
begin

text \<open>
  A server as a state machine: one step per method of Server and MixedServer and one for a packet
  set aside while its client side waits.  The protection layer moves only by the steps of
  Security_Reach, whatever the server does, so that every property of its reachable states
  holds inside every reachable server.
\<close>

subsection \<open>The protection layer inside a server\<close>

text \<open>The state of the layer with the time of its last reading, for a clock c.\<close>

definition guard_state :: "(nat \<Rightarrow> rat) \<Rightarrow> 'p server \<Rightarrow> security \<times> rat" where
  "guard_state c srv = (v_security srv, c (v_reads srv - 1))"

definition ticking :: "(nat \<Rightarrow> rat) \<Rightarrow> 'p server \<Rightarrow> bool" where
  "ticking c srv \<longleftrightarrow> mono c \<and> v_clock srv = (\<lambda>n. Fin (c n))"

definition guarded :: "server_env \<Rightarrow> (nat \<Rightarrow> rat) \<Rightarrow> 'p server \<Rightarrow> 'p server \<Rightarrow> bool" where
  "guarded L c srv srv' \<longleftrightarrow> ticking c srv \<longrightarrow>
     ticking c srv' \<and> (security_step (p_npdu L))\<^sup>*\<^sup>* (guard_state c srv) (guard_state c srv')"

lemma guarded_refl [simp]: "guarded L c srv srv"
  by (simp add: guarded_def)

lemma guarded_trans: "guarded L c x y \<Longrightarrow> guarded L c y z \<Longrightarrow> guarded L c x z"
  unfolding guarded_def by (meson rtranclp_trans)

lemma guarded_same:
  "v_security s' = v_security s \<Longrightarrow> v_reads s' = v_reads s \<Longrightarrow> v_clock s' = v_clock s \<Longrightarrow>
   guarded L c srv s' = guarded L c srv s"
  by (simp add: guarded_def ticking_def guard_state_def)

lemma guarded_update [simp]:
  "guarded L c srv (s\<lparr>y_user := u\<rparr>) = guarded L c srv s" "guarded L c srv (s\<lparr>y_sent := out\<rparr>) = guarded L c srv s"
  "guarded L c srv (s\<lparr>v_exn := x\<rparr>) = guarded L c srv s" "guarded L c srv (s\<lparr>v_queue := q\<rparr>) = guarded L c srv s"
  "guarded L c srv (s\<lparr>v_local_objects := ks\<rparr>) = guarded L c srv s"
  "guarded L c srv (s\<lparr>v_read_handler := rh\<rparr>) = guarded L c srv s"
  "guarded L c srv (s\<lparr>v_write_handler := wh\<rparr>) = guarded L c srv s"
  "guarded L c srv (s\<lparr>v_auto_iam := b\<rparr>) = guarded L c srv s"
  by (rule guarded_same; simp)+

lemma guarded_called: "called srv s \<Longrightarrow> guarded L c srv s"
  using guarded_same [of s srv L c srv] calledD [of srv s] by simp

lemma guarded_send [simp]: "guarded L c srv (send_apdu L' dest apdu s) = guarded L c srv s"
  by (simp add: send_apdu_def php_bacnet_server_send_apdu_def split: option.split)

lemma guarded_encoded [simp]: "guarded L c srv (send_encoded L' dest apdu s) = guarded L c srv s"
  by (simp add: send_encoded_def split: option.split)

lemma guarded_error [simp]: "guarded L c srv (send_error L' source i service err s) = guarded L c srv s"
  by (simp add: send_error_def)

lemma guarded_reading:
  assumes step: "\<And>n t s. t \<le> n \<Longrightarrow> security_step (p_npdu L) (s, t) (f (Fin n) s, n)"
  shows "guarded L c srv (srv\<lparr>v_security := f (server_now srv) (v_security srv), v_reads := Suc (v_reads srv)\<rparr>)"
proof -
  have "c (v_reads srv - 1) \<le> c (v_reads srv)" if "mono c" using that by (simp add: monoD)
  then show ?thesis
    using step [of "c (v_reads srv - 1)" "c (v_reads srv)" "v_security srv"]
    by (auto simp: guarded_def ticking_def guard_state_def server_now_def)
qed

lemma guarded_with:
  assumes "\<And>n t s. t \<le> n \<Longrightarrow> security_step (p_npdu L) (s, t) (f (Fin n) s, n)"
  shows "guarded L c srv (with_security f srv)"
  using guarded_reading [OF assms] by (simp add: with_security_def)

lemma guarded_ask:
  assumes "ask_security f srv = (r, srv')"
    and "\<And>n t s. t \<le> n \<Longrightarrow> security_step (p_npdu L) (s, t) (snd (f (Fin n) s), n)"
  shows "guarded L c srv srv'"
proof -
  have "srv' = srv\<lparr>v_security := snd (f (server_now srv) (v_security srv)), v_reads := Suc (v_reads srv)\<rparr>"
    using assms(1) by (auto simp: ask_security_def split: prod.splits)
  then show ?thesis using guarded_reading [of L "\<lambda>n s. snd (f n s)", OF assms(2)] by simp
qed

lemma guarded_malformed: "guarded L c srv (malformed_request source srv)"
  unfolding malformed_request_def by (rule guarded_with) (simp add: step_malformed)

lemma guarded_record: "guarded L c srv (with_security (php_bacnet_security_record_write source apdu) srv)"
  by (rule guarded_with) (simp add: step_record)

lemma guarded_duplicate:
  "ask_security (php_bacnet_security_is_duplicate_write source apdu) srv = (d, s) \<Longrightarrow> guarded L c srv s"
  by (erule guarded_ask) (rule step_duplicate [OF _ prod.collapse [symmetric]])

lemma guarded_incoming: "check_incoming L source pdu srv = (ok, s) \<Longrightarrow> guarded L c srv s"
  unfolding check_incoming_def
  by (erule guarded_ask) (auto intro: step_accept split: prod.splits)

subsection \<open>Serving\<close>

lemma guarded_read: "guarded L c srv (serve_read_property L source invoke_id request srv)"
  by (auto simp: serve_read_property_def Let_def guarded_malformed dest!: property_value_called intro: guarded_called
      split: prod.split sum.split)

lemma guarded_read_multiple: "guarded L c srv (serve_read_property_multiple L source invoke_id request srv)"
  by (auto simp: serve_read_property_multiple_def dest!: rpm_objects_called guarded_called
      intro: guarded_trans [OF _ guarded_malformed] split: prod.split option.split)

lemma guarded_write: "guarded L c srv (serve_write_property L source invoke_id apdu request srv)"
proof -
  obtain n wp where p: "p_wp_decode L request = (n, wp)" by (cases "p_wp_decode L request")
  obtain d s where d: "ask_security (php_bacnet_security_is_duplicate_write source apdu) srv = (d, s)"
    by (cases "ask_security (php_bacnet_security_is_duplicate_write source apdu) srv")
  have "guarded L c s (serve_write_property L source invoke_id apdu request srv)" if "\<not> n < 0"
    using that by (auto simp: serve_write_property_def p d Let_def dest!: call_write_called guarded_called
      intro: guarded_trans [OF _ guarded_record] split: option.split prod.split call_outcome.split)
  then show ?thesis
    using guarded_trans [OF guarded_duplicate [OF d]] guarded_malformed
    by (cases "n < 0") (auto simp: serve_write_property_def p)
qed

lemma guarded_iam: "php_bacnet_server_send_iam L srv = (ok, srv') \<Longrightarrow> guarded L' c srv srv'"
  by (auto simp: php_bacnet_server_send_iam_def php_bacnet_server_send_apdu_def split: option.splits if_splits)

lemma guarded_who_is: "guarded L c srv (serve_who_is L source request srv)"
  using guarded_iam [of L srv _ _ L c, OF prod.collapse [symmetric]]
  by (auto simp: serve_who_is_def Let_def guarded_malformed split: prod.split)

lemma guarded_apdu: "guarded L c srv (serve_apdu L source apdu srv)"
proof (cases "cov_kind apdu (length apdu)")
  case None
  then show ?thesis
    by (auto simp: serve_apdu_def serve_confirmed_def Let_def guarded_who_is guarded_read guarded_read_multiple guarded_write)
next
  case (Some confirmed)
  have "guarded L c srv (snd (cov_receive L h source apdu al confirmed srv))" for h al
    using guarded_called [OF dispatch_called [of srv L h apdu al confirmed]]
    by (auto simp: cov_receive_def split: prod.split)
  then show ?thesis using Some by (auto simp: serve_apdu_def split: prod.split) (metis snd_conv)
qed

lemma guarded_pdu: "guarded L c srv (serve_pdu L source pdu srv)"
  using guarded_apdu guarded_malformed by (auto simp: serve_pdu_def Let_def split: prod.split)

lemma guarded_poll: "Server_poll L rx srv = (r, srv') \<Longrightarrow> guarded L c srv srv'"
proof (cases "v_initialized srv")
  case True
  assume poll: "Server_poll L rx srv = (r, srv')"
  show ?thesis
  proof (cases "php_bacnet_client_pop_pdu (v_queue srv)")
    case (Some x)
    obtain source pdu q where x: "x = ((source, pdu), q)" by (cases x) auto
    let ?s = "srv\<lparr>v_exn := False, v_queue := q\<rparr>"
    have "guarded L c srv ?s" by simp
    then have "guarded L c srv (serve_pdu L source pdu ?s)" using guarded_trans guarded_pdu by blast
    then show ?thesis using poll True Some x
      by (auto simp: Server_poll_def Let_def split: if_splits)
  next
    case None
    obtain source pdu where rx: "rx = (source, pdu)" by (cases rx)
    let ?s = "srv\<lparr>v_exn := False\<rparr>"
    obtain a s where c: "check_incoming L source pdu ?s = (a, s)" by (cases "check_incoming L source pdu ?s")
    have "guarded L c srv ?s" by simp
    then have s: "guarded L c srv s" using guarded_trans guarded_incoming [OF c] by blast
    then have "guarded L c srv (serve_pdu L source pdu s)" using guarded_trans guarded_pdu by blast
    then show ?thesis using poll True None c s rx
      by (auto simp: Server_poll_def Let_def split: if_splits)
  qed
qed (auto simp: Server_poll_def)

lemma guarded_set_aside:
  assumes "php_bacnet_mixed_queue_unsolicited L srv source pdu = (ok, srv')"
  shows "guarded L c srv srv'"
proof -
  obtain a s where c: "check_incoming L source pdu srv = (a, s)" by (cases "check_incoming L source pdu srv")
  have o: "guarded L c s (with_security php_bacnet_security_queue_overflow s)" for s :: "'a server"
    by (rule guarded_with) (simp add: step_overflow)
  show ?thesis
    using assms guarded_incoming [OF c] guarded_trans [OF _ o]
    by (auto simp: php_bacnet_mixed_queue_unsolicited_def c Let_def split: prod.splits if_splits)
qed

subsection \<open>Steps\<close>

text \<open>
  The instances of ObjectIdentifier values are those its constructor admits.  step_aside is a
  packet that arrives while the client side of a MixedServer waits.
\<close>

inductive server_step :: "server_env \<Rightarrow> 'p server \<Rightarrow> 'p server \<Rightarrow> bool" for L where
  step_poll: "Server_poll L rx srv = (r, srv') \<Longrightarrow> server_step L srv srv'"
| step_aside: "php_bacnet_mixed_queue_unsolicited L srv source pdu = (ok, srv') \<Longrightarrow> server_step L srv srv'"
| step_object: "valid_instance (oid_instance (op_oid op)) \<Longrightarrow> server_step L srv (run_object_op op srv)"
| step_on_read: "Server_onReadProperty callable_r handler srv = (r, srv') \<Longrightarrow> server_step L srv srv'"
| step_on_write: "Server_onWriteProperty callable_w handler srv = (r, srv') \<Longrightarrow> server_step L srv srv'"
| step_auto_iam: "server_step L srv (Server_setAutoIAm enabled srv)"
| step_info: "Server_setDeviceInfo info srv = (r, srv') \<Longrightarrow> server_step L srv srv'"
| step_announce: "Server_announce L srv = (r, srv') \<Longrightarrow> server_step L srv srv'"
| step_options: "Server_setSecurityOptions options srv = (r, srv') \<Longrightarrow> server_step L srv srv'"
| step_stats: "Server_getSecurityStats include_sources reset srv = (z, srv') \<Longrightarrow> server_step L srv srv'"

inductive server_reachable :: "server_env \<Rightarrow> (nat \<Rightarrow> dbl) \<Rightarrow> 'p server \<Rightarrow> bool" for L clock where
  start: "Server_construct bip_init device_id iface port g (php_bacnet_server_create_object user garbage clock) = (Inr (), g', srv) \<Longrightarrow>
    server_reachable L clock srv"
| more: "server_reachable L clock srv \<Longrightarrow> server_step L srv srv' \<Longrightarrow> server_reachable L clock srv'"

definition server_wf :: "'p server \<Rightarrow> bool" where
  "server_wf srv \<longleftrightarrow> v_initialized srv \<and> v_has_security srv \<and> queue_wf (v_queue srv) \<and> (\<exists>os. represents srv os)"

lemma server_wf_same:
  "v_initialized s' = v_initialized s \<Longrightarrow> v_has_security s' = v_has_security s \<Longrightarrow> v_queue s' = v_queue s \<Longrightarrow>
   v_local_objects s' = v_local_objects s \<Longrightarrow> v_device_id s' = v_device_id s \<Longrightarrow> server_wf s' = server_wf s"
  by (simp add: server_wf_def represents_def)

lemma server_wf_kept: "kept srv srv' \<Longrightarrow> server_wf srv' = server_wf srv"
  by (rule server_wf_same) (simp_all add: keptD)

lemma server_wf_update [simp]:
  "server_wf (s\<lparr>v_security := sec\<rparr>) = server_wf s" "server_wf (s\<lparr>v_reads := n\<rparr>) = server_wf s"
  "server_wf (s\<lparr>v_exn := x\<rparr>) = server_wf s" "server_wf (s\<lparr>v_read_handler := rh\<rparr>) = server_wf s"
  "server_wf (s\<lparr>v_write_handler := wh\<rparr>) = server_wf s" "server_wf (s\<lparr>v_auto_iam := b\<rparr>) = server_wf s"
  "server_wf (s\<lparr>y_sent := out\<rparr>) = server_wf s"
  by (rule server_wf_same; simp)+

lemma server_wf_queue: "server_wf s \<Longrightarrow> queue_wf q \<Longrightarrow> server_wf (s\<lparr>v_queue := q\<rparr>)"
  by (auto simp: server_wf_def represents_def)

lemma poll_wf:
  assumes "Server_poll L rx srv = (r, srv')" "server_wf srv"
  shows "server_wf srv'"
proof -
  have i: "v_initialized srv" "queue_wf (v_queue srv)" using assms(2) by (simp_all add: server_wf_def)
  show ?thesis
  proof (cases "php_bacnet_client_pop_pdu (v_queue srv)")
    case (Some x)
    obtain source pdu q where x: "x = ((source, pdu), q)" by (cases x) auto
    have "queue_wf q" using pq.deq_some [OF i(2) Some [unfolded x]] by blast
    then have "server_wf (srv\<lparr>v_exn := False, v_queue := q\<rparr>)"
      using server_wf_queue [of "srv\<lparr>v_exn := False\<rparr>" q] assms(2) by simp
    then show ?thesis using assms(1) i(1) Some x server_wf_kept [OF kept_pdu]
      by (auto simp: Server_poll_def Let_def split: if_splits)
  next
    case None
    obtain source pdu where rx: "rx = (source, pdu)" by (cases rx)
    obtain a s where c: "check_incoming L source pdu (srv\<lparr>v_exn := False\<rparr>) = (a, s)"
      by (cases "check_incoming L source pdu (srv\<lparr>v_exn := False\<rparr>)")
    then have "server_wf s"
      using quiet_ask assms(2) server_wf_kept by (fastforce simp: check_incoming_def quiet_def)
    then show ?thesis using assms i(1) None c rx server_wf_kept [OF kept_pdu]
      by (auto simp: Server_poll_def Let_def split: if_splits)
  qed
qed

lemma set_aside_wf:
  assumes "php_bacnet_mixed_queue_unsolicited L srv source pdu = (ok, srv')" "server_wf srv"
  shows "server_wf srv'"
proof -
  have "set_aside srv [(source, pdu)] srv'" using mixed_handler_sets_aside [OF assms(1)] by simp
  then obtain q sec n where "srv' = srv\<lparr>v_queue := q, v_security := sec, v_reads := n\<rparr>" "queue_wf q"
    using assms(2) unfolding set_aside_def server_wf_def by metis
  then show ?thesis using server_wf_queue assms(2) by simp
qed

lemma object_wf:
  assumes "valid_instance (oid_instance (op_oid op))" "server_wf srv"
  shows "server_wf (run_object_op op srv)" and "guarded L c srv (run_object_op op srv)"
proof -
  obtain os where "represents srv os" using assms(2) by (auto simp: server_wf_def)
  then have "\<exists>os. represents (run_object_op op srv) os" using represents_op assms(1) by blast
  then show "server_wf (run_object_op op srv)"
    using assms(2) by (cases op) (auto simp: server_wf_def Server_addLocalObject_def Server_removeLocalObject_def Let_def
        split: option.splits if_splits)
  show "guarded L c srv (run_object_op op srv)"
    by (cases op) (auto simp: Server_addLocalObject_def Server_removeLocalObject_def Let_def split: option.split)
qed

lemma info_wf:
  assumes "Server_setDeviceInfo info srv = (r, srv')"
  shows "server_wf srv' = server_wf srv" and "guarded L c srv srv'"
proof -
  have "v_initialized srv' = v_initialized srv \<and> v_has_security srv' = v_has_security srv \<and> v_queue srv' = v_queue srv \<and>
    v_local_objects srv' = v_local_objects srv \<and> v_device_id srv' = v_device_id srv \<and>
    v_security srv' = v_security srv \<and> v_reads srv' = v_reads srv \<and> v_clock srv' = v_clock srv"
    using device_info_atomic [of srv info] assms by (cases r) auto
  then show "server_wf srv' = server_wf srv" "guarded L c srv srv'"
    using server_wf_same [of srv' srv] guarded_same [of srv' srv L c srv] by simp_all
qed

lemma options_wf:
  assumes "Server_setSecurityOptions options srv = (r, srv')"
  shows "server_wf srv' = server_wf srv" and "guarded L c srv srv'"
proof -
  have "srv' = srv \<or> srv' = srv\<lparr>v_security := snd (php_bacnet_security_configure options (server_now srv) (v_security srv)),
      v_reads := Suc (v_reads srv)\<rparr>"
    using assms by (auto simp: Server_setSecurityOptions_def with_server_security_def split: if_splits prod.splits sum.splits)
  moreover have "guarded L c srv (srv\<lparr>v_security := snd (php_bacnet_security_configure options (server_now srv) (v_security srv)),
      v_reads := Suc (v_reads srv)\<rparr>)"
    by (rule guarded_reading) (rule step_configure [OF _ prod.collapse [symmetric]])
  ultimately show "server_wf srv' = server_wf srv" "guarded L c srv srv'" by auto
qed

lemma stats_wf_server:
  assumes "Server_getSecurityStats include_sources reset srv = (z, srv')"
  shows "server_wf srv' = server_wf srv" and "guarded L c srv srv'"
proof -
  have "srv' = srv \<or> srv' = srv\<lparr>v_security := snd (php_bacnet_security_stats_to_array include_sources reset (server_now srv) (v_security srv)),
      v_reads := Suc (v_reads srv)\<rparr>"
    using assms by (auto simp: Server_getSecurityStats_def with_server_security_def split: if_splits prod.splits)
  moreover have "guarded L c srv (srv\<lparr>v_security := snd (php_bacnet_security_stats_to_array include_sources reset (server_now srv) (v_security srv)),
      v_reads := Suc (v_reads srv)\<rparr>)"
    by (rule guarded_reading) (rule security_step.step_stats [OF _ prod.collapse [symmetric]])
  ultimately show "server_wf srv' = server_wf srv" "guarded L c srv srv'" by auto
qed

lemma announce_wf:
  assumes "Server_announce L srv = (r, srv')"
  shows "server_wf srv' = server_wf srv" and "guarded L' c srv srv'"
proof -
  obtain ok s where i: "php_bacnet_server_send_iam L srv = (ok, s)" by (cases "php_bacnet_server_send_iam L srv")
  then have "srv' = s" using assms by (simp add: Server_announce_def)
  moreover have "kept srv s" using answers_iam [of srv L] i by (simp add: answers_def)
  ultimately show "server_wf srv' = server_wf srv" "guarded L' c srv srv'" using server_wf_kept guarded_iam [OF i] by simp_all
qed

lemma step_keeps:
  assumes "server_step L srv srv'" "server_wf srv"
  shows "server_wf srv' \<and> guarded L c srv srv'"
  using assms
proof (cases rule: server_step.cases)
  case (step_poll rx r)
  then show ?thesis using poll_wf guarded_poll assms(2) by blast
next
  case (step_aside source pdu ok)
  then show ?thesis using set_aside_wf guarded_set_aside assms(2) by blast
next
  case (step_object op)
  then show ?thesis using object_wf assms(2) by blast
next
  case (step_info info r)
  then show ?thesis using info_wf assms(2) by blast
next
  case (step_announce r)
  then show ?thesis using announce_wf assms(2) by blast
next
  case (step_options options r)
  then show ?thesis using options_wf assms(2) by blast
next
  case (step_stats include_sources reset z)
  then show ?thesis using stats_wf_server assms(2) by blast
qed (use assms(2) in \<open>auto simp: Server_onReadProperty_def Server_onWriteProperty_def Server_setAutoIAm_def split: sum.splits\<close>)

subsection \<open>Reachable servers\<close>

lemma constructed:
  assumes "Server_construct bip_init device_id iface port g (php_bacnet_server_create_object user garbage clock) = (Inr (), g', srv)"
  shows "server_wf srv" and "php_bacnet_security_create g (clock 0) = Inr (v_security srv)"
    and "v_reads srv = 1" and "v_clock srv = clock"
proof -
  have d: "0 \<le> device_id" "device_id \<le> BACNET_MAX_INSTANCE"
    using assms by (auto simp: Server_construct_def split: if_splits)
  have i: "valid_instance (word_of_int device_id)"
    using d by (simp add: valid_instance_def BACNET_MAX_INSTANCE_def uint_word_of_int take_bit_int_eq_self)
  have n: "\<not> g_client_initialized g" using assms d by (auto simp: Server_construct_def split: if_splits)
  obtain s where s: "php_bacnet_security_create g (clock 0) = Inr s"
    using assms d n by (cases "php_bacnet_security_create g (clock 0)")
      (auto simp: Server_construct_def php_bacnet_server_create_object_def server_now_def)
  note f = assms [unfolded Server_construct_def Let_def php_bacnet_server_create_object_def server_now_def, simplified, simplified s]
  show "server_wf srv" "php_bacnet_security_create g (clock 0) = Inr (v_security srv)" "v_reads srv = 1" "v_clock srv = clock"
    using f d n i s by (auto simp: server_wf_def represents_def empty_queue_wf split: sum.splits)
qed

lemma reachable_keeps:
  assumes "server_reachable L (\<lambda>n. Fin (c n)) srv" "mono c"
  shows "server_wf srv \<and> ticking c srv \<and> security_reachable (p_npdu L) (guard_state c srv)"
  using assms(1)
proof induction
  case (start bip_init device_id iface port g user garbage g' srv)
  note k = constructed [OF start]
  show ?case using k(1,3,4) assms(2) reach_create [OF k(2), of "p_npdu L"] by (simp add: ticking_def guard_state_def)
next
  case (more srv srv')
  then have k: "server_wf srv'" "guarded L c srv srv'" using step_keeps by blast+
  have "security_reachable (p_npdu L) st'" if "(security_step (p_npdu L))\<^sup>*\<^sup>* (guard_state c srv) st'" for st'
    using that by (induction rule: rtranclp_induct) (use more.IH reach_step in blast)+
  then show ?case using k more.IH by (simp add: guarded_def)
qed

text \<open>C7.
  However its methods are called, whatever packets arrive and whatever the PHP handlers do, a
  server stays consistent: it is initialised, its queue is a well-formed ring, its objects are
  distinct, none of them its own device, and the protection layer is in a state that its own
  entry points reach, hence well formed (its options valid, its source table and its
  buckets within their limits).
\<close>

theorem reachable_server_consistent:
  assumes "server_reachable L (\<lambda>n. Fin (c n)) srv" and "mono c"
  shows "v_initialized srv \<and> queue_wf (v_queue srv) \<and> (\<exists>os. represents srv os) \<and>
    security_reachable (p_npdu L) (v_security srv, c (v_reads srv - 1)) \<and> security_wf (v_security srv)"
  using reachable_keeps [OF assms] reachable_inv [of "p_npdu L" "guard_state c srv"]
  by (auto simp: server_wf_def guard_state_def security_inv_def)

lemma reachable_server_consistent_witness:
  "\<exists>srv :: nat server. server_reachable demo_link (\<lambda>n. Fin 0) srv \<and> v_local_objects srv = Some [object_key OBJECT_ANALOG_INPUT 1] \<and>
     security_wf (v_security srv) \<and> queue_wf (v_queue srv)"
proof -
  let ?new = "php_bacnet_server_create_object 0 undefined (\<lambda>n. Fin 0) :: nat server"
  let ?op = "AddObject (php_bacnet_oid_from_c OBJECT_ANALOG_INPUT 1)"
  obtain g srv where c: "Server_construct (\<lambda>i p. True) 9 None None demo_globals ?new = (Inr (), g, srv)"
    and o: "v_local_objects srv = Some []"
    using demo_create
    by (simp add: Server_construct_def Let_def php_bacnet_server_create_object_def server_now_def BACNET_MAX_INSTANCE_def demo_globals_def PHP_MINIT_bacnet_def
        bacnet_ini_defaults_def php_bacnet_init_globals_def php_bacnet_client_create_def)
  have "valid_instance (oid_instance (op_oid ?op))" by (simp add: valid_instance_def BACNET_MAX_INSTANCE_def php_bacnet_oid_from_c_def)
  from more [OF start [OF c] step_object [OF this]]
  have r: "server_reachable demo_link (\<lambda>n. Fin ((\<lambda>n. 0) n)) (run_object_op ?op srv)" by simp
  have "mono (\<lambda>n::nat. 0 :: rat)" by (simp add: mono_def)
  from reachable_server_consistent [OF r this] show ?thesis
    using r o by (auto simp: Server_addLocalObject_def OBJECT_ANALOG_INPUT_def OBJECT_DEVICE_def php_bacnet_oid_from_c_def)
qed

end
