(* ===== verification/Coherence.thy ===== *)
theory Coherence
  imports Cache_Clear
begin

text \<open>
  The cache as a whole never gives an outdated value.  The interface coherent_cache says what a
  client relies on: what is held for a key can only come from the last store, a fetch gives only
  what is held, and a forget drops what it covers.  The two levels together are an instance,
  for fixed settings, a shared table that may be missing, and LMDB (or no second level) without
  write errors.  Lifetimes do not matter for it: the statements ignore expiry.
\<close>

subsection \<open>The interface\<close>

text \<open>The value last stored for a key and not forgotten since.\<close>

type_synonym ('k, 'v) history = "'k \<Rightarrow> 'v option"

locale coherent_cache =
  fixes inv :: "'s \<Rightarrow> bool"
    and held :: "'k \<Rightarrow> 'v \<Rightarrow> 's \<Rightarrow> bool"
    and valid :: "'k \<Rightarrow> bool"
    and admissible :: "'k \<Rightarrow> 'v \<Rightarrow> 't \<Rightarrow> bool"
    and store :: "'k \<Rightarrow> 'v \<Rightarrow> 't \<Rightarrow> 's \<Rightarrow> 's"
    and fetch :: "'k \<Rightarrow> nat \<Rightarrow> 's \<Rightarrow> 'v option \<times> 's"
    and forget :: "'c \<Rightarrow> 's \<Rightarrow> 's"
    and covers :: "'c \<Rightarrow> 'k \<Rightarrow> bool"
  assumes store_inv: "inv s \<Longrightarrow> valid k \<Longrightarrow> admissible k v t \<Longrightarrow> inv (store k v t s)"
    and fetch_inv: "inv s \<Longrightarrow> valid k \<Longrightarrow> inv (snd (fetch k n s))"
    and forget_inv: "inv s \<Longrightarrow> inv (forget c s)"
    and store_same: "inv s \<Longrightarrow> valid k \<Longrightarrow> admissible k v t \<Longrightarrow> held k u (store k v t s) \<Longrightarrow> u = v"
    and store_other: "inv s \<Longrightarrow> valid k \<Longrightarrow> admissible k v t \<Longrightarrow> valid k' \<Longrightarrow> k' \<noteq> k \<Longrightarrow>
      held k' u (store k v t s) \<Longrightarrow> held k' u s"
    and fetch_held: "inv s \<Longrightarrow> valid k \<Longrightarrow> fst (fetch k n s) = Some u \<Longrightarrow> held k u s"
    and fetch_keeps: "inv s \<Longrightarrow> valid k \<Longrightarrow> valid k' \<Longrightarrow> held k' u (snd (fetch k n s)) \<Longrightarrow> held k' u s"
    and forget_covered: "inv s \<Longrightarrow> valid k \<Longrightarrow> covers c k \<Longrightarrow> \<not> held k u (forget c s)"
    and forget_keeps: "inv s \<Longrightarrow> valid k \<Longrightarrow> held k u (forget c s) \<Longrightarrow> held k u s"
begin

text \<open>Everything held is what the history says.\<close>

definition agrees :: "('k, 'v) history \<Rightarrow> 's \<Rightarrow> bool" where
  "agrees h s \<longleftrightarrow> inv s \<and> (\<forall>k u. valid k \<longrightarrow> held k u s \<longrightarrow> h k = Some u)"

lemma agrees_empty: "inv s \<Longrightarrow> (\<And>k u. valid k \<Longrightarrow> \<not> held k u s) \<Longrightarrow> agrees h s"
  by (simp add: agrees_def)

lemma agrees_store:
  assumes "agrees h s" "valid k" "admissible k v t"
  shows "agrees (h(k := Some v)) (store k v t s)"
proof -
  have "inv s" using assms(1) by (simp add: agrees_def)
  moreover have "(h(k := Some v)) k' = Some u" if "valid k'" "held k' u (store k v t s)" for k' u
  proof (cases "k' = k")
    case True
    have "held k u (store k v t s)" using that(2) True by simp
    then show ?thesis using store_same [OF \<open>inv s\<close> assms(2,3)] True by (metis fun_upd_same)
  next
    case False
    then show ?thesis using store_other [OF \<open>inv s\<close> assms(2,3) that(1) False that(2)] assms(1) that by (simp add: agrees_def)
  qed
  ultimately show ?thesis using store_inv [OF \<open>inv s\<close> assms(2,3)] by (simp add: agrees_def)
qed

lemma agrees_fetch:
  assumes "agrees h s" "valid k"
  shows "agrees h (snd (fetch k n s))" and "fst (fetch k n s) = Some u \<Longrightarrow> h k = Some u"
proof -
  have i: "inv s" using assms(1) by (simp add: agrees_def)
  show "agrees h (snd (fetch k n s))"
    using assms fetch_inv [OF i assms(2)] fetch_keeps [OF i assms(2)] by (auto simp: agrees_def)
  show "h k = Some u" if "fst (fetch k n s) = Some u"
    using assms fetch_held [OF i assms(2) that] by (auto simp: agrees_def)
qed

lemma agrees_forget:
  assumes "agrees h s"
  shows "agrees (\<lambda>k. if covers c k then None else h k) (forget c s)"
proof -
  have "inv s" using assms by (simp add: agrees_def)
  then show ?thesis
    using assms forget_inv forget_covered forget_keeps by (auto simp: agrees_def)
qed

end

text \<open>Operations in any order, and the history they leave.\<close>

datatype ('k, 'v, 't, 'c) cache_op = Store 'k 'v 't | Fetch 'k nat | Forget 'c

fun history_of :: "('c \<Rightarrow> 'k \<Rightarrow> bool) \<Rightarrow> ('k, 'v, 't, 'c) cache_op list \<Rightarrow> ('k, 'v) history \<Rightarrow> ('k, 'v) history" where
  "history_of covers [] h = h"
| "history_of covers (Store k v t # ops) h = history_of covers ops (h(k := Some v))"
| "history_of covers (Fetch k n # ops) h = history_of covers ops h"
| "history_of covers (Forget c # ops) h = history_of covers ops (\<lambda>k. if covers c k then None else h k)"

context coherent_cache begin

fun run_ops :: "('k, 'v, 't, 'c) cache_op list \<Rightarrow> 's \<Rightarrow> 's" where
  "run_ops [] s = s"
| "run_ops (Store k v t # ops) s = run_ops ops (store k v t s)"
| "run_ops (Fetch k n # ops) s = run_ops ops (snd (fetch k n s))"
| "run_ops (Forget c # ops) s = run_ops ops (forget c s)"

fun valid_op :: "('k, 'v, 't, 'c) cache_op \<Rightarrow> bool" where
  "valid_op (Store k v t) = (valid k \<and> admissible k v t)"
| "valid_op (Fetch k n) = valid k"
| "valid_op (Forget c) = True"

lemma run_agrees:
  "agrees h s \<Longrightarrow> list_all valid_op ops \<Longrightarrow> agrees (history_of covers ops h) (run_ops ops s)"
proof (induction ops arbitrary: h s)
  case (Cons a ops)
  show ?case
  proof (cases a)
    case (Store k v t)
    then show ?thesis using Cons.prems by (simp add: Cons.IH [OF agrees_store])
  next
    case (Fetch k n)
    then show ?thesis using Cons.prems by (simp add: Cons.IH [OF agrees_fetch(1)])
  next
    case (Forget c)
    then show ?thesis using Cons.prems by (simp add: Cons.IH [OF agrees_forget])
  qed
qed simp

lemma fetch_gives_last_store:
  assumes "inv s" "\<And>k u. valid k \<Longrightarrow> \<not> held k u s" "list_all valid_op ops" "valid k"
    and "fst (fetch k n (run_ops ops s)) = Some u"
  shows "history_of covers ops (\<lambda>k. None) k = Some u"
  using agrees_fetch(2) [OF run_agrees [OF agrees_empty [OF assms(1,2)] assms(3)] assms(4,5)] .

end

subsection \<open>The table\<close>

definition l1_wf :: "('e, 'b) cache_env \<Rightarrow> ('e, 'b) cache_world \<Rightarrow> bool" where
  "l1_wf E w \<longleftrightarrow> (\<forall>n shm. locked_shm E w = Some (n, shm) \<longrightarrow> slots_wf (shm_slots shm))"

definition l1_held :: "('e, 'b) cache_env \<Rightarrow> nat \<Rightarrow> string \<Rightarrow> bytes \<Rightarrow> ('e, 'b) cache_world \<Rightarrow> bool" where
  "l1_held E p full v w \<longleftrightarrow>
    (\<exists>n shm now. locked_shm E w = Some (n, shm) \<and> l1_lookup p full now (shm_slots shm) = Some v)"

lemma view_l1: "view w = view w' \<Longrightarrow> l1_wf E w = l1_wf E w' \<and> l1_held E p full v w = l1_held E p full v w'"
  using view_locked [of w w' E] by (simp add: l1_wf_def l1_held_def)

lemma locked_none_stats: "locked_shm E w = None \<Longrightarrow> locked_shm E (upd_stats f w) = None"
  using view_locked [OF view_base(5)] by metis

lemma shm_put_l1:
  assumes "l1_wf E w"
  shows "l1_wf E (cache_shm_put E p full data e w)"
    and "l1_held E q k u (cache_shm_put E p full data e w) \<Longrightarrow>
      if storable (c_l1_max_bytes (w_cache w)) full data \<and> k = full then q = p \<and> u = data else l1_held E q k u w"
proof -
  let ?w = "cache_shm_put E p full data e w"
  have "l1_wf E ?w \<and> (l1_held E q k u ?w \<longrightarrow>
      (if storable (c_l1_max_bytes (w_cache w)) full data \<and> k = full then q = p \<and> u = data else l1_held E q k u w))"
  proof (cases "locked_shm E w")
    case None
    then have "locked_shm E ?w = None" using locked_none_stats by (auto simp: cache_shm_put_def)
    then show ?thesis by (simp add: l1_wf_def l1_held_def)
  next
    case (Some x)
    obtain n shm where x: "locked_shm E w = Some (n, shm)" using Some by (cases x) simp
    obtain shm' st' where put: "php_bacnet_shm_put (c_max_entries (w_cache w) ! p) (c_l1_max_bytes (w_cache w)) p full
        data e shm (c_stats (w_cache w)) = (shm', st')" by fastforce
    have l: "locked_shm E ?w = Some (n, shm')" using x put locked_set_shm by (simp add: cache_shm_put_def)
    have wf: "slots_wf (shm_slots shm)" using assms x by (simp add: l1_wf_def)
    show ?thesis
    proof (cases "storable (c_l1_max_bytes (w_cache w)) full data")
      case True
      show ?thesis
        using shm_put_slots(1) [OF wf True put] l1_lookup_new [OF wf True put] l1_lookup_kept [OF wf True put]
        unfolding l1_wf_def l1_held_def l x using True by simp blast
    next
      case False
      then have "shm' = shm" using shm_put_refused [OF False] put by (metis fst_conv)
      then show ?thesis using wf False x l by (auto simp: l1_wf_def l1_held_def)
    qed
  qed
  then show "l1_wf E ?w" "l1_held E q k u ?w \<Longrightarrow>
      if storable (c_l1_max_bytes (w_cache w)) full data \<and> k = full then q = p \<and> u = data else l1_held E q k u w"
    by blast+
qed

lemma shm_get_l1:
  assumes "l1_wf E w" "cache_shm_get E p full cap w = (r, w')"
  shows "l1_wf E w'" and "l1_held E q k u w' \<Longrightarrow> l1_held E q k u w" and "r = Some v \<Longrightarrow> l1_held E p full v w"
    and "settings (w_cache w') = settings (w_cache w)" and "w_lmdb w' = w_lmdb w"
proof -
  have "l1_wf E w' \<and> (l1_held E q k u w' \<longrightarrow> l1_held E q k u w) \<and> (r = Some v \<longrightarrow> l1_held E p full v w) \<and>
    settings (w_cache w') = settings (w_cache w) \<and> w_lmdb w' = w_lmdb w"
  proof (cases "locked_shm E w")
    case None
    then show ?thesis using assms by (simp add: cache_shm_get_def)
  next
    case (Some x)
    obtain n shm where x: "locked_shm E w = Some (n, shm)" using Some by (cases x) simp
    let ?g = "php_bacnet_shm_get p full cap (w_clock w (w_reads w)) shm (c_stats (w_cache w))"
    obtain r' shm' st' where g: "?g = (r', shm', st')" by (cases ?g)
    have w': "r = r'" "w' = set_shm n shm' st' (w\<lparr>w_reads := Suc (w_reads w)\<rparr>)"
      using assms(2) x g by (simp_all add: cache_shm_get_def php_bacnet_wall_ms_def)
    have l: "locked_shm E w' = Some (n, shm')"
      unfolding w'(2) by (rule locked_set_shm) (simp add: x view_locked [OF view_base(1)])
    have wf: "slots_wf (shm_slots shm)" using assms(1) x by (simp add: l1_wf_def)
    have wk: "weaker (shm_slots shm) (shm_slots shm')"
      using shm_get_weaker [of shm p full cap "w_clock w (w_reads w)" "c_stats (w_cache w)"] g by simp
    have wf': "slots_wf (shm_slots shm')" by (rule weaker_wf [OF wf wk])
    have "l1_lookup q k now (shm_slots shm') = Some u \<longrightarrow> l1_lookup q k now (shm_slots shm) = Some u" for now
      using weaker_lookup [OF _ _ wk] wf wf' by (simp add: slots_wf_def)
    moreover have "r = Some v \<longrightarrow> l1_lookup p full (w_clock w (w_reads w)) (shm_slots shm) = Some v"
      using shm_get_result [of p full cap "w_clock w (w_reads w)" shm "c_stats (w_cache w)"] g w'(1)
      by (auto split: option.splits if_splits)
    ultimately show ?thesis
      using wf' x l by (auto simp: l1_wf_def l1_held_def w'(2) set_shm_def upd_stats_def upd_cache_def settings_def)
  qed
  then show "l1_wf E w'" "l1_held E q k u w' \<Longrightarrow> l1_held E q k u w" "r = Some v \<Longrightarrow> l1_held E p full v w"
    "settings (w_cache w') = settings (w_cache w)" "w_lmdb w' = w_lmdb w" by blast+
qed

subsection \<open>LMDB\<close>

text \<open>LMDB without write errors: reads see writes, and a cursor can be opened.\<close>

definition coherent_env :: "('e, 'b) cache_env \<Rightarrow> bool" where
  "coherent_env E \<longleftrightarrow> lmdb_ok E \<and> (\<forall>p e. lm_scan E p e \<noteq> None) \<and>
     (\<forall>k v e. \<exists>e'. lm_put E k v e = Some e' \<and> (\<forall>k'. lm_get E k' e' = (if k' = k then Some v else lm_get E k' e)))"

definition l2_held :: "('e, 'b) cache_env \<Rightarrow> string \<Rightarrow> bytes \<Rightarrow> ('e, 'b) cache_world \<Rightarrow> bool" where
  "l2_held E full v w \<longleftrightarrow> c_l2 (w_cache w) = L2_LMDB \<and> c_env (w_cache w) \<and>
     (\<exists>e. lm_get E full (w_lmdb w) = Some (lmdb_record v e))"

lemma lmdb_record_inject: "lmdb_record u e = lmdb_record v e' \<Longrightarrow> u = v"
  by (drule arg_cong [where f = "drop HEADER_SIZE"]) (simp add: lmdb_record_def)

text \<open>Pruning only deletes.\<close>

definition fewer :: "('e, 'b) cache_env \<Rightarrow> 'e \<Rightarrow> 'e \<Rightarrow> bool" where
  "fewer E e' e \<longleftrightarrow> (\<forall>k v. lm_get E k e' = Some v \<longrightarrow> lm_get E k e = Some v)"

lemma fewer_refl [simp]: "fewer E e e" by (simp add: fewer_def)

lemma fewer_trans: "fewer E a b \<Longrightarrow> fewer E b c \<Longrightarrow> fewer E a c" by (simp add: fewer_def)

lemma fewer_del: "lmdb_ok E \<Longrightarrow> fewer E (lm_del E k e) e"
  by (simp add: fewer_def lmdb_ok_def)

lemma fewer_prune_partition:
  assumes "lmdb_ok E"
  shows "prune_partition E rs n o1 w = (n', o2, w') \<Longrightarrow> fewer E (w_lmdb w') (w_lmdb w)"
proof (induction rs arbitrary: n o1 w)
  case (Cons r rs)
  obtain k v where r: "r = (k, v)" by (cases r)
  show ?case
    using Cons.prems fewer_trans [OF _ fewer_del [OF assms]] unfolding r
    by (auto simp: Let_def php_bacnet_wall_ms_def upd_stats_def upd_cache_def split: if_splits dest!: Cons.IH)
qed simp

lemma fewer_drop_victim: "lmdb_ok E \<Longrightarrow> fewer E (w_lmdb (drop_victim E over victim w)) (w_lmdb w)"
  by (simp add: drop_victim_def fewer_del upd_stats_def upd_cache_def)

lemma fewer_prune:
  assumes "lmdb_ok E"
  shows "fewer E (w_lmdb (php_bacnet_lmdb_prune E p w)) (w_lmdb w)"
proof -
  have c: "lm_commit E x y = y" for x y using assms by (simp add: lmdb_ok_def)
  have f: "prune_partition E rs n o1 w = (n', o2, w') \<Longrightarrow>
      fewer E (w_lmdb (drop_victim E b1 v1 (drop_victim E b2 v2 w'))) (w_lmdb w)" for rs n o1 n' o2 w' b1 v1 b2 v2
    by (rule fewer_trans [OF fewer_drop_victim [OF assms] fewer_trans [OF fewer_drop_victim [OF assms]
          fewer_prune_partition [OF assms]]])
  show ?thesis
    by (auto simp: php_bacnet_lmdb_prune_def Let_def c split: option.splits prod.splits intro: f)
qed

lemma lmdb_put_get:
  assumes "coherent_env E"
  shows "lm_get E k (w_lmdb (php_bacnet_lmdb_put E full data e w)) =
    (if c_env (w_cache w) \<and> length data \<le> CACHE_VALUE_MAX \<and> k = full then Some (lmdb_record data e)
     else lm_get E k (w_lmdb w))"
proof -
  obtain e' where "lm_put E full (lmdb_record data e) (w_lmdb w) = Some e'"
    "\<forall>k'. lm_get E k' e' = (if k' = full then Some (lmdb_record data e) else lm_get E k' (w_lmdb w))"
    using assms unfolding coherent_env_def by blast
  then show ?thesis by (auto simp: php_bacnet_lmdb_put_def)
qed

lemma lmdb_get_held:
  assumes "php_bacnet_lmdb_get E full cap w = (r, w')" "c_l2 (w_cache w) = L2_LMDB"
  shows "r = Some v \<Longrightarrow> l2_held E full v w" and "w_lmdb w' = w_lmdb w" and "w_cache w' = w_cache w"
    and "view w' = view w"
  using assms lmdb_accept_only
  by (auto simp: php_bacnet_lmdb_get_def php_bacnet_wall_ms_def l2_held_def split: option.splits if_splits dest!: lmdb_accept_only)

subsection \<open>Both levels\<close>

type_synonym cache_key = "nat \<times> string"

text \<open>A cache with the settings c0 in an environment without LMDB errors.\<close>

definition steady :: "('e, 'b) cache_env \<Rightarrow> php_bacnet_cache \<Rightarrow> ('e, 'b) cache_world \<Rightarrow> bool" where
  "steady E c0 w \<longleftrightarrow> coherent_env E \<and> c_l2 c0 \<noteq> L2_CALLBACK \<and> length (c_namespace_name c0) < 96 \<and>
     settings (w_cache w) = settings c0 \<and> l1_wf E w"

definition cached :: "('e, 'b) cache_env \<Rightarrow> php_bacnet_cache \<Rightarrow> cache_key \<Rightarrow> bytes \<Rightarrow> ('e, 'b) cache_world \<Rightarrow> bool" where
  "cached E c0 k v w \<longleftrightarrow> (case k of (p, key) \<Rightarrow>
     l1_held E p (php_bacnet_make_full_key c0 p key) v w \<or> l2_held E (php_bacnet_make_full_key c0 p key) v w)"

definition proper_key :: "php_bacnet_cache \<Rightarrow> cache_key \<Rightarrow> bool" where
  "proper_key c0 k \<longleftrightarrow> (case k of (p, key) \<Rightarrow> p < CACHE_PARTITION_COUNT \<and> key_fits c0 p key)"

definition proper_value :: "php_bacnet_cache \<Rightarrow> cache_key \<Rightarrow> bytes \<Rightarrow> dbl \<Rightarrow> bool" where
  "proper_value c0 k v ttl \<longleftrightarrow> (case k of (p, key) \<Rightarrow> php_bacnet_cache_partition_enabled c0 p \<and> \<not> ttl \<le> Fin 0 \<and>
     storable (c_l1_max_bytes c0) (php_bacnet_make_full_key c0 p key) v)"

definition covers :: "int \<Rightarrow> cache_key \<Rightarrow> bool" where
  "covers part k \<longleftrightarrow> part < 0 \<or> part = int (fst k)"

definition put_key :: "('e, 'b) cache_env \<Rightarrow> cache_key \<Rightarrow> bytes \<Rightarrow> dbl \<Rightarrow> ('e, 'b) cache_world \<Rightarrow> ('e, 'b) cache_world" where
  "put_key E k = php_bacnet_cache_put E (fst k) (snd k)"

definition get_key :: "('e, 'b) cache_env \<Rightarrow> cache_key \<Rightarrow> nat \<Rightarrow> ('e, 'b) cache_world \<Rightarrow> bytes option \<times> ('e, 'b) cache_world" where
  "get_key E k = php_bacnet_cache_get E (fst k) (snd k)"

lemma steadyD:
  assumes "steady E c0 w"
  shows "lmdb_ok E" "c_l2 (w_cache w) \<noteq> L2_CALLBACK" "length (c_namespace_name (w_cache w)) < 96"
    "php_bacnet_make_full_key (w_cache w) p key = php_bacnet_make_full_key c0 p key"
    "php_bacnet_cache_partition_enabled (w_cache w) p = php_bacnet_cache_partition_enabled c0 p"
    "c_l2 (w_cache w) = c_l2 c0" "c_l1_max_bytes (w_cache w) = c_l1_max_bytes c0" "c_env (w_cache w) = c_env c0"
    "lm_scan E q e \<noteq> None" "l1_wf E w" "coherent_env E"
proof -
  have s: "settings (w_cache w) = settings c0" using assms by (simp add: steady_def)
  note e = settings_eqD [OF s]
  show "lmdb_ok E" "c_l2 (w_cache w) \<noteq> L2_CALLBACK" "length (c_namespace_name (w_cache w)) < 96"
    "php_bacnet_make_full_key (w_cache w) p key = php_bacnet_make_full_key c0 p key"
    "php_bacnet_cache_partition_enabled (w_cache w) p = php_bacnet_cache_partition_enabled c0 p"
    "c_l2 (w_cache w) = c_l2 c0" "c_l1_max_bytes (w_cache w) = c_l1_max_bytes c0" "c_env (w_cache w) = c_env c0"
    "lm_scan E q e \<noteq> None" "l1_wf E w" "coherent_env E"
    using assms e full_key_settings [OF s]
    by (simp_all add: steady_def coherent_env_def php_bacnet_cache_partition_enabled_def)
qed

lemma full_key_proper:
  assumes "proper_key c0 (p, k)" "proper_key c0 (q, k')"
    and "php_bacnet_make_full_key c0 p k = php_bacnet_make_full_key c0 q k'"
  shows "p = q \<and> k = k'"
proof -
  note f = assms [unfolded proper_key_def, simplified]
  show ?thesis
    using partition_name_unique [of p q k k'] f full_key [of c0 p k] full_key [of c0 q k']
    by (auto simp: partition_prefix_def)
qed

text \<open>Insertion.\<close>

lemma put_effect:
  assumes st: "steady E c0 w" and k: "proper_key c0 (p, key)" and q: "proper_key c0 (q, key')"
    and en: "php_bacnet_cache_partition_enabled c0 p" "\<not> ttl \<le> Fin 0"
  shows "steady E c0 (php_bacnet_cache_put E p key v ttl w)"
    and "(q, key') \<noteq> (p, key) \<Longrightarrow> cached E c0 (q, key') u (php_bacnet_cache_put E p key v ttl w) \<Longrightarrow> cached E c0 (q, key') u w"
    and "storable (c_l1_max_bytes c0) (php_bacnet_make_full_key c0 p key) v \<Longrightarrow>
      cached E c0 (p, key) u (php_bacnet_cache_put E p key v ttl w) \<Longrightarrow> u = v"
proof -
  let ?full = "php_bacnet_make_full_key c0 p key" and ?w1 = "w\<lparr>w_reads := Suc (w_reads w)\<rparr>"
  let ?e = "w_clock w (w_reads w) + u64_of_dbl (conv_u64 E) (ttl * Fin 1000)"
  let ?w2 = "cache_shm_put E p ?full v ?e ?w1"
  let ?w3 = "php_bacnet_cache_put E p key v ttl w"
  let ?sto = "storable (c_l1_max_bytes c0) ?full v"
  note d = steadyD [OF st]
  have en: "php_bacnet_cache_partition_enabled (w_cache w) p" "\<not> ttl \<le> Fin 0" using en d(5) by simp_all
  have vw: "view ?w3 = view ?w2" using view_cache_put [OF en, of E key v] d(4) by simp
  note ps = put_settings(1) [OF en, of E key v]
  have wf1: "l1_wf E ?w1" using d(10) view_l1 [OF view_base(1) [of _ w], of E] by simp
  have c1: "c_l1_max_bytes (w_cache ?w1) = c_l1_max_bytes c0" using d(7) by simp
  have h1: "l1_held E q k u ?w1 = l1_held E q k u w" for q k u using view_l1 [OF view_base(1) [of _ w], of E] by simp
  show sw: "steady E c0 ?w3"
    using st ps shm_put_l1(1) [OF wf1, of p ?full v ?e] view_l1 [OF vw, of E] by (simp add: steady_def)
  have w2: "w_lmdb ?w2 = w_lmdb w" "settings (w_cache ?w2) = settings (w_cache w)"
    by (auto simp: cache_shm_put_def set_shm_def upd_stats_def upd_cache_def settings_def Let_def
        split: option.splits prod.splits)
  have l1: "if ?sto \<and> k = ?full then q = p \<and> u = v else l1_held E q k u w" if "l1_held E q k u ?w3" for q k u
    using shm_put_l1(2) [OF wf1, of q k u p ?full v ?e] that view_l1 [OF vw, of E] c1 h1 by (simp split: if_splits)
  have lm: "w_lmdb ?w3 = w_lmdb (php_bacnet_lmdb_prune E p (php_bacnet_lmdb_put E ?full v ?e ?w2))" if "c_l2 c0 = L2_LMDB"
    using that en d(2,4,6) settings_eqD(4) [OF w2(2)]
    by (simp add: php_bacnet_cache_put_def php_bacnet_wall_ms_def Let_def upd_stats_def upd_cache_def)
  have l2: "if length v \<le> CACHE_VALUE_MAX \<and> k = ?full then u = v else l2_held E k u w" if "l2_held E k u ?w3" for k u
  proof -
    have c: "c_l2 c0 = L2_LMDB" "c_env c0"
      using that settings_eqD(4,9) [OF ps] d(6,8) by (simp_all add: l2_held_def)
    have "\<exists>e. lm_get E k (w_lmdb ?w3) = Some (lmdb_record u e)" using that by (simp add: l2_held_def)
    then obtain e where "lm_get E k (w_lmdb ?w3) = Some (lmdb_record u e)" ..
    moreover have "fewer E (w_lmdb ?w3) (w_lmdb (php_bacnet_lmdb_put E ?full v ?e ?w2))"
      unfolding lm [OF c(1)] by (rule fewer_prune [OF d(1)])
    ultimately have "lm_get E k (w_lmdb (php_bacnet_lmdb_put E ?full v ?e ?w2)) = Some (lmdb_record u e)"
      unfolding fewer_def by blast
    then have "(if length v \<le> CACHE_VALUE_MAX \<and> k = ?full then Some (lmdb_record v ?e) else lm_get E k (w_lmdb w)) = Some (lmdb_record u e)"
      using lmdb_put_get [OF d(11), of k ?full v ?e ?w2] c settings_eqD(9) [OF w2(2)] d(8) w2(1)
      by (auto split: if_splits)
    then show ?thesis
      using c d(6,8) by (auto simp: l2_held_def dest: lmdb_record_inject split: if_splits)
  qed
  show "cached E c0 (q, key') u w" if "(q, key') \<noteq> (p, key)" "cached E c0 (q, key') u ?w3"
  proof -
    let ?f = "php_bacnet_make_full_key c0 q key'"
    have "?f \<noteq> ?full" using full_key_proper [OF q k] that(1) by blast
    then show ?thesis using that(2) l1 [of q ?f u] l2 [of ?f u] by (auto simp: cached_def)
  qed
  show "u = v" if "?sto" "cached E c0 (p, key) u ?w3"
    using that l1 [of p ?full u] l2 [of ?full u] by (auto simp: cached_def storable_def)
qed

lemma cached_put:
  assumes st: "steady E c0 w" and k: "proper_key c0 (p, key)" and v: "proper_value c0 (p, key) v ttl"
  shows "steady E c0 (php_bacnet_cache_put E p key v ttl w)"
    and "proper_key c0 (q, key') \<Longrightarrow> cached E c0 (q, key') u (php_bacnet_cache_put E p key v ttl w) \<Longrightarrow>
      if (q, key') = (p, key) then u = v else cached E c0 (q, key') u w"
proof -
  have v: "php_bacnet_cache_partition_enabled c0 p" "\<not> ttl \<le> Fin 0"
    "storable (c_l1_max_bytes c0) (php_bacnet_make_full_key c0 p key) v"
    using v by (simp_all add: proper_value_def)
  show "steady E c0 (php_bacnet_cache_put E p key v ttl w)" by (rule put_effect(1) [OF st k k v(1,2)])
  show "if (q, key') = (p, key) then u = v else cached E c0 (q, key') u w"
    if "proper_key c0 (q, key')" "cached E c0 (q, key') u (php_bacnet_cache_put E p key v ttl w)"
    using put_effect(2,3) [OF st k that(1) v(1,2)] v(3) that(2) by auto
qed

lemma cached_stats:
  "steady E c0 (upd_stats f w) = steady E c0 w" "cached E c0 k u (upd_stats f w) = cached E c0 k u w"
  using view_l1 [OF view_base(5) [of f w], of E]
  by (simp_all add: steady_def cached_def l2_held_def upd_stats_def upd_cache_def settings_def split: prod.split)

text \<open>Lookup.  A value found in LMDB is put into the table unchanged.\<close>

lemma cached_get:
  assumes st: "steady E c0 w" and k: "proper_key c0 (p, key)" and g: "php_bacnet_cache_get E p key cap w = (r, w')"
  shows "steady E c0 w'" and "proper_key c0 (q, key') \<Longrightarrow> cached E c0 (q, key') u w' \<Longrightarrow> cached E c0 (q, key') u w"
    and "r = Some v \<Longrightarrow> cached E c0 (p, key) v w"
proof -
  let ?full = "php_bacnet_make_full_key c0 p key"
  note d = steadyD [OF st]
  note stats = cached_stats
  have main: "steady E c0 w' \<and> (proper_key c0 (q, key') \<longrightarrow> cached E c0 (q, key') u w' \<longrightarrow> cached E c0 (q, key') u w) \<and>
    (r = Some v \<longrightarrow> cached E c0 (p, key) v w)" for q key' u v
  proof (cases "php_bacnet_cache_partition_enabled (w_cache w) p")
    case False
    then show ?thesis using g st by (simp add: php_bacnet_cache_get_def)
  next
    case True
    obtain r1 w1 where g1: "cache_shm_get E p ?full cap w = (r1, w1)" by (cases "cache_shm_get E p ?full cap w")
    note s1 = shm_get_l1 [OF d(10) g1]
    have st1: "steady E c0 w1" using st s1(1,4) by (simp add: steady_def)
    have l2w1: "l2_held E k u w1 = l2_held E k u w" for k u
      using settings_eqD(4,9) [OF s1(4)] s1(5) by (simp add: l2_held_def)
    have c1: "cached E c0 k u w1 \<Longrightarrow> cached E c0 k u w" for k u
      using s1(2) l2w1 by (auto simp: cached_def split: prod.splits)
    show ?thesis
    proof (cases r1)
      case (Some x)
      then have "r = Some x" "w' = upd_stats (count_hit p) w1" using g True d(2,4) g1 by (simp_all add: php_bacnet_cache_get_def)
      moreover have "cached E c0 (p, key) x w" using s1(3) [of x] Some by (simp add: cached_def)
      ultimately show ?thesis using stats st1 c1 by blast
    next
      case None
      obtain r2 w2 where g2: "l2_lookup E p key ?full cap w1 = (r2, w2)" by (cases "l2_lookup E p key ?full cap w1")
      note d1 = steadyD [OF st1]
      have w2: "r2 = Some x \<Longrightarrow> l2_held E ?full x w1" "w_lmdb w2 = w_lmdb w1" "w_cache w2 = w_cache w1" "view w2 = view w1" for x
        using g2 d1(2) lmdb_get_held [of E ?full cap w1 r2 w2] by (auto simp: l2_lookup_def split: l2_kind.splits)
      have same2: "steady E c0 w2" "cached E c0 k u w2 = cached E c0 k u w1" for k u
        using st1 w2 view_l1 [OF w2(4), of E] by (simp_all add: steady_def cached_def l2_held_def split: prod.split)
      show ?thesis
      proof (cases r2)
        case None
        then have "r = None" "w' = upd_stats (\<lambda>st. st\<lparr>cs_misses := cs_misses st + 1\<rparr>) w2"
          using g True d(2,4) g1 g2 \<open>r1 = None\<close> by (simp_all add: php_bacnet_cache_get_def)
        then show ?thesis using stats same2 c1 by blast
      next
        case (Some x)
        let ?w3 = "w2\<lparr>w_reads := Suc (w_reads w2)\<rparr>"
        let ?e = "w_clock w2 (w_reads w2) + u64_of_dbl (conv_u64 E) (c_ttl (w_cache w2) ! p * Fin 1000)"
        let ?w4 = "cache_shm_put E p ?full x ?e ?w3"
        have w': "r = Some x" "w' = upd_stats (\<lambda>st. st\<lparr>cs_hits := cs_hits st + 1\<rparr>) ?w4"
          using g True d(2,4) g1 g2 \<open>r1 = None\<close> Some by (simp_all add: php_bacnet_cache_get_def php_bacnet_wall_ms_def)
        have held: "cached E c0 (p, key) x w" using w2(1) [OF Some] l2w1 by (simp add: cached_def)
        have wf3: "l1_wf E ?w3" "\<And>q k u. l1_held E q k u ?w3 = l1_held E q k u w2"
          using steadyD(10) [OF same2(1)] view_l1 [OF view_base(1) [of _ w2], of E] by simp_all
        have w4: "w_lmdb ?w4 = w_lmdb w2" "settings (w_cache ?w4) = settings (w_cache w2)"
          by (auto simp: cache_shm_put_def set_shm_def upd_stats_def upd_cache_def settings_def Let_def
              split: option.splits prod.splits)
        have l2: "l2_held E k u ?w4 = l2_held E k u w2" for k u
          using settings_eqD(4,9) [OF w4(2)] w4(1) by (simp add: l2_held_def)
        have l1: "l1_held E q k u ?w4 \<Longrightarrow> l1_held E q k u w2 \<or> (q = p \<and> k = ?full \<and> u = x)" for q k u
          using shm_put_l1(2) [OF wf3(1), of q k u p ?full x ?e] wf3(2) by (auto split: if_splits)
        have "steady E c0 ?w4" using same2(1) shm_put_l1(1) [OF wf3(1)] w4(2) by (simp add: steady_def)
        moreover have "cached E c0 (q, key') u w" if kk: "proper_key c0 (q, key')" and hh: "cached E c0 (q, key') u ?w4"
        proof -
          let ?f = "php_bacnet_make_full_key c0 q key'"
          consider "l1_held E q ?f u w2" | "q = p \<and> ?f = ?full \<and> u = x" | "l2_held E ?f u w2"
            using hh l1 l2 unfolding cached_def by auto
          then show ?thesis
          proof cases
            case 2
            then show ?thesis using held full_key_proper [OF kk k] by auto
          next
            case 1
            then have "cached E c0 (q, key') u w2" by (simp add: cached_def)
            then show ?thesis using same2(2) c1 by blast
          next
            case 3
            then have "cached E c0 (q, key') u w2" by (simp add: cached_def)
            then show ?thesis using same2(2) c1 by blast
          qed
        qed
        ultimately show ?thesis using stats w' held by blast
      qed
    qed
  qed
  show "steady E c0 w'" "proper_key c0 (q, key') \<Longrightarrow> cached E c0 (q, key') u w' \<Longrightarrow> cached E c0 (q, key') u w"
    "r = Some v \<Longrightarrow> cached E c0 (p, key) v w"
    using main by blast+
qed

text \<open>Clearing.\<close>

lemma cached_clear:
  assumes st: "steady E c0 w"
  shows "steady E c0 (php_bacnet_cache_clear E part w)"
    and "proper_key c0 (p, key) \<Longrightarrow> cached E c0 (p, key) u (php_bacnet_cache_clear E part w) \<Longrightarrow> cached E c0 (p, key) u w \<and> \<not> covers part (p, key)"
proof -
  let ?w = "php_bacnet_cache_clear E part w" and ?full = "php_bacnet_make_full_key c0 p key"
  note d = steadyD [OF st] and s = cache_clear_settings(1) [OF steadyD(2) [OF st], of E part]
  have wf: "l1_wf E ?w"
    unfolding l1_wf_def
  proof (intro allI impI)
    fix n shm assume "locked_shm E ?w = Some (n, shm)"
    then obtain shm0 where "locked_shm E w = Some (n, shm0)" "shm = php_bacnet_shm_clear_partition part shm0"
      using cache_clear_locked [OF d(2)] by blast
    then show "slots_wf (shm_slots shm)" using d(10) weaker_wf [OF _ shm_clear_weaker] by (auto simp: l1_wf_def)
  qed
  then show sw: "steady E c0 ?w" using st s by (simp add: steady_def)
  have l1: "l1_held E p ?full u w" if held: "l1_held E p ?full u ?w"
  proof -
    obtain n shm now where l: "locked_shm E ?w = Some (n, shm)" "l1_lookup p ?full now (shm_slots shm) = Some u"
      using held unfolding l1_held_def by blast
    obtain shm0 where l0: "locked_shm E w = Some (n, shm0)" "shm = php_bacnet_shm_clear_partition part shm0"
      using cache_clear_locked [OF d(2) l(1)] by blast
    have "slots_wf (shm_slots shm0)" "slots_wf (shm_slots shm)" using d(10) wf l(1) l0(1) by (auto simp: l1_wf_def)
    then have "l1_lookup p ?full now (shm_slots shm0) = Some u"
      using weaker_lookup [OF _ _ shm_clear_weaker, of shm0 part] l(2) unfolding l0(2) slots_wf_def by blast
    then show ?thesis using l0(1) unfolding l1_held_def by blast
  qed
  have l2: "l2_held E ?full u w" if "l2_held E ?full u ?w"
    using that settings_eqD(4,9) [OF s]
    by (auto simp: l2_held_def cache_clear_lmdb [OF d(1,2)] split: if_splits option.splits)
  have none: "\<not> cached E c0 (p, key) u ?w" if cov: "covers part (p, key)" and pl: "p < CACHE_PARTITION_COUNT"
  proof -
    have "part < 0 \<or> part = int p" using cov by (simp add: covers_def)
    then have a: "absent E p ?w" using absent_clear [OF d(1) pl _ d(2,3)] d(9) by blast
    have "\<not> l1_held E p ?full u ?w"
      using a absent_slots unfolding l1_held_def absent_def by (metis option.distinct(1))
    moreover have "\<not> l2_held E ?full u ?w"
      using a steadyD(4) [OF sw] unfolding l2_held_def absent_def by (metis option.distinct(1))
    ultimately show ?thesis by (simp add: cached_def)
  qed
  show "cached E c0 (p, key) u w \<and> \<not> covers part (p, key)" if "proper_key c0 (p, key)" "cached E c0 (p, key) u ?w"
    using that none l1 l2 by (auto simp: cached_def proper_key_def)
qed

interpretation cc: coherent_cache "steady E c0" "cached E c0" "proper_key c0" "proper_value c0"
  "put_key E" "get_key E" "php_bacnet_cache_clear E" covers for E c0
proof (unfold_locales, goal_cases)
  case (1 s k v t)
  then show ?case using cached_put(1) [of E c0 s "fst k" "snd k"] by (simp add: put_key_def)
next
  case (2 s k n)
  then show ?case
    using cached_get(1) [of E c0 s "fst k" "snd k" n] by (simp add: get_key_def prod.split) (metis prod.collapse)
next
  case (3 s c)
  then show ?case by (rule cached_clear(1))
next
  case (4 s k v t u)
  then show ?case using cached_put(2) [of E c0 s "fst k" "snd k" v t "fst k" "snd k" u] by (simp add: put_key_def)
next
  case (5 s k v t k' u)
  then show ?case
    using cached_put(2) [of E c0 s "fst k" "snd k" v t "fst k'" "snd k'" u] by (simp add: put_key_def split: if_splits)
next
  case (6 s k n u)
  then show ?case
    using cached_get(3) [of E c0 s "fst k" "snd k" n] by (simp add: get_key_def) (metis prod.collapse)
next
  case (7 s k k' u n)
  then show ?case
    using cached_get(2) [of E c0 s "fst k" "snd k" n _ _ "fst k'" "snd k'" u]
    by (simp add: get_key_def) (metis prod.collapse)
next
  case (8 s k c u)
  then show ?case using cached_clear(2) [of E c0 s "fst k" "snd k"] by auto
next
  case (9 s k u c)
  then show ?case using cached_clear(2) [of E c0 s "fst k" "snd k"] by auto
qed

subsection \<open>Runs\<close>

type_synonym cache_event = "(cache_key, bytes, dbl, int) cache_op"

fun run_cache :: "('e, 'b) cache_env \<Rightarrow> cache_event list \<Rightarrow> ('e, 'b) cache_world \<Rightarrow> ('e, 'b) cache_world" where
  "run_cache E [] w = w"
| "run_cache E (Store k v ttl # ops) w = run_cache E ops (php_bacnet_cache_put E (fst k) (snd k) v ttl w)"
| "run_cache E (Fetch k cap # ops) w = run_cache E ops (snd (php_bacnet_cache_get E (fst k) (snd k) cap w))"
| "run_cache E (Forget part # ops) w = run_cache E ops (php_bacnet_cache_clear E part w)"

lemma run_cache_ops: "run_cache E ops w = cc.run_ops E ops w"
  by (induction E ops w rule: run_cache.induct)
     (simp_all only: cc.run_ops.simps run_cache.simps put_key_def [symmetric] get_key_def [symmetric])

fun proper_op :: "php_bacnet_cache \<Rightarrow> cache_event \<Rightarrow> bool" where
  "proper_op c (Store k v ttl) = (proper_key c k \<and> proper_value c k v ttl)"
| "proper_op c (Fetch k cap) = proper_key c k"
| "proper_op c (Forget part) = True"

lemma proper_ops: "cc.valid_op c = proper_op c"
proof (rule ext)
  show "cc.valid_op c x = proper_op c x" for x by (cases x) simp_all
qed

text \<open>Nothing is stored yet, in any partition.\<close>

definition cache_empty :: "('e, 'b) cache_env \<Rightarrow> ('e, 'b) cache_world \<Rightarrow> bool" where
  "cache_empty E w \<longleftrightarrow> (\<forall>p < CACHE_PARTITION_COUNT. absent E p w)"

lemma cache_empty_cached:
  assumes "cache_empty E w" "proper_key (w_cache w) k"
  shows "\<not> cached E (w_cache w) k u w"
proof -
  obtain p key where k: "k = (p, key)" by (cases k)
  then have a: "absent E p w" using assms by (simp add: cache_empty_def proper_key_def)
  then have "\<not> l1_held E p (php_bacnet_make_full_key (w_cache w) p key) u w"
    using absent_slots unfolding l1_held_def absent_def by (metis option.distinct(1))
  moreover have "\<not> l2_held E (php_bacnet_make_full_key (w_cache w) p key) u w"
    using a unfolding l2_held_def absent_def by (metis option.distinct(1))
  ultimately show ?thesis by (simp add: cached_def k)
qed

text \<open>C10.
  The two levels together never give an outdated value.  After any sequence of insertions,
  lookups and clearings of an empty cache, what a lookup finds is the value inserted last under
  that key, and nothing that was cleared since: LMDB does not bring back what the table has
  lost, a promotion puts back only what is current, and no key stands for another.
\<close>

theorem cache_never_stale:
  assumes "steady E (w_cache w) w" "cache_empty E w" "list_all (proper_op (w_cache w)) ops"
    and "proper_key (w_cache w) (p, key)"
    and "php_bacnet_cache_get E p key cap (run_cache E ops w) = (Some v, w')"
  shows "history_of covers ops (\<lambda>_. None) (p, key) = Some v"
  using cc.fetch_gives_last_store [OF assms(1) cache_empty_cached [OF assms(2)], of ops "(p, key)" cap v] assms(3-5)
  by (simp add: proper_ops run_cache_ops [symmetric] get_key_def)

lemma map_of_without: "map_of (filter (\<lambda>r. fst r \<noteq> k) e) k' = (if k' = k then None else map_of e k')"
  by (induction e) auto

lemma demo_steady: "steady list_env (w_cache (demo_world [])) (demo_world [])"
proof -
  have "coherent_env list_env"
    using list_env_ok by (simp add: coherent_env_def) (simp add: list_env_def map_of_without)
  then show ?thesis
    using demo_locked [of "[]"] init_wf by (simp add: steady_def l1_wf_def demo_world_def demo_cache_fields)
qed

lemma demo_empty: "cache_empty list_env (demo_world [])"
  using demo_locked [of "[]"]
  by (simp add: cache_empty_def absent_def demo_world_def demo_cache_fields php_bacnet_shm_init_def)
     (simp add: list_env_def empty_slot_def)

lemma cache_never_stale_witness:
  "\<exists>w'. php_bacnet_cache_get list_env 3 ''7'' 16 (run_cache list_env [Store (3, ''7'') [1, 2, 3] (Fin 60)] (demo_world [])) = (Some [1, 2, 3], w') \<and>
     history_of covers [Store (3, ''7'') [1, 2, 3] (Fin 60)] (\<lambda>_. None) (3, ''7'') = Some [1, 2, 3]"
proof -
  let ?ops = "[Store (3, ''7'') [1, 2, 3] (Fin 60)] :: cache_event list"
  have "fst (php_bacnet_cache_get list_env 3 ''7'' 16 (run_cache list_env ?ops (demo_world []))) = Some [1, 2, 3]"
    unfolding run_cache.simps fst_conv snd_conv
  proof (rule put_then_get [OF demo_enabled _ _ demo_ready])
    show "\<forall>n. w_clock (demo_world []) n < w_clock (demo_world []) (w_reads (demo_world [])) +
        u64_of_dbl (conv_u64 list_env) (Fin 60 * Fin 1000)"
      unfolding ttl_60 by (simp add: demo_world_def)
  qed (simp_all only: demo_full_key demo_storable, simp_all add: demo_world_def demo_cache_fields)
  then obtain w' where g: "php_bacnet_cache_get list_env 3 ''7'' 16 (run_cache list_env ?ops (demo_world [])) = (Some [1, 2, 3], w')"
    by (metis prod.collapse)
  have k: "proper_key (w_cache (demo_world [])) (3, ''7'')"
    by (simp add: proper_key_def CACHE_PARTITION_COUNT_def key_fits_def partition_prefix_def key_prefix_def
        demo_world_def demo_cache_fields l2_name_def partition_names_def PHP_BACNET_CACHE_VERSION_def show_nat_2)
  moreover have "proper_value (w_cache (demo_world [])) (3, ''7'') [1, 2, 3] (Fin 60)"
    using demo_enabled demo_storable by (simp add: proper_value_def demo_full_key)
  ultimately show ?thesis
    using g cache_never_stale [OF demo_steady demo_empty _ k g] by simp
qed

end
