(* ===== verification/Client_Coherence.thy ===== *)
theory Client_Coherence
  imports Coherence Client_Props
begin

text \<open>
  The client and its cache together: within a session of reads, writes, discoveries and clearings
  a read gives the latest answer the device gave for that property.  The key of a read identifies
  the device and the property, and always fits the table.
\<close>

subsection \<open>The key of a read\<close>

lemma length_show_nat_pow: "0 < k \<Longrightarrow> n < 10 ^ k \<Longrightarrow> length (show_nat n) \<le> k"
proof (induction k arbitrary: n)
  case (Suc k)
  show ?case
  proof (cases "n < 10")
    case True
    then show ?thesis by (simp add: show_nat.simps [of n])
  next
    case False
    then have "0 < k" using Suc.prems(2) by (cases k) auto
    moreover have "n div 10 < 10 ^ k" using Suc.prems(2) by (simp add: less_mult_imp_div_less mult.commute)
    ultimately show ?thesis using Suc.IH False by (simp add: show_nat.simps [of n])
  qed
qed simp

lemma length_show_u32: "length (show_nat (unat (n :: u32))) \<le> 10"
  using unsigned_less [of n, where ?'a = nat] by (intro length_show_nat_pow) simp_all

lemma length_show_u16: "length (show_nat (unat (n :: u16))) \<le> 5"
  using unsigned_less [of n, where ?'a = nat] by (intro length_show_nat_pow) simp_all

lemma unat_u8_le: "unat (b :: u8) \<le> 255"
  using unsigned_less [of b, where ?'a = nat] by simp

lemma ipport_length: "length (fst (php_bacnet_address_to_ipport dest 16)) \<le> 15"
  by (simp add: php_bacnet_address_to_ipport_def snprintf_trunc_def)

lemma read_key_plain:
  "read_cache_key dest rp = bar_separated (fst (php_bacnet_address_to_ipport dest 16)) (snd (php_bacnet_address_to_ipport dest 16))
     [rp_object_type rp, rp_instance rp, rp_property rp, rp_array_index rp]"
  "length (read_cache_key dest rp) \<le> 65"
proof -
  let ?b = "bar_separated (fst (php_bacnet_address_to_ipport dest 16)) (snd (php_bacnet_address_to_ipport dest 16))
     [rp_object_type rp, rp_instance rp, rp_property rp, rp_array_index rp]"
  have l: "length ?b \<le> 65"
    using ipport_length [of dest] length_show_u16 [of "snd (php_bacnet_address_to_ipport dest 16)"]
      length_show_u32 [of "rp_object_type rp"] length_show_u32 [of "rp_instance rp"]
      length_show_u32 [of "rp_property rp"] length_show_u32 [of "rp_array_index rp"]
    by (simp add: bar_separated_def)
  then show "read_cache_key dest rp = ?b"
    by (simp add: read_cache_key_def snprintf_def Let_def case_prod_beta)
  then show "length (read_cache_key dest rp) \<le> 65" using l by simp
qed

lemma read_negative_key_length: "length (read_negative_key dest rp) \<le> 70"
  using read_key_plain(2) [of dest rp] by (simp add: read_negative_key_def snprintf_def)

text \<open>Both keys fit: the buffer of the full key, and a slot of the table.\<close>

lemma short_key_fits:
  assumes "length key \<le> 80" "p < CACHE_PARTITION_COUNT" "length (c_namespace_name c) < 96" "c_l2 c \<noteq> L2_CALLBACK"
  shows "proper_key c (p, key)" "length key \<le> 70 \<Longrightarrow> length (php_bacnet_make_full_key c p key) < CACHE_KEY_MAX"
proof -
  have "length (partition_prefix (c_namespace_name c) (l2_name (c_l2 c)) p) \<le> 116"
    using partition_name_length [OF assms(2)] assms(3,4)
    by (cases "c_l2 c") (simp_all add: partition_prefix_def key_prefix_def l2_name_def PHP_BACNET_CACHE_VERSION_def show_nat_2)
  then have l: "length (partition_prefix (c_namespace_name c) (l2_name (c_l2 c)) p @ key) \<le> 116 + length key"
    by simp
  then have f: "key_fits c p key" using assms(1) unfolding key_fits_def by linarith
  show "proper_key c (p, key)" using f assms(2) by (simp add: proper_key_def)
  show "length (php_bacnet_make_full_key c p key) < CACHE_KEY_MAX" if "length key \<le> 70"
    unfolding full_key [OF f] CACHE_KEY_MAX_def using l that by linarith
qed

text \<open>A device on the local network: six bytes of address and port.\<close>

definition local_device :: "bacnet_address \<Rightarrow> bool" where
  "local_device dest \<longleftrightarrow> length (mac dest) = 6 \<and> net dest = 0"

lemma split_at_sep:
  "c \<notin> set a \<Longrightarrow> c \<notin> set b \<Longrightarrow> a @ c # x = b @ c # y \<Longrightarrow> a = b \<and> x = y"
proof (induction a arbitrary: b)
  case Nil
  then show ?case by (cases b) auto
next
  case (Cons d a)
  then show ?case by (cases b) auto
qed

lemma dotted_no_colon: "CHR '':'' \<notin> set (dotted a b c d)"
  using show_nat_no_sep(4) by (simp add: dotted_def)

lemma bar_separated_inject:
  assumes "CHR '':'' \<notin> set ip" "CHR '':'' \<notin> set ip'"
    and "bar_separated ip port [a, b, c, d] = bar_separated ip' port' [a', b', c', d']"
  shows "ip = ip' \<and> port = port' \<and> a = a' \<and> b = b' \<and> c = c' \<and> d = d'"
proof -
  have 1: "ip = ip'" and r: "show_nat (unat port) @ CHR ''|'' # show_nat (unat a) @ CHR ''|'' # show_nat (unat b) @
        CHR ''|'' # show_nat (unat c) @ CHR ''|'' # show_nat (unat d) =
      show_nat (unat port') @ CHR ''|'' # show_nat (unat a') @ CHR ''|'' # show_nat (unat b') @
        CHR ''|'' # show_nat (unat c') @ CHR ''|'' # show_nat (unat d')"
    using split_at_sep [OF assms(1,2)] assms(3) by (simp_all add: bar_separated_def)
  note s = split_at_sep [OF show_nat_no_sep(3) show_nat_no_sep(3)]
  show ?thesis
    using 1 s [OF r] by (auto simp: show_nat_inject word_unat_eq_iff dest!: s)
qed

lemma u16_of_bytes:
  fixes a b a' b' :: u8
  assumes "push_bit 8 (ucast a :: u16) OR ucast b = push_bit 8 (ucast a') OR ucast b'"
  shows "a = a' \<and> b = b'"
proof (intro conjI bit_word_eqI)
  have e: "bit (push_bit 8 (ucast a :: u16) OR ucast b) n = bit (push_bit 8 (ucast a' :: u16) OR ucast b') n" for n
    using assms by simp
  show "bit a n = bit a' n" if "n < LENGTH(8)" for n
    using e [of "n + 8"] that by (simp add: bit_or_iff bit_push_bit_iff bit_ucast_iff) (auto dest: bit_imp_le_length)
  show "bit b n = bit b' n" if "n < LENGTH(8)" for n
    using e [of n] that by (simp add: bit_or_iff bit_push_bit_iff bit_ucast_iff)
qed

lemma length_6: "length xs = 6 \<Longrightarrow> xs = [xs ! 0, xs ! 1, xs ! 2, xs ! 3, xs ! 4, xs ! 5]"
  by (simp add: list_eq_iff_nth_eq less_Suc_eq numeral_eq_Suc nth_Cons split: nat.split)

lemma dotted_inject:
  assumes "dotted a b c d = dotted a' b' c' d'"
  shows "a = a' \<and> b = b' \<and> c = c' \<and> d = d'"
  using assms unfolding dotted_def
  by (auto simp: show_nat_inject dest!: split_at_sep [OF show_nat_no_sep(1) show_nat_no_sep(1)])

lemma ipport_local:
  assumes "local_device dest"
  shows "php_bacnet_address_to_ipport dest 16 =
    (dotted (unat (mac dest ! 0)) (unat (mac dest ! 1)) (unat (mac dest ! 2)) (unat (mac dest ! 3)),
     push_bit 8 (ucast (mac dest ! 4)) OR ucast (mac dest ! 5))"
  using assms length_dotted [OF unat_u8_le unat_u8_le unat_u8_le unat_u8_le]
  by (simp add: local_device_def php_bacnet_address_to_ipport_def snprintf_trunc_def)

lemma read_key_inject:
  assumes "local_device dest" "local_device dest'" "read_cache_key dest rp = read_cache_key dest' rp'"
  shows "dest = dest' \<and> rp = rp'"
proof -
  have e: "dotted (unat (mac dest ! 0)) (unat (mac dest ! 1)) (unat (mac dest ! 2)) (unat (mac dest ! 3)) =
      dotted (unat (mac dest' ! 0)) (unat (mac dest' ! 1)) (unat (mac dest' ! 2)) (unat (mac dest' ! 3))"
    "push_bit 8 (ucast (mac dest ! 4) :: u16) OR ucast (mac dest ! 5) = push_bit 8 (ucast (mac dest' ! 4)) OR ucast (mac dest' ! 5)"
    and rp: "rp_object_type rp = rp_object_type rp'" "rp_instance rp = rp_instance rp'"
      "rp_property rp = rp_property rp'" "rp_array_index rp = rp_array_index rp'"
    using bar_separated_inject [OF dotted_no_colon dotted_no_colon]
      assms(3) [unfolded read_key_plain ipport_local [OF assms(1)] ipport_local [OF assms(2)] fst_conv snd_conv] by blast+
  have "mac dest ! i = mac dest' ! i" if "i < 6" for i
    using that dotted_inject [OF e(1)] u16_of_bytes [OF e(2)]
    by (auto simp: less_Suc_eq numeral_eq_Suc word_unat_eq_iff)
  then have "mac dest = mac dest'" using assms(1,2) by (simp add: local_device_def list_eq_iff_nth_eq)
  then show ?thesis using assms(1,2) rp by (simp add: local_device_def)
qed

text \<open>C34.
  Two reads have the same cache key only when they read the same property of the same object of
  the same device.
\<close>

theorem read_cache_key_injective:
  assumes "local_device dest" "local_device dest'" "read_cache_key dest rp = read_cache_key dest' rp'"
  shows "dest = dest' \<and> rp = rp'"
  by (rule read_key_inject [OF assms])

lemma read_cache_key_injective_witness:
  "read_cache_key \<lparr>mac = [10, 0, 0, 1, 0xBA, 0xC0], net = 0\<rparr> \<lparr>rp_object_type = 0, rp_instance = 12, rp_property = 85, rp_array_index = 3\<rparr> \<noteq>
   read_cache_key \<lparr>mac = [10, 0, 0, 1, 0xBA, 0xC0], net = 0\<rparr> \<lparr>rp_object_type = 0, rp_instance = 128, rp_property = 5, rp_array_index = 3\<rparr>"
  using read_cache_key_injective [of "\<lparr>mac = [10, 0, 0, 1, 0xBA, 0xC0], net = 0\<rparr>" "\<lparr>mac = [10, 0, 0, 1, 0xBA, 0xC0], net = 0\<rparr>"
      "\<lparr>rp_object_type = 0, rp_instance = 12, rp_property = 85, rp_array_index = 3\<rparr>"
      "\<lparr>rp_object_type = 0, rp_instance = 128, rp_property = 5, rp_array_index = 3\<rparr>"]
  by (auto simp: local_device_def)

subsection \<open>Sessions\<close>

text \<open>
  What happens to the knowledge of a client: a device answered a read with the application data
  given, or what is known of some partitions is given up.  The newest event comes first.
\<close>

datatype client_event =
    Answered bacnet_address rp_data bytes
  | Forgotten "nat list"

fun last_answer :: "bacnet_address \<Rightarrow> rp_data \<Rightarrow> client_event list \<Rightarrow> bytes option" where
  "last_answer dest rp [] = None"
| "last_answer dest rp (Answered d r data # es) = (if d = dest \<and> r = rp then Some data else last_answer dest rp es)"
| "last_answer dest rp (Forgotten ps # es) =
     (if read_partition (rp_property rp) \<in> set ps then None else last_answer dest rp es)"

definition answer_events :: "('e, 'b, 'w) net_env \<Rightarrow> bacnet_address \<Rightarrow> rp_data \<Rightarrow> int \<Rightarrow> bytes \<Rightarrow> client_event list" where
  "answer_events N dest rp status resp =
    (if status \<in> {-2, -1, uint PDU_TYPE_ERROR, uint PDU_TYPE_REJECT, uint PDU_TYPE_ABORT} \<or> length resp < 4 then []
     else case n_rp_ack N (drop 3 resp) of None \<Rightarrow> [] | Some data \<Rightarrow> [Answered dest rp data])"

definition read_partitions :: "rp_data \<Rightarrow> nat list" where
  "read_partitions rp =
    (if read_partition (rp_property rp) < CACHE_PARTITION_COUNT then [read_partition (rp_property rp)] else []) @
    [PHP_BACNET_CACHE_NEGATIVE]"

definition read_events :: "('e, 'b, 'w) net_env \<Rightarrow> bacnet_address \<Rightarrow> rp_data \<Rightarrow> u32 \<Rightarrow> bool \<Rightarrow> exchange \<Rightarrow>
    ('e, 'b, 'w) client_state \<Rightarrow> client_event list" where
  "read_events N dest rp timeout_ms refresh ex st =
    (let (early, st) = read_from_cache N dest rp refresh st;
         invoke = k_next_invoke_id st; st = st\<lparr>k_next_invoke_id := invoke + 1\<rparr>
     in (if early \<noteq> None then []
         else case n_rp_encode N invoke rp of
                None \<Rightarrow> []
              | Some request \<Rightarrow>
                  (case request_reply N dest request invoke timeout_ms ex st of
                     None \<Rightarrow> [] | Some (status, resp, _) \<Rightarrow> answer_events N dest rp status resp)) @
        (if refresh then [Forgotten (read_partitions rp)] else []))"

definition write_events :: "bacnet_exn + unit \<Rightarrow> client_event list" where
  "write_events r =
    (if r = Inr () then [Forgotten [CACHE_STATE, CACHE_OBJECT, CACHE_OBJECT_LIST, PHP_BACNET_CACHE_NEGATIVE]] else [])"

definition clear_events :: "string option \<Rightarrow> bacnet_exn + unit \<Rightarrow> client_event list" where
  "clear_events name r =
    (if r \<noteq> Inr () then [] else
     case name of
       None \<Rightarrow> [Forgotten [0..<CACHE_PARTITION_COUNT]]
     | Some nm \<Rightarrow> (case partition_index 0 partition_names (cstr nm) of None \<Rightarrow> [] | Some p \<Rightarrow> [Forgotten [p]]))"

text \<open>
  Reads, writes, discoveries, look-ups of a route and clearings in any order, each with any
  exchange on the network.
\<close>

inductive client_session :: "('e, 'b, 'w) net_env \<Rightarrow> ('e, 'b, 'w) client_state \<Rightarrow> client_event list \<Rightarrow>
    ('e, 'b, 'w) client_state \<Rightarrow> bool" for N st0 where
  start: "client_session N st0 [] st0"
| read: "client_session N st0 es st \<Longrightarrow> local_device dest \<Longrightarrow>
    php_bacnet_exec_read_property N dest rp timeout_ms refresh ex st = Some (r, st') \<Longrightarrow>
    client_session N st0 (read_events N dest rp timeout_ms refresh ex st @ es) st'"
| written: "client_session N st0 es st \<Longrightarrow>
    php_bacnet_exec_write_property N dest rp priority val timeout_ms ex st = Some (r, st') \<Longrightarrow>
    client_session N st0 (write_events r @ es) st'"
| discovered: "client_session N st0 es st \<Longrightarrow> Client_whoIs N low high discovery_timeout refresh ex ex2 st = Some (r, st') \<Longrightarrow>
    client_session N st0 es st'"
| routed: "client_session N st0 es st \<Longrightarrow> php_bacnet_device_refresh_route N dev st = (dev', st') \<Longrightarrow>
    client_session N st0 es st'"
| cleared: "client_session N st0 es st \<Longrightarrow> php_bacnet_cache_method_clear N has_client name st = (r, st') \<Longrightarrow>
    client_session N st0 (clear_events name r @ es) st'"

subsection \<open>What the cache knows\<close>

text \<open>The partition takes insertions at all.\<close>

definition in_use :: "php_bacnet_cache \<Rightarrow> nat \<Rightarrow> bool" where
  "in_use c p \<longleftrightarrow> php_bacnet_cache_partition_enabled c p \<and> \<not> php_bacnet_cache_partition_ttl c p \<le> Fin 0"

definition read_key :: "bacnet_address \<Rightarrow> rp_data \<Rightarrow> cache_key" where
  "read_key dest rp = (read_partition (rp_property rp), read_cache_key dest rp)"

definition informed :: "('e, 'b, 'w) net_env \<Rightarrow> php_bacnet_cache \<Rightarrow> client_event list \<Rightarrow> ('e, 'b) cache_world \<Rightarrow> bool" where
  "informed N c0 es w \<longleftrightarrow> steady (n_cache N) c0 w \<and>
     (\<forall>dest rp u. local_device dest \<longrightarrow> read_partition (rp_property rp) < CACHE_PARTITION_COUNT \<longrightarrow>
        cached (n_cache N) c0 (read_key dest rp) u w \<longrightarrow>
        in_use c0 (read_partition (rp_property rp)) \<and> last_answer dest rp es = Some u)"

lemma informedD:
  assumes "informed N c0 es w"
  shows "steady (n_cache N) c0 w"
    and "local_device dest \<Longrightarrow> read_partition (rp_property rp) < CACHE_PARTITION_COUNT \<Longrightarrow>
      cached (n_cache N) c0 (read_key dest rp) u w \<Longrightarrow>
      in_use c0 (read_partition (rp_property rp)) \<and> last_answer dest rp es = Some u"
  using assms by (simp_all add: informed_def)

lemma informedI:
  assumes "steady (n_cache N) c0 w"
    and "\<And>dest rp u. local_device dest \<Longrightarrow> read_partition (rp_property rp) < CACHE_PARTITION_COUNT \<Longrightarrow>
      proper_key c0 (read_key dest rp) \<Longrightarrow> cached (n_cache N) c0 (read_key dest rp) u w \<Longrightarrow>
      in_use c0 (read_partition (rp_property rp)) \<and> last_answer dest rp es = Some u"
  shows "informed N c0 es w"
proof -
  have c: "length (c_namespace_name c0) < 96" "c_l2 c0 \<noteq> L2_CALLBACK" using assms(1) by (simp_all add: steady_def)
  have "proper_key c0 (read_key dest rp)" if "read_partition (rp_property rp) < CACHE_PARTITION_COUNT" for dest rp
    using short_key_fits(1) [OF _ that c, of "read_cache_key dest rp"] read_key_plain(2) [of dest rp] by (simp add: read_key_def)
  then show ?thesis using assms by (simp add: informed_def)
qed

lemma read_key_proper:
  assumes "steady E c0 w"
  shows "length key \<le> 80 \<Longrightarrow> p < CACHE_PARTITION_COUNT \<Longrightarrow> proper_key c0 (p, key)"
    and "length key \<le> 70 \<Longrightarrow> p < CACHE_PARTITION_COUNT \<Longrightarrow> length (php_bacnet_make_full_key c0 p key) < CACHE_KEY_MAX"
proof -
  have c: "length (c_namespace_name c0) < 96" "c_l2 c0 \<noteq> L2_CALLBACK" using assms by (simp_all add: steady_def)
  show "length key \<le> 80 \<Longrightarrow> p < CACHE_PARTITION_COUNT \<Longrightarrow> proper_key c0 (p, key)"
    "length key \<le> 70 \<Longrightarrow> p < CACHE_PARTITION_COUNT \<Longrightarrow> length (php_bacnet_make_full_key c0 p key) < CACHE_KEY_MAX"
    using short_key_fits [OF _ _ c, of key p] by auto
qed

lemma informed_start:
  assumes "steady (n_cache N) (w_cache w) w" "cache_empty (n_cache N) w"
  shows "informed N (w_cache w) [] w"
  using cache_empty_cached [OF assms(2)] by (intro informedI [OF assms(1)]) blast

lemma informed_lookup:
  assumes i: "informed N c0 es w" and k: "length key \<le> 80" "p < CACHE_PARTITION_COUNT"
    and g: "php_bacnet_cache_get (n_cache N) p key cap w = (r, w')"
  shows "informed N c0 es w'"
    and "r = Some u \<Longrightarrow> (p, key) = read_key dest rp \<Longrightarrow> local_device dest \<Longrightarrow> last_answer dest rp es = Some u"
proof -
  have pk: "proper_key c0 (p, key)" by (rule read_key_proper(1) [OF informedD(1) [OF i] k])
  have g: "get_key (n_cache N) (p, key) cap w = (r, w')" using g by (simp add: get_key_def)
  show "informed N c0 es w'"
    using cc.fetch_inv [OF informedD(1) [OF i] pk, of cap] cc.fetch_keeps [OF informedD(1) [OF i] pk, of _ _ cap] g
      informedD(2) [OF i] by (intro informedI) (simp_all, blast+)
  show "last_answer dest rp es = Some u"
    if "r = Some u" "(p, key) = read_key dest rp" "local_device dest"
    using cc.fetch_held [OF informedD(1) [OF i] pk, of cap u] g that informedD(2) [OF i that(3), of rp u] k(2)
    by (auto simp: read_key_def)
qed

lemma informed_cong:
  assumes "informed N c0 es w"
    and "\<And>dest rp. local_device dest \<Longrightarrow> read_partition (rp_property rp) < CACHE_PARTITION_COUNT \<Longrightarrow>
      last_answer dest rp es' = last_answer dest rp es"
  shows "informed N c0 es' w"
  using assms unfolding informed_def by metis

lemma informed_stats: "informed N c0 es (upd_stats f w) = informed N c0 es w"
  by (simp add: informed_def cached_stats)

text \<open>An insertion that is not carried out changes nothing.\<close>

lemma put_disabled:
  assumes "steady E c0 w" "\<not> (php_bacnet_cache_partition_enabled c0 p \<and> \<not> ttl \<le> Fin 0)"
  shows "php_bacnet_cache_put E p key data ttl w = w"
  using assms(2) steadyD(5) [OF assms(1)] by (auto simp: php_bacnet_cache_put_def)

lemma partition_ttl_steady:
  "steady E c0 w \<Longrightarrow> php_bacnet_cache_partition_ttl (w_cache w) p = php_bacnet_cache_partition_ttl c0 p"
  using settings_eqD(6) [of "w_cache w" c0] by (simp add: steady_def php_bacnet_cache_partition_ttl_def)

text \<open>An insertion under the key of a read.\<close>

lemma informed_store:
  assumes i: "informed N c0 es w" and d: "local_device dest" and p: "read_partition (rp_property rp) < CACHE_PARTITION_COUNT"
    and sz: "length data \<le> CACHE_VALUE_MAX" "length data \<le> c_l1_max_bytes c0"
  shows "informed N c0 (Answered dest rp data # es)
    (php_bacnet_cache_put (n_cache N) (read_partition (rp_property rp)) (read_cache_key dest rp) data
      (php_bacnet_cache_partition_ttl (w_cache w) (read_partition (rp_property rp))) w)"
proof -
  let ?p = "read_partition (rp_property rp)" and ?key = "read_cache_key dest rp"
  note st = informedD(1) [OF i]
  have l: "length ?key \<le> 80" "length ?key \<le> 70" using read_key_plain(2) [of dest rp] by simp_all
  note pk = read_key_proper(1) [OF st l(1) p]
  have rk: "read_key dest rp = (?p, ?key)" by (simp add: read_key_def)
  show ?thesis
  proof (cases "in_use c0 ?p")
    case True
    have v: "proper_value c0 (?p, ?key) data (php_bacnet_cache_partition_ttl c0 ?p)"
      using True sz read_key_proper(2) [OF st l(2) p] by (simp add: in_use_def proper_value_def storable_def)
    let ?w = "put_key (n_cache N) (?p, ?key) data (php_bacnet_cache_partition_ttl c0 ?p) w"
    have "informed N c0 (Answered dest rp data # es) ?w"
    proof (rule informedI [OF cc.store_inv [OF st pk v]])
      fix dest' rp' u
      assume d': "local_device dest'" and p': "read_partition (rp_property rp') < CACHE_PARTITION_COUNT"
        and pk': "proper_key c0 (read_key dest' rp')" and c: "cached (n_cache N) c0 (read_key dest' rp') u ?w"
      show "in_use c0 (read_partition (rp_property rp')) \<and> last_answer dest' rp' (Answered dest rp data # es) = Some u"
      proof (cases "read_key dest' rp' = (?p, ?key)")
        case True
        then have "dest' = dest \<and> rp' = rp" using read_key_inject [OF d' d, of rp' rp] by (simp add: read_key_def)
        then show ?thesis using cc.store_same [OF st pk v] c True \<open>in_use c0 ?p\<close> by auto
      next
        case False
        then have "dest' \<noteq> dest \<or> rp' \<noteq> rp" using rk by auto
        then show ?thesis using cc.store_other [OF st pk v pk' False c] informedD(2) [OF i d' p'] by auto
      qed
    qed
    then show ?thesis unfolding partition_ttl_steady [OF st] by (simp add: put_key_def)
  next
    case False
    have w: "php_bacnet_cache_put (n_cache N) ?p ?key data (php_bacnet_cache_partition_ttl c0 ?p) w = w"
      by (rule put_disabled [OF st]) (use False in \<open>simp add: in_use_def\<close>)
    show ?thesis
      unfolding partition_ttl_steady [OF st] w
    proof (rule informedI [OF st])
      fix dest' rp' u
      assume d': "local_device dest'" and p': "read_partition (rp_property rp') < CACHE_PARTITION_COUNT"
        and c: "cached (n_cache N) c0 (read_key dest' rp') u w"
      have "in_use c0 (read_partition (rp_property rp')) \<and> last_answer dest' rp' es = Some u"
        by (rule informedD(2) [OF i d' p' c])
      then show "in_use c0 (read_partition (rp_property rp')) \<and> last_answer dest' rp' (Answered dest rp data # es) = Some u"
        using False by auto
    qed
  qed
qed

text \<open>An insertion into another partition, whatever is inserted.\<close>

lemma informed_store_other:
  assumes i: "informed N c0 es w" and k: "length key \<le> 80" "p < CACHE_PARTITION_COUNT" and p: "\<And>prop. read_partition prop \<noteq> p"
  shows "informed N c0 es (php_bacnet_cache_put (n_cache N) p key data ttl w)"
proof (cases "php_bacnet_cache_partition_enabled c0 p \<and> \<not> ttl \<le> Fin 0")
  case True
  note st = informedD(1) [OF i] and pk = read_key_proper(1) [OF informedD(1) [OF i] k]
  note e = put_effect [OF st pk _ conjunct1 [OF True] conjunct2 [OF True], where v = data]
  show ?thesis
  proof (rule informedI [OF e(1) [OF pk]])
    fix dest rp u
    assume d: "local_device dest" and q: "read_partition (rp_property rp) < CACHE_PARTITION_COUNT"
      and pk': "proper_key c0 (read_key dest rp)"
      and c: "cached (n_cache N) c0 (read_key dest rp) u (php_bacnet_cache_put (n_cache N) p key data ttl w)"
    have "cached (n_cache N) c0 (read_key dest rp) u w"
      using e(2) [of "fst (read_key dest rp)" "snd (read_key dest rp)" u] pk' c p by (simp add: read_key_def)
    then show "in_use c0 (read_partition (rp_property rp)) \<and> last_answer dest rp es = Some u"
      by (rule informedD(2) [OF i d q])
  qed
next
  case False
  then show ?thesis using i put_disabled [OF informedD(1) [OF i] False] by simp
qed

lemma informed_clear:
  assumes i: "informed N c0 es w"
    and l: "\<And>dest rp. local_device dest \<Longrightarrow> read_partition (rp_property rp) < CACHE_PARTITION_COUNT \<Longrightarrow>
      \<not> covers part (read_key dest rp) \<Longrightarrow> last_answer dest rp es' = last_answer dest rp es"
  shows "informed N c0 es' (php_bacnet_cache_clear (n_cache N) part w)"
proof (rule informedI [OF cc.forget_inv [OF informedD(1) [OF i]]])
  fix dest rp u
  assume d: "local_device dest" and p: "read_partition (rp_property rp) < CACHE_PARTITION_COUNT"
    and pk: "proper_key c0 (read_key dest rp)"
    and c: "cached (n_cache N) c0 (read_key dest rp) u (php_bacnet_cache_clear (n_cache N) part w)"
  have "\<not> covers part (read_key dest rp)" using cc.forget_covered [OF informedD(1) [OF i] pk] c by blast
  then show "in_use c0 (read_partition (rp_property rp)) \<and> last_answer dest rp es' = Some u"
    using informedD(2) [OF i d p cc.forget_keeps [OF informedD(1) [OF i] pk c]] l [OF d p] by simp
qed

lemma informed_invalidate:
  "informed N c0 es w \<Longrightarrow> informed N c0 (Forgotten [p] # es) (php_bacnet_cache_invalidate (n_cache N) p w)"
  unfolding php_bacnet_cache_invalidate_def
  by (rule informed_clear) (auto simp: covers_def read_key_def)

lemma informed_refresh:
  "informed N c0 es w \<Longrightarrow> informed N c0 (Forgotten [p] # es) (php_bacnet_cache_refresh (n_cache N) p w)"
  unfolding php_bacnet_cache_refresh_def by (rule informed_invalidate) (simp add: informed_stats)

lemma informed_invalidate_all:
  "informed N c0 es w \<Longrightarrow> informed N c0 (Forgotten ps # es) (fold (php_bacnet_cache_invalidate (n_cache N)) ps w)"
proof (induction ps arbitrary: es w)
  case Nil
  then show ?case using informed_cong [OF Nil, of "Forgotten [] # es"] by simp
next
  case (Cons p ps)
  have "informed N c0 (Forgotten ps # Forgotten [p] # es) (fold (php_bacnet_cache_invalidate (n_cache N)) (p # ps) w)"
    using Cons.IH [OF informed_invalidate [OF Cons.prems]] by simp
  then show ?case by (rule informed_cong) auto
qed

text \<open>The values a read can bring are small enough to be stored.\<close>

definition small_answers :: "('e, 'b, 'w) net_env \<Rightarrow> php_bacnet_cache \<Rightarrow> bool" where
  "small_answers N c0 \<longleftrightarrow>
     (\<forall>r data. n_rp_ack N r = Some data \<longrightarrow> length data \<le> CACHE_VALUE_MAX \<and> length data \<le> c_l1_max_bytes c0)"

lemma request_reply_cache: "request_reply N dest request invoke t ex st = Some (status, resp, st') \<Longrightarrow> k_cache st' = k_cache st"
  by (auto simp: request_reply_def split: option.splits prod.splits)

lemma read_partition_not_negative:
  "read_partition p \<noteq> PHP_BACNET_CACHE_NEGATIVE" "PHP_BACNET_CACHE_NEGATIVE \<noteq> read_partition p"
  by (simp_all add: read_partition_def PHP_BACNET_CACHE_NEGATIVE_def CACHE_STATE_def CACHE_OBJECT_LIST_def
      CACHE_OBJECT_def CACHE_PARTITION_COUNT_def)

lemma informed_read_from_cache:
  assumes i: "informed N c0 es (k_cache st)" and f: "read_from_cache N dest rp refresh st = (r, st')" and d: "local_device dest"
  shows "informed N c0 ((if refresh then [Forgotten (read_partitions rp)] else []) @ es) (k_cache st')"
    and "r = Some (Inr v) \<Longrightarrow> \<exists>data. last_answer dest rp es = Some data \<and> v = bacapp_values_to_zval (n_app_decode N) data"
    and "refresh \<Longrightarrow> r = None"
proof -
  let ?p = "read_partition (rp_property rp)"
  have n: "PHP_BACNET_CACHE_NEGATIVE < CACHE_PARTITION_COUNT"
    by (simp add: PHP_BACNET_CACHE_NEGATIVE_def CACHE_PARTITION_COUNT_def)
  have l: "length (read_negative_key dest rp) \<le> 80" "length (read_cache_key dest rp) \<le> 80"
    using read_negative_key_length [of dest rp] read_key_plain(2) [of dest rp] by simp_all
  have main: "informed N c0 ((if refresh then [Forgotten (read_partitions rp)] else []) @ es) (k_cache st') \<and>
    (r = Some (Inr v) \<longrightarrow> (\<exists>data. last_answer dest rp es = Some data \<and> v = bacapp_values_to_zval (n_app_decode N) data)) \<and>
    (refresh \<longrightarrow> r = None)" for v
  proof (cases refresh)
    case True
    let ?w1 = "if ?p < CACHE_PARTITION_COUNT then php_bacnet_cache_refresh (n_cache N) ?p (k_cache st) else k_cache st"
    let ?es1 = "if ?p < CACHE_PARTITION_COUNT then Forgotten [?p] # es else es"
    have "informed N c0 ?es1 ?w1" using i informed_refresh [OF i] by simp
    then have "informed N c0 (Forgotten [PHP_BACNET_CACHE_NEGATIVE] # ?es1)
        (php_bacnet_cache_refresh (n_cache N) PHP_BACNET_CACHE_NEGATIVE ?w1)" by (rule informed_refresh)
    then have "informed N c0 (Forgotten (read_partitions rp) # es)
        (php_bacnet_cache_refresh (n_cache N) PHP_BACNET_CACHE_NEGATIVE ?w1)"
      by (rule informed_cong) (auto simp: read_partitions_def)
    then show ?thesis using f True by (auto simp: read_from_cache_def with_cache_def Let_def)
  next
    case False
    obtain m w1 where m: "php_bacnet_cache_get (n_cache N) PHP_BACNET_CACHE_NEGATIVE (read_negative_key dest rp) 1 (k_cache st) = (m, w1)"
      by fastforce
    have i1: "informed N c0 es w1" by (rule informed_lookup(1) [OF i l(1) n m])
    show ?thesis
    proof (cases "m = None \<and> ?p < CACHE_PARTITION_COUNT")
      case True
      obtain c w2 where c: "php_bacnet_cache_get (n_cache N) ?p (read_cache_key dest rp) (n_max_apdu N) w1 = (c, w2)"
        by fastforce
      have p: "?p < CACHE_PARTITION_COUNT" using True by simp
      have "informed N c0 es w2" by (rule informed_lookup(1) [OF i1 l(2) p c])
      moreover have "c = Some data \<Longrightarrow> last_answer dest rp es = Some data" for data
        using informed_lookup(2) [OF i1 l(2) p c] d by (simp add: read_key_def)
      moreover have "st' = st\<lparr>k_cache := w2\<rparr>" "r = (case c of Some data \<Rightarrow> Some (Inr (bacapp_values_to_zval (n_app_decode N) data)) | None \<Rightarrow> None)"
        using f False m c True by (auto simp: read_from_cache_def cache_lookup_def Let_def)
      ultimately show ?thesis using False by (auto split: option.splits)
    next
      case False
      then have "k_cache st' = w1 \<and> r \<noteq> Some (Inr v)"
        using f \<open>\<not> refresh\<close> m by (cases m) (auto simp: read_from_cache_def cache_lookup_def Let_def split: if_splits)
      then show ?thesis using i1 \<open>\<not> refresh\<close> by simp
    qed
  qed
  show "informed N c0 ((if refresh then [Forgotten (read_partitions rp)] else []) @ es) (k_cache st')"
    "r = Some (Inr v) \<Longrightarrow> \<exists>data. last_answer dest rp es = Some data \<and> v = bacapp_values_to_zval (n_app_decode N) data"
    "refresh \<Longrightarrow> r = None" using main by blast+
qed

text \<open>An answer of the network: what the call returns is the answer, and it is remembered.\<close>

lemma informed_read_answer:
  assumes i: "informed N c0 es (k_cache st)" and a: "read_answer N dest rp t status resp st = (r, st')"
    and d: "local_device dest" and s: "small_answers N c0"
  shows "informed N c0 (answer_events N dest rp status resp @ es) (k_cache st')"
    and "r = Inr v \<Longrightarrow> \<exists>data. last_answer dest rp (answer_events N dest rp status resp @ es) = Some data \<and>
      v = bacapp_values_to_zval (n_app_decode N) data"
proof -
  let ?p = "read_partition (rp_property rp)"
  have n: "PHP_BACNET_CACHE_NEGATIVE < CACHE_PARTITION_COUNT"
    by (simp add: PHP_BACNET_CACHE_NEGATIVE_def CACHE_PARTITION_COUNT_def)
  have l: "length (read_negative_key dest rp) \<le> 80" using read_negative_key_length [of dest rp] by simp
  have neg: "informed N c0 es (k_cache (cache_store N PHP_BACNET_CACHE_NEGATIVE (read_negative_key dest rp) negative_marker
        (php_bacnet_cache_partition_ttl (w_cache (k_cache st)) PHP_BACNET_CACHE_NEGATIVE) st))"
    using informed_store_other [OF i l n read_partition_not_negative(1)] by (simp add: cache_store_def with_cache_def)
  have pos: "informed N c0 (Answered dest rp data # es) (k_cache (if ?p < CACHE_PARTITION_COUNT
      then cache_store N ?p (read_cache_key dest rp) data (php_bacnet_cache_partition_ttl (w_cache (k_cache st)) ?p) st else st))"
    if ack: "n_rp_ack N x = Some data" for x data
  proof (cases "?p < CACHE_PARTITION_COUNT")
    case True
    have sz: "length data \<le> CACHE_VALUE_MAX" "length data \<le> c_l1_max_bytes c0"
      using s ack unfolding small_answers_def by blast+
    show ?thesis using True informed_store [OF i d True sz] by (simp add: cache_store_def with_cache_def)
  next
    case False
    have "informed N c0 (Answered dest rp data # es) (k_cache st)"
      by (rule informed_cong [OF i]) (use False in auto)
    then show ?thesis using False by simp
  qed
  have "(informed N c0 (answer_events N dest rp status resp @ es) (k_cache st')) \<and>
    (r = Inr v \<longrightarrow> (\<exists>data. last_answer dest rp (answer_events N dest rp status resp @ es) = Some data \<and>
      v = bacapp_values_to_zval (n_app_decode N) data))" for v
  proof (cases "status \<in> {-2, -1, uint PDU_TYPE_ERROR, uint PDU_TYPE_REJECT, uint PDU_TYPE_ABORT} \<or> length resp < 4")
    case True
    then show ?thesis
      using a i neg by (auto simp: read_answer_def answer_events_def device_error_def refused_def Let_def split: if_splits prod.splits)
  next
    case False
    then show ?thesis
      using a i pos by (auto simp: read_answer_def answer_events_def Let_def split: option.splits)
  qed
  then show "informed N c0 (answer_events N dest rp status resp @ es) (k_cache st')"
    "r = Inr v \<Longrightarrow> \<exists>data. last_answer dest rp (answer_events N dest rp status resp @ es) = Some data \<and>
      v = bacapp_values_to_zval (n_app_decode N) data" by blast+
qed

lemma informed_exec_read:
  assumes i: "informed N c0 es (k_cache st)" and d: "local_device dest" and s: "small_answers N c0"
    and e: "php_bacnet_exec_read_property N dest rp t refresh ex st = Some (r, st')"
  shows "informed N c0 (read_events N dest rp t refresh ex st @ es) (k_cache st')"
    and "r = Inr v \<Longrightarrow> \<exists>data. last_answer dest rp (read_events N dest rp t refresh ex st @ es) = Some data \<and>
      v = bacapp_values_to_zval (n_app_decode N) data"
proof -
  obtain early st1 where f: "read_from_cache N dest rp refresh st = (early, st1)" by fastforce
  let ?fg = "if refresh then [Forgotten (read_partitions rp)] else []"
  let ?st2 = "st1\<lparr>k_next_invoke_id := k_next_invoke_id st1 + 1\<rparr>"
  note f1 = informed_read_from_cache [OF i f d]
  have i2: "informed N c0 (?fg @ es) (k_cache ?st2)" using f1(1) by simp
  have "informed N c0 (read_events N dest rp t refresh ex st @ es) (k_cache st') \<and>
    (r = Inr v \<longrightarrow> (\<exists>data. last_answer dest rp (read_events N dest rp t refresh ex st @ es) = Some data \<and>
      v = bacapp_values_to_zval (n_app_decode N) data))" for v
  proof (cases early)
    case (Some x)
    then have "\<not> refresh" "r = x" "st' = st1" using f1(3) e f by (auto simp: php_bacnet_exec_read_property_def)
    then show ?thesis using f1(1,2) Some f by (simp add: read_events_def Let_def)
  next
    case None
    show ?thesis
    proof (cases "n_rp_encode N (k_next_invoke_id st1) rp")
      case None
      then show ?thesis using e f i2 \<open>early = None\<close> by (auto simp: php_bacnet_exec_read_property_def read_events_def Let_def)
    next
      case (Some request)
      obtain status resp st3 where q: "request_reply N dest request (k_next_invoke_id st1) t ex ?st2 = Some (status, resp, st3)"
        and a: "read_answer N dest rp t status resp st3 = (r, st')"
        using e f None Some by (auto simp: php_bacnet_exec_read_property_def Let_def split: option.splits prod.splits)
      have i3: "informed N c0 (?fg @ es) (k_cache st3)" using i2 request_reply_cache [OF q] by simp
      have ev: "read_events N dest rp t refresh ex st = answer_events N dest rp status resp @ ?fg"
        using f None Some q by (simp add: read_events_def Let_def)
      show ?thesis using informed_read_answer [OF i3 a d s] unfolding ev by simp
    qed
  qed
  then show "informed N c0 (read_events N dest rp t refresh ex st @ es) (k_cache st')"
    "r = Inr v \<Longrightarrow> \<exists>data. last_answer dest rp (read_events N dest rp t refresh ex st @ es) = Some data \<and>
      v = bacapp_values_to_zval (n_app_decode N) data" by blast+
qed

lemma informed_exec_write:
  assumes i: "informed N c0 es (k_cache st)"
    and e: "php_bacnet_exec_write_property N dest rp priority val t ex st = Some (r, st')"
  shows "informed N c0 (write_events r @ es) (k_cache st')"
proof -
  let ?st1 = "st\<lparr>k_next_invoke_id := k_next_invoke_id st + 1\<rparr>"
  consider "k_cache st' = k_cache st" "r \<noteq> Inr ()"
    | request status resp st2 where "request_reply N dest request (k_next_invoke_id st) t ex ?st1 = Some (status, resp, st2)"
        "write_answer N t status resp st2 = (r, st')"
    using e by (auto simp: php_bacnet_exec_write_property_def Let_def split: option.splits prod.splits)
  then show ?thesis
  proof cases
    case 1
    then show ?thesis using i by (simp add: write_events_def)
  next
    case (2 request status resp st2)
    then have c: "k_cache st2 = k_cache st" using request_reply_cache by fastforce
    show ?thesis
    proof (cases "r = Inr ()")
      case True
      then have "st' = invalidate_written N st2"
        using 2(2) by (auto simp: write_answer_def device_error_def refused_def Let_def split: if_splits prod.splits)
      then show ?thesis
        using True c informed_invalidate_all [OF i, of "[CACHE_STATE, CACHE_OBJECT, CACHE_OBJECT_LIST, PHP_BACNET_CACHE_NEGATIVE]"]
        by (simp add: write_events_def invalidate_written_cache)
    next
      case False
      then have "st' = st2" using 2(2) by (auto simp: write_answer_def split: if_splits)
      then show ?thesis using i False c by (simp add: write_events_def)
    qed
  qed
qed

lemma informed_method_clear:
  assumes i: "informed N c0 es (k_cache st)" and c: "php_bacnet_cache_method_clear N has_client name st = (r, st')"
  shows "informed N c0 (clear_events name r @ es) (k_cache st')"
proof -
  have all: "informed N c0 (Forgotten [0..<CACHE_PARTITION_COUNT] # es) (php_bacnet_cache_clear (n_cache N) (-1) (k_cache st))"
    by (rule informed_clear [OF i]) (auto simp: covers_def)
  have one: "informed N c0 (Forgotten [p] # es) (php_bacnet_cache_clear (n_cache N) (int p) (k_cache st))" for p
    by (rule informed_clear [OF i]) (auto simp: covers_def read_key_def)
  show ?thesis
    using c i all one
    by (auto simp: php_bacnet_cache_method_clear_def with_client_cache_def with_cache_def clear_events_def
        split: option.splits if_splits)
qed

text \<open>Discovery and routes use other partitions.\<close>

lemma other_partitions:
  "read_partition prop \<noteq> CACHE_DEVICE" "read_partition prop \<noteq> CACHE_IP"
  "CACHE_DEVICE < CACHE_PARTITION_COUNT" "CACHE_IP < CACHE_PARTITION_COUNT"
  "PHP_BACNET_CACHE_NEGATIVE < CACHE_PARTITION_COUNT"
  by (simp_all add: read_partition_def CACHE_STATE_def CACHE_OBJECT_def CACHE_OBJECT_LIST_def CACHE_DEVICE_def CACHE_IP_def
      CACHE_PARTITION_COUNT_def PHP_BACNET_CACHE_NEGATIVE_def)

lemma discovery_keys_short: "length (route_key d) \<le> 80" "length (discovery_key r) \<le> 80" "length (empty_key r) \<le> 80"
  by (simp_all add: route_key_def discovery_key_def empty_key_def snprintf_def)

lemma informed_cache_store:
  assumes "informed N c0 es (k_cache st)" "length key \<le> 80" "p \<in> {CACHE_DEVICE, CACHE_IP, PHP_BACNET_CACHE_NEGATIVE}"
  shows "informed N c0 es (k_cache (cache_store N p key data ttl st))"
proof -
  have "p < CACHE_PARTITION_COUNT" "\<And>prop. read_partition prop \<noteq> p"
    using assms(3) other_partitions read_partition_not_negative(1) by auto
  then show ?thesis using informed_store_other [OF assms(1,2)] by (simp add: cache_store_def with_cache_def)
qed

lemma informed_cache_lookup:
  assumes "informed N c0 es (k_cache st)" "length key \<le> 80" "p \<in> {CACHE_DEVICE, CACHE_IP, PHP_BACNET_CACHE_NEGATIVE}"
    and "cache_lookup N p key cap st = (r, st')"
  shows "informed N c0 es (k_cache st')"
proof -
  have p: "p < CACHE_PARTITION_COUNT" using assms(3) other_partitions by auto
  obtain w where g: "php_bacnet_cache_get (n_cache N) p key cap (k_cache st) = (r, w)" and st': "st' = st\<lparr>k_cache := w\<rparr>"
    using assms(4) by (auto simp: cache_lookup_def split: prod.splits)
  show ?thesis using informed_lookup(1) [OF assms(1,2) p g] st' by simp
qed

lemma informed_whois_result:
  "informed N c0 es (k_cache st) \<Longrightarrow> php_bacnet_whois_result N entries st = (ds, st') \<Longrightarrow> informed N c0 es (k_cache st')"
proof (induction N entries st arbitrary: ds st' rule: php_bacnet_whois_result.induct)
  case (2 N e entries st)
  let ?st = "cache_store N CACHE_IP (route_key (e_device_id e)) (n_addr_image N (e_address e))
    (php_bacnet_cache_partition_ttl (w_cache (k_cache st)) CACHE_IP) st"
  have i: "informed N c0 es (k_cache ?st)"
    by (rule informed_cache_store [OF "2.prems"(1) discovery_keys_short(1)]) simp
  obtain ds1 where "php_bacnet_whois_result N entries ?st = (ds1, st')"
    using "2.prems"(2) by (auto simp: Let_def split: prod.splits)
  then show ?case using "2.IH" [OF refl i] by blast
qed simp

lemma informed_whois_from_cache:
  assumes i: "informed N c0 es (k_cache st)" and f: "whois_from_cache N limits refresh st = (r, st')"
  shows "informed N c0 es (k_cache st')"
proof (cases refresh)
  case True
  have "informed N c0 (Forgotten [PHP_BACNET_CACHE_NEGATIVE] # Forgotten [CACHE_DEVICE] # es) (php_bacnet_cache_refresh (n_cache N) PHP_BACNET_CACHE_NEGATIVE
      (php_bacnet_cache_refresh (n_cache N) CACHE_DEVICE (k_cache st)))"
    by (rule informed_refresh [OF informed_refresh [OF i]])
  then have "informed N c0 es (php_bacnet_cache_refresh (n_cache N) PHP_BACNET_CACHE_NEGATIVE
      (php_bacnet_cache_refresh (n_cache N) CACHE_DEVICE (k_cache st)))"
    by (rule informed_cong) (simp add: other_partitions read_partition_not_negative)
  then show ?thesis using f True by (auto simp: whois_from_cache_def with_cache_def)
next
  case False
  obtain r1 st1 where l1: "cache_lookup N CACHE_DEVICE (discovery_key limits) (n_whois_size N) st = (r1, st1)" by fastforce
  have i1: "informed N c0 es (k_cache st1)" by (rule informed_cache_lookup [OF i discovery_keys_short(2) _ l1]) simp
  have i2: "informed N c0 es (k_cache st2)" if "cache_lookup N PHP_BACNET_CACHE_NEGATIVE (empty_key limits) 1 st1 = (m, st2)" for m st2
    by (rule informed_cache_lookup [OF i1 discovery_keys_short(3) _ that]) simp
  show ?thesis
    using f False l1 informed_whois_result [OF i1] i2
    by (auto simp: whois_from_cache_def Let_def split: prod.splits option.splits if_splits)
qed

lemma broadcast_cache: "broadcast_collect N request t ex st = Some (count, entries, st') \<Longrightarrow> k_cache st' = k_cache st"
  by (auto simp: broadcast_collect_def split: option.splits prod.splits)

lemma informed_whois_finish:
  assumes "informed N c0 es (k_cache st)" "whois_finish N limits count entries st = (ds, st')"
  shows "informed N c0 es (k_cache st')"
proof -
  have "informed N c0 es (k_cache (whois_store N limits count entries st))"
    using informed_cache_store [OF assms(1) discovery_keys_short(2)] informed_cache_store [OF assms(1) discovery_keys_short(3)]
    by (simp add: whois_store_def)
  then show ?thesis using assms(2) informed_whois_result unfolding whois_finish_def by blast
qed

lemma informed_whois:
  assumes i: "informed N c0 es (k_cache st)" and w: "Client_whoIs N low high t refresh ex ex2 st = Some (r, st')"
  shows "informed N c0 es (k_cache st')"
proof -
  obtain early st1 where f: "whois_from_cache N (whois_range low high) refresh st = (early, st1)" by fastforce
  have i1: "informed N c0 es (k_cache st1)" by (rule informed_whois_from_cache [OF i f])
  have fin: "informed N c0 es (k_cache st3)"
    if "k_cache st2 = k_cache st1" "whois_finish N (whois_range low high) count entries st2 = (ds, st3)" for count entries st2 ds st3
    using informed_whois_finish that i1 by metis
  show ?thesis
    using w f i1 fin
    by (auto simp: Client_whoIs_def Let_def split: option.splits prod.splits if_splits dest!: broadcast_cache)
qed

lemma informed_route:
  assumes i: "informed N c0 es (k_cache st)" and r: "php_bacnet_device_refresh_route N dev st = (dev', st')"
  shows "informed N c0 es (k_cache st')"
proof -
  obtain x where l: "cache_lookup N CACHE_IP (route_key (dv_device_id dev)) (n_addr_size N) st = (x, st')"
    using r by (auto simp: php_bacnet_device_refresh_route_def Let_def split: prod.splits)
  show ?thesis by (rule informed_cache_lookup [OF i discovery_keys_short(1) _ l]) simp
qed

lemma session_informed:
  assumes "client_session N st0 es st" "c0 = w_cache (k_cache st0)" "steady (n_cache N) c0 (k_cache st0)"
    and "cache_empty (n_cache N) (k_cache st0)" "small_answers N c0"
  shows "informed N c0 es (k_cache st)"
  using assms(1)
proof (induction rule: client_session.induct)
  case start
  then show ?case using informed_start assms(2-4) by blast
next
  case (read es st dest rp timeout_ms refresh ex r st')
  then show ?case using informed_exec_read(1) assms(5) by blast
next
  case (written es st dest rp priority val timeout_ms ex r st')
  then show ?case using informed_exec_write by blast
next
  case (discovered es st low high discovery_timeout refresh ex ex2 r st')
  then show ?case using informed_whois by blast
next
  case (routed es st dev dev' st')
  then show ?case using informed_route by blast
next
  case (cleared es st has_client name r st')
  then show ?case using informed_method_clear by blast
qed

text \<open>C4.
  Through a whole session of reads, writes, discoveries and clearings, in any order and against
  any traffic, the value a read gives is the decoded form of the device's latest answer to a read of that very
  property, and no acknowledged write, refresh or clearing of its partition has come since then:
  neither level of the cache, nor both together, ever hands out anything else.
\<close>

theorem read_gives_latest_answer:
  assumes "client_session N st0 es st" "c0 = w_cache (k_cache st0)" "steady (n_cache N) c0 (k_cache st0)"
    and "cache_empty (n_cache N) (k_cache st0)" "small_answers N c0" "local_device dest"
    and "php_bacnet_exec_read_property N dest rp timeout_ms refresh ex st = Some (Inr v, st')"
  shows "\<exists>data. last_answer dest rp (read_events N dest rp timeout_ms refresh ex st @ es) = Some data \<and>
    v = bacapp_values_to_zval (n_app_decode N) data"
  using informed_exec_read(2) [OF session_informed [OF assms(1-5)] assms(6,5,7)] by blast

definition bounded_net :: "(list_store, unit, nat) net_env" where
  "bounded_net = demo_net\<lparr>n_rp_ack := \<lambda>r. if length r \<le> 1476 then Some r else None\<rparr>"

definition demo_local :: bacnet_address where
  "demo_local = \<lparr>mac = [10, 0, 0, 1, 0xBA, 0xC0], net = 0\<rparr>"

definition demo_exchange :: exchange where
  "demo_exchange = (0, [\<lparr>io_clock = 5, io_clock2 = 5, io_source = demo_local, io_pdu = [1, 4, 0x30, 1, 12, 7]\<rparr>])"

lemma read_gives_latest_answer_witness:
  "\<exists>st data. php_bacnet_exec_read_property bounded_net demo_local demo_rp 3000 False demo_exchange demo_client = Some (Inr (ZLong 7), st) \<and>
    last_answer demo_local demo_rp (read_events bounded_net demo_local demo_rp 3000 False demo_exchange demo_client @ []) = Some data \<and>
    ZLong 7 = bacapp_values_to_zval (n_app_decode bounded_net) data"
proof -
  have ab: "fst (php_bacnet_cache_get list_env 1 key cap (demo_world [])) = None" for key cap
    by (rule absent_get) (use demo_empty in \<open>simp add: cache_empty_def CACHE_PARTITION_COUNT_def\<close>)
  have neg: "php_bacnet_cache_get list_env PHP_BACNET_CACHE_NEGATIVE key cap (demo_world []) = (None, demo_world [])" for key cap
    using demo_world_options(2) [of "[]"] by (simp add: php_bacnet_cache_get_def)
  obtain w where "php_bacnet_cache_get list_env 1 (read_cache_key demo_local demo_rp) 1476 (demo_world []) = (None, w)"
    using ab by (metis prod.collapse)
  then have f: "read_from_cache bounded_net demo_local demo_rp False demo_client = (None, demo_client\<lparr>k_cache := w\<rparr>)"
    using neg by (simp add: read_from_cache_def cache_lookup_def bounded_net_def Let_def demo_partition CACHE_PARTITION_COUNT_def)
  have q: "request_reply bounded_net demo_local [0, 5, 1, 12] 1 3000 demo_exchange (demo_client\<lparr>k_cache := w, k_next_invoke_id := 2\<rparr>) =
      Some (0, [0x30, 1, 12, 7], demo_client\<lparr>k_cache := w, k_next_invoke_id := 2, k_ctx := 0,
        k_sent := [(Some demo_local, [1, 4, 0, 5, 1, 12])]\<rparr>)"
    by (simp add: request_reply_def php_bacnet_send_and_wait_def bounded_net_def demo_exchange_def classify_answer_def
        apdu_at_def apdu_len_def pdu_defs sent_to_def Let_def)
  have v: "bacapp_values_to_zval (n_app_decode bounded_net) [7] = ZLong 7"
    by (simp add: bacapp_values_to_zval_def bacapp_decode_loop.simps bounded_net_def)
  obtain st where e: "php_bacnet_exec_read_property bounded_net demo_local demo_rp 3000 False demo_exchange demo_client = Some (Inr (ZLong 7), st)"
    using f q v by (auto simp: php_bacnet_exec_read_property_def read_answer_def Let_def pdu_defs bounded_net_def)
  have "\<exists>data. last_answer demo_local demo_rp (read_events bounded_net demo_local demo_rp 3000 False demo_exchange demo_client @ []) = Some data \<and>
      ZLong 7 = bacapp_values_to_zval (n_app_decode bounded_net) data"
  proof (rule read_gives_latest_answer [OF client_session.start refl _ _ _ _ e])
    show "small_answers bounded_net (w_cache (k_cache demo_client))"
      using demo_world_options(6) [of "[]"] by (simp add: small_answers_def bounded_net_def CACHE_VALUE_MAX_def)
  qed (simp_all add: bounded_net_def demo_steady demo_empty demo_local_def local_device_def)
  then show ?thesis using e by blast
qed

end
