(* ===== verification/Cov_Props.thy ===== *)
theory Cov_Props
  imports Cov
begin

text \<open>
  Change-of-value notifications that reach a client while it waits for an answer: which events
  the PHP handler is given and what is acknowledged, over a whole wait.
\<close>

subsection \<open>One packet\<close>

text \<open>The notification in a packet: whether it is confirmed, its APDU and the length of that.\<close>

definition notification_of :: "'l link_env_scheme \<Rightarrow> bytes \<Rightarrow> (bool \<times> bytes \<times> nat) option" where
  "notification_of L pdu =
    (case p_npdu L pdu of (nl, network_layer_message) \<Rightarrow>
       if nl < 0 \<or> network_layer_message \<or> nl mod 65536 + 2 > int (length pdu) then None
       else map_option (\<lambda>c. (c, apdu_at nl pdu, apdu_len nl pdu)) (cov_kind (apdu_at nl pdu) (apdu_len nl pdu)))"

text \<open>The event for the PHP handler, and the acknowledgement that is sent.\<close>

definition event_of :: "'l link_env_scheme \<Rightarrow> bytes \<Rightarrow> zval option" where
  "event_of L pdu =
    (case notification_of L pdu of
       None \<Rightarrow> None
     | Some (confirmed, apdu, al) \<Rightarrow> map_option cov_event (cov_decoded L apdu al confirmed))"

definition ack_of :: "'l link_env_scheme \<Rightarrow> bacnet_address \<times> bytes \<Rightarrow> (bacnet_address \<times> bytes) list" where
  "ack_of L p =
    (case notification_of L (snd p) of
       Some (True, apdu, al) \<Rightarrow>
         (case p_simple_ack L (apdu ! 2) SERVICE_CONFIRMED_COV_NOTIFICATION of
            Some a \<Rightarrow> if deliverable L (fst p) a then [(fst p, a)] else []
          | None \<Rightarrow> [])
     | _ \<Rightarrow> [])"



subsection \<open>A whole wait\<close>


definition events_of :: "'l link_env_scheme \<Rightarrow> (bacnet_address \<times> bytes) list \<Rightarrow> zval list" where
  "events_of L ps = List.map_filter (\<lambda>p. event_of L (snd p)) ps"

definition acks_of :: "'l link_env_scheme \<Rightarrow> (bacnet_address \<times> bytes) list \<Rightarrow> (bacnet_address \<times> bytes) list" where
  "acks_of L ps = concat (map (ack_of L) ps)"

lemma events_acks_simps [simp]:
  "events_of L [] = []" "acks_of L [] = []" "acks_of L (p # ps) = ack_of L p @ acks_of L ps"
  "events_of L (p # ps) = (case event_of L (snd p) of None \<Rightarrow> events_of L ps | Some ev \<Rightarrow> ev # events_of L ps)"
  by (simp_all add: events_of_def acks_of_def map_filter_simps split: option.split)








end
