(* ===== verification/Class_Engine.thy ===== *)
theory Class_Engine
  imports Doubles
begin

text \<open>
  What the extension uses of the engine's classes: entries with a parent and interfaces,
  instanceof, creation of objects, lookup of methods, argument information (what a method
  declares) and parameter parsing (what its body takes, the Z_PARAM macros).  Arguments are
  checked as under strict_types: without it the engine first converts scalars, on both sides
  alike.  A class table is a list, the class declared last at its head, so that every class is
  declared before it is extended.
\<close>

subsection \<open>Names, types, arguments\<close>

text \<open>A class of namespace Bacnet or one outside it.\<close>

datatype class_name = Bacnet string | Global string

datatype ptype =
    IS_LONG | IS_DOUBLE | IS_STRING | IS_BOOL | IS_ARRAY | IS_CALLABLE | IS_VOID | IS_MIXED
  | OBJ class_name

text \<open>An argument: of an object its class and handle matter.\<close>

datatype arg =
    A_null
  | A_bool bool
  | A_long int
  | A_double dbl
  | A_string string
  | A_array "arg list"
  | A_object class_name nat

text \<open>The C structs in which objects of the extension keep their state; Std\_object is the bare
  zend\_object.\<close>

datatype store =
    Std_object
  | Client_obj
  | Device_obj
  | Object_identifier_obj
  | Bitstring_obj
  | Date_obj
  | Time_obj
  | Objectref_obj
  | Value_obj
  | Server_obj

subsection \<open>Declarations\<close>

record arg_info =
  ai_name :: string
  ai_type :: ptype
  ai_null :: bool
  ai_default :: "string option"

record arginfo =
  i_required :: nat
  i_return :: "(ptype \<times> bool) option"
  i_args :: "arg_info list"

text \<open>The macros ZEND_ARG_TYPE_INFO and ZEND_ARG_OBJ_INFO, ZEND_ARG_INFO, and
  ZEND_ARG_TYPE_INFO_WITH_DEFAULT_VALUE.\<close>

abbreviation ARG_TYPE :: "string \<Rightarrow> ptype \<Rightarrow> bool \<Rightarrow> arg_info" where
  "ARG_TYPE n t nul \<equiv> \<lparr>ai_name = n, ai_type = t, ai_null = nul, ai_default = None\<rparr>"

abbreviation ARG_ANY :: "string \<Rightarrow> arg_info" where
  "ARG_ANY n \<equiv> \<lparr>ai_name = n, ai_type = IS_MIXED, ai_null = False, ai_default = None\<rparr>"

abbreviation ARG_DEFAULT :: "string \<Rightarrow> ptype \<Rightarrow> bool \<Rightarrow> string \<Rightarrow> arg_info" where
  "ARG_DEFAULT n t nul d \<equiv> \<lparr>ai_name = n, ai_type = t, ai_null = nul, ai_default = Some d\<rparr>"

abbreviation ARG_INFO :: "nat \<Rightarrow> (ptype \<times> bool) option \<Rightarrow> arg_info list \<Rightarrow> arginfo" where
  "ARG_INFO req ret args \<equiv> \<lparr>i_required = req, i_return = ret, i_args = args\<rparr>"

datatype zparam =
    Z_BOOL
  | Z_LONG
  | Z_DOUBLE
  | Z_STR
  | Z_ARRAY
  | Z_ARRAY_HT
  | Z_ZVAL
  | Z_STR_OR_NULL
  | Z_LONG_OR_NULL
  | Z_DOUBLE_OR_NULL
  | Z_OBJECT_OF_CLASS class_name

text \<open>ZEND_PARSE_PARAMETERS_START(min, max) with the parameters in order; an optional one has
  the value its C variable starts with (A_null for a NULL pointer or a set is_null flag).\<close>

record zpp =
  z_min :: nat
  z_max :: nat
  z_params :: "zparam list"
  z_initial :: "arg list"

abbreviation ZPP :: "nat \<Rightarrow> nat \<Rightarrow> zparam list \<Rightarrow> arg list \<Rightarrow> zpp" where
  "ZPP lo hi ps initial \<equiv> \<lparr>z_min = lo, z_max = hi, z_params = ps, z_initial = initial\<rparr>"

text \<open>
  How a body reaches the struct of its own object: not at all, by a fixed cast, by
  php_bacnet_cache_from_this or by php_bacnet_transport_from_owner.
\<close>

datatype this_use = No_cast | Cast store | Cache_from_this | Transport_from_owner

text \<open>A method of the extension: argument information, flags, parsing, access to its struct.\<close>

datatype me_flag = ZEND_ACC_PUBLIC | ZEND_ACC_STATIC | ZEND_ACC_ABSTRACT

record method_entry =
  me_name :: string
  me_arginfo :: arginfo
  me_flags :: "me_flag list"
  me_zpp :: "zpp option"
  me_this :: this_use

abbreviation PHP_ME :: "string \<Rightarrow> arginfo \<Rightarrow> me_flag list \<Rightarrow> zpp \<times> this_use \<Rightarrow> method_entry" where
  "PHP_ME n ai fl b \<equiv>
    \<lparr>me_name = n, me_arginfo = ai, me_flags = fl, me_zpp = Some (fst b), me_this = snd b\<rparr>"

abbreviation ZEND_ABSTRACT_ME :: "string \<Rightarrow> arginfo \<Rightarrow> method_entry" where
  "ZEND_ABSTRACT_ME n ai \<equiv>
    \<lparr>me_name = n, me_arginfo = ai, me_flags = [ZEND_ACC_PUBLIC, ZEND_ACC_ABSTRACT], me_zpp = None, me_this = No_cast\<rparr>"

subsection \<open>Class table\<close>

datatype class_kind = Normal_class | Interface | Enum

text \<open>zend_object_handlers: the struct the offset points into, and whether clone is possible.\<close>

record handlers =
  h_offset :: store
  h_clone :: bool

definition std_object_handlers :: handlers where
  "std_object_handlers = \<lparr>h_offset = Std_object, h_clone = True\<rparr>"

text \<open>A method is one of the extension or a method of PHP code, which replaces an inherited one.\<close>

datatype class_method = Native method_entry | User string

fun method_name :: "class_method \<Rightarrow> string" where
  "method_name (Native m) = me_name m"
| "method_name (User n) = n"

text \<open>create_object gives the struct that is allocated and the handlers that are set.\<close>

record class_entry =
  ce_name :: class_name
  ce_kind :: class_kind
  ce_parent :: "class_name option"
  ce_interfaces :: "class_name list"
  ce_methods :: "class_method list"
  ce_props :: "(string \<times> arg) list"
  ce_create :: "store \<times> handlers"

type_synonym class_table = "class_entry list"

fun find_class :: "class_table \<Rightarrow> class_name \<Rightarrow> class_entry option" where
  "find_class [] c = None"
| "find_class (e # es) c = (if ce_name e = c then Some e else find_class es c)"

text \<open>instanceof_function.\<close>

fun instanceof :: "class_table \<Rightarrow> class_name \<Rightarrow> class_name \<Rightarrow> bool" where
  "instanceof [] c d \<longleftrightarrow> False"
| "instanceof (e # es) c d \<longleftrightarrow>
    (if ce_name e = c
     then c = d \<or> (case ce_parent e of None \<Rightarrow> False | Some p \<Rightarrow> instanceof es p d) \<or>
          (\<exists>i \<in> set (ce_interfaces e). instanceof es i d)
     else instanceof es c d)"

text \<open>The method an object of a class answers a call with.\<close>

fun find_method :: "class_table \<Rightarrow> class_name \<Rightarrow> string \<Rightarrow> class_method option" where
  "find_method [] c n = None"
| "find_method (e # es) c n =
    (if ce_name e = c
     then case find (\<lambda>m. method_name m = n) (ce_methods e) of
            Some m \<Rightarrow> Some m
          | None \<Rightarrow> (case ce_parent e of None \<Rightarrow> None | Some p \<Rightarrow> find_method es p n)
     else find_method es c n)"

text \<open>Struct and handlers of a new object.\<close>

definition object_init_ex :: "class_table \<Rightarrow> class_name \<Rightarrow> store \<times> handlers" where
  "object_init_ex T c = (case find_class T c of Some e \<Rightarrow> ce_create e | None \<Rightarrow> (Std_object, std_object_handlers))"

abbreviation object_store :: "class_table \<Rightarrow> class_name \<Rightarrow> store" where
  "object_store T c \<equiv> fst (object_init_ex T c)"

text \<open>
  zend_register_internal_class_ex: a child inherits create_object; a later assignment replaces
  it (create).  Properties are those declared by the class itself.
\<close>

definition register_class ::
    "class_name \<Rightarrow> class_name option \<Rightarrow> method_entry list \<Rightarrow> (string \<times> arg) list \<Rightarrow> (store \<times> handlers) option \<Rightarrow> class_table \<Rightarrow>
     class_table" where
  "register_class c parent ms props create T =
    \<lparr>ce_name = c, ce_kind = Normal_class, ce_parent = parent, ce_interfaces = [], ce_methods = map Native ms,
     ce_props = props,
     ce_create = (case create of
         Some cr \<Rightarrow> cr
       | None \<Rightarrow> (case parent of Some p \<Rightarrow> object_init_ex T p | None \<Rightarrow> (Std_object, std_object_handlers)))\<rparr> # T"

definition register_interface :: "class_name \<Rightarrow> method_entry list \<Rightarrow> class_table \<Rightarrow> class_table" where
  "register_interface c ms T =
    \<lparr>ce_name = c, ce_kind = Interface, ce_parent = None, ce_interfaces = [], ce_methods = map Native ms, ce_props = [],
     ce_create = (Std_object, std_object_handlers)\<rparr> # T"

definition register_enum :: "class_name \<Rightarrow> class_table \<Rightarrow> class_table" where
  "register_enum c T =
    \<lparr>ce_name = c, ce_kind = Enum, ce_parent = None, ce_interfaces = [], ce_methods = [], ce_props = [],
     ce_create = (Std_object, std_object_handlers)\<rparr> # T"

text \<open>
  Declarations of the PHP program: a new name, for a class perhaps a parent that is a class and
  not an enum, interfaces that are known, own methods; create_object is inherited.
\<close>

definition declare_class ::
    "class_kind \<Rightarrow> class_name \<Rightarrow> class_name option \<Rightarrow> class_name list \<Rightarrow> string list \<Rightarrow> class_table \<Rightarrow> class_table" where
  "declare_class k c parent ifs ms T =
    \<lparr>ce_name = c, ce_kind = k, ce_parent = parent, ce_interfaces = ifs, ce_methods = map User ms, ce_props = [],
     ce_create = (case parent of Some p \<Rightarrow> object_init_ex T p | None \<Rightarrow> (Std_object, std_object_handlers))\<rparr> # T"

definition is_kind :: "class_kind \<Rightarrow> class_table \<Rightarrow> class_name \<Rightarrow> bool" where
  "is_kind k T c \<longleftrightarrow> (case find_class T c of Some e \<Rightarrow> ce_kind e = k | None \<Rightarrow> False)"

inductive program :: "class_table \<Rightarrow> class_table \<Rightarrow> bool" for base :: class_table where
  start: "program base base"
| declared: "program base T \<Longrightarrow> find_class T c = None \<Longrightarrow>
    (\<forall>p. parent = Some p \<longrightarrow> k = Normal_class \<and> is_kind Normal_class T p) \<Longrightarrow>
    (\<forall>i \<in> set ifs. is_kind Interface T i) \<Longrightarrow> program base (declare_class k c parent ifs ms T)"

subsection \<open>Checks of arguments\<close>

text \<open>The check against a declared type; whether a value can be called is up to the program.\<close>

fun type_accepts :: "class_table \<Rightarrow> (arg \<Rightarrow> bool) \<Rightarrow> ptype \<Rightarrow> arg \<Rightarrow> bool" where
  "type_accepts T callable IS_MIXED v = True"
| "type_accepts T callable IS_CALLABLE v = callable v"
| "type_accepts T callable (OBJ d) (A_object c h) = instanceof T c d"
| "type_accepts T callable IS_LONG (A_long n) = True"
| "type_accepts T callable IS_DOUBLE (A_double x) = True"
| "type_accepts T callable IS_DOUBLE (A_long n) = True"
| "type_accepts T callable IS_STRING (A_string s) = True"
| "type_accepts T callable IS_BOOL (A_bool b) = True"
| "type_accepts T callable IS_ARRAY (A_array xs) = True"
| "type_accepts T callable t v = False"

definition arg_accepts :: "class_table \<Rightarrow> (arg \<Rightarrow> bool) \<Rightarrow> arg_info \<Rightarrow> arg \<Rightarrow> bool" where
  "arg_accepts T callable ai v \<longleftrightarrow> v = A_null \<and> ai_null ai \<or> type_accepts T callable (ai_type ai) v"

definition arginfo_accepts :: "class_table \<Rightarrow> (arg \<Rightarrow> bool) \<Rightarrow> arginfo \<Rightarrow> arg list \<Rightarrow> bool" where
  "arginfo_accepts T callable ai vs \<longleftrightarrow>
    i_required ai \<le> length vs \<and> length vs \<le> length (i_args ai) \<and>
    list_all2 (arg_accepts T callable) (take (length vs) (i_args ai)) vs"

text \<open>The Z_PARAM macros: the value handed to the body, or None when the call throws.\<close>

fun z_param :: "class_table \<Rightarrow> zparam \<Rightarrow> arg \<Rightarrow> arg option" where
  "z_param T Z_ZVAL v = Some v"
| "z_param T Z_BOOL (A_bool b) = Some (A_bool b)"
| "z_param T Z_LONG (A_long n) = Some (A_long n)"
| "z_param T Z_LONG_OR_NULL (A_long n) = Some (A_long n)"
| "z_param T Z_LONG_OR_NULL A_null = Some A_null"
| "z_param T Z_DOUBLE (A_double x) = Some (A_double x)"
| "z_param T Z_DOUBLE (A_long n) = Some (A_double (dbl_of_int n))"
| "z_param T Z_DOUBLE_OR_NULL (A_double x) = Some (A_double x)"
| "z_param T Z_DOUBLE_OR_NULL (A_long n) = Some (A_double (dbl_of_int n))"
| "z_param T Z_DOUBLE_OR_NULL A_null = Some A_null"
| "z_param T Z_STR (A_string s) = Some (A_string s)"
| "z_param T Z_STR_OR_NULL (A_string s) = Some (A_string s)"
| "z_param T Z_STR_OR_NULL A_null = Some A_null"
| "z_param T Z_ARRAY (A_array xs) = Some (A_array xs)"
| "z_param T Z_ARRAY_HT (A_array xs) = Some (A_array xs)"
| "z_param T (Z_OBJECT_OF_CLASS d) (A_object c h) = (if instanceof T c d then Some (A_object c h) else None)"
| "z_param T p v = None"

text \<open>Parsing of a whole call: the values the body goes on with.\<close>

definition zpp_parse :: "class_table \<Rightarrow> zpp \<Rightarrow> arg list \<Rightarrow> arg list option" where
  "zpp_parse T z vs =
    (if length vs < z_min z \<or> length vs > z_max z then None
     else map_option (\<lambda>ws. ws @ drop (length vs - z_min z) (z_initial z))
            (those (map2 (z_param T) (take (length vs) (z_params z)) vs)))"

subsection \<open>Defaults\<close>

fun quoted :: "string \<Rightarrow> string option" where
  "quoted (c # cs) = (if c = CHR 0x22 \<and> cs \<noteq> [] \<and> last cs = CHR 0x22 then Some (butlast cs) else None)"
| "quoted [] = None"

definition digit_value :: "char \<Rightarrow> int" where
  "digit_value c = int (of_char c :: nat) - 48"

text \<open>The constant expression a declared default is given as; the engine evaluates it when a
  call by names leaves the argument out.\<close>

definition eval_default :: "string \<Rightarrow> arg option" where
  "eval_default s =
    (if s = ''null'' then Some A_null
     else if s = ''false'' then Some (A_bool False)
     else if s = ''[]'' then Some (A_array [])
     else case quoted s of
         Some t \<Rightarrow> Some (A_string t)
       | None \<Rightarrow>
           if s \<noteq> [] \<and> (\<forall>c \<in> set s. 48 \<le> (of_char c :: nat) \<and> (of_char c :: nat) \<le> 57)
           then Some (A_long (foldl (\<lambda>a c. 10 * a + digit_value c) 0 s)) else None)"

text \<open>A call by names: None for a left-out argument; the engine fills it in, up to the last one given.\<close>

fun fill_defaults :: "arg_info list \<Rightarrow> arg option list \<Rightarrow> arg list option" where
  "fill_defaults ais [] = Some []"
| "fill_defaults [] (v # vs) = None"
| "fill_defaults (ai # ais) (v # vs) =
    (case (case v of Some x \<Rightarrow> Some x | None \<Rightarrow> Option.bind (ai_default ai) eval_default) of
       None \<Rightarrow> None
     | Some x \<Rightarrow> map_option (Cons x) (fill_defaults ais vs))"

end
