(* ===== verification/Class_Signatures.thy ===== *)
theory Class_Signatures
  imports Class_Engine
begin

text \<open>
  The signatures of src/bacnet_classes.c: for every method its argument information (the blocks
  arginfo), what its body parses and how it reaches its struct (zim, or zif for a function that
  several methods share), and the method tables.
\<close>

subsection \<open>Bacnet\\Value\<close>

definition arginfo_value_boolean :: arginfo where
  "arginfo_value_boolean =
    ARG_INFO 1 (Some (OBJ (Bacnet ''Value''), False))
      [ARG_TYPE ''value'' IS_BOOL False]"

definition zim_Bacnet_Value_boolean :: "zpp \<times> this_use" where
  "zim_Bacnet_Value_boolean = (ZPP 1 1 [Z_BOOL] [], No_cast)"

definition arginfo_value_unsigned_int :: arginfo where
  "arginfo_value_unsigned_int =
    ARG_INFO 1 (Some (OBJ (Bacnet ''Value''), False))
      [ARG_TYPE ''value'' IS_LONG False]"

definition zim_Bacnet_Value_unsignedInt :: "zpp \<times> this_use" where
  "zim_Bacnet_Value_unsignedInt = (ZPP 1 1 [Z_LONG] [], No_cast)"

definition arginfo_value_signed_int :: arginfo where
  "arginfo_value_signed_int =
    ARG_INFO 1 (Some (OBJ (Bacnet ''Value''), False))
      [ARG_TYPE ''value'' IS_LONG False]"

definition zim_Bacnet_Value_signedInt :: "zpp \<times> this_use" where
  "zim_Bacnet_Value_signedInt = (ZPP 1 1 [Z_LONG] [], No_cast)"

definition arginfo_value_real :: arginfo where
  "arginfo_value_real =
    ARG_INFO 1 (Some (OBJ (Bacnet ''Value''), False))
      [ARG_TYPE ''value'' IS_DOUBLE False]"

definition zim_Bacnet_Value_real :: "zpp \<times> this_use" where
  "zim_Bacnet_Value_real = (ZPP 1 1 [Z_DOUBLE] [], No_cast)"

definition arginfo_value_enumerated :: arginfo where
  "arginfo_value_enumerated =
    ARG_INFO 1 (Some (OBJ (Bacnet ''Value''), False))
      [ARG_TYPE ''value'' IS_LONG False]"

definition zim_Bacnet_Value_enumerated :: "zpp \<times> this_use" where
  "zim_Bacnet_Value_enumerated = (ZPP 1 1 [Z_LONG] [], No_cast)"

definition arginfo_value_character_string :: arginfo where
  "arginfo_value_character_string =
    ARG_INFO 1 (Some (OBJ (Bacnet ''Value''), False))
      [ARG_TYPE ''value'' IS_STRING False]"

definition zim_Bacnet_Value_characterString :: "zpp \<times> this_use" where
  "zim_Bacnet_Value_characterString = (ZPP 1 1 [Z_STR] [], No_cast)"

definition arginfo_value_bit_string :: arginfo where
  "arginfo_value_bit_string =
    ARG_INFO 1 (Some (OBJ (Bacnet ''Value''), False))
      [ARG_TYPE ''value'' (OBJ (Bacnet ''BitString'')) False]"

definition zim_Bacnet_Value_bitString :: "zpp \<times> this_use" where
  "zim_Bacnet_Value_bitString = (ZPP 1 1 [Z_OBJECT_OF_CLASS (Bacnet ''BitString'')] [], No_cast)"

definition arginfo_value_date :: arginfo where
  "arginfo_value_date =
    ARG_INFO 1 (Some (OBJ (Bacnet ''Value''), False))
      [ARG_TYPE ''value'' (OBJ (Bacnet ''Date'')) False]"

definition zim_Bacnet_Value_date :: "zpp \<times> this_use" where
  "zim_Bacnet_Value_date = (ZPP 1 1 [Z_OBJECT_OF_CLASS (Bacnet ''Date'')] [], No_cast)"

definition arginfo_value_time :: arginfo where
  "arginfo_value_time =
    ARG_INFO 1 (Some (OBJ (Bacnet ''Value''), False))
      [ARG_TYPE ''value'' (OBJ (Bacnet ''Time'')) False]"

definition zim_Bacnet_Value_time :: "zpp \<times> this_use" where
  "zim_Bacnet_Value_time = (ZPP 1 1 [Z_OBJECT_OF_CLASS (Bacnet ''Time'')] [], No_cast)"

definition arginfo_value_object_identifier :: arginfo where
  "arginfo_value_object_identifier =
    ARG_INFO 1 (Some (OBJ (Bacnet ''Value''), False))
      [ARG_TYPE ''value'' (OBJ (Bacnet ''ObjectIdentifier'')) False]"

definition zim_Bacnet_Value_objectIdentifier :: "zpp \<times> this_use" where
  "zim_Bacnet_Value_objectIdentifier =
    (ZPP 1 1
      [Z_OBJECT_OF_CLASS (Bacnet ''ObjectIdentifier'')]
      [], No_cast)"

definition bacnet_value_methods :: "method_entry list" where
  "bacnet_value_methods =
    [PHP_ME ''boolean'' arginfo_value_boolean [ZEND_ACC_PUBLIC, ZEND_ACC_STATIC] zim_Bacnet_Value_boolean,
     PHP_ME ''unsignedInt'' arginfo_value_unsigned_int [ZEND_ACC_PUBLIC, ZEND_ACC_STATIC] zim_Bacnet_Value_unsignedInt,
     PHP_ME ''signedInt'' arginfo_value_signed_int [ZEND_ACC_PUBLIC, ZEND_ACC_STATIC] zim_Bacnet_Value_signedInt,
     PHP_ME ''real'' arginfo_value_real [ZEND_ACC_PUBLIC, ZEND_ACC_STATIC] zim_Bacnet_Value_real,
     PHP_ME ''enumerated'' arginfo_value_enumerated [ZEND_ACC_PUBLIC, ZEND_ACC_STATIC] zim_Bacnet_Value_enumerated,
     PHP_ME ''characterString'' arginfo_value_character_string [ZEND_ACC_PUBLIC, ZEND_ACC_STATIC] zim_Bacnet_Value_characterString,
     PHP_ME ''bitString'' arginfo_value_bit_string [ZEND_ACC_PUBLIC, ZEND_ACC_STATIC] zim_Bacnet_Value_bitString,
     PHP_ME ''date'' arginfo_value_date [ZEND_ACC_PUBLIC, ZEND_ACC_STATIC] zim_Bacnet_Value_date,
     PHP_ME ''time'' arginfo_value_time [ZEND_ACC_PUBLIC, ZEND_ACC_STATIC] zim_Bacnet_Value_time,
     PHP_ME ''objectIdentifier'' arginfo_value_object_identifier [ZEND_ACC_PUBLIC, ZEND_ACC_STATIC] zim_Bacnet_Value_objectIdentifier]"

subsection \<open>Bacnet\\Client\<close>

definition arginfo_bacnet_client_construct :: arginfo where
  "arginfo_bacnet_client_construct =
    ARG_INFO 0 None
      [ARG_DEFAULT ''interface'' IS_STRING True ''null'',
       ARG_DEFAULT ''port'' IS_LONG True ''null'',
       ARG_DEFAULT ''timeoutMs'' IS_LONG True ''null'']"

definition zim_Bacnet_Client___construct :: "zpp \<times> this_use" where
  "zim_Bacnet_Client___construct =
    (ZPP 0 3
      [Z_STR_OR_NULL, Z_LONG_OR_NULL, Z_LONG_OR_NULL]
      [A_null, A_null, A_null], Cast Client_obj)"

definition arginfo_bacnet_client_whois :: arginfo where
  "arginfo_bacnet_client_whois =
    ARG_INFO 0 (Some (IS_ARRAY, False))
      [ARG_DEFAULT ''lowLimit'' IS_LONG True ''null'',
       ARG_DEFAULT ''highLimit'' IS_LONG True ''null'',
       ARG_DEFAULT ''timeoutMs'' IS_LONG True ''null'',
       ARG_DEFAULT ''refresh'' IS_BOOL False ''false'']"

definition zim_Bacnet_Client_whoIs :: "zpp \<times> this_use" where
  "zim_Bacnet_Client_whoIs =
    (ZPP 0 4
      [Z_LONG_OR_NULL, Z_LONG_OR_NULL, Z_LONG_OR_NULL, Z_BOOL]
      [A_null, A_null, A_null, A_bool False], Cast Client_obj)"

definition arginfo_bacnet_cache_set_options :: arginfo where
  "arginfo_bacnet_cache_set_options =
    ARG_INFO 1 (Some (IS_VOID, False))
      [ARG_TYPE ''options'' IS_ARRAY False]"

definition zif_php_bacnet_cache_method_set_options :: "zpp \<times> this_use" where
  "zif_php_bacnet_cache_method_set_options = (ZPP 1 1 [Z_ARRAY] [], Cache_from_this)"

definition arginfo_bacnet_cache_get_options :: arginfo where
  "arginfo_bacnet_cache_get_options = ARG_INFO 0 (Some (IS_ARRAY, False)) []"

definition zif_php_bacnet_cache_method_get_options :: "zpp \<times> this_use" where
  "zif_php_bacnet_cache_method_get_options = (ZPP 0 0 [] [], Cache_from_this)"

definition arginfo_bacnet_cache_get_stats :: arginfo where
  "arginfo_bacnet_cache_get_stats =
    ARG_INFO 0 (Some (IS_ARRAY, False))
      [ARG_DEFAULT ''includeEntries'' IS_BOOL False ''false'',
       ARG_DEFAULT ''reset'' IS_BOOL False ''false'']"

definition zif_php_bacnet_cache_method_get_stats :: "zpp \<times> this_use" where
  "zif_php_bacnet_cache_method_get_stats =
    (ZPP 0 2
      [Z_BOOL, Z_BOOL]
      [A_bool False, A_bool False], Cache_from_this)"

definition arginfo_bacnet_cache_clear :: arginfo where
  "arginfo_bacnet_cache_clear =
    ARG_INFO 0 (Some (IS_VOID, False))
      [ARG_DEFAULT ''partition'' IS_STRING True ''null'']"

definition zif_php_bacnet_cache_method_clear :: "zpp \<times> this_use" where
  "zif_php_bacnet_cache_method_clear = (ZPP 0 1 [Z_STR_OR_NULL] [A_null], Cache_from_this)"

definition arginfo_bacnet_cache_set_backend :: arginfo where
  "arginfo_bacnet_cache_set_backend =
    ARG_INFO 1 (Some (IS_VOID, False))
      [ARG_TYPE ''backend'' (OBJ (Bacnet ''CacheBackendInterface'')) False]"

definition zif_php_bacnet_cache_method_set_backend :: "zpp \<times> this_use" where
  "zif_php_bacnet_cache_method_set_backend =
    (ZPP 1 1
      [Z_OBJECT_OF_CLASS (Bacnet ''CacheBackendInterface'')]
      [], Cache_from_this)"

definition arginfo_bacnet_cov_notification :: arginfo where
  "arginfo_bacnet_cov_notification =
    ARG_INFO 1 (Some (IS_VOID, False))
      [ARG_TYPE ''handler'' IS_CALLABLE False]"

definition zif_php_bacnet_cov_set_handler :: "zpp \<times> this_use" where
  "zif_php_bacnet_cov_set_handler = (ZPP 1 1 [Z_ZVAL] [], Transport_from_owner)"

definition arginfo_bacnet_client_poll :: arginfo where
  "arginfo_bacnet_client_poll =
    ARG_INFO 0 (Some (IS_VOID, False))
      [ARG_DEFAULT ''timeoutMs'' IS_LONG False ''0'']"

definition zim_Bacnet_Client_poll :: "zpp \<times> this_use" where
  "zim_Bacnet_Client_poll = (ZPP 0 1 [Z_LONG] [A_long 0], Cast Client_obj)"

definition bacnet_client_methods :: "method_entry list" where
  "bacnet_client_methods =
    [PHP_ME ''__construct'' arginfo_bacnet_client_construct [ZEND_ACC_PUBLIC] zim_Bacnet_Client___construct,
     PHP_ME ''whoIs'' arginfo_bacnet_client_whois [ZEND_ACC_PUBLIC] zim_Bacnet_Client_whoIs,
     PHP_ME ''setCacheOptions'' arginfo_bacnet_cache_set_options [ZEND_ACC_PUBLIC] zif_php_bacnet_cache_method_set_options,
     PHP_ME ''getCacheOptions'' arginfo_bacnet_cache_get_options [ZEND_ACC_PUBLIC] zif_php_bacnet_cache_method_get_options,
     PHP_ME ''getCacheStats'' arginfo_bacnet_cache_get_stats [ZEND_ACC_PUBLIC] zif_php_bacnet_cache_method_get_stats,
     PHP_ME ''clearCache'' arginfo_bacnet_cache_clear [ZEND_ACC_PUBLIC] zif_php_bacnet_cache_method_clear,
     PHP_ME ''setCacheBackend'' arginfo_bacnet_cache_set_backend [ZEND_ACC_PUBLIC] zif_php_bacnet_cache_method_set_backend,
     PHP_ME ''onCovNotification'' arginfo_bacnet_cov_notification [ZEND_ACC_PUBLIC] zif_php_bacnet_cov_set_handler,
     PHP_ME ''poll'' arginfo_bacnet_client_poll [ZEND_ACC_PUBLIC] zim_Bacnet_Client_poll]"

subsection \<open>Bacnet\\CacheBackendInterface\<close>

definition arginfo_cache_backend_get :: arginfo where
  "arginfo_cache_backend_get =
    ARG_INFO 3 (Some (IS_STRING, True))
      [ARG_TYPE ''namespace'' IS_STRING False, ARG_TYPE ''partition'' IS_STRING False,
       ARG_TYPE ''key'' IS_STRING False]"

definition arginfo_cache_backend_set :: arginfo where
  "arginfo_cache_backend_set =
    ARG_INFO 6 (Some (IS_VOID, False))
      [ARG_TYPE ''namespace'' IS_STRING False, ARG_TYPE ''partition'' IS_STRING False,
       ARG_TYPE ''key'' IS_STRING False, ARG_TYPE ''payload'' IS_STRING False,
       ARG_TYPE ''expiresAtMs'' IS_LONG False, ARG_TYPE ''maxEntries'' IS_LONG False]"

definition arginfo_cache_backend_invalidate :: arginfo where
  "arginfo_cache_backend_invalidate =
    ARG_INFO 3 (Some (IS_VOID, False))
      [ARG_TYPE ''namespace'' IS_STRING False, ARG_TYPE ''partition'' IS_STRING False,
       ARG_TYPE ''scope'' IS_STRING False]"

definition arginfo_cache_backend_clear :: arginfo where
  "arginfo_cache_backend_clear =
    ARG_INFO 2 (Some (IS_VOID, False))
      [ARG_TYPE ''namespace'' IS_STRING False, ARG_TYPE ''partition'' IS_STRING True]"

definition arginfo_cache_backend_generation :: arginfo where
  "arginfo_cache_backend_generation =
    ARG_INFO 2 (Some (IS_LONG, False))
      [ARG_TYPE ''namespace'' IS_STRING False, ARG_TYPE ''partition'' IS_STRING False]"

definition bacnet_cache_backend_methods :: "method_entry list" where
  "bacnet_cache_backend_methods =
    [ZEND_ABSTRACT_ME ''get'' arginfo_cache_backend_get,
     ZEND_ABSTRACT_ME ''set'' arginfo_cache_backend_set,
     ZEND_ABSTRACT_ME ''invalidate'' arginfo_cache_backend_invalidate,
     ZEND_ABSTRACT_ME ''clear'' arginfo_cache_backend_clear,
     ZEND_ABSTRACT_ME ''getGeneration'' arginfo_cache_backend_generation,
     ZEND_ABSTRACT_ME ''bumpGeneration'' arginfo_cache_backend_generation]"

subsection \<open>Bacnet\\MixedServer\<close>

definition zim_Bacnet_MixedServer_whoIs :: "zpp \<times> this_use" where
  "zim_Bacnet_MixedServer_whoIs =
    (ZPP 0 4
      [Z_LONG_OR_NULL, Z_LONG_OR_NULL, Z_LONG_OR_NULL, Z_BOOL]
      [A_null, A_null, A_null, A_bool False], Cast Server_obj)"

definition arginfo_bacnet_mixed_pending_pdu_count :: arginfo where
  "arginfo_bacnet_mixed_pending_pdu_count = ARG_INFO 0 (Some (IS_LONG, False)) []"

definition zim_Bacnet_MixedServer_getPendingPduCount :: "zpp \<times> this_use" where
  "zim_Bacnet_MixedServer_getPendingPduCount = (ZPP 0 0 [] [], Cast Server_obj)"

definition bacnet_mixed_methods :: "method_entry list" where
  "bacnet_mixed_methods =
    [PHP_ME ''whoIs'' arginfo_bacnet_client_whois [ZEND_ACC_PUBLIC] zim_Bacnet_MixedServer_whoIs,
     PHP_ME ''getPendingPduCount'' arginfo_bacnet_mixed_pending_pdu_count [ZEND_ACC_PUBLIC] zim_Bacnet_MixedServer_getPendingPduCount,
     PHP_ME ''setCacheOptions'' arginfo_bacnet_cache_set_options [ZEND_ACC_PUBLIC] zif_php_bacnet_cache_method_set_options,
     PHP_ME ''getCacheOptions'' arginfo_bacnet_cache_get_options [ZEND_ACC_PUBLIC] zif_php_bacnet_cache_method_get_options,
     PHP_ME ''getCacheStats'' arginfo_bacnet_cache_get_stats [ZEND_ACC_PUBLIC] zif_php_bacnet_cache_method_get_stats,
     PHP_ME ''clearCache'' arginfo_bacnet_cache_clear [ZEND_ACC_PUBLIC] zif_php_bacnet_cache_method_clear,
     PHP_ME ''setCacheBackend'' arginfo_bacnet_cache_set_backend [ZEND_ACC_PUBLIC] zif_php_bacnet_cache_method_set_backend,
     PHP_ME ''onCovNotification'' arginfo_bacnet_cov_notification [ZEND_ACC_PUBLIC] zif_php_bacnet_cov_set_handler]"

subsection \<open>Bacnet\\Device\<close>

definition arginfo_bacnet_device_get_device_id :: arginfo where
  "arginfo_bacnet_device_get_device_id = ARG_INFO 0 (Some (IS_LONG, False)) []"

definition zim_Bacnet_Device_getDeviceId :: "zpp \<times> this_use" where
  "zim_Bacnet_Device_getDeviceId = (ZPP 0 0 [] [], Cast Device_obj)"

definition arginfo_bacnet_device_get_address :: arginfo where
  "arginfo_bacnet_device_get_address = ARG_INFO 0 (Some (IS_STRING, False)) []"

definition zim_Bacnet_Device_getAddress :: "zpp \<times> this_use" where
  "zim_Bacnet_Device_getAddress = (ZPP 0 0 [] [], Cast Device_obj)"

definition arginfo_bacnet_device_get_max_apdu :: arginfo where
  "arginfo_bacnet_device_get_max_apdu = ARG_INFO 0 (Some (IS_LONG, False)) []"

definition zim_Bacnet_Device_getMaxApdu :: "zpp \<times> this_use" where
  "zim_Bacnet_Device_getMaxApdu = (ZPP 0 0 [] [], Cast Device_obj)"

definition arginfo_bacnet_device_get_vendor_id :: arginfo where
  "arginfo_bacnet_device_get_vendor_id = ARG_INFO 0 (Some (IS_LONG, False)) []"

definition zim_Bacnet_Device_getVendorId :: "zpp \<times> this_use" where
  "zim_Bacnet_Device_getVendorId = (ZPP 0 0 [] [], Cast Device_obj)"

definition arginfo_bacnet_device_read_property :: arginfo where
  "arginfo_bacnet_device_read_property =
    ARG_INFO 3 None
      [ARG_TYPE ''objectType'' (OBJ (Bacnet ''ObjectType'')) False,
       ARG_TYPE ''instance'' IS_LONG False,
       ARG_TYPE ''property'' (OBJ (Bacnet ''Property'')) False,
       ARG_DEFAULT ''arrayIndex'' IS_LONG True ''null'',
       ARG_DEFAULT ''refresh'' IS_BOOL False ''false'']"

definition zim_Bacnet_Device_readProperty :: "zpp \<times> this_use" where
  "zim_Bacnet_Device_readProperty =
    (ZPP 3 5
      [Z_OBJECT_OF_CLASS (Bacnet ''ObjectType''), Z_LONG,
       Z_OBJECT_OF_CLASS (Bacnet ''Property''), Z_LONG_OR_NULL, Z_BOOL]
      [A_null, A_bool False], Cast Device_obj)"

definition arginfo_bacnet_device_write_property :: arginfo where
  "arginfo_bacnet_device_write_property =
    ARG_INFO 4 (Some (IS_VOID, False))
      [ARG_TYPE ''objectType'' (OBJ (Bacnet ''ObjectType'')) False,
       ARG_TYPE ''instance'' IS_LONG False,
       ARG_TYPE ''property'' (OBJ (Bacnet ''Property'')) False,
       ARG_TYPE ''value'' (OBJ (Bacnet ''Value'')) False,
       ARG_DEFAULT ''priority'' IS_LONG False ''16'',
       ARG_DEFAULT ''arrayIndex'' IS_LONG True ''null'']"

definition zim_Bacnet_Device_writeProperty :: "zpp \<times> this_use" where
  "zim_Bacnet_Device_writeProperty =
    (ZPP 4 6
      [Z_OBJECT_OF_CLASS (Bacnet ''ObjectType''), Z_LONG,
       Z_OBJECT_OF_CLASS (Bacnet ''Property''), Z_OBJECT_OF_CLASS (Bacnet ''Value''), Z_LONG,
       Z_LONG_OR_NULL]
      [A_long 16, A_null], Cast Device_obj)"

definition arginfo_bacnet_device_subscribe_cov :: arginfo where
  "arginfo_bacnet_device_subscribe_cov =
    ARG_INFO 3 (Some (IS_LONG, False))
      [ARG_TYPE ''objectType'' (OBJ (Bacnet ''ObjectType'')) False,
       ARG_TYPE ''instance'' IS_LONG False,
       ARG_TYPE ''property'' (OBJ (Bacnet ''Property'')) False,
       ARG_DEFAULT ''lifetimeSeconds'' IS_LONG False ''3600'',
       ARG_DEFAULT ''covIncrement'' IS_DOUBLE True ''null'',
       ARG_DEFAULT ''subscriberProcessId'' IS_LONG True ''null'']"

definition zim_Bacnet_Device_subscribeCOV :: "zpp \<times> this_use" where
  "zim_Bacnet_Device_subscribeCOV =
    (ZPP 3 6
      [Z_OBJECT_OF_CLASS (Bacnet ''ObjectType''), Z_LONG,
       Z_OBJECT_OF_CLASS (Bacnet ''Property''), Z_LONG, Z_DOUBLE_OR_NULL, Z_LONG_OR_NULL]
      [A_long 3600, A_null, A_null], Cast Device_obj)"

definition arginfo_bacnet_device_unsubscribe_cov :: arginfo where
  "arginfo_bacnet_device_unsubscribe_cov =
    ARG_INFO 4 (Some (IS_VOID, False))
      [ARG_TYPE ''objectType'' (OBJ (Bacnet ''ObjectType'')) False,
       ARG_TYPE ''instance'' IS_LONG False,
       ARG_TYPE ''property'' (OBJ (Bacnet ''Property'')) False,
       ARG_TYPE ''subscriberProcessId'' IS_LONG False]"

definition zim_Bacnet_Device_unsubscribeCOV :: "zpp \<times> this_use" where
  "zim_Bacnet_Device_unsubscribeCOV =
    (ZPP 4 4
      [Z_OBJECT_OF_CLASS (Bacnet ''ObjectType''), Z_LONG,
       Z_OBJECT_OF_CLASS (Bacnet ''Property''), Z_LONG]
      [], Cast Device_obj)"

definition bacnet_device_methods :: "method_entry list" where
  "bacnet_device_methods =
    [PHP_ME ''getDeviceId'' arginfo_bacnet_device_get_device_id [ZEND_ACC_PUBLIC] zim_Bacnet_Device_getDeviceId,
     PHP_ME ''getAddress'' arginfo_bacnet_device_get_address [ZEND_ACC_PUBLIC] zim_Bacnet_Device_getAddress,
     PHP_ME ''getMaxApdu'' arginfo_bacnet_device_get_max_apdu [ZEND_ACC_PUBLIC] zim_Bacnet_Device_getMaxApdu,
     PHP_ME ''getVendorId'' arginfo_bacnet_device_get_vendor_id [ZEND_ACC_PUBLIC] zim_Bacnet_Device_getVendorId,
     PHP_ME ''readProperty'' arginfo_bacnet_device_read_property [ZEND_ACC_PUBLIC] zim_Bacnet_Device_readProperty,
     PHP_ME ''writeProperty'' arginfo_bacnet_device_write_property [ZEND_ACC_PUBLIC] zim_Bacnet_Device_writeProperty,
     PHP_ME ''subscribeCOV'' arginfo_bacnet_device_subscribe_cov [ZEND_ACC_PUBLIC] zim_Bacnet_Device_subscribeCOV,
     PHP_ME ''unsubscribeCOV'' arginfo_bacnet_device_unsubscribe_cov [ZEND_ACC_PUBLIC] zim_Bacnet_Device_unsubscribeCOV]"

subsection \<open>Bacnet\\ObjectIdentifier\<close>

definition arginfo_bacnet_oid_construct :: arginfo where
  "arginfo_bacnet_oid_construct =
    ARG_INFO 2 None
      [ARG_TYPE ''type'' (OBJ (Bacnet ''ObjectType'')) False,
       ARG_TYPE ''instance'' IS_LONG False]"

definition zim_Bacnet_ObjectIdentifier___construct :: "zpp \<times> this_use" where
  "zim_Bacnet_ObjectIdentifier___construct =
    (ZPP 2 2
      [Z_OBJECT_OF_CLASS (Bacnet ''ObjectType''), Z_LONG]
      [], Cast Object_identifier_obj)"

definition arginfo_bacnet_oid_get_type :: arginfo where
  "arginfo_bacnet_oid_get_type = ARG_INFO 0 (Some (OBJ (Bacnet ''ObjectType''), False)) []"

definition zim_Bacnet_ObjectIdentifier_getType :: "zpp \<times> this_use" where
  "zim_Bacnet_ObjectIdentifier_getType = (ZPP 0 0 [] [], Cast Object_identifier_obj)"

definition arginfo_bacnet_oid_get_instance :: arginfo where
  "arginfo_bacnet_oid_get_instance = ARG_INFO 0 (Some (IS_LONG, False)) []"

definition zim_Bacnet_ObjectIdentifier_getInstance :: "zpp \<times> this_use" where
  "zim_Bacnet_ObjectIdentifier_getInstance = (ZPP 0 0 [] [], Cast Object_identifier_obj)"

definition arginfo_bacnet_oid_to_string :: arginfo where
  "arginfo_bacnet_oid_to_string = ARG_INFO 0 (Some (IS_STRING, False)) []"

definition zim_Bacnet_ObjectIdentifier___toString :: "zpp \<times> this_use" where
  "zim_Bacnet_ObjectIdentifier___toString = (ZPP 0 0 [] [], Cast Object_identifier_obj)"

definition bacnet_oid_methods :: "method_entry list" where
  "bacnet_oid_methods =
    [PHP_ME ''__construct'' arginfo_bacnet_oid_construct [ZEND_ACC_PUBLIC] zim_Bacnet_ObjectIdentifier___construct,
     PHP_ME ''getType'' arginfo_bacnet_oid_get_type [ZEND_ACC_PUBLIC] zim_Bacnet_ObjectIdentifier_getType,
     PHP_ME ''getInstance'' arginfo_bacnet_oid_get_instance [ZEND_ACC_PUBLIC] zim_Bacnet_ObjectIdentifier_getInstance,
     PHP_ME ''__toString'' arginfo_bacnet_oid_to_string [ZEND_ACC_PUBLIC] zim_Bacnet_ObjectIdentifier___toString]"

subsection \<open>Bacnet\\BitString\<close>

definition arginfo_bacnet_bitstring_construct :: arginfo where
  "arginfo_bacnet_bitstring_construct =
    ARG_INFO 1 None
      [ARG_TYPE ''bits'' IS_ARRAY False]"

definition zim_Bacnet_BitString___construct :: "zpp \<times> this_use" where
  "zim_Bacnet_BitString___construct = (ZPP 1 1 [Z_ARRAY] [], Cast Bitstring_obj)"

definition arginfo_bacnet_bitstring_get_bit :: arginfo where
  "arginfo_bacnet_bitstring_get_bit =
    ARG_INFO 1 (Some (IS_BOOL, False))
      [ARG_TYPE ''index'' IS_LONG False]"

definition zim_Bacnet_BitString_getBit :: "zpp \<times> this_use" where
  "zim_Bacnet_BitString_getBit = (ZPP 1 1 [Z_LONG] [], Cast Bitstring_obj)"

definition arginfo_bacnet_bitstring_get_length :: arginfo where
  "arginfo_bacnet_bitstring_get_length = ARG_INFO 0 (Some (IS_LONG, False)) []"

definition zim_Bacnet_BitString_getLength :: "zpp \<times> this_use" where
  "zim_Bacnet_BitString_getLength = (ZPP 0 0 [] [], Cast Bitstring_obj)"

definition arginfo_bacnet_bitstring_to_array :: arginfo where
  "arginfo_bacnet_bitstring_to_array = ARG_INFO 0 (Some (IS_ARRAY, False)) []"

definition zim_Bacnet_BitString_toArray :: "zpp \<times> this_use" where
  "zim_Bacnet_BitString_toArray = (ZPP 0 0 [] [], Cast Bitstring_obj)"

definition bacnet_bitstring_methods :: "method_entry list" where
  "bacnet_bitstring_methods =
    [PHP_ME ''__construct'' arginfo_bacnet_bitstring_construct [ZEND_ACC_PUBLIC] zim_Bacnet_BitString___construct,
     PHP_ME ''getBit'' arginfo_bacnet_bitstring_get_bit [ZEND_ACC_PUBLIC] zim_Bacnet_BitString_getBit,
     PHP_ME ''getLength'' arginfo_bacnet_bitstring_get_length [ZEND_ACC_PUBLIC] zim_Bacnet_BitString_getLength,
     PHP_ME ''toArray'' arginfo_bacnet_bitstring_to_array [ZEND_ACC_PUBLIC] zim_Bacnet_BitString_toArray]"

subsection \<open>Bacnet\\Date\<close>

definition arginfo_bacnet_date_construct :: arginfo where
  "arginfo_bacnet_date_construct =
    ARG_INFO 4 None
      [ARG_TYPE ''year'' IS_LONG False, ARG_TYPE ''month'' IS_LONG False,
       ARG_TYPE ''day'' IS_LONG False, ARG_TYPE ''weekday'' IS_LONG False]"

definition zim_Bacnet_Date___construct :: "zpp \<times> this_use" where
  "zim_Bacnet_Date___construct = (ZPP 4 4 [Z_LONG, Z_LONG, Z_LONG, Z_LONG] [], Cast Date_obj)"

definition bacnet_date_methods :: "method_entry list" where
  "bacnet_date_methods =
    [PHP_ME ''__construct'' arginfo_bacnet_date_construct [ZEND_ACC_PUBLIC] zim_Bacnet_Date___construct]"

subsection \<open>Bacnet\\Time\<close>

definition arginfo_bacnet_time_construct :: arginfo where
  "arginfo_bacnet_time_construct =
    ARG_INFO 4 None
      [ARG_TYPE ''hour'' IS_LONG False, ARG_TYPE ''minute'' IS_LONG False,
       ARG_TYPE ''second'' IS_LONG False, ARG_TYPE ''hundredths'' IS_LONG False]"

definition zim_Bacnet_Time___construct :: "zpp \<times> this_use" where
  "zim_Bacnet_Time___construct = (ZPP 4 4 [Z_LONG, Z_LONG, Z_LONG, Z_LONG] [], Cast Time_obj)"

definition bacnet_time_methods :: "method_entry list" where
  "bacnet_time_methods =
    [PHP_ME ''__construct'' arginfo_bacnet_time_construct [ZEND_ACC_PUBLIC] zim_Bacnet_Time___construct]"

subsection \<open>Bacnet\\ObjectRef\<close>

definition arginfo_bacnet_objectref_construct :: arginfo where
  "arginfo_bacnet_objectref_construct =
    ARG_INFO 3 None
      [ARG_TYPE ''device'' (OBJ (Bacnet ''Device'')) False,
       ARG_TYPE ''type'' (OBJ (Bacnet ''ObjectType'')) False,
       ARG_TYPE ''instance'' IS_LONG False]"

definition zim_Bacnet_ObjectRef___construct :: "zpp \<times> this_use" where
  "zim_Bacnet_ObjectRef___construct =
    (ZPP 3 3
      [Z_OBJECT_OF_CLASS (Bacnet ''Device''), Z_OBJECT_OF_CLASS (Bacnet ''ObjectType''), Z_LONG]
      [], Cast Objectref_obj)"

definition arginfo_bacnet_objectref_read_property :: arginfo where
  "arginfo_bacnet_objectref_read_property =
    ARG_INFO 1 None
      [ARG_TYPE ''property'' (OBJ (Bacnet ''Property'')) False,
       ARG_DEFAULT ''arrayIndex'' IS_LONG True ''null'',
       ARG_DEFAULT ''refresh'' IS_BOOL False ''false'']"

definition zim_Bacnet_ObjectRef_readProperty :: "zpp \<times> this_use" where
  "zim_Bacnet_ObjectRef_readProperty =
    (ZPP 1 3
      [Z_OBJECT_OF_CLASS (Bacnet ''Property''), Z_LONG_OR_NULL, Z_BOOL]
      [A_null, A_bool False], Cast Objectref_obj)"

definition arginfo_bacnet_objectref_write_property :: arginfo where
  "arginfo_bacnet_objectref_write_property =
    ARG_INFO 2 (Some (IS_VOID, False))
      [ARG_TYPE ''property'' (OBJ (Bacnet ''Property'')) False,
       ARG_TYPE ''value'' (OBJ (Bacnet ''Value'')) False,
       ARG_DEFAULT ''priority'' IS_LONG False ''16'',
       ARG_DEFAULT ''arrayIndex'' IS_LONG True ''null'']"

definition zim_Bacnet_ObjectRef_writeProperty :: "zpp \<times> this_use" where
  "zim_Bacnet_ObjectRef_writeProperty =
    (ZPP 2 4
      [Z_OBJECT_OF_CLASS (Bacnet ''Property''), Z_OBJECT_OF_CLASS (Bacnet ''Value''), Z_LONG,
       Z_LONG_OR_NULL]
      [A_long 16, A_null], Cast Objectref_obj)"

definition arginfo_objectref_write_active :: arginfo where
  "arginfo_objectref_write_active = ARG_INFO 0 (Some (IS_VOID, False)) []"

definition zim_Bacnet_ObjectRef_writeActive :: "zpp \<times> this_use" where
  "zim_Bacnet_ObjectRef_writeActive = (ZPP 0 0 [] [], Cast Objectref_obj)"

definition arginfo_objectref_write_inactive :: arginfo where
  "arginfo_objectref_write_inactive = ARG_INFO 0 (Some (IS_VOID, False)) []"

definition zim_Bacnet_ObjectRef_writeInactive :: "zpp \<times> this_use" where
  "zim_Bacnet_ObjectRef_writeInactive = (ZPP 0 0 [] [], Cast Objectref_obj)"

definition arginfo_objectref_write_present_value :: arginfo where
  "arginfo_objectref_write_present_value =
    ARG_INFO 1 (Some (IS_VOID, False))
      [ARG_ANY ''value'']"

definition zim_Bacnet_ObjectRef_writePresentValue :: "zpp \<times> this_use" where
  "zim_Bacnet_ObjectRef_writePresentValue = (ZPP 1 1 [Z_ZVAL] [], Cast Objectref_obj)"

definition arginfo_objectref_read_trend_log :: arginfo where
  "arginfo_objectref_read_trend_log = ARG_INFO 0 (Some (IS_ARRAY, False)) []"

definition zim_Bacnet_ObjectRef_readTrendLog :: "zpp \<times> this_use" where
  "zim_Bacnet_ObjectRef_readTrendLog = (ZPP 0 0 [] [], Cast Objectref_obj)"

definition arginfo_objectref_read_weekly_schedule :: arginfo where
  "arginfo_objectref_read_weekly_schedule = ARG_INFO 0 (Some (OBJ (Bacnet ''WeeklySchedule''), False)) []"

definition zim_Bacnet_ObjectRef_readWeeklySchedule :: "zpp \<times> this_use" where
  "zim_Bacnet_ObjectRef_readWeeklySchedule = (ZPP 0 0 [] [], Cast Objectref_obj)"

definition arginfo_objectref_write_weekly_schedule :: arginfo where
  "arginfo_objectref_write_weekly_schedule =
    ARG_INFO 1 (Some (IS_VOID, False))
      [ARG_TYPE ''schedule'' (OBJ (Bacnet ''WeeklySchedule'')) False]"

definition zim_Bacnet_ObjectRef_writeWeeklySchedule :: "zpp \<times> this_use" where
  "zim_Bacnet_ObjectRef_writeWeeklySchedule =
    (ZPP 1 1
      [Z_OBJECT_OF_CLASS (Bacnet ''WeeklySchedule'')]
      [], No_cast)"

definition bacnet_objectref_methods :: "method_entry list" where
  "bacnet_objectref_methods =
    [PHP_ME ''__construct'' arginfo_bacnet_objectref_construct [ZEND_ACC_PUBLIC] zim_Bacnet_ObjectRef___construct,
     PHP_ME ''readProperty'' arginfo_bacnet_objectref_read_property [ZEND_ACC_PUBLIC] zim_Bacnet_ObjectRef_readProperty,
     PHP_ME ''writeProperty'' arginfo_bacnet_objectref_write_property [ZEND_ACC_PUBLIC] zim_Bacnet_ObjectRef_writeProperty,
     PHP_ME ''writeActive'' arginfo_objectref_write_active [ZEND_ACC_PUBLIC] zim_Bacnet_ObjectRef_writeActive,
     PHP_ME ''writeInactive'' arginfo_objectref_write_inactive [ZEND_ACC_PUBLIC] zim_Bacnet_ObjectRef_writeInactive,
     PHP_ME ''writePresentValue'' arginfo_objectref_write_present_value [ZEND_ACC_PUBLIC] zim_Bacnet_ObjectRef_writePresentValue,
     PHP_ME ''readTrendLog'' arginfo_objectref_read_trend_log [ZEND_ACC_PUBLIC] zim_Bacnet_ObjectRef_readTrendLog,
     PHP_ME ''readWeeklySchedule'' arginfo_objectref_read_weekly_schedule [ZEND_ACC_PUBLIC] zim_Bacnet_ObjectRef_readWeeklySchedule,
     PHP_ME ''writeWeeklySchedule'' arginfo_objectref_write_weekly_schedule [ZEND_ACC_PUBLIC] zim_Bacnet_ObjectRef_writeWeeklySchedule]"

subsection \<open>Bacnet\\ScheduleEntry\<close>

definition arginfo_schedule_entry_construct :: arginfo where
  "arginfo_schedule_entry_construct =
    ARG_INFO 2 None
      [ARG_TYPE ''startTime'' (OBJ (Bacnet ''Time'')) False, ARG_ANY ''value'']"

definition zim_Bacnet_ScheduleEntry___construct :: "zpp \<times> this_use" where
  "zim_Bacnet_ScheduleEntry___construct =
    (ZPP 2 2
      [Z_OBJECT_OF_CLASS (Bacnet ''Time''), Z_ZVAL]
      [], No_cast)"

definition arginfo_schedule_entry_get_start_time :: arginfo where
  "arginfo_schedule_entry_get_start_time = ARG_INFO 0 (Some (OBJ (Bacnet ''Time''), False)) []"

definition zim_Bacnet_ScheduleEntry_getStartTime :: "zpp \<times> this_use" where
  "zim_Bacnet_ScheduleEntry_getStartTime = (ZPP 0 0 [] [], No_cast)"

definition arginfo_schedule_entry_get_value :: arginfo where
  "arginfo_schedule_entry_get_value = ARG_INFO 0 None []"

definition zim_Bacnet_ScheduleEntry_getValue :: "zpp \<times> this_use" where
  "zim_Bacnet_ScheduleEntry_getValue = (ZPP 0 0 [] [], No_cast)"

definition bacnet_schedule_entry_methods :: "method_entry list" where
  "bacnet_schedule_entry_methods =
    [PHP_ME ''__construct'' arginfo_schedule_entry_construct [ZEND_ACC_PUBLIC] zim_Bacnet_ScheduleEntry___construct,
     PHP_ME ''getStartTime'' arginfo_schedule_entry_get_start_time [ZEND_ACC_PUBLIC] zim_Bacnet_ScheduleEntry_getStartTime,
     PHP_ME ''getValue'' arginfo_schedule_entry_get_value [ZEND_ACC_PUBLIC] zim_Bacnet_ScheduleEntry_getValue]"

subsection \<open>Bacnet\\WeeklySchedule\<close>

definition arginfo_weekly_schedule_construct :: arginfo where
  "arginfo_weekly_schedule_construct =
    ARG_INFO 0 None
      [ARG_DEFAULT ''monday'' IS_ARRAY False ''[]'',
       ARG_DEFAULT ''tuesday'' IS_ARRAY False ''[]'',
       ARG_DEFAULT ''wednesday'' IS_ARRAY False ''[]'',
       ARG_DEFAULT ''thursday'' IS_ARRAY False ''[]'',
       ARG_DEFAULT ''friday'' IS_ARRAY False ''[]'',
       ARG_DEFAULT ''saturday'' IS_ARRAY False ''[]'',
       ARG_DEFAULT ''sunday'' IS_ARRAY False ''[]'']"

definition zim_Bacnet_WeeklySchedule___construct :: "zpp \<times> this_use" where
  "zim_Bacnet_WeeklySchedule___construct =
    (ZPP 0 7
      [Z_ARRAY, Z_ARRAY, Z_ARRAY, Z_ARRAY, Z_ARRAY, Z_ARRAY, Z_ARRAY]
      [A_array [], A_array [], A_array [], A_array [], A_array [], A_array [], A_array []], No_cast)"

definition arginfo_weekly_schedule_get_day :: arginfo where
  "arginfo_weekly_schedule_get_day =
    ARG_INFO 1 (Some (IS_ARRAY, False))
      [ARG_TYPE ''weekday'' IS_LONG False]"

definition zim_Bacnet_WeeklySchedule_getDay :: "zpp \<times> this_use" where
  "zim_Bacnet_WeeklySchedule_getDay = (ZPP 1 1 [Z_LONG] [], No_cast)"

definition bacnet_weekly_schedule_methods :: "method_entry list" where
  "bacnet_weekly_schedule_methods =
    [PHP_ME ''__construct'' arginfo_weekly_schedule_construct [ZEND_ACC_PUBLIC] zim_Bacnet_WeeklySchedule___construct,
     PHP_ME ''getDay'' arginfo_weekly_schedule_get_day [ZEND_ACC_PUBLIC] zim_Bacnet_WeeklySchedule_getDay]"

subsection \<open>Bacnet\\TrendLogRecord\<close>

definition arginfo_trend_log_record_construct :: arginfo where
  "arginfo_trend_log_record_construct =
    ARG_INFO 3 None
      [ARG_ANY ''timestamp'', ARG_ANY ''value'', ARG_TYPE ''statusFlags'' IS_LONG False]"

definition zim_Bacnet_TrendLogRecord___construct :: "zpp \<times> this_use" where
  "zim_Bacnet_TrendLogRecord___construct = (ZPP 3 3 [Z_ZVAL, Z_ZVAL, Z_LONG] [], No_cast)"

definition bacnet_trend_log_record_methods :: "method_entry list" where
  "bacnet_trend_log_record_methods =
    [PHP_ME ''__construct'' arginfo_trend_log_record_construct [ZEND_ACC_PUBLIC] zim_Bacnet_TrendLogRecord___construct]"

subsection \<open>Bacnet\\Server\<close>

definition arginfo_bacnet_server_construct :: arginfo where
  "arginfo_bacnet_server_construct =
    ARG_INFO 1 None
      [ARG_TYPE ''deviceId'' IS_LONG False,
       ARG_DEFAULT ''bindInterface'' IS_STRING False (CHR 0x22 # ''0.0.0.0'' @ [CHR 0x22]),
       ARG_DEFAULT ''port'' IS_LONG False ''47808'']"

definition zim_Bacnet_Server___construct :: "zpp \<times> this_use" where
  "zim_Bacnet_Server___construct =
    (ZPP 1 3
      [Z_LONG, Z_STR, Z_LONG]
      [A_null, A_long 47808], Cast Server_obj)"

definition arginfo_bacnet_server_add_local_object :: arginfo where
  "arginfo_bacnet_server_add_local_object =
    ARG_INFO 1 (Some (IS_VOID, False))
      [ARG_TYPE ''oid'' (OBJ (Bacnet ''ObjectIdentifier'')) False]"

definition zim_Bacnet_Server_addLocalObject :: "zpp \<times> this_use" where
  "zim_Bacnet_Server_addLocalObject =
    (ZPP 1 1
      [Z_OBJECT_OF_CLASS (Bacnet ''ObjectIdentifier'')]
      [], Cast Server_obj)"

definition arginfo_bacnet_server_remove_local_object :: arginfo where
  "arginfo_bacnet_server_remove_local_object =
    ARG_INFO 1 (Some (IS_VOID, False))
      [ARG_TYPE ''oid'' (OBJ (Bacnet ''ObjectIdentifier'')) False]"

definition zim_Bacnet_Server_removeLocalObject :: "zpp \<times> this_use" where
  "zim_Bacnet_Server_removeLocalObject =
    (ZPP 1 1
      [Z_OBJECT_OF_CLASS (Bacnet ''ObjectIdentifier'')]
      [], Cast Server_obj)"

definition arginfo_bacnet_server_on_read_property :: arginfo where
  "arginfo_bacnet_server_on_read_property =
    ARG_INFO 1 (Some (IS_VOID, False))
      [ARG_TYPE ''handler'' IS_CALLABLE False]"

definition zim_Bacnet_Server_onReadProperty :: "zpp \<times> this_use" where
  "zim_Bacnet_Server_onReadProperty = (ZPP 1 1 [Z_ZVAL] [], Cast Server_obj)"

definition arginfo_bacnet_server_on_write_property :: arginfo where
  "arginfo_bacnet_server_on_write_property =
    ARG_INFO 1 (Some (IS_VOID, False))
      [ARG_TYPE ''handler'' IS_CALLABLE False]"

definition zim_Bacnet_Server_onWriteProperty :: "zpp \<times> this_use" where
  "zim_Bacnet_Server_onWriteProperty = (ZPP 1 1 [Z_ZVAL] [], Cast Server_obj)"

definition arginfo_bacnet_server_set_auto_iam :: arginfo where
  "arginfo_bacnet_server_set_auto_iam =
    ARG_INFO 1 (Some (IS_VOID, False))
      [ARG_TYPE ''enabled'' IS_BOOL False]"

definition zim_Bacnet_Server_setAutoIAm :: "zpp \<times> this_use" where
  "zim_Bacnet_Server_setAutoIAm = (ZPP 1 1 [Z_BOOL] [], Cast Server_obj)"

definition arginfo_bacnet_server_set_device_info :: arginfo where
  "arginfo_bacnet_server_set_device_info =
    ARG_INFO 1 (Some (IS_VOID, False))
      [ARG_TYPE ''info'' IS_ARRAY False]"

definition zim_Bacnet_Server_setDeviceInfo :: "zpp \<times> this_use" where
  "zim_Bacnet_Server_setDeviceInfo = (ZPP 1 1 [Z_ARRAY_HT] [], Cast Server_obj)"

definition arginfo_bacnet_server_announce :: arginfo where
  "arginfo_bacnet_server_announce = ARG_INFO 0 (Some (IS_VOID, False)) []"

definition zim_Bacnet_Server_announce :: "zpp \<times> this_use" where
  "zim_Bacnet_Server_announce = (ZPP 0 0 [] [], Cast Server_obj)"

definition arginfo_bacnet_server_set_security_options :: arginfo where
  "arginfo_bacnet_server_set_security_options =
    ARG_INFO 1 (Some (IS_VOID, False))
      [ARG_TYPE ''options'' IS_ARRAY False]"

definition zim_Bacnet_Server_setSecurityOptions :: "zpp \<times> this_use" where
  "zim_Bacnet_Server_setSecurityOptions = (ZPP 1 1 [Z_ARRAY_HT] [], Cast Server_obj)"

definition arginfo_bacnet_server_get_security_options :: arginfo where
  "arginfo_bacnet_server_get_security_options = ARG_INFO 0 (Some (IS_ARRAY, False)) []"

definition zim_Bacnet_Server_getSecurityOptions :: "zpp \<times> this_use" where
  "zim_Bacnet_Server_getSecurityOptions = (ZPP 0 0 [] [], Cast Server_obj)"

definition arginfo_bacnet_server_get_security_stats :: arginfo where
  "arginfo_bacnet_server_get_security_stats =
    ARG_INFO 0 (Some (IS_ARRAY, False))
      [ARG_DEFAULT ''includeSources'' IS_BOOL False ''false'',
       ARG_DEFAULT ''reset'' IS_BOOL False ''false'']"

definition zim_Bacnet_Server_getSecurityStats :: "zpp \<times> this_use" where
  "zim_Bacnet_Server_getSecurityStats =
    (ZPP 0 2
      [Z_BOOL, Z_BOOL]
      [A_bool False, A_bool False], Cast Server_obj)"

definition arginfo_bacnet_server_poll :: arginfo where
  "arginfo_bacnet_server_poll =
    ARG_INFO 0 (Some (IS_VOID, False))
      [ARG_DEFAULT ''timeoutMs'' IS_LONG False ''0'']"

definition zim_Bacnet_Server_poll :: "zpp \<times> this_use" where
  "zim_Bacnet_Server_poll = (ZPP 0 1 [Z_LONG] [A_long 0], Cast Server_obj)"

definition bacnet_server_methods :: "method_entry list" where
  "bacnet_server_methods =
    [PHP_ME ''__construct'' arginfo_bacnet_server_construct [ZEND_ACC_PUBLIC] zim_Bacnet_Server___construct,
     PHP_ME ''addLocalObject'' arginfo_bacnet_server_add_local_object [ZEND_ACC_PUBLIC] zim_Bacnet_Server_addLocalObject,
     PHP_ME ''removeLocalObject'' arginfo_bacnet_server_remove_local_object [ZEND_ACC_PUBLIC] zim_Bacnet_Server_removeLocalObject,
     PHP_ME ''onReadProperty'' arginfo_bacnet_server_on_read_property [ZEND_ACC_PUBLIC] zim_Bacnet_Server_onReadProperty,
     PHP_ME ''onWriteProperty'' arginfo_bacnet_server_on_write_property [ZEND_ACC_PUBLIC] zim_Bacnet_Server_onWriteProperty,
     PHP_ME ''setAutoIAm'' arginfo_bacnet_server_set_auto_iam [ZEND_ACC_PUBLIC] zim_Bacnet_Server_setAutoIAm,
     PHP_ME ''setDeviceInfo'' arginfo_bacnet_server_set_device_info [ZEND_ACC_PUBLIC] zim_Bacnet_Server_setDeviceInfo,
     PHP_ME ''announce'' arginfo_bacnet_server_announce [ZEND_ACC_PUBLIC] zim_Bacnet_Server_announce,
     PHP_ME ''setSecurityOptions'' arginfo_bacnet_server_set_security_options [ZEND_ACC_PUBLIC] zim_Bacnet_Server_setSecurityOptions,
     PHP_ME ''getSecurityOptions'' arginfo_bacnet_server_get_security_options [ZEND_ACC_PUBLIC] zim_Bacnet_Server_getSecurityOptions,
     PHP_ME ''getSecurityStats'' arginfo_bacnet_server_get_security_stats [ZEND_ACC_PUBLIC] zim_Bacnet_Server_getSecurityStats,
     PHP_ME ''poll'' arginfo_bacnet_server_poll [ZEND_ACC_PUBLIC] zim_Bacnet_Server_poll]"

subsection \<open>Bundles\<close>

lemmas arginfo_defs =
  arginfo_value_boolean_def arginfo_value_unsigned_int_def arginfo_value_signed_int_def
  arginfo_value_real_def arginfo_value_enumerated_def arginfo_value_character_string_def
  arginfo_value_bit_string_def arginfo_value_date_def arginfo_value_time_def
  arginfo_value_object_identifier_def arginfo_bacnet_client_construct_def
  arginfo_bacnet_client_whois_def arginfo_bacnet_cache_set_options_def
  arginfo_bacnet_cache_get_options_def arginfo_bacnet_cache_get_stats_def
  arginfo_bacnet_cache_clear_def arginfo_bacnet_cache_set_backend_def
  arginfo_bacnet_cov_notification_def arginfo_bacnet_client_poll_def arginfo_cache_backend_get_def
  arginfo_cache_backend_set_def arginfo_cache_backend_invalidate_def
  arginfo_cache_backend_clear_def arginfo_cache_backend_generation_def
  arginfo_bacnet_mixed_pending_pdu_count_def arginfo_bacnet_device_get_device_id_def
  arginfo_bacnet_device_get_address_def arginfo_bacnet_device_get_max_apdu_def
  arginfo_bacnet_device_get_vendor_id_def arginfo_bacnet_device_read_property_def
  arginfo_bacnet_device_write_property_def arginfo_bacnet_device_subscribe_cov_def
  arginfo_bacnet_device_unsubscribe_cov_def arginfo_bacnet_oid_construct_def
  arginfo_bacnet_oid_get_type_def arginfo_bacnet_oid_get_instance_def
  arginfo_bacnet_oid_to_string_def arginfo_bacnet_bitstring_construct_def
  arginfo_bacnet_bitstring_get_bit_def arginfo_bacnet_bitstring_get_length_def
  arginfo_bacnet_bitstring_to_array_def arginfo_bacnet_date_construct_def
  arginfo_bacnet_time_construct_def arginfo_bacnet_objectref_construct_def
  arginfo_bacnet_objectref_read_property_def arginfo_bacnet_objectref_write_property_def
  arginfo_objectref_write_active_def arginfo_objectref_write_inactive_def
  arginfo_objectref_write_present_value_def arginfo_objectref_read_trend_log_def
  arginfo_objectref_read_weekly_schedule_def arginfo_objectref_write_weekly_schedule_def
  arginfo_schedule_entry_construct_def arginfo_schedule_entry_get_start_time_def
  arginfo_schedule_entry_get_value_def arginfo_weekly_schedule_construct_def
  arginfo_weekly_schedule_get_day_def arginfo_trend_log_record_construct_def
  arginfo_bacnet_server_construct_def arginfo_bacnet_server_add_local_object_def
  arginfo_bacnet_server_remove_local_object_def arginfo_bacnet_server_on_read_property_def
  arginfo_bacnet_server_on_write_property_def arginfo_bacnet_server_set_auto_iam_def
  arginfo_bacnet_server_set_device_info_def arginfo_bacnet_server_announce_def
  arginfo_bacnet_server_set_security_options_def arginfo_bacnet_server_get_security_options_def
  arginfo_bacnet_server_get_security_stats_def arginfo_bacnet_server_poll_def

lemmas parse_defs =
  zim_Bacnet_Value_boolean_def zim_Bacnet_Value_unsignedInt_def zim_Bacnet_Value_signedInt_def
  zim_Bacnet_Value_real_def zim_Bacnet_Value_enumerated_def zim_Bacnet_Value_characterString_def
  zim_Bacnet_Value_bitString_def zim_Bacnet_Value_date_def zim_Bacnet_Value_time_def
  zim_Bacnet_Value_objectIdentifier_def zim_Bacnet_Client___construct_def
  zim_Bacnet_Client_whoIs_def zif_php_bacnet_cache_method_set_options_def
  zif_php_bacnet_cache_method_get_options_def zif_php_bacnet_cache_method_get_stats_def
  zif_php_bacnet_cache_method_clear_def zif_php_bacnet_cache_method_set_backend_def
  zif_php_bacnet_cov_set_handler_def zim_Bacnet_Client_poll_def zim_Bacnet_MixedServer_whoIs_def
  zim_Bacnet_MixedServer_getPendingPduCount_def zim_Bacnet_Device_getDeviceId_def
  zim_Bacnet_Device_getAddress_def zim_Bacnet_Device_getMaxApdu_def
  zim_Bacnet_Device_getVendorId_def zim_Bacnet_Device_readProperty_def
  zim_Bacnet_Device_writeProperty_def zim_Bacnet_Device_subscribeCOV_def
  zim_Bacnet_Device_unsubscribeCOV_def zim_Bacnet_ObjectIdentifier___construct_def
  zim_Bacnet_ObjectIdentifier_getType_def zim_Bacnet_ObjectIdentifier_getInstance_def
  zim_Bacnet_ObjectIdentifier___toString_def zim_Bacnet_BitString___construct_def
  zim_Bacnet_BitString_getBit_def zim_Bacnet_BitString_getLength_def
  zim_Bacnet_BitString_toArray_def zim_Bacnet_Date___construct_def zim_Bacnet_Time___construct_def
  zim_Bacnet_ObjectRef___construct_def zim_Bacnet_ObjectRef_readProperty_def
  zim_Bacnet_ObjectRef_writeProperty_def zim_Bacnet_ObjectRef_writeActive_def
  zim_Bacnet_ObjectRef_writeInactive_def zim_Bacnet_ObjectRef_writePresentValue_def
  zim_Bacnet_ObjectRef_readTrendLog_def zim_Bacnet_ObjectRef_readWeeklySchedule_def
  zim_Bacnet_ObjectRef_writeWeeklySchedule_def zim_Bacnet_ScheduleEntry___construct_def
  zim_Bacnet_ScheduleEntry_getStartTime_def zim_Bacnet_ScheduleEntry_getValue_def
  zim_Bacnet_WeeklySchedule___construct_def zim_Bacnet_WeeklySchedule_getDay_def
  zim_Bacnet_TrendLogRecord___construct_def zim_Bacnet_Server___construct_def
  zim_Bacnet_Server_addLocalObject_def zim_Bacnet_Server_removeLocalObject_def
  zim_Bacnet_Server_onReadProperty_def zim_Bacnet_Server_onWriteProperty_def
  zim_Bacnet_Server_setAutoIAm_def zim_Bacnet_Server_setDeviceInfo_def
  zim_Bacnet_Server_announce_def zim_Bacnet_Server_setSecurityOptions_def
  zim_Bacnet_Server_getSecurityOptions_def zim_Bacnet_Server_getSecurityStats_def
  zim_Bacnet_Server_poll_def

lemmas method_table_defs =
  bacnet_value_methods_def bacnet_client_methods_def bacnet_cache_backend_methods_def
  bacnet_mixed_methods_def bacnet_device_methods_def bacnet_oid_methods_def
  bacnet_bitstring_methods_def bacnet_date_methods_def bacnet_time_methods_def
  bacnet_objectref_methods_def bacnet_schedule_entry_methods_def
  bacnet_weekly_schedule_methods_def bacnet_trend_log_record_methods_def bacnet_server_methods_def

end
