(* ===== verification/Class_Table.thy ===== *)
theory Class_Table
  imports Class_Signatures
begin

text \<open>
  Registration of the classes: php_bacnet_register_classes of src/bacnet_classes.c with the
  create_object functions and object handlers, and the places where the code reaches a struct
  through a checked class.  The cases of the two enums are object_type_enum of Php_Values and
  property_enum of Helpers.
\<close>

subsection \<open>Object handlers and create\_object\<close>

text \<open>The handlers start as a copy of the standard ones; clone_obj is cleared.\<close>

definition php_bacnet_client_handlers :: handlers where
  "php_bacnet_client_handlers = std_object_handlers\<lparr>h_offset := Client_obj, h_clone := False\<rparr>"

definition php_bacnet_device_handlers :: handlers where
  "php_bacnet_device_handlers = std_object_handlers\<lparr>h_offset := Device_obj, h_clone := False\<rparr>"

definition php_bacnet_oid_handlers :: handlers where
  "php_bacnet_oid_handlers = std_object_handlers\<lparr>h_offset := Object_identifier_obj, h_clone := False\<rparr>"

definition php_bacnet_bitstring_handlers :: handlers where
  "php_bacnet_bitstring_handlers = std_object_handlers\<lparr>h_offset := Bitstring_obj, h_clone := False\<rparr>"

definition php_bacnet_date_handlers :: handlers where
  "php_bacnet_date_handlers = std_object_handlers\<lparr>h_offset := Date_obj, h_clone := False\<rparr>"

definition php_bacnet_time_handlers :: handlers where
  "php_bacnet_time_handlers = std_object_handlers\<lparr>h_offset := Time_obj, h_clone := False\<rparr>"

definition php_bacnet_objectref_handlers :: handlers where
  "php_bacnet_objectref_handlers = std_object_handlers\<lparr>h_offset := Objectref_obj, h_clone := False\<rparr>"

definition php_bacnet_value_handlers :: handlers where
  "php_bacnet_value_handlers = std_object_handlers\<lparr>h_offset := Value_obj, h_clone := False\<rparr>"

definition php_bacnet_server_handlers :: handlers where
  "php_bacnet_server_handlers = std_object_handlers\<lparr>h_offset := Server_obj, h_clone := False\<rparr>"

text \<open>What a create_object function allocates and which handlers it sets; what it writes into
  the struct is in Objects.\<close>

definition client_create :: "store \<times> handlers" where
  "client_create = (Client_obj, php_bacnet_client_handlers)"

definition device_create :: "store \<times> handlers" where
  "device_create = (Device_obj, php_bacnet_device_handlers)"

definition oid_create :: "store \<times> handlers" where
  "oid_create = (Object_identifier_obj, php_bacnet_oid_handlers)"

definition bitstring_create :: "store \<times> handlers" where
  "bitstring_create = (Bitstring_obj, php_bacnet_bitstring_handlers)"

definition date_create :: "store \<times> handlers" where
  "date_create = (Date_obj, php_bacnet_date_handlers)"

definition time_create :: "store \<times> handlers" where
  "time_create = (Time_obj, php_bacnet_time_handlers)"

definition objectref_create :: "store \<times> handlers" where
  "objectref_create = (Objectref_obj, php_bacnet_objectref_handlers)"

definition value_create :: "store \<times> handlers" where
  "value_create = (Value_obj, php_bacnet_value_handlers)"

definition server_create :: "store \<times> handlers" where
  "server_create = (Server_obj, php_bacnet_server_handlers)"

lemmas create_defs =
  client_create_def device_create_def oid_create_def bitstring_create_def date_create_def
  time_create_def objectref_create_def value_create_def server_create_def
  php_bacnet_client_handlers_def php_bacnet_device_handlers_def php_bacnet_oid_handlers_def
  php_bacnet_bitstring_handlers_def php_bacnet_date_handlers_def php_bacnet_time_handlers_def
  php_bacnet_objectref_handlers_def php_bacnet_value_handlers_def php_bacnet_server_handlers_def
  std_object_handlers_def

subsection \<open>Classes\<close>

text \<open>The class Exception of the engine, which the exceptions extend.\<close>

definition zend_ce_exception :: class_name where "zend_ce_exception = Global ''Exception''"

definition engine_classes :: class_table where
  "engine_classes = register_class zend_ce_exception None [] [] None []"

definition register_exceptions :: "class_table \<Rightarrow> class_table" where
  "register_exceptions T =
    register_class (Bacnet ''DeviceException'') (Some (Bacnet ''Exception'')) []
      [(''errorClass'', A_long 0), (''errorCode'', A_long 0)] None
   (register_class (Bacnet ''TimeoutException'') (Some (Bacnet ''Exception'')) [] [] None
   (register_class (Bacnet ''Exception'') (Some zend_ce_exception) [] [] None T))"

definition register_client_classes :: "class_table \<Rightarrow> class_table" where
  "register_client_classes T =
    register_class (Bacnet ''Device'') None bacnet_device_methods [] (Some device_create)
   (register_class (Bacnet ''Client'') None bacnet_client_methods [] (Some client_create) T)"

definition register_value_classes :: "class_table \<Rightarrow> class_table" where
  "register_value_classes T =
    register_class (Bacnet ''Value'') None bacnet_value_methods [] (Some value_create)
   (register_class (Bacnet ''ObjectRef'') None bacnet_objectref_methods [] (Some objectref_create)
   (register_class (Bacnet ''Time'') None bacnet_time_methods
      [(''hour'', A_long 0), (''minute'', A_long 0), (''second'', A_long 0), (''hundredths'', A_long 0)] (Some time_create)
   (register_class (Bacnet ''Date'') None bacnet_date_methods
      [(''year'', A_long 0), (''month'', A_long 0), (''day'', A_long 0), (''weekday'', A_long 0)] (Some date_create)
   (register_class (Bacnet ''BitString'') None bacnet_bitstring_methods [(''length'', A_long 0)] (Some bitstring_create)
   (register_class (Bacnet ''ObjectIdentifier'') None bacnet_oid_methods
      [(''type'', A_null), (''instance'', A_long 0)] (Some oid_create) T)))))"

definition register_server_classes :: "class_table \<Rightarrow> class_table" where
  "register_server_classes T =
    register_class (Bacnet ''MixedServer'') (Some (Bacnet ''Server'')) bacnet_mixed_methods [] (Some server_create)
   (register_class (Bacnet ''Server'') None bacnet_server_methods [] (Some server_create) T)"

definition s_day_names :: "string list" where
  "s_day_names = [''monday'', ''tuesday'', ''wednesday'', ''thursday'', ''friday'', ''saturday'', ''sunday'']"

definition register_schedule_classes :: "class_table \<Rightarrow> class_table" where
  "register_schedule_classes T =
    register_class (Bacnet ''TrendLogRecord'') None bacnet_trend_log_record_methods
      [(''timestamp'', A_null), (''value'', A_null), (''statusFlags'', A_long 0)] None
   (register_class (Bacnet ''WeeklySchedule'') None bacnet_weekly_schedule_methods
      (map (\<lambda>d. (d, A_null)) s_day_names) None
   (register_class (Bacnet ''ScheduleEntry'') None bacnet_schedule_entry_methods
      [(''startTime'', A_null), (''value'', A_null)] None T))"

definition php_bacnet_register_classes :: "class_table \<Rightarrow> class_table" where
  "php_bacnet_register_classes T =
    register_schedule_classes (register_server_classes (register_value_classes (register_client_classes
      (register_interface (Bacnet ''CacheBackendInterface'') bacnet_cache_backend_methods
        (register_enum (Bacnet ''Property'') (register_enum (Bacnet ''ObjectType'') (register_exceptions T)))))))"

definition bacnet_classes :: class_table where
  "bacnet_classes = php_bacnet_register_classes engine_classes"

lemmas register_defs =
  bacnet_classes_def php_bacnet_register_classes_def register_schedule_classes_def
  register_server_classes_def register_value_classes_def register_client_classes_def
  register_exceptions_def engine_classes_def register_class_def register_interface_def
  register_enum_def zend_ce_exception_def s_day_names_def

subsection \<open>Access to the structs\<close>

text \<open>php_bacnet_cache_from_this and php_bacnet_transport_from_owner choose by the class of the
  object which struct they read; the second may read none.\<close>

definition cache_from_this_store :: "class_table \<Rightarrow> class_name \<Rightarrow> store" where
  "cache_from_this_store T c = (if instanceof T c (Bacnet ''MixedServer'') then Server_obj else Client_obj)"

definition transport_from_owner_store :: "class_table \<Rightarrow> class_name \<Rightarrow> store option" where
  "transport_from_owner_store T c =
    (if instanceof T c (Bacnet ''MixedServer'') then Some Server_obj
     else if instanceof T c (Bacnet ''Client'') then Some Client_obj else None)"

fun this_store :: "class_table \<Rightarrow> class_name \<Rightarrow> this_use \<Rightarrow> store option" where
  "this_store T c No_cast = None"
| "this_store T c (Cast s) = Some s"
| "this_store T c Cache_from_this = Some (cache_from_this_store T c)"
| "this_store T c Transport_from_owner = transport_from_owner_store T c"

text \<open>
  The structs read from objects other than the called one, with the class that was checked
  before: by the conversion of a PHP value
  (zval_to_bacapp_value of src/bacnet_helpers.c), and by Z_PARAM_OBJECT_OF_CLASS in the
  methods that take a value, an object identifier or a device.
\<close>

definition appdata_casts :: "(class_name \<times> store) list" where
  "appdata_casts =
    [(Bacnet ''Value'', Value_obj), (Bacnet ''BitString'', Bitstring_obj), (Bacnet ''Date'', Date_obj),
     (Bacnet ''Time'', Time_obj), (Bacnet ''ObjectIdentifier'', Object_identifier_obj)]"

text \<open>Per class and method the index of the argument and the struct the body reads from it (an
  ObjectRef keeps its device and reads it in every later call).\<close>

definition argument_casts :: "(string \<times> string \<times> nat \<times> store) list" where
  "argument_casts =
    [(''Value'', ''bitString'', 0, Bitstring_obj), (''Value'', ''date'', 0, Date_obj),
     (''Value'', ''time'', 0, Time_obj), (''Value'', ''objectIdentifier'', 0, Object_identifier_obj),
     (''Device'', ''writeProperty'', 3, Value_obj), (''ObjectRef'', ''__construct'', 0, Device_obj),
     (''ObjectRef'', ''writeProperty'', 1, Value_obj),
     (''Server'', ''addLocalObject'', 0, Object_identifier_obj),
     (''Server'', ''removeLocalObject'', 0, Object_identifier_obj)]"

end
