(* ===== verification/Class_Props.thy ===== *)
theory Class_Props
  imports Class_Table
begin

text \<open>
  Typing of the interface to PHP.  The registered classes are checked by evaluation; what holds of
  them holds in every program that adds classes of its own, because such a class behaves, as far
  as the extension can tell, like the registered class it descends from.
\<close>

subsection \<open>Classes of the program\<close>

text \<open>A class of T is seen like a class r of the base table, or like no class at all.\<close>

definition seen_as :: "class_table \<Rightarrow> class_table \<Rightarrow> class_name \<Rightarrow> class_name option \<Rightarrow> bool" where
  "seen_as base T c r \<longleftrightarrow>
    (\<forall>d. is_kind Normal_class base d \<longrightarrow> (instanceof T c d \<longleftrightarrow> (case r of Some r \<Rightarrow> instanceof base r d | None \<Rightarrow> False))) \<and>
    object_init_ex T c = (case r of Some r \<Rightarrow> object_init_ex base r | None \<Rightarrow> (Std_object, std_object_handlers)) \<and>
    (\<forall>n m. find_method T c n = Some (Native m) \<longrightarrow>
       (case r of Some r \<Rightarrow> find_method base r n = Some (Native m) | None \<Rightarrow> False))"

text \<open>No interface is below a class.\<close>

definition interfaces_ok :: "class_table \<Rightarrow> class_table \<Rightarrow> bool" where
  "interfaces_ok base T \<longleftrightarrow> (\<forall>i. is_kind Interface T i \<longrightarrow> (\<forall>d. is_kind Normal_class base d \<longrightarrow> \<not> instanceof T i d))"

lemma instanceof_unknown: "find_class T c = None \<Longrightarrow> \<not> instanceof T c d"
  by (induction T) (auto split: if_splits)

lemma find_method_unknown: "find_class T c = None \<Longrightarrow> find_method T c n = None"
  by (induction T) (auto split: if_splits)

lemma unknown_seen_as: "find_class T c = None \<Longrightarrow> seen_as base T c None"
  by (simp add: seen_as_def instanceof_unknown find_method_unknown object_init_ex_def)

lemma base_seen_as: "seen_as base base c (Some c)"
  by (simp add: seen_as_def)

lemma program_keeps_classes: "program base T \<Longrightarrow> find_class base c = Some e \<Longrightarrow> find_class T c = Some e"
  by (induction rule: program.induct) (auto simp: declare_class_def)

lemma seen_as_older:
  assumes "ce_name e \<noteq> c" "seen_as base T c r"
  shows "seen_as base (e # T) c r"
  using assms by (auto simp: seen_as_def object_init_ex_def)

lemma no_user_is_native: "find (\<lambda>m. method_name m = n) (map User ms) \<noteq> Some (Native m)"
  by (induction ms) auto

lemma declared_seen_as:
  assumes new: "find_class T c = None" "\<And>d. is_kind Normal_class base d \<Longrightarrow> d \<noteq> c"
    and ifs: "interfaces_ok base T" "\<forall>i \<in> set ifs. is_kind Interface T i"
    and r: "case parent of None \<Rightarrow> r = None | Some p \<Rightarrow> seen_as base T p r"
  shows "seen_as base (declare_class k c parent ifs ms T) c r"
proof -
  have no: "\<not> instanceof T i d" if "i \<in> set ifs" "is_kind Normal_class base d" for i d
    using that ifs by (auto simp: interfaces_ok_def)
  show ?thesis
    using r new(2) no no_user_is_native [of _ ms]
    by (auto simp: seen_as_def declare_class_def object_init_ex_def split: option.splits)
qed

lemma is_kind_declare:
  "is_kind k' (declare_class k c parent ifs ms T) i \<longleftrightarrow> (if i = c then k = k' else is_kind k' T i)"
  by (simp add: is_kind_def declare_class_def)

lemma instanceof_declare:
  "instanceof (declare_class k c parent ifs ms T) a d \<longleftrightarrow>
    (if a = c then c = d \<or> (case parent of None \<Rightarrow> False | Some p \<Rightarrow> instanceof T p d) \<or> (\<exists>i \<in> set ifs. instanceof T i d)
     else instanceof T a d)"
  by (simp add: declare_class_def)

lemma program_inv:
  assumes "program base T" "interfaces_ok base base"
  shows "interfaces_ok base T \<and> (\<forall>c. \<exists>r. seen_as base T c r)"
  using assms
proof (induction rule: program.induct)
  case start
  then show ?case using base_seen_as by blast
next
  case (declared T c parent k ifs ms)
  then have IH: "interfaces_ok base T" "\<forall>c. \<exists>r. seen_as base T c r" by auto
  have fresh: "d \<noteq> c" if "is_kind Normal_class base d" for d
    using that declared program_keeps_classes by (auto simp: is_kind_def split: option.splits)
  obtain r where r: "case parent of None \<Rightarrow> r = None | Some p \<Rightarrow> seen_as base T p r"
    using IH(2) by (cases parent) auto
  have c: "seen_as base (declare_class k c parent ifs ms T) c r"
    by (rule declared_seen_as) (use declared IH fresh r in simp_all)
  have other: "\<exists>r. seen_as base (declare_class k c parent ifs ms T) c' r" if "c' \<noteq> c" for c'
    using IH(2) that seen_as_older unfolding declare_class_def by (metis class_entry.select_convs(1))
  have "interfaces_ok base (declare_class k c parent ifs ms T)"
    using IH(1) declared(3,4) fresh
    by (cases parent) (auto simp: interfaces_ok_def is_kind_declare instanceof_declare split: if_splits)
  then show ?case using c other by metis
qed

subsection \<open>The registered classes\<close>

text \<open>What instanceof and object creation need of a table.\<close>

type_synonym hierarchy = "(class_name \<times> class_kind \<times> class_name option \<times> class_name list \<times> store \<times> handlers) list"

fun hierarchy :: "class_table \<Rightarrow> hierarchy" where
  "hierarchy [] = []"
| "hierarchy (e # T) = (ce_name e, ce_kind e, ce_parent e, ce_interfaces e, ce_create e) # hierarchy T"

fun h_find :: "hierarchy \<Rightarrow> class_name \<Rightarrow> (class_kind \<times> store \<times> handlers) option" where
  "h_find [] c = None"
| "h_find ((n, k, p, ifs, cr) # H) c = (if n = c then Some (k, cr) else h_find H c)"

fun h_below :: "hierarchy \<Rightarrow> class_name \<Rightarrow> class_name \<Rightarrow> bool" where
  "h_below [] c d \<longleftrightarrow> False"
| "h_below ((n, k, p, ifs, cr) # H) c d \<longleftrightarrow>
    (if n = c then c = d \<or> (case p of None \<Rightarrow> False | Some p \<Rightarrow> h_below H p d) \<or> (\<exists>i \<in> set ifs. h_below H i d)
     else h_below H c d)"

lemma find_class_h: "map_option (\<lambda>e. (ce_kind e, ce_create e)) (find_class T c) = h_find (hierarchy T) c"
  by (induction T) auto

lemma instanceof_h: "instanceof T c d = h_below (hierarchy T) c d"
  by (induction T arbitrary: c) (auto split: option.splits)

lemma object_init_h: "object_init_ex T c = (case h_find (hierarchy T) c of Some (k, cr) \<Rightarrow> cr | None \<Rightarrow> (Std_object, std_object_handlers))"
  by (simp add: object_init_ex_def flip: find_class_h split: option.splits)

lemma is_kind_h: "is_kind k T c = (case h_find (hierarchy T) c of Some (k', cr) \<Rightarrow> k' = k | None \<Rightarrow> False)"
  by (simp add: is_kind_def flip: find_class_h split: option.splits)

lemma hierarchy_register:
  "hierarchy (register_class c parent ms props (Some cr) T) = (c, Normal_class, parent, [], cr) # hierarchy T"
  "hierarchy (register_class c None ms props None T) = (c, Normal_class, None, [], Std_object, std_object_handlers) # hierarchy T"
  "hierarchy (register_class c (Some p) ms props None T) = (c, Normal_class, Some p, [], object_init_ex T p) # hierarchy T"
  "hierarchy (register_interface c ms T) = (c, Interface, None, [], Std_object, std_object_handlers) # hierarchy T"
  "hierarchy (register_enum c T) = (c, Enum, None, [], Std_object, std_object_handlers) # hierarchy T"
  by (simp_all add: register_class_def register_interface_def register_enum_def)

lemma bacnet_hierarchy: "hierarchy bacnet_classes =
   [(Bacnet ''TrendLogRecord'', Normal_class, None, [], Std_object, std_object_handlers),
    (Bacnet ''WeeklySchedule'', Normal_class, None, [], Std_object, std_object_handlers),
    (Bacnet ''ScheduleEntry'', Normal_class, None, [], Std_object, std_object_handlers),
    (Bacnet ''MixedServer'', Normal_class, Some (Bacnet ''Server''), [], server_create),
    (Bacnet ''Server'', Normal_class, None, [], server_create),
    (Bacnet ''Value'', Normal_class, None, [], value_create),
    (Bacnet ''ObjectRef'', Normal_class, None, [], objectref_create),
    (Bacnet ''Time'', Normal_class, None, [], time_create),
    (Bacnet ''Date'', Normal_class, None, [], date_create),
    (Bacnet ''BitString'', Normal_class, None, [], bitstring_create),
    (Bacnet ''ObjectIdentifier'', Normal_class, None, [], oid_create),
    (Bacnet ''Device'', Normal_class, None, [], device_create),
    (Bacnet ''Client'', Normal_class, None, [], client_create),
    (Bacnet ''CacheBackendInterface'', Interface, None, [], Std_object, std_object_handlers),
    (Bacnet ''Property'', Enum, None, [], Std_object, std_object_handlers),
    (Bacnet ''ObjectType'', Enum, None, [], Std_object, std_object_handlers),
    (Bacnet ''DeviceException'', Normal_class, Some (Bacnet ''Exception''), [], Std_object, std_object_handlers),
    (Bacnet ''TimeoutException'', Normal_class, Some (Bacnet ''Exception''), [], Std_object, std_object_handlers),
    (Bacnet ''Exception'', Normal_class, Some zend_ce_exception, [], Std_object, std_object_handlers),
    (zend_ce_exception, Normal_class, None, [], Std_object, std_object_handlers)]"
  by (simp add: bacnet_classes_def php_bacnet_register_classes_def register_schedule_classes_def
      register_server_classes_def register_value_classes_def register_client_classes_def
      register_exceptions_def engine_classes_def hierarchy_register object_init_h zend_ce_exception_def)

lemma registered_interfaces: "interfaces_ok bacnet_classes bacnet_classes"
proof -
  have "i = Bacnet ''CacheBackendInterface''" if "is_kind Interface bacnet_classes i" for i
    using that by (simp add: is_kind_h bacnet_hierarchy split: if_splits)
  moreover have "\<not> instanceof bacnet_classes (Bacnet ''CacheBackendInterface'') d" if "is_kind Normal_class bacnet_classes d" for d
  proof -
    have "d \<noteq> Bacnet ''CacheBackendInterface''" using that by (auto simp: is_kind_h bacnet_hierarchy)
    then show ?thesis by (simp add: instanceof_h bacnet_hierarchy)
  qed
  ultimately show ?thesis by (auto simp: interfaces_ok_def)
qed

lemma seen_as_registered:
  assumes "program bacnet_classes T"
  obtains r where "seen_as bacnet_classes T c r"
  using program_inv [OF assms registered_interfaces] by blast

fun methods_of :: "class_table \<Rightarrow> class_name \<Rightarrow> method_entry list" where
  "methods_of [] c = []"
| "methods_of (e # T) c =
    (if ce_name e = c
     then concat (map (\<lambda>m. case m of Native m \<Rightarrow> [m] | User n \<Rightarrow> []) (ce_methods e)) @
          (case ce_parent e of None \<Rightarrow> [] | Some p \<Rightarrow> methods_of T p)
     else methods_of T c)"

lemma find_in_methods_of: "find_method T c n = Some (Native m) \<Longrightarrow> m \<in> set (methods_of T c)"
proof (induction T arbitrary: c)
  case (Cons e T)
  show ?case
  proof (cases "ce_name e = c")
    case True
    then show ?thesis using Cons by (force simp: find_Some_iff in_set_conv_nth split: option.splits)
  qed (use Cons in auto)
qed simp

lemma find_class_in: "find_class T c \<noteq> None \<Longrightarrow> \<exists>e \<in> set T. ce_name e = c"
  by (induction T) (auto split: if_splits)

text \<open>The ways the non-static methods of a table reach their struct.\<close>

definition struct_uses :: "method_entry list \<Rightarrow> this_use list" where
  "struct_uses ms = remdups (map me_this (filter (\<lambda>m. ZEND_ACC_STATIC \<notin> set (me_flags m)) ms))"

definition own_struct :: "class_table \<Rightarrow> class_name \<Rightarrow> this_use \<Rightarrow> bool" where
  "own_struct T c u \<longleftrightarrow>
    (case this_store T c u of
       None \<Rightarrow> u = No_cast
     | Some s \<Rightarrow> object_init_ex T c = (s, \<lparr>h_offset = s, h_clone = False\<rparr>))"

lemma table_uses:
  "struct_uses bacnet_value_methods = []"
  "struct_uses bacnet_client_methods = [Cache_from_this, Transport_from_owner, Cast Client_obj]"
  "struct_uses bacnet_mixed_methods = [Cast Server_obj, Cache_from_this, Transport_from_owner]"
  "struct_uses bacnet_device_methods = [Cast Device_obj]"
  "struct_uses bacnet_oid_methods = [Cast Object_identifier_obj]"
  "struct_uses bacnet_bitstring_methods = [Cast Bitstring_obj]"
  "struct_uses bacnet_date_methods = [Cast Date_obj]"
  "struct_uses bacnet_time_methods = [Cast Time_obj]"
  "struct_uses bacnet_objectref_methods = [Cast Objectref_obj, No_cast]"
  "struct_uses bacnet_schedule_entry_methods = [No_cast]"
  "struct_uses bacnet_weekly_schedule_methods = [No_cast]"
  "struct_uses bacnet_trend_log_record_methods = [No_cast]"
  "struct_uses bacnet_server_methods = [Cast Server_obj]"
  "struct_uses bacnet_cache_backend_methods = [No_cast]"
  by code_simp+

lemma in_struct_uses: "m \<in> set ms \<Longrightarrow> ZEND_ACC_STATIC \<notin> set (me_flags m) \<Longrightarrow> me_this m \<in> set (struct_uses ms)"
  by (simp add: struct_uses_def)

lemma struct_uses_append: "set (struct_uses (ms @ ns)) = set (struct_uses ms) \<union> set (struct_uses ns)"
  by (auto simp: struct_uses_def)

lemma methods_of_register:
  "methods_of (register_class c None ms props cr T) d = (if c = d then ms else methods_of T d)"
  "methods_of (register_class c (Some p) ms props cr T) d = (if c = d then ms @ methods_of T p else methods_of T d)"
  "methods_of (register_interface c ms T) d = (if c = d then ms else methods_of T d)"
  "methods_of (register_enum c T) d = (if c = d then [] else methods_of T d)"
  by (simp_all add: register_class_def register_interface_def register_enum_def comp_def)

text \<open>All uses of a class with its inherited methods.\<close>

lemma class_uses:
  "set (struct_uses (methods_of bacnet_classes c)) =
    (case c of Global n \<Rightarrow> {} | Bacnet n \<Rightarrow> set (
       if n = ''Client'' then [Cache_from_this, Transport_from_owner, Cast Client_obj]
       else if n = ''MixedServer'' then [Cast Server_obj, Cache_from_this, Transport_from_owner]
       else if n = ''Server'' then [Cast Server_obj]
       else if n = ''Device'' then [Cast Device_obj]
       else if n = ''ObjectIdentifier'' then [Cast Object_identifier_obj]
       else if n = ''BitString'' then [Cast Bitstring_obj]
       else if n = ''Date'' then [Cast Date_obj]
       else if n = ''Time'' then [Cast Time_obj]
       else if n = ''ObjectRef'' then [Cast Objectref_obj, No_cast]
       else if n \<in> {''CacheBackendInterface'', ''ScheduleEntry'', ''WeeklySchedule'', ''TrendLogRecord''} then [No_cast]
       else []))"
proof -
  have empty: "struct_uses [] = []" by (simp add: struct_uses_def)
  show ?thesis
    by (cases c) (auto simp: bacnet_classes_def php_bacnet_register_classes_def register_schedule_classes_def
      register_server_classes_def register_value_classes_def register_client_classes_def
      register_exceptions_def engine_classes_def methods_of_register zend_ce_exception_def struct_uses_append table_uses empty)
qed

lemma registered_own_struct:
  assumes "m \<in> set (methods_of bacnet_classes c)" "ZEND_ACC_STATIC \<notin> set (me_flags m)"
  shows "own_struct bacnet_classes c (me_this m)"
proof -
  have "me_this m \<in> set (struct_uses (methods_of bacnet_classes c))" by (rule in_struct_uses [OF assms])
  then show ?thesis
    unfolding class_uses
    by (auto simp: own_struct_def cache_from_this_store_def transport_from_owner_store_def instanceof_h object_init_h
        bacnet_hierarchy create_defs split: class_name.splits if_splits)
qed

lemma find_method_register:
  "find_method (register_class c None ms props cr T) d n =
    (if c = d then map_option Native (find (\<lambda>m. me_name m = n) ms) else find_method T d n)"
  "find_method (register_class c (Some p) ms props cr T) d n =
    (if c = d then (case find (\<lambda>m. me_name m = n) ms of Some m \<Rightarrow> Some (Native m) | None \<Rightarrow> find_method T p n) else find_method T d n)"
  "find_method (register_interface c ms T) d n =
    (if c = d then map_option Native (find (\<lambda>m. me_name m = n) ms) else find_method T d n)"
  "find_method (register_enum c T) d n = (if c = d then None else find_method T d n)"
proof -
  have "find (\<lambda>m. method_name m = n) (map Native ms) = map_option Native (find (\<lambda>m. me_name m = n) ms)" for ms
    by (induction ms) auto
  then show
    "find_method (register_class c None ms props cr T) d n =
      (if c = d then map_option Native (find (\<lambda>m. me_name m = n) ms) else find_method T d n)"
    "find_method (register_class c (Some p) ms props cr T) d n =
      (if c = d then (case find (\<lambda>m. me_name m = n) ms of Some m \<Rightarrow> Some (Native m) | None \<Rightarrow> find_method T p n) else find_method T d n)"
    "find_method (register_interface c ms T) d n =
      (if c = d then map_option Native (find (\<lambda>m. me_name m = n) ms) else find_method T d n)"
    "find_method (register_enum c T) d n = (if c = d then None else find_method T d n)"
    by (auto simp: register_class_def register_interface_def register_enum_def split: option.splits)
qed

lemmas registered_classes =
  bacnet_classes_def php_bacnet_register_classes_def register_schedule_classes_def
  register_server_classes_def register_value_classes_def register_client_classes_def
  register_exceptions_def engine_classes_def zend_ce_exception_def

text \<open>In every program the structs are those of the registered class.\<close>

lemma this_store_seen:
  assumes "seen_as bacnet_classes T c (Some r)"
  shows "this_store T c u = this_store bacnet_classes r u"
proof -
  have k: "is_kind Normal_class bacnet_classes (Bacnet ''MixedServer'')" "is_kind Normal_class bacnet_classes (Bacnet ''Client'')"
    by code_simp+
  have "instanceof T c d = instanceof bacnet_classes r d" if "is_kind Normal_class bacnet_classes d" for d
    using assms that by (simp add: seen_as_def)
  then show ?thesis
    using k by (cases u) (simp_all add: cache_from_this_store_def transport_from_owner_store_def)
qed

text \<open>C11.
  A method never takes the memory of an object for another struct than was allocated.  In every
  program, whatever classes extend those of the extension, a non-static method that an object
  answers with reaches the struct that create_object of the object's class allocated, which is
  the one its handlers point into and which cannot be cloned; and where the struct is chosen by
  the class of the object (cache and change-of-value methods), one is always found.\<close>

lemma method_reads_own_struct:
  assumes "program bacnet_classes T" "find_method T c n = Some (Native m)" "ZEND_ACC_STATIC \<notin> set (me_flags m)"
  shows "(this_store T c (me_this m) = None \<longrightarrow> me_this m = No_cast) \<and>
    (\<forall>s. this_store T c (me_this m) = Some s \<longrightarrow> object_init_ex T c = (s, \<lparr>h_offset = s, h_clone = False\<rparr>))"
proof -
  obtain r where seen: "seen_as bacnet_classes T c r" using seen_as_registered [OF assms(1)] .
  with assms(2) obtain r' where r: "r = Some r'" "find_method bacnet_classes r' n = Some (Native m)"
    by (cases r) (auto simp: seen_as_def)
  have "own_struct bacnet_classes r' (me_this m)"
    by (rule registered_own_struct [OF find_in_methods_of [OF r(2)] assms(3)])
  moreover have "seen_as bacnet_classes T c (Some r')" using seen r(1) by simp
  moreover from this have "object_init_ex T c = object_init_ex bacnet_classes r'" by (simp add: seen_as_def)
  ultimately show ?thesis
    by (auto simp: own_struct_def this_store_seen split: option.splits)
qed

text \<open>A class of a program that extends MixedServer and one of its polls.\<close>

definition demo_program :: class_table where
  "demo_program = declare_class Normal_class (Global ''Building'') (Some (Bacnet ''MixedServer'')) [] [''log''] bacnet_classes"

lemma demo_program_ok: "program bacnet_classes demo_program"
  unfolding demo_program_def
proof (rule program.declared [OF program.start])
  have "map_option (\<lambda>e. (ce_kind e, ce_create e)) (find_class bacnet_classes (Global ''Building'')) = None"
    unfolding find_class_h by (simp add: bacnet_hierarchy zend_ce_exception_def)
  then show "find_class bacnet_classes (Global ''Building'') = None" by simp
qed (simp_all add: is_kind_h bacnet_hierarchy)

lemma demo_poll:
  "find_method demo_program (Global ''Building'') ''poll'' =
    Some (Native (PHP_ME ''poll'' arginfo_bacnet_server_poll [ZEND_ACC_PUBLIC] zim_Bacnet_Server_poll))"
  by (simp add: demo_program_def declare_class_def find_method_register registered_classes method_table_defs)

lemma method_reads_own_struct_witness:
  "object_init_ex demo_program (Global ''Building'') = (Server_obj, \<lparr>h_offset = Server_obj, h_clone = False\<rparr>)"
  using method_reads_own_struct [OF demo_program_ok demo_poll] by (simp add: zim_Bacnet_Server_poll_def)

subsection \<open>Structs of arguments\<close>

definition class_struct :: "class_table \<Rightarrow> class_name \<Rightarrow> store \<Rightarrow> bool" where
  "class_struct T d s \<longleftrightarrow> is_kind Normal_class T d \<and>
    list_all (\<lambda>e. instanceof T (ce_name e) d \<longrightarrow> object_store T (ce_name e) = s) T"

lemma class_struct_in_program:
  assumes "program bacnet_classes T" "class_struct bacnet_classes d s" "instanceof T c d"
  shows "object_store T c = s"
proof -
  obtain r where seen: "seen_as bacnet_classes T c r" using seen_as_registered [OF assms(1)] .
  with assms obtain r' where r: "r = Some r'" "instanceof bacnet_classes r' d"
    by (cases r) (auto simp: seen_as_def class_struct_def)
  then have "find_class bacnet_classes r' \<noteq> None" using instanceof_unknown by blast
  then obtain e where "e \<in> set bacnet_classes" "ce_name e = r'" using find_class_in by blast
  then have "object_store bacnet_classes r' = s"
    using assms(2) r(2) by (auto simp: class_struct_def list_all_iff)
  then show ?thesis using seen r(1) by (simp add: seen_as_def)
qed

lemma class_struct_h: "class_struct T d s \<longleftrightarrow>
  (case h_find (hierarchy T) d of Some (k, cr) \<Rightarrow> k = Normal_class | None \<Rightarrow> False) \<and>
  list_all (\<lambda>(n, _). h_below (hierarchy T) n d \<longrightarrow> (case h_find (hierarchy T) n of Some (k, s', h) \<Rightarrow> s' = s | None \<Rightarrow> s = Std_object)) (hierarchy T)"
proof -
  have "list_all (\<lambda>(n, _). P n) (hierarchy T) = list_all (\<lambda>e. P (ce_name e)) T" for P T by (induction T) auto
  then show ?thesis by (auto simp: class_struct_def is_kind_h instanceof_h object_init_h list_all_iff split: option.splits)
qed

text \<open>The class a parameter is parsed as.\<close>

fun param_class :: "zparam \<Rightarrow> class_name option" where
  "param_class (Z_OBJECT_OF_CLASS d) = Some d"
| "param_class _ = None"

lemma struct_classes:
  "class_struct bacnet_classes (Bacnet ''Value'') Value_obj"
  "class_struct bacnet_classes (Bacnet ''BitString'') Bitstring_obj"
  "class_struct bacnet_classes (Bacnet ''Date'') Date_obj"
  "class_struct bacnet_classes (Bacnet ''Time'') Time_obj"
  "class_struct bacnet_classes (Bacnet ''ObjectIdentifier'') Object_identifier_obj"
  "class_struct bacnet_classes (Bacnet ''Device'') Device_obj"
  unfolding class_struct_h bacnet_hierarchy by code_simp+

text \<open>What parsing hands over.\<close>

lemma those_nth: "those xs = Some ys \<Longrightarrow> i < length xs \<Longrightarrow> xs ! i = Some (ys ! i)"
  by (induction xs arbitrary: ys i) (auto simp: less_Suc_eq_0_disj split: option.splits)

lemma those_length: "those xs = Some ys \<Longrightarrow> length ys = length xs"
  by (induction xs arbitrary: ys) (auto split: option.splits)

lemma those_None: "those xs = None \<longleftrightarrow> None \<in> set xs"
  by (induction xs) (auto split: option.splits)

lemma zpp_parse_nth:
  assumes "zpp_parse T z vs = Some ws" "i < length vs" "length (z_params z) = z_max z"
  shows "z_param T (z_params z ! i) (vs ! i) = Some (ws ! i)"
proof -
  let ?xs = "map2 (z_param T) (take (length vs) (z_params z)) vs"
  have len: "length vs \<le> z_max z" using assms(1) by (auto simp: zpp_parse_def split: if_splits)
  obtain ys where ys: "those ?xs = Some ys" "ws = ys @ drop (length vs - z_min z) (z_initial z)"
    using assms(1) by (auto simp: zpp_parse_def split: if_splits)
  have "i < length ?xs" using assms len by simp
  from those_nth [OF ys(1) this] have "z_param T (z_params z ! i) (vs ! i) = Some (ys ! i)"
    using assms len by simp
  moreover have "length ys = length vs" using those_length [OF ys(1)] assms(3) len by simp
  ultimately show ?thesis using ys(2) assms(2) by (simp add: nth_append)
qed

lemma object_param: "z_param T p v = Some w \<Longrightarrow> param_class p = Some d \<Longrightarrow> \<exists>c h. w = A_object c h \<and> v = w \<and> instanceof T c d"
  by (cases p; cases v) (auto split: if_splits)

text \<open>The parameters of the methods that read the struct of an argument.\<close>

lemma argument_rows:
  "find_method bacnet_classes (Bacnet ''Value'') ''bitString'' =
    Some (Native (PHP_ME ''bitString'' arginfo_value_bit_string [ZEND_ACC_PUBLIC, ZEND_ACC_STATIC] zim_Bacnet_Value_bitString))"
  "find_method bacnet_classes (Bacnet ''Value'') ''date'' =
    Some (Native (PHP_ME ''date'' arginfo_value_date [ZEND_ACC_PUBLIC, ZEND_ACC_STATIC] zim_Bacnet_Value_date))"
  "find_method bacnet_classes (Bacnet ''Value'') ''time'' =
    Some (Native (PHP_ME ''time'' arginfo_value_time [ZEND_ACC_PUBLIC, ZEND_ACC_STATIC] zim_Bacnet_Value_time))"
  "find_method bacnet_classes (Bacnet ''Value'') ''objectIdentifier'' =
    Some (Native (PHP_ME ''objectIdentifier'' arginfo_value_object_identifier [ZEND_ACC_PUBLIC, ZEND_ACC_STATIC] zim_Bacnet_Value_objectIdentifier))"
  "find_method bacnet_classes (Bacnet ''Device'') ''writeProperty'' =
    Some (Native (PHP_ME ''writeProperty'' arginfo_bacnet_device_write_property [ZEND_ACC_PUBLIC] zim_Bacnet_Device_writeProperty))"
  "find_method bacnet_classes (Bacnet ''ObjectRef'') ''__construct'' =
    Some (Native (PHP_ME ''__construct'' arginfo_bacnet_objectref_construct [ZEND_ACC_PUBLIC] zim_Bacnet_ObjectRef___construct))"
  "find_method bacnet_classes (Bacnet ''ObjectRef'') ''writeProperty'' =
    Some (Native (PHP_ME ''writeProperty'' arginfo_bacnet_objectref_write_property [ZEND_ACC_PUBLIC] zim_Bacnet_ObjectRef_writeProperty))"
  "find_method bacnet_classes (Bacnet ''Server'') ''addLocalObject'' =
    Some (Native (PHP_ME ''addLocalObject'' arginfo_bacnet_server_add_local_object [ZEND_ACC_PUBLIC] zim_Bacnet_Server_addLocalObject))"
  "find_method bacnet_classes (Bacnet ''Server'') ''removeLocalObject'' =
    Some (Native (PHP_ME ''removeLocalObject'' arginfo_bacnet_server_remove_local_object [ZEND_ACC_PUBLIC] zim_Bacnet_Server_removeLocalObject))"
  by (simp_all add: registered_classes find_method_register method_table_defs)

lemma argument_params:
  assumes "(c, n, i, s) \<in> set argument_casts" "find_method bacnet_classes (Bacnet c) n = Some (Native m)" "me_zpp m = Some z"
  shows "i < z_min z \<and> length (z_params z) = z_max z \<and>
    (\<exists>d. param_class (z_params z ! i) = Some d \<and> class_struct bacnet_classes d s)"
  using assms by (auto simp: argument_casts_def argument_rows parse_defs struct_classes)

text \<open>C26.
  Where a method reads the struct of an object it was given, that object has this struct: the
  class that parsing demands is allocated with it, and so is every class of the program that
  extends it.\<close>

lemma arguments_have_struct:
  assumes "program bacnet_classes T" "(c, n, i, s) \<in> set argument_casts"
    "find_method bacnet_classes (Bacnet c) n = Some (Native m)" "me_zpp m = Some z" "zpp_parse T z vs = Some ws"
  shows "\<exists>d h. ws ! i = A_object d h \<and> object_store T d = s"
proof -
  obtain d where z: "i < z_min z" "length (z_params z) = z_max z" "param_class (z_params z ! i) = Some d" "class_struct bacnet_classes d s"
    using argument_params [OF assms(2-4)] by blast
  have "i < length vs" using assms(5) z(1) by (auto simp: zpp_parse_def split: if_splits)
  from zpp_parse_nth [OF assms(5) this z(2)] object_param z(3)
  obtain c' h where "ws ! i = A_object c' h" "instanceof T c' d" by blast
  then show ?thesis using class_struct_in_program [OF assms(1) z(4)] by blast
qed

lemma arguments_have_struct_witness:
  "\<exists>d h. [A_object (Bacnet ''ObjectIdentifier'') 5] ! 0 = A_object d h \<and> object_store demo_program d = Object_identifier_obj"
proof -
  have keep: "instanceof demo_program (Bacnet ''ObjectIdentifier'') (Bacnet ''ObjectIdentifier'')"
    by (simp add: demo_program_def instanceof_declare) (simp add: instanceof_h bacnet_hierarchy)
  have "zpp_parse demo_program (fst zim_Bacnet_Server_addLocalObject) [A_object (Bacnet ''ObjectIdentifier'') 5] =
      Some [A_object (Bacnet ''ObjectIdentifier'') 5]"
    by (simp add: zpp_parse_def zim_Bacnet_Server_addLocalObject_def keep)
  from arguments_have_struct [OF demo_program_ok _ argument_rows(8) _ this, of 0 Object_identifier_obj]
  show ?thesis by (simp add: argument_casts_def)
qed

text \<open>The same for values that are converted to application data, behind a test of the class.\<close>

lemma appdata_have_struct:
  assumes "program bacnet_classes T" "(d, s) \<in> set appdata_casts" "instanceof T c d"
  shows "object_store T c = s"
  using class_struct_in_program [OF assms(1) _ assms(3), of s] assms(2) struct_classes
  by (auto simp: appdata_casts_def)

end
