(* ===== verification/Class_Parse.thy ===== *)
theory Class_Parse
  imports Class_Props
begin

text \<open>
  Declared signatures against the bodies: what the argument information of a method promises is
  what its parsing accepts, and a default that is declared is the value the body starts with.
\<close>

subsection \<open>One parameter\<close>

fun agrees_param :: "zparam \<Rightarrow> arg_info \<Rightarrow> bool" where
  "agrees_param Z_ZVAL ai \<longleftrightarrow> ai_type ai = IS_MIXED"
| "agrees_param Z_BOOL ai \<longleftrightarrow> ai_type ai = IS_BOOL \<and> \<not> ai_null ai"
| "agrees_param Z_LONG ai \<longleftrightarrow> ai_type ai = IS_LONG \<and> \<not> ai_null ai"
| "agrees_param Z_LONG_OR_NULL ai \<longleftrightarrow> ai_type ai = IS_LONG \<and> ai_null ai"
| "agrees_param Z_DOUBLE ai \<longleftrightarrow> ai_type ai = IS_DOUBLE \<and> \<not> ai_null ai"
| "agrees_param Z_DOUBLE_OR_NULL ai \<longleftrightarrow> ai_type ai = IS_DOUBLE \<and> ai_null ai"
| "agrees_param Z_STR ai \<longleftrightarrow> ai_type ai = IS_STRING \<and> \<not> ai_null ai"
| "agrees_param Z_STR_OR_NULL ai \<longleftrightarrow> ai_type ai = IS_STRING \<and> ai_null ai"
| "agrees_param Z_ARRAY ai \<longleftrightarrow> ai_type ai = IS_ARRAY \<and> \<not> ai_null ai"
| "agrees_param Z_ARRAY_HT ai \<longleftrightarrow> ai_type ai = IS_ARRAY \<and> \<not> ai_null ai"
| "agrees_param (Z_OBJECT_OF_CLASS d) ai \<longleftrightarrow> ai_type ai = OBJ d \<and> \<not> ai_null ai"

lemma agrees_param_accepts:
  "agrees_param p ai \<Longrightarrow> z_param T p v \<noteq> None \<longleftrightarrow> arg_accepts T callable ai v"
  by (cases p; cases v) (auto simp: arg_accepts_def)

lemma any_param_accepts: "z_param T Z_ZVAL v \<noteq> None"
  by simp

subsection \<open>Whole signatures\<close>

definition agrees :: "(zparam \<Rightarrow> arg_info \<Rightarrow> bool) \<Rightarrow> zpp \<Rightarrow> arginfo \<Rightarrow> bool" where
  "agrees R z ai \<longleftrightarrow> z_min z = i_required ai \<and> z_min z \<le> z_max z \<and> length (z_params z) = z_max z \<and>
    length (z_initial z) = z_max z - z_min z \<and> list_all2 R (z_params z) (i_args ai)"

lemma zpp_parse_fails:
  assumes "length (z_params z) = z_max z"
  shows "zpp_parse T z vs = None \<longleftrightarrow>
    \<not> (z_min z \<le> length vs \<and> length vs \<le> z_max z \<and> (\<forall>i < length vs. z_param T (z_params z ! i) (vs ! i) \<noteq> None))"
proof -
  let ?xs = "map2 (z_param T) (take (length vs) (z_params z)) vs"
  have "None \<in> set ?xs \<longleftrightarrow> (\<exists>i < length vs. z_param T (z_params z ! i) (vs ! i) = None)" if "length vs \<le> z_max z"
    using that assms by (fastforce simp: in_set_conv_nth simp del: set_map)
  then show ?thesis by (auto simp: zpp_parse_def those_None)
qed

lemma arginfo_accepts_nth:
  "arginfo_accepts T callable ai vs \<longleftrightarrow> i_required ai \<le> length vs \<and> length vs \<le> length (i_args ai) \<and>
    (\<forall>i < length vs. arg_accepts T callable (i_args ai ! i) (vs ! i))"
  by (auto simp: arginfo_accepts_def list_all2_conv_all_nth)

lemma agrees_accepts:
  assumes "agrees agrees_param z ai"
  shows "zpp_parse T z vs \<noteq> None \<longleftrightarrow> arginfo_accepts T callable ai vs"
proof -
  have len: "length (i_args ai) = z_max z" "length (z_params z) = z_max z"
    using assms by (auto simp: agrees_def dest: list_all2_lengthD)
  moreover have "z_param T (z_params z ! i) v \<noteq> None \<longleftrightarrow> arg_accepts T callable (i_args ai ! i) v" if "i < z_max z" for i v
    using assms that by (intro agrees_param_accepts) (auto simp: agrees_def list_all2_conv_all_nth)
  ultimately show ?thesis
    using assms unfolding zpp_parse_fails [OF \<open>length (z_params z) = z_max z\<close>] arginfo_accepts_nth agrees_def by fastforce
qed

lemma covers_accepts:
  assumes "agrees (\<lambda>p ai. p = Z_ZVAL) z ai" "arginfo_accepts T callable ai vs"
  shows "zpp_parse T z vs \<noteq> None"
proof -
  have len: "length (i_args ai) = z_max z" "length (z_params z) = z_max z"
    using assms(1) by (auto simp: agrees_def dest: list_all2_lengthD)
  moreover have "z_params z ! i = Z_ZVAL" if "i < z_max z" for i
    using assms(1) that by (auto simp: agrees_def list_all2_conv_all_nth)
  ultimately show ?thesis
    using assms by (auto simp: zpp_parse_fails arginfo_accepts_nth agrees_def)
qed

subsection \<open>The registered methods\<close>

text \<open>The methods that take a callable parse any value and test it themselves.\<close>

definition callable_methods :: "string list" where
  "callable_methods = [''onCovNotification'', ''onReadProperty'', ''onWriteProperty'']"

definition signature_ok :: "method_entry \<Rightarrow> bool" where
  "signature_ok m \<longleftrightarrow>
    (case me_zpp m of
       None \<Rightarrow> ZEND_ACC_ABSTRACT \<in> set (me_flags m)
     | Some z \<Rightarrow>
         if me_name m \<in> set callable_methods then agrees (\<lambda>p ai. p = Z_ZVAL) z (me_arginfo m)
         else agrees agrees_param z (me_arginfo m))"

lemma signatures_ok:
  "list_all signature_ok bacnet_value_methods"
  "list_all signature_ok bacnet_client_methods"
  "list_all signature_ok bacnet_cache_backend_methods"
  "list_all signature_ok bacnet_mixed_methods"
  "list_all signature_ok bacnet_device_methods"
  "list_all signature_ok bacnet_oid_methods"
  "list_all signature_ok bacnet_bitstring_methods"
  "list_all signature_ok bacnet_date_methods"
  "list_all signature_ok bacnet_time_methods"
  "list_all signature_ok bacnet_objectref_methods"
  "list_all signature_ok bacnet_schedule_entry_methods"
  "list_all signature_ok bacnet_weekly_schedule_methods"
  "list_all signature_ok bacnet_trend_log_record_methods"
  "list_all signature_ok bacnet_server_methods"
  by code_simp+

lemma found_name: "find_method T c n = Some m \<Longrightarrow> method_name m = n"
  by (induction T arbitrary: c) (auto split: if_splits option.splits simp: find_Some_iff)

lemma in_some_table:
  "m \<in> set (methods_of bacnet_classes c) \<Longrightarrow>
    m \<in> set (bacnet_value_methods @ bacnet_client_methods @ bacnet_cache_backend_methods @ bacnet_mixed_methods @
      bacnet_device_methods @ bacnet_oid_methods @ bacnet_bitstring_methods @ bacnet_date_methods @ bacnet_time_methods @
      bacnet_objectref_methods @ bacnet_schedule_entry_methods @ bacnet_weekly_schedule_methods @
      bacnet_trend_log_record_methods @ bacnet_server_methods)"
  by (auto simp: registered_classes methods_of_register split: if_splits)

lemma registered_signature_ok:
  assumes "find_method bacnet_classes c n = Some (Native m)"
  shows "signature_ok m \<and> me_name m = n"
  using in_some_table [OF find_in_methods_of [OF assms]] signatures_ok found_name [OF assms]
  by (auto simp: list_all_iff)

text \<open>C17.
  What a registered method declares is what it takes.  For every method the call that its
  argument information admits is parsed; and except for the three that take a callable, which
  parse any value and test it themselves, nothing else is parsed.  It holds in every program,
  whatever classes it adds.\<close>

lemma parsed_as_declared:
  assumes "find_method bacnet_classes c n = Some (Native m)" "me_zpp m = Some z"
  shows "(arginfo_accepts T callable (me_arginfo m) vs \<longrightarrow> zpp_parse T z vs \<noteq> None) \<and>
    (n \<notin> set callable_methods \<longrightarrow> zpp_parse T z vs \<noteq> None \<longrightarrow> arginfo_accepts T callable (me_arginfo m) vs)"
  using registered_signature_ok [OF assms(1)] assms(2) agrees_accepts covers_accepts
  by (auto simp: signature_ok_def split: if_splits)

lemma parsed_as_declared_witness:
  "zpp_parse bacnet_classes (fst zim_Bacnet_Device_writeProperty)
     [A_object (Bacnet ''ObjectType'') 11, A_long 7, A_object (Bacnet ''Property'') 2, A_object (Bacnet ''Value'') 3] \<noteq> None \<and>
   \<not> arginfo_accepts bacnet_classes (\<lambda>v. True) arginfo_bacnet_device_write_property
     [A_object (Bacnet ''ObjectType'') 11, A_long 7, A_object (Bacnet ''Property'') 2, A_long 3]"
proof -
  have row: "find_method bacnet_classes (Bacnet ''Device'') ''writeProperty'' =
    Some (Native (PHP_ME ''writeProperty'' arginfo_bacnet_device_write_property [ZEND_ACC_PUBLIC] zim_Bacnet_Device_writeProperty))"
    by (rule argument_rows)
  note p = parsed_as_declared [OF row, of "fst zim_Bacnet_Device_writeProperty" bacnet_classes "\<lambda>v. True", simplified]
  have inst: "instanceof bacnet_classes c c" if "c \<in> {Bacnet ''ObjectType'', Bacnet ''Property'', Bacnet ''Value''}" for c
    using that by (auto simp: instanceof_h bacnet_hierarchy)
  have "arginfo_accepts bacnet_classes (\<lambda>v. True) arginfo_bacnet_device_write_property
     [A_object (Bacnet ''ObjectType'') 11, A_long 7, A_object (Bacnet ''Property'') 2, A_object (Bacnet ''Value'') 3]"
    by (simp add: arginfo_accepts_def arginfo_bacnet_device_write_property_def arg_accepts_def inst)
  moreover have "zpp_parse bacnet_classes (fst zim_Bacnet_Device_writeProperty)
     [A_object (Bacnet ''ObjectType'') 11, A_long 7, A_object (Bacnet ''Property'') 2, A_long 3] = None"
    by (simp add: zpp_parse_def zim_Bacnet_Device_writeProperty_def inst)
  ultimately show ?thesis using p by (metis not_None_eq)
qed

subsection \<open>Defaults\<close>

lemma eval_default_no_object: "eval_default s = Some v \<Longrightarrow> v \<noteq> A_object c h"
  by (auto simp: eval_default_def split: if_splits option.splits)

lemma z_param_no_object: "(\<And>c h. v \<noteq> A_object c h) \<Longrightarrow> z_param T p v = z_param U p v"
  by (cases p; cases v) auto

definition default_ok :: "arg_info \<Rightarrow> zparam \<Rightarrow> arg \<Rightarrow> bool" where
  "default_ok ai p w \<longleftrightarrow>
    p = Z_STR \<or> (case ai_default ai of None \<Rightarrow> False | Some s \<Rightarrow>
      case eval_default s of Some v \<Rightarrow> z_param [] p v = Some w | None \<Rightarrow> False)"

definition defaults_ok :: "method_entry \<Rightarrow> bool" where
  "defaults_ok m \<longleftrightarrow>
    (case me_zpp m of None \<Rightarrow> True
     | Some z \<Rightarrow> list_all (\<lambda>(ai, p, w). default_ok ai p w)
         (zip (drop (z_min z) (i_args (me_arginfo m))) (zip (drop (z_min z) (z_params z)) (z_initial z))))"

lemma all_defaults_ok:
  "list_all defaults_ok bacnet_value_methods"
  "list_all defaults_ok bacnet_client_methods"
  "list_all defaults_ok bacnet_cache_backend_methods"
  "list_all defaults_ok bacnet_mixed_methods"
  "list_all defaults_ok bacnet_device_methods"
  "list_all defaults_ok bacnet_oid_methods"
  "list_all defaults_ok bacnet_bitstring_methods"
  "list_all defaults_ok bacnet_date_methods"
  "list_all defaults_ok bacnet_time_methods"
  "list_all defaults_ok bacnet_objectref_methods"
  "list_all defaults_ok bacnet_schedule_entry_methods"
  "list_all defaults_ok bacnet_weekly_schedule_methods"
  "list_all defaults_ok bacnet_trend_log_record_methods"
  "list_all defaults_ok bacnet_server_methods"
  by code_simp+

lemma registered_default_ok:
  assumes "find_method bacnet_classes c n = Some (Native m)" "me_zpp m = Some z" "z_min z \<le> j" "j < z_max z"
  shows "default_ok (i_args (me_arginfo m) ! j) (z_params z ! j) (z_initial z ! (j - z_min z))"
proof -
  have "\<exists>R. agrees R z (me_arginfo m)"
    using registered_signature_ok [OF assms(1)] assms(2) by (auto simp: signature_ok_def split: if_splits)
  then have len: "length (i_args (me_arginfo m)) = z_max z" "length (z_params z) = z_max z" "length (z_initial z) = z_max z - z_min z"
    by (auto simp: agrees_def dest: list_all2_lengthD)
  have "defaults_ok m"
    using in_some_table [OF find_in_methods_of [OF assms(1)]] all_defaults_ok by (auto simp: list_all_iff)
  then have all: "list_all (\<lambda>(ai, p, w). default_ok ai p w)
      (zip (drop (z_min z) (i_args (me_arginfo m))) (zip (drop (z_min z) (z_params z)) (z_initial z)))"
    using assms(2) by (simp add: defaults_ok_def)
  have "j - z_min z < z_max z - z_min z" using assms(3,4) by simp
  then show ?thesis
    using all len assms(3) by (fastforce simp: list_all_length)
qed

lemma fill_defaults_nth:
  "fill_defaults ais os = Some vs \<Longrightarrow> j < length os \<Longrightarrow> os ! j = None \<Longrightarrow>
    Option.bind (ai_default (ais ! j)) eval_default = Some (vs ! j)"
  by (induction ais os arbitrary: vs j rule: fill_defaults.induct)
    (auto simp: less_Suc_eq_0_disj split: option.splits)

lemma fill_defaults_length: "fill_defaults ais os = Some vs \<Longrightarrow> length vs = length os"
  by (induction ais os arbitrary: vs rule: fill_defaults.induct) (auto split: option.splits)

text \<open>C27.
  Leaving an optional argument out, at the end or in the middle of a call by names, has the same
  effect: the body goes on with the value it would start with, which is the declared default.
  (The one optional plain string, bindInterface of a server, is treated in Process.)\<close>

lemma left_out_argument:
  assumes "find_method bacnet_classes c n = Some (Native m)" "me_zpp m = Some z"
    "fill_defaults (i_args (me_arginfo m)) os = Some vs" "zpp_parse T z vs = Some ws"
    "z_min z \<le> j" "j < z_max z" "length os \<le> j \<or> os ! j = None" "z_params z ! j \<noteq> Z_STR"
  shows "ws ! j = z_initial z ! (j - z_min z)"
proof -
  have "\<exists>R. agrees R z (me_arginfo m)"
    using registered_signature_ok [OF assms(1)] assms(2) by (auto simp: signature_ok_def split: if_splits)
  then have len: "length (z_params z) = z_max z" "length (z_initial z) = z_max z - z_min z" by (auto simp: agrees_def)
  note vs = fill_defaults_length [OF assms(3)]
  show ?thesis
  proof (cases "j < length os")
    case True
    then have none: "os ! j = None" using assms(7) by simp
    from fill_defaults_nth [OF assms(3) True this]
    obtain s where s: "ai_default (i_args (me_arginfo m) ! j) = Some s" "eval_default s = Some (vs ! j)"
      by (auto simp: bind_eq_Some_conv)
    with registered_default_ok [OF assms(1,2,5,6)] assms(8)
    have "z_param [] (z_params z ! j) (vs ! j) = Some (z_initial z ! (j - z_min z))" by (simp add: default_ok_def)
    then have "z_param T (z_params z ! j) (vs ! j) = Some (z_initial z ! (j - z_min z))"
      using z_param_no_object eval_default_no_object [OF s(2)] by metis
    with zpp_parse_nth [OF assms(4) _ len(1), of j] True vs show ?thesis by simp
  next
    case False
    then have "length vs \<le> j" using vs by simp
    moreover obtain ys where "ws = ys @ drop (length vs - z_min z) (z_initial z)" "length ys = length vs" "z_min z \<le> length vs"
      using assms(4) len by (auto simp: zpp_parse_def not_less dest: those_length split: if_splits)
    ultimately show ?thesis using assms(5,6) len(2) by (simp add: nth_append)
  qed
qed

lemma left_out_argument_witness:
  "\<exists>ws. zpp_parse bacnet_classes (fst zim_Bacnet_Device_readProperty)
      [A_object (Bacnet ''ObjectType'') 11, A_long 7, A_object (Bacnet ''Property'') 2, A_null, A_bool True] = Some ws \<and>
    ws ! 3 = A_null"
proof -
  have row: "find_method bacnet_classes (Bacnet ''Device'') ''readProperty'' =
    Some (Native (PHP_ME ''readProperty'' arginfo_bacnet_device_read_property [ZEND_ACC_PUBLIC] zim_Bacnet_Device_readProperty))"
    by (simp add: registered_classes find_method_register method_table_defs)
  let ?os = "[Some (A_object (Bacnet ''ObjectType'') 11), Some (A_long 7), Some (A_object (Bacnet ''Property'') 2), None, Some (A_bool True)]"
  let ?vs = "[A_object (Bacnet ''ObjectType'') 11, A_long 7, A_object (Bacnet ''Property'') 2, A_null, A_bool True]"
  have inst: "instanceof bacnet_classes c c" if "c \<in> {Bacnet ''ObjectType'', Bacnet ''Property''}" for c
    using that by (auto simp: instanceof_h bacnet_hierarchy)
  have fill: "fill_defaults (i_args arginfo_bacnet_device_read_property) ?os = Some ?vs"
    by (simp add: arginfo_bacnet_device_read_property_def eval_default_def)
  have parse: "zpp_parse bacnet_classes (fst zim_Bacnet_Device_readProperty) ?vs = Some ?vs"
    by (simp add: zpp_parse_def zim_Bacnet_Device_readProperty_def inst)
  have "?vs ! 3 = z_initial (fst zim_Bacnet_Device_readProperty) ! (3 - z_min (fst zim_Bacnet_Device_readProperty))"
    by (rule left_out_argument [OF row _ _ parse, of ?os])
      (simp_all add: fill zim_Bacnet_Device_readProperty_def)
  then show ?thesis using parse by (simp add: zim_Bacnet_Device_readProperty_def)
qed

end
