(* ===== verification/Objects.thy ===== *)
theory Objects
  imports Class_Table Server
begin

text \<open>
  The structs of new objects, as the create_object functions of src/bacnet_classes.c write them,
  the small methods that read or set one field, and the process: which object holds the one
  transport a PHP process may have (php_bacnet_client_create and php_bacnet_client_destroy of
  src/bacnet_client.c, the constructors and free handlers of Client and Server).
\<close>

subsection \<open>New objects\<close>

text \<open>What a class declares as default of its properties.\<close>

definition default_longs :: "class_name \<Rightarrow> int list" where
  "default_longs c =
    (case find_class bacnet_classes c of
       None \<Rightarrow> []
     | Some e \<Rightarrow> concat (map (\<lambda>(n, v). case v of A_long i \<Rightarrow> [i] | _ \<Rightarrow> []) (ce_props e)))"

definition php_bacnet_device_create_object :: "device \<times> owner" where
  "php_bacnet_device_create_object =
    (\<lparr>dv_device_id = 0, dv_max_apdu = 0, dv_vendor_id = 0,
      dv_address = \<lparr>mac = [], net = 0\<rparr>\<rparr>, NoObject)"

text \<open>max_type is MAX_BACNET_OBJECT_TYPE of bacnet-stack.\<close>

definition php_bacnet_oid_create_object :: "u32 \<Rightarrow> php_oid" where
  "php_bacnet_oid_create_object max_type = \<lparr>oid_type = max_type, oid_instance = 0, oid_case = None\<rparr>"

definition php_bacnet_bitstring_create_object :: bitstring where
  "php_bacnet_bitstring_create_object = \<lparr>bits_used = 0, bit_bytes = replicate PHP_BACNET_BITSTRING_MAX_BYTES 0\<rparr>"

definition php_bacnet_date_create_object :: php_date where
  "php_bacnet_date_create_object =
    \<lparr>date_c = \<lparr>d_year = 0, d_month = 0, d_day = 0, d_wday = 0\<rparr>, date_props = default_longs (Bacnet ''Date'')\<rparr>"

definition php_bacnet_time_create_object :: php_time where
  "php_bacnet_time_create_object =
    \<lparr>time_c = \<lparr>t_hour = 0, t_min = 0, t_sec = 0, t_hundredths = 0\<rparr>, time_props = default_longs (Bacnet ''Time'')\<rparr>"

definition php_bacnet_objectref_create_object :: "u32 \<Rightarrow> objectref \<times> owner" where
  "php_bacnet_objectref_create_object max_type = (\<lparr>or_type = max_type, or_instance = 0\<rparr>, NoObject)"

text \<open>The struct is cleared: tag 0 is BACNET_APPLICATION_TAG_NULL.\<close>

definition php_bacnet_value_create_object :: appdata where
  "php_bacnet_value_create_object = AppNull"

definition php_bacnet_client_create_object :: "(string \<times> u16) option" where
  "php_bacnet_client_create_object = None"

subsection \<open>Reading fields\<close>

definition Device_getDeviceId :: "device \<Rightarrow> int" where
  "Device_getDeviceId d = uint (dv_device_id d)"

definition Device_getMaxApdu :: "device \<Rightarrow> int" where
  "Device_getMaxApdu d = uint (dv_max_apdu d)"

definition Device_getVendorId :: "device \<Rightarrow> int" where
  "Device_getVendorId d = uint (dv_vendor_id d)"

definition ObjectIdentifier_getType :: "php_oid \<Rightarrow> zval" where
  "ObjectIdentifier_getType oid = (case oid_case oid of None \<Rightarrow> ZNull | Some n \<Rightarrow> ZEnum n (uint (oid_type oid)))"

definition ObjectIdentifier_getInstance :: "php_oid \<Rightarrow> int" where
  "ObjectIdentifier_getInstance oid = uint (oid_instance oid)"

text \<open>A ScheduleEntry is its two declared properties, which start as null.\<close>

record schedule_entry =
  se_start_time :: zval
  se_value :: zval

definition ScheduleEntry_new :: schedule_entry where
  "ScheduleEntry_new = \<lparr>se_start_time = ZNull, se_value = ZNull\<rparr>"

definition ScheduleEntry_construct :: "php_time \<Rightarrow> zval \<Rightarrow> schedule_entry \<Rightarrow> schedule_entry" where
  "ScheduleEntry_construct t v e = e\<lparr>se_start_time := ZTime t, se_value := v\<rparr>"

definition ScheduleEntry_getStartTime :: "schedule_entry \<Rightarrow> zval" where
  "ScheduleEntry_getStartTime e = se_start_time e"

definition ScheduleEntry_getValue :: "schedule_entry \<Rightarrow> zval" where
  "ScheduleEntry_getValue e = se_value e"

definition TrendLogRecord_construct :: "zval \<Rightarrow> zval \<Rightarrow> int \<Rightarrow> (string \<times> zval) list" where
  "TrendLogRecord_construct ts v status_flags = [(''timestamp'', ts), (''value'', v), (''statusFlags'', ZLong status_flags)]"

text \<open>What the records of a trend log look like is what its constructor makes of the value.\<close>

lemma trend_log_record_construct: "trend_log_record v = TrendLogRecord_construct ZNull v 0"
  by (simp add: trend_log_record_def TrendLogRecord_construct_def)

text \<open>An ObjectIdentifier answers with what it was constructed from; before that with no type.\<close>

lemma ObjectIdentifier_reads_back:
  assumes "ObjectIdentifier_construct name backing i = Some oid"
  shows "ObjectIdentifier_getType oid = ZEnum name (uint backing) \<and> ObjectIdentifier_getInstance oid = i"
proof -
  have "0 \<le> i" "i < 2 ^ 32"
    using assms by (auto simp: ObjectIdentifier_construct_def BACNET_MAX_INSTANCE_def split: if_splits)
  then show ?thesis
    using assms by (auto simp: ObjectIdentifier_construct_def ObjectIdentifier_getType_def ObjectIdentifier_getInstance_def
        uint_word_of_int split: if_splits)
qed

lemma new_ObjectIdentifier_untyped: "ObjectIdentifier_getType (php_bacnet_oid_create_object max_type) = ZNull"
  by (simp add: ObjectIdentifier_getType_def php_bacnet_oid_create_object_def)

lemma ScheduleEntry_reads_back:
  "ScheduleEntry_getStartTime (ScheduleEntry_construct t v e) = ZTime t"
  "ScheduleEntry_getValue (ScheduleEntry_construct t v e) = v"
  by (simp_all add: ScheduleEntry_getStartTime_def ScheduleEntry_getValue_def ScheduleEntry_construct_def)

subsection \<open>The process\<close>

datatype 'p proc_object = Client_object "(string \<times> u16) option" | Server_object "'p server"

text \<open>The globals, whether the socket of bacnet-stack is open, and the objects by handle.\<close>

record 'p process =
  ps_globals :: bacnet_globals
  ps_bip_open :: bool
  ps_objects :: "nat \<rightharpoonup> 'p proc_object"

fun holds_transport :: "'p proc_object \<Rightarrow> bool" where
  "holds_transport (Client_object c) = (c \<noteq> None)"
| "holds_transport (Server_object srv) = v_initialized srv"

text \<open>Whether the socket is open after a client was destroyed; created clients are initialized.\<close>

definition php_bacnet_client_destroy :: "bool \<Rightarrow> bool \<Rightarrow> bool" where
  "php_bacnet_client_destroy has_client bip_open = (if has_client then False else bip_open)"

text \<open>new Client(...), new Server(...) or a subclass: an object, then its constructor.\<close>

definition client_constructor ::
    "(string option \<Rightarrow> u16 \<Rightarrow> bool) \<Rightarrow> string option \<Rightarrow> int option \<Rightarrow> nat \<Rightarrow> 'p process \<Rightarrow> bool \<times> 'p process" where
  "client_constructor bip_init iface port h P =
    (case Client_construct bip_init iface port (ps_globals P) of
       (Inl err, g) \<Rightarrow> (False, P\<lparr>ps_globals := g\<rparr>)
     | (Inr c, g) \<Rightarrow> (True, P\<lparr>ps_globals := g, ps_bip_open := True, ps_objects := (ps_objects P)(h \<mapsto> Client_object (Some c))\<rparr>))"

definition server_constructor ::
    "(string option \<Rightarrow> u16 \<Rightarrow> bool) \<Rightarrow> int \<Rightarrow> string option \<Rightarrow> int option \<Rightarrow> nat \<Rightarrow> 'p server \<Rightarrow> 'p process \<Rightarrow> bool \<times> 'p process" where
  "server_constructor bip_init device_id iface port h srv P =
    (case Server_construct bip_init device_id iface port (ps_globals P) srv of
       (Inl err, g, srv) \<Rightarrow> (False, P\<lparr>ps_globals := g, ps_objects := (ps_objects P)(h \<mapsto> Server_object srv)\<rparr>)
     | (Inr _, g, srv) \<Rightarrow>
         (True, P\<lparr>ps_globals := g, ps_bip_open := True, ps_objects := (ps_objects P)(h \<mapsto> Server_object srv)\<rparr>))"

definition free_object :: "nat \<Rightarrow> 'p process \<Rightarrow> 'p process" where
  "free_object h P =
    (case ps_objects P h of
       None \<Rightarrow> P
     | Some ob \<Rightarrow>
         (let g = (case ob of
              Client_object c \<Rightarrow> php_bacnet_client_free_object (c \<noteq> None) (ps_globals P)
            | Server_object srv \<Rightarrow> snd (php_bacnet_server_free_object srv (ps_globals P)))
          in P\<lparr>ps_globals := g, ps_bip_open := php_bacnet_client_destroy (holds_transport ob) (ps_bip_open P),
               ps_objects := (ps_objects P)(h := None)\<rparr>))"

text \<open>
  The life of a process.  An object may be constructed again, and a server object may change by
  its methods, which keep its transport.  A request starts when the objects of the one before
  are gone.
\<close>

inductive process_step :: "'p process \<Rightarrow> 'p process \<Rightarrow> bool" where
  new_client: "ps_objects P h = None \<Longrightarrow>
    process_step P (P\<lparr>ps_objects := (ps_objects P)(h \<mapsto> Client_object php_bacnet_client_create_object)\<rparr>)"
| new_server: "ps_objects P h = None \<Longrightarrow>
    process_step P (P\<lparr>ps_objects := (ps_objects P)(h \<mapsto> Server_object (php_bacnet_server_create_object user garbage clock))\<rparr>)"
| construct_client: "ps_objects P h = Some (Client_object c) \<Longrightarrow> client_constructor bip_init iface port h P = (ok, P') \<Longrightarrow>
    process_step P P'"
| construct_server: "ps_objects P h = Some (Server_object srv) \<Longrightarrow>
    server_constructor bip_init device_id iface port h srv P = (ok, P') \<Longrightarrow> process_step P P'"
| server_call: "ps_objects P h = Some (Server_object srv) \<Longrightarrow> v_initialized srv' = v_initialized srv \<Longrightarrow>
    process_step P (P\<lparr>ps_objects := (ps_objects P)(h \<mapsto> Server_object srv')\<rparr>)"
| free: "process_step P (free_object h P)"
| request: "ps_objects P = Map.empty \<Longrightarrow> process_step P (P\<lparr>ps_globals := PHP_RINIT_bacnet (ps_globals P)\<rparr>)"

inductive process_reachable :: "bacnet_globals \<Rightarrow> 'p process \<Rightarrow> bool" for g where
  start: "process_reachable g \<lparr>ps_globals = PHP_RINIT_bacnet g, ps_bip_open = False, ps_objects = Map.empty\<rparr>"
| step: "process_reachable g P \<Longrightarrow> process_step P P' \<Longrightarrow> process_reachable g P'"

end
