(* ===== verification/Process.thy ===== *)
theory Process
  imports Objects
begin

text \<open>
  One transport per process: the flag client_initialized, the open socket and the object that
  holds the transport go together in every state a PHP process can come to.
\<close>

definition holders :: "'p process \<Rightarrow> nat set" where
  "holders P = {h. \<exists>ob. ps_objects P h = Some ob \<and> holds_transport ob}"

definition transport_inv :: "'p process \<Rightarrow> bool" where
  "transport_inv P \<longleftrightarrow> ps_bip_open P = g_client_initialized (ps_globals P) \<and>
    (if g_client_initialized (ps_globals P) then \<exists>h. holders P = {h} else holders P = {})"

lemma holders_upd:
  "holders (P\<lparr>ps_objects := (ps_objects P)(h \<mapsto> ob)\<rparr>) = (if holds_transport ob then insert h (holders P) else holders P - {h})"
  by (auto simp: holders_def)

lemma holders_none: "holders (P\<lparr>ps_objects := (ps_objects P)(h := None)\<rparr>) = holders P - {h}"
  by (auto simp: holders_def)

lemma holders_other [simp]:
  "holders (P\<lparr>ps_globals := g\<rparr>) = holders P"
  "holders (P\<lparr>ps_bip_open := b\<rparr>) = holders P"
  by (simp_all add: holders_def)

text \<open>The constructors.\<close>

lemma Client_construct_cases:
  assumes "Client_construct bip_init iface port g = (r, g')"
  shows "(\<exists>err. r = Inl err \<and> g' = g) \<or> (\<exists>c. r = Inr c \<and> \<not> g_client_initialized g \<and> g' = g\<lparr>g_client_initialized := True\<rparr>)"
  using assms by (auto simp: Client_construct_def Let_def split: if_splits sum.splits)

lemma Server_construct_cases:
  assumes "Server_construct bip_init device_id iface port g srv = (r, g', srv')"
  shows "(\<exists>err. r = Inl err \<and> g' = g \<and> v_initialized srv' = v_initialized srv) \<or>
    (r = Inr () \<and> \<not> g_client_initialized g \<and> g' = g\<lparr>g_client_initialized := True\<rparr> \<and> v_initialized srv')"
  using assms by (auto simp: Server_construct_def Let_def split: if_splits sum.splits)

lemma client_constructor_inv:
  assumes "transport_inv P" "ps_objects P h = Some (Client_object c)" "client_constructor bip_init iface port h P = (ok, P')"
  shows "transport_inv P'"
proof -
  obtain r g where c: "Client_construct bip_init iface port (ps_globals P) = (r, g)" by fastforce
  from Client_construct_cases [OF c] show ?thesis
  proof
    assume "\<exists>x. r = Inr x \<and> \<not> g_client_initialized (ps_globals P) \<and> g = (ps_globals P)\<lparr>g_client_initialized := True\<rparr>"
    then obtain x where x: "r = Inr x" "\<not> g_client_initialized (ps_globals P)" "g = (ps_globals P)\<lparr>g_client_initialized := True\<rparr>"
      by blast
    with assms(1) have "holders P = {}" by (simp add: transport_inv_def)
    then have "holders P' = {h}"
      using assms(3) c x by (auto simp: client_constructor_def holders_def split: if_splits)
    then show ?thesis using assms(3) c x by (auto simp: client_constructor_def transport_inv_def)
  qed (use assms c in \<open>auto simp: client_constructor_def\<close>)
qed

lemma server_constructor_inv:
  assumes "transport_inv P" "ps_objects P h = Some (Server_object srv)"
    "server_constructor bip_init device_id iface port h srv P = (ok, P')"
  shows "transport_inv P'"
proof -
  obtain r g srv' where c: "Server_construct bip_init device_id iface port (ps_globals P) srv = (r, g, srv')"
    using prod_cases3 by blast
  from Server_construct_cases [OF c] consider
      (fails) err where "r = Inl err" "g = ps_globals P" "v_initialized srv' = v_initialized srv"
    | (works) "r = Inr ()" "\<not> g_client_initialized (ps_globals P)" "g = (ps_globals P)\<lparr>g_client_initialized := True\<rparr>" "v_initialized srv'"
    by blast
  then show ?thesis
  proof cases
    case fails
    then have "P' = P\<lparr>ps_objects := (ps_objects P)(h \<mapsto> Server_object srv')\<rparr>"
      using assms(3) c by (auto simp: server_constructor_def)
    moreover from this fails assms(2) have "holders P' = holders P" by (auto simp: holders_def)
    ultimately show ?thesis using assms(1) by (simp add: transport_inv_def)
  next
    case works
    with assms(1) have "holders P = {}" by (simp add: transport_inv_def)
    then have "holders P' = {h}"
      using assms(3) c works by (auto simp: server_constructor_def holders_def split: if_splits)
    then show ?thesis using assms(3) c works by (auto simp: server_constructor_def transport_inv_def)
  qed
qed

lemma free_object_inv:
  assumes "transport_inv P" shows "transport_inv (free_object h P)"
proof (cases "ps_objects P h")
  case (Some ob)
  have "holders (free_object h P) = holders P - {h}"
    using Some by (auto simp: free_object_def holders_def)
  moreover have "h \<in> holders P \<longleftrightarrow> holds_transport ob" using Some by (simp add: holders_def)
  ultimately show ?thesis
    using assms Some
    by (cases ob) (auto simp: transport_inv_def free_object_def php_bacnet_client_free_object_def
        php_bacnet_server_free_object_def php_bacnet_client_destroy_def split: if_splits)
qed (use assms in \<open>simp add: free_object_def\<close>)

lemma process_step_inv: "process_step P P' \<Longrightarrow> transport_inv P \<Longrightarrow> transport_inv P'"
proof (induction rule: process_step.induct)
  case (new_client P h)
  then have "h \<notin> holders P" by (simp add: holders_def)
  with new_client show ?case
    by (auto simp: transport_inv_def holders_upd php_bacnet_client_create_object_def)
next
  case (new_server P h user garbage clock)
  then have "h \<notin> holders P" by (simp add: holders_def)
  with new_server show ?case
    by (auto simp: transport_inv_def holders_upd php_bacnet_server_create_object_def)
next
  case (server_call P h srv srv')
  then have "holders (P\<lparr>ps_objects := (ps_objects P)(h \<mapsto> Server_object srv')\<rparr>) = holders P" by (auto simp: holders_def)
  with server_call show ?case by (simp add: transport_inv_def)
next
  case (request P)
  then have "holders P = {}" by (simp add: holders_def)
  with request show ?case by (auto simp: transport_inv_def PHP_RINIT_bacnet_def split: if_splits)
qed (use client_constructor_inv server_constructor_inv free_object_inv in blast)+

lemma reachable_transport_inv: "process_reachable g P \<Longrightarrow> transport_inv P"
proof (induction rule: process_reachable.induct)
  case start
  then show ?case by (simp add: transport_inv_def PHP_RINIT_bacnet_def holders_def)
qed (rule process_step_inv)

text \<open>C5.
  One transport per process.  In every state a PHP process can come to by creating, constructing
  (also repeatedly), using and freeing clients and servers, over any number of requests, the flag
  client_initialized is set exactly if the socket is open, and then exactly one object holds a
  transport.  A client is constructed exactly if no object holds a transport and bip_init
  succeeds, a server only then: the process-global socket is never opened twice, and it can be
  opened again as soon as its holder is gone.\<close>

lemma one_transport:
  assumes "process_reachable g P"
  shows "card (holders P) = (if ps_bip_open P then 1 else 0) \<and> g_client_initialized (ps_globals P) = ps_bip_open P \<and>
    (fst (client_constructor (\<lambda>i p. opens) iface port h P) \<longleftrightarrow> holders P = {} \<and> opens) \<and>
    (fst (server_constructor (\<lambda>i p. opens) device_id iface port h srv P) \<longrightarrow> holders P = {} \<and> opens)"
proof -
  have inv: "transport_inv P" by (rule reachable_transport_inv [OF assms])
  then have free: "holders P = {} \<longleftrightarrow> \<not> g_client_initialized (ps_globals P)" by (auto simp: transport_inv_def split: if_splits)
  have "fst (client_constructor (\<lambda>i p. opens) iface port h P) \<longleftrightarrow> \<not> g_client_initialized (ps_globals P) \<and> opens"
    by (simp add: client_constructor_def Client_construct_def php_bacnet_client_create_def Let_def)
  moreover have "fst (server_constructor (\<lambda>i p. opens) device_id iface port h srv P) \<longrightarrow> \<not> g_client_initialized (ps_globals P) \<and> opens"
    by (auto simp: server_constructor_def Server_construct_def php_bacnet_client_create_def Let_def split: sum.splits)
  moreover have "card (holders P) = (if ps_bip_open P then 1 else 0)" "g_client_initialized (ps_globals P) = ps_bip_open P"
    using inv by (auto simp: transport_inv_def split: if_splits)
  ultimately show ?thesis using free by blast
qed

text \<open>A client, a server that is refused, the client freed: then a server can be constructed.\<close>

lemma one_transport_witness:
  "\<exists>P :: nat process. process_reachable PHP_MINIT_bacnet P \<and> holders P = {1} \<and> ps_bip_open P \<and>
     \<not> fst (client_constructor (\<lambda>i p. True) None None 2 P)"
proof -
  let ?g = "PHP_RINIT_bacnet PHP_MINIT_bacnet"
  let ?P0 = "\<lparr>ps_globals = ?g, ps_bip_open = False, ps_objects = Map.empty\<rparr> :: nat process"
  let ?P1 = "?P0\<lparr>ps_objects := (ps_objects ?P0)(1 \<mapsto> Client_object php_bacnet_client_create_object)\<rparr>"
  obtain ok P2 where P2: "client_constructor (\<lambda>i p. True) None None 1 ?P1 = (ok, P2)" by fastforce
  have "process_reachable PHP_MINIT_bacnet ?P1"
    using process_reachable.step [OF process_reachable.start new_client [of ?P0 1]] by simp
  moreover have "process_step ?P1 P2" using construct_client [OF _ P2] by simp
  ultimately have r: "process_reachable PHP_MINIT_bacnet P2" by (rule process_reachable.step)
  have h: "holders P2 = {1}" "ps_bip_open P2"
    using P2 by (auto simp: client_constructor_def Client_construct_def php_bacnet_client_create_def holders_def Let_def
        PHP_RINIT_bacnet_def php_bacnet_client_create_object_def split: if_splits)
  with one_transport [OF r, of True None None 2] r show ?thesis by auto
qed

text \<open>An omitted bindInterface of a server is the declared default "0.0.0.0" (all interfaces).\<close>

lemma bind_interface_default:
  "Server_construct bip_init device_id None port g srv = Server_construct bip_init device_id (Some ''0.0.0.0'') port g srv"
proof -
  have "(case Some ''0.0.0.0'' of Some x \<Rightarrow> if x \<noteq> [] \<and> cstr x \<noteq> ''0.0.0.0'' then Some x else None | None \<Rightarrow> None) = None"
    by (simp add: cstr_def)
  then show ?thesis unfolding Server_construct_def by (simp only: option.case)
qed

end
