(* ===== verification/Spec2Isabelle.thy ===== *)
theory Spec2Isabelle
  imports Security_Props Helpers Pending_Queue Transport Cache_L1_Props Cache_Clear Cache_Options Client_Props Server_Props Server_Objects Mixed Server_Reach
    Client_Coherence Cov_Props Class_Parse Process
begin

text \<open>
  A model of php-bacnet, the PHP extension for BACnet/IP, with proofs of what its parts promise.

  The program.  A Bacnet\\Client sends one request at a time and waits for its answer; a
  Bacnet\\Server answers one packet per poll; a Bacnet\\MixedServer is both on one socket.
  Between them stand a transport (src/bacnet_client.c), which waits for the awaited answer and
  hands every other packet to an unsolicited handler, a cache in two levels for what a client
  has read (src/bacnet_cache.c), a protection layer that decides which packets a server looks at
  (src/bacnet_security.c), and the conversions between PHP values and application data
  (src/bacnet_helpers.c).  The classes are in src/bacnet_classes.c, the INI entries in bacnet.c.

  Theories and code.
  - Prelude, Doubles, Php_Values, Protocol: machine integers, C strings and their routines, C
    doubles, PHP values, numbers of the protocol.  An operation on a double rounds its exact
    rational result; infinities and NaN are values of their own.  The conversion to float has
    the range of single precision, with overflow and gradual underflow.
  - Ini: zend_bacnet_globals of php_bacnet.h, the tables of defaults of bacnet.c.
  - Address: php_bacnet_address_from_ipport and _to_ipport of src/bacnet_client.c, and the IPv4
    conversions of src/bacnet_security.c.
  - Security, Security_Config, Security_Acl, Token_Bucket, Security_Sources, Security_Accept,
    Security_Dedup: src/bacnet_security.c, the state php_bacnet_security as the record security.
    Security_Filter, Security_Policy, Security_Reach and Security_Props hold the lemmas and
    properties: the decision on a packet and all it charges and counts, as a policy over the
    entry of its source and the buckets it is due to, the bound on accepted packets, the blocks,
    the ring of recorded writes, the options, well-formedness of every reachable state.
  - Helpers: src/bacnet_helpers.c and the value classes of src/bacnet_classes.c, and exactly
    which PHP values survive the conversion to application data (wire_value).
  - Pending_Queue, Transport: the ring of PDUs and the two waiting loops of src/bacnet_client.c.
    The ring is shown to be a bounded FIFO queue through the locale bounded_fifo, a collection of
    I-Am answers to keep the first answer of each device (first_answers).
  - Cache_L1, Cache_L2, Cache: the slot table in shared memory, the records in LMDB, and the
    cache as a whole; Cache_L1_Props, Cache_Props, Cache_Clear and Cache_Options their
    properties, the last one the transfer of the options of one cache to another.  A lossy cache is a locale of Cache_L1: a lookup gives the last value inserted
    or nothing; the table is shown to be one.
  - Client: the read, write and discovery operations, subscriptions, the methods of Client,
    Device, ObjectRef and WeeklySchedule in src/bacnet_classes.c.  Client_Props: a read after a
    write asks the device, a second read does not, discovery, the values written.
  - Coherence, Client_Coherence: the two cache levels together, and the client with its cache.
    The locale coherent_cache says what a client relies on (a fetch gives only what is held,
    what is held comes from the last store, a forget drops what it covers); both levels are an
    instance.  A session of reads, writes, discoveries and clearings is a step relation with the
    answers of the devices as its history, and a read gives the latest of them.
  - Cov: sending an APDU, notifications, Client::poll, the registration of the handler.
    Cov_Props: the notifications that arrive during a wait, each handled once and acknowledged.
  - Server, Server_Poll: the server object, its configuration, Server::poll with all services.
    Server_Frame, Server_Props, Server_Objects: at most one answer per poll, exactly one to a
    decodable request, limits of ReadPropertyMultiple, repeated writes, the object list as a
    refinement of a plain list.  Server_Demo: the server the witnesses use.
  - Mixed: the client operations of a MixedServer.  The locale packet_sink states what they need
    of an unsolicited handler; the handler of the MixedServer is one, so a call only adds
    packets to the queue, and the polls that follow serve them in order.
  - Server_Reach: a server as a state machine over all its methods.  Its protection layer moves
    only by the steps of Security_Reach (a simulation), so what holds of every reachable state
    of the layer holds inside every reachable server.

  - Class_Engine: the part of the Zend engine that the classes rest on, as data and functions: a
    class table with inheritance and instanceof, object_init_ex, argument information, the
    parameter macros.  A program adds classes to a table (an inductive relation).
    Class_Signatures: the argument information, the parsing and the method tables of
    src/bacnet_classes.c.  Class_Table: the registration of the classes, the handlers and what
    create_object allocates.  Class_Props, Class_Parse: in every program a method reaches only
    the struct its object was allocated with, also through its arguments, and it parses exactly
    the calls that its argument information admits, with the declared defaults.
  - Objects, Process: the structs of new objects, the methods that read one field, and a PHP
    process as a state machine: objects are created, constructed, used and freed, over several
    requests; one transport at most is open, and the flag client_initialized says so.

  State and surroundings.  Operations take the state of their component and return it; a raised
  PHP exception is a value (the sum with bacnet_exn, or v_exn for an exception that a PHP
  handler leaves).  What the code calls but does not contain is a parameter: link_env and
  server_env (the encoders and decoders of bacnet-stack and the data link, as the server uses
  them), net_env (the same for the client, and the unsolicited handler), cache_env (shared
  memory, LMDB, the PHP backend, conversions of doubles that C leaves undefined).  PHP handlers
  are functions on the state of the PHP program.  A clock is a sequence of readings, of which
  every call takes the next.

  Loops.  The waiting loops read the clock and the socket; they run over a list of rounds, each
  with its two clock readings and the packet received, and are None when the list ends before
  the loop does.  exchange_returns shows that a round after the deadline is enough to end it, so
  that a list long enough for the clock to pass the deadline always gives a result.  All other
  loops are total functions, with a measure where the recursion is not structural (the decoding
  loops of application data and ReadPropertyMultiple, which consume at least one byte a round).

  Hypotheses.  The properties of level 2 use lmdb_ok (reads see writes and deletions, a cursor
  visits the keys in byte order), those of both levels coherent_env (writes succeed, too: after a
  failed one the record before stays and comes back), steady (fixed settings, no PHP backend) and
  small_answers (an answer fits a slot of the table), those of the server link_ok (encoded errors and rejects fit
  into MAX_APDU, the network header can be encoded).  All are instantiated in the witnesses.  The
  parameter macros are those of strict_types: no scalar is converted.

  Not modelled.  The info page and the module entry (output and a table for the engine), reference
  counts and the release of memory by the free handlers, the routines of bacnet-stack and LMDB
  (libraries), PHP handlers that call methods of their own server while it polls, the pause
  between the two broadcasts of a discovery (no effect on the state), and memory safety: a buffer
  is a list, so a write before the check of its length is not seen by the model (three places
  are listed as findings in the manifest).
\<close>

end
